(* ===== verification/Prelude.thy ===== *)
theory Prelude
  imports Complex_Main "HOL-Library.Sublist"
begin

section \<open>Shared notions: time, text, exceptions, tables\<close>

text \<open>
  Everything the components share: clock values, the fragment of Python strings the services
  use, Python values as they occur in JSON columns, exceptions as the left half of a sum, and
  database tables as lists of rows. Three collections drive the component proofs:
  \<open>svc\<close> holds the definitions of the service operations, \<open>tbl\<close> the facts on tables and
  \<open>exn\<close> the facts on results.
\<close>

named_theorems svc "definitions of the service operations"
named_theorems tbl "facts on tables"
named_theorems exn "facts on results that may be exceptions"

subsection \<open>Time\<close>

text \<open>
  A timezone-aware \<^verbatim>\<open>datetime\<close> is the number of microseconds since the epoch, a
  \<^verbatim>\<open>timedelta\<close> a number of microseconds. Both are exact in Python too (microsecond
  resolution), so comparisons, sums and differences are those of the integers.
\<close>

type_synonym instant = int
type_synonym duration = int
type_synonym uuid = nat

definition seconds :: "int \<Rightarrow> duration" where
  "seconds n = n * 1000000"

definition minutes :: "int \<Rightarrow> duration" where
  "minutes n = n * 60000000"

definition hours :: "int \<Rightarrow> duration" where
  "hours n = n * 3600000000"

definition days :: "int \<Rightarrow> duration" where
  "days n = n * 86400000000"

lemmas time_defs = seconds_def minutes_def hours_def days_def

text \<open>A value a client supplies may lack a timezone.\<close>

datatype pydatetime = Aware instant | Naive instant

subsection \<open>Text\<close>

text \<open>
  Strings are lists of characters below 256; case and class operations are those of ASCII.
\<close>

definition is_space :: "char \<Rightarrow> bool" where
  "is_space c \<longleftrightarrow> of_char c \<in> {32, 9, 10, 11, 12, 13, 28, 29, 30, 31 :: nat}"

definition is_digit :: "char \<Rightarrow> bool" where
  "is_digit c \<longleftrightarrow> (48 :: nat) \<le> of_char c \<and> of_char c \<le> (57 :: nat)"

definition is_upper :: "char \<Rightarrow> bool" where
  "is_upper c \<longleftrightarrow> (65 :: nat) \<le> of_char c \<and> of_char c \<le> (90 :: nat)"

definition is_lower :: "char \<Rightarrow> bool" where
  "is_lower c \<longleftrightarrow> (97 :: nat) \<le> of_char c \<and> of_char c \<le> (122 :: nat)"

definition is_alpha :: "char \<Rightarrow> bool" where
  "is_alpha c \<longleftrightarrow> is_upper c \<or> is_lower c"

definition lower_char :: "char \<Rightarrow> char" where
  "lower_char c = (if is_upper c then char_of (of_char c + 32 :: nat) else c)"

definition lower :: "string \<Rightarrow> string" where
  "lower s = map lower_char s"

definition strip :: "string \<Rightarrow> string" where
  "strip s = rev (dropWhile is_space (rev (dropWhile is_space s)))"

text \<open>\<^verbatim>\<open>str.isdigit\<close> and \<^verbatim>\<open>str.isalpha\<close> are false on the empty string.\<close>

definition isdigit :: "string \<Rightarrow> bool" where
  "isdigit s \<longleftrightarrow> s \<noteq> [] \<and> list_all is_digit s"

definition isalpha :: "string \<Rightarrow> bool" where
  "isalpha s \<longleftrightarrow> s \<noteq> [] \<and> list_all is_alpha s"

lemma lower_char_not_upper: "\<not> is_upper (lower_char c)"
proof (cases "is_upper c")
  case True
  then have "(97::nat) \<le> of_char c + 32" "of_char c + 32 \<le> (122::nat)"
    by (auto simp: is_upper_def)
  then show ?thesis
    using True by (simp add: lower_char_def is_upper_def of_char_of)
qed (simp add: lower_char_def)

lemma lower_char_idem [simp]: "lower_char (lower_char c) = lower_char c"
  by (subst lower_char_def) (simp add: lower_char_not_upper)

lemma lower_idem [simp]: "lower (lower s) = lower s"
  by (simp add: lower_def)

lemma length_lower [simp]: "length (lower s) = length s"
  by (simp add: lower_def)

subsection \<open>Python values of JSON columns\<close>

datatype pyval =
    PNone
  | PBool bool
  | PInt int
  | PFloat rat
  | PStr string
  | PList "pyval list"
  | PDict "(string \<times> pyval) list"

type_synonym pydict = "(string \<times> pyval) list"

definition dget :: "pydict \<Rightarrow> string \<Rightarrow> pyval option" where
  "dget d k = map_of d k"

subsection \<open>Exceptions\<close>

text \<open>
  The exceptions of \<^verbatim>\<open>application/errors.py\<close>, and the ones of the database layer a
  handler can meet. The Turkish message of an error is replaced by an ASCII tag that names it.
\<close>

datatype exn =
    ValidationFailedError string
  | DomainConflictError string
  | DomainNotFoundError string
  | InvalidCredentialsError
  | AccountLockedError
  | PermissionDeniedError
  | InvalidAccountTokenError
  | InvalidMfaCodeError
  | ReauthenticationFailedError
  | ServiceNotConfiguredError string
  | MultipleResultsFound
  | IntegrityError
  | PyRuntimeError string
  | PyValueError string
  | PyZeroDivisionError
  | StorageError
  | FileSystemError
  | FieldEncryptionError string
  | PermanentFailure string
  | UnauthorizedError string
  | ForbiddenError string
  | UnsafeUrlError string
  | PyTypeError string
  | PyOverflowError string
  | ApiError string
  | InvalidUrlError string

type_synonym 'a result = "exn + 'a"

definition bind :: "'a result \<Rightarrow> ('a \<Rightarrow> 'b result) \<Rightarrow> 'b result" where
  "bind r k = (case r of Inl e \<Rightarrow> Inl e | Inr a \<Rightarrow> k a)"

definition raise_if :: "bool \<Rightarrow> exn \<Rightarrow> unit result" where
  "raise_if c e = (if c then Inl e else Inr ())"

text \<open>Evaluation looks into a continuation only once its argument is known.\<close>

declare bind_def [code_unfold]

lemma bind_Inl [simp, exn]: "bind (Inl e) k = Inl e"
  by (simp add: bind_def)

lemma bind_Inr [simp, exn]: "bind (Inr a) k = k a"
  by (simp add: bind_def)

lemma bind_eq_Inr [exn]: "bind r k = Inr b \<longleftrightarrow> (\<exists>a. r = Inr a \<and> k a = Inr b)"
  by (cases r) simp_all

lemma bind_eq_Inl [exn]: "bind r k = Inl e \<longleftrightarrow> r = Inl e \<or> (\<exists>a. r = Inr a \<and> k a = Inl e)"
  by (cases r) simp_all

lemma raise_if_eq_Inr [simp, exn]: "raise_if c e = Inr u \<longleftrightarrow> \<not> c"
  by (simp add: raise_if_def)

lemma raise_if_eq_Inl [simp, exn]: "raise_if c e = Inl e' \<longleftrightarrow> c \<and> e' = e"
  by (auto simp: raise_if_def)

lemma raise_if_True [simp]: "raise_if True e = Inl e"
  and raise_if_False [simp]: "raise_if False e = Inr ()"
  by (simp_all add: raise_if_def)

text \<open>
  A request runs in one transaction (\<^verbatim>\<open>_open_session\<close> of \<^verbatim>\<open>api/deps.py\<close>): it is
  committed when the handler returns and rolled back when it raises.
\<close>

definition transact :: "('s \<Rightarrow> ('a \<times> 's) result) \<Rightarrow> 's \<Rightarrow> 'a result \<times> 's" where
  "transact f s = (case f s of Inl e \<Rightarrow> (Inl e, s) | Inr (a, s') \<Rightarrow> (Inr a, s'))"

lemma transact_Inl [simp]: "f s = Inl e \<Longrightarrow> transact f s = (Inl e, s)"
  by (simp add: transact_def)

lemma transact_Inr [simp]: "f s = Inr (a, s') \<Longrightarrow> transact f s = (Inr a, s')"
  by (simp add: transact_def)

text \<open>The state a request leaves behind; sequences of requests compose it.\<close>

definition committed :: "('s \<Rightarrow> ('a \<times> 's) result) \<Rightarrow> 's \<Rightarrow> 's" where
  "committed f s = snd (transact f s)"

lemma committed_Inl [simp]: "f s = Inl e \<Longrightarrow> committed f s = s"
  and committed_Inr [simp]: "f s = Inr (a, s') \<Longrightarrow> committed f s = s'"
  by (simp_all add: committed_def)

lemma committed_run: "\<not> isl (f s) \<Longrightarrow> f s = Inr (fst (projr (f s)), committed f s)"
  by (cases "f s") auto

lemma not_isl_projr: "\<not> isl r \<Longrightarrow> r = Inr (projr r)"
  by (cases r) simp_all

subsection \<open>Tables\<close>

text \<open>
  A table is the list of its rows, oldest first. \<open>tget\<close> is \<^verbatim>\<open>session.get\<close> (look a row up by
  its primary key), \<open>tupd\<close> an \<^verbatim>\<open>UPDATE ... WHERE\<close> or the assignment to the attributes
  of loaded rows, \<open>one_or_none\<close> is \<^verbatim>\<open>scalar_one_or_none\<close>, which raises when the query
  returned several rows.
\<close>

definition tget :: "('r \<Rightarrow> uuid) \<Rightarrow> 'r list \<Rightarrow> uuid \<Rightarrow> 'r option" where
  "tget key rows i = find (\<lambda>r. key r = i) rows"

definition tupd :: "('r \<Rightarrow> bool) \<Rightarrow> ('r \<Rightarrow> 'r) \<Rightarrow> 'r list \<Rightarrow> 'r list" where
  "tupd p f rows = map (\<lambda>r. if p r then f r else r) rows"

definition one_or_none :: "'r list \<Rightarrow> 'r option result" where
  "one_or_none rows = (case rows of [] \<Rightarrow> Inr None | [r] \<Rightarrow> Inr (Some r) | _ \<Rightarrow> Inl MultipleResultsFound)"

definition first_row :: "'r list \<Rightarrow> 'r option" where
  "first_row rows = (case rows of [] \<Rightarrow> None | r # _ \<Rightarrow> Some r)"

definition count_rows :: "('r \<Rightarrow> bool) \<Rightarrow> 'r list \<Rightarrow> nat" where
  "count_rows p rows = length (filter p rows)"

definition keys_distinct :: "('r \<Rightarrow> 'k) \<Rightarrow> 'r list \<Rightarrow> bool" where
  "keys_distinct key rows \<longleftrightarrow> distinct (map key rows)"

text \<open>A unique index over the rows that satisfy \<open>p\<close> (all of them, or those of a partial index).\<close>

definition unique_on :: "('r \<Rightarrow> bool) \<Rightarrow> ('r \<Rightarrow> 'k) \<Rightarrow> 'r list \<Rightarrow> bool" where
  "unique_on p key rows \<longleftrightarrow> distinct (map key (filter p rows))"

lemma tget_Nil [simp, tbl]: "tget key [] i = None"
  by (simp add: tget_def)

lemma tget_Cons [simp, tbl]: "tget key (r # rs) i = (if key r = i then Some r else tget key rs i)"
  by (simp add: tget_def)

lemma tget_append [tbl]:
  "tget key (rs @ ss) i = (case tget key rs i of None \<Rightarrow> tget key ss i | Some r \<Rightarrow> Some r)"
  by (induction rs) auto

lemma tget_SomeD: "tget key rs i = Some r \<Longrightarrow> r \<in> set rs \<and> key r = i"
  by (induction rs) (auto split: if_splits)

lemma tget_None [tbl]: "tget key rs i = None \<longleftrightarrow> i \<notin> key ` set rs"
  by (induction rs) auto

lemma tget_SomeI: "keys_distinct key rs \<Longrightarrow> r \<in> set rs \<Longrightarrow> tget key rs (key r) = Some r"
  by (induction rs) (force simp: keys_distinct_def)+

lemma tupd_Nil [simp, tbl]: "tupd p f [] = []"
  by (simp add: tupd_def)

lemma tupd_Cons [simp, tbl]: "tupd p f (r # rs) = (if p r then f r else r) # tupd p f rs"
  by (simp add: tupd_def)

lemma tupd_append [simp, tbl]: "tupd p f (rs @ ss) = tupd p f rs @ tupd p f ss"
  by (simp add: tupd_def)

lemma length_tupd [simp, tbl]: "length (tupd p f rs) = length rs"
  by (simp add: tupd_def)

lemma map_tupd [tbl]: "(\<And>r. p r \<Longrightarrow> g (f r) = g r) \<Longrightarrow> map g (tupd p f rs) = map g rs"
  by (induction rs) auto

lemma set_tupd: "r \<in> set (tupd p f rs) \<longleftrightarrow> (\<exists>q \<in> set rs. r = (if p q then f q else q))"
  by (auto simp: tupd_def)

lemma tupd_id [simp]: "(\<And>r. r \<in> set rs \<Longrightarrow> p r \<Longrightarrow> f r = r) \<Longrightarrow> tupd p f rs = rs"
  by (induction rs) auto

lemma filter_tupd_other [tbl]:
  "(\<And>r. p r \<Longrightarrow> \<not> q r \<and> \<not> q (f r)) \<Longrightarrow> filter q (tupd p f rs) = filter q rs"
  by (induction rs) auto

lemma filter_tupd_same [tbl]:
  "(\<And>r. p r \<Longrightarrow> q (f r) = q r) \<Longrightarrow> filter q (tupd p f rs) = tupd p f (filter q rs)"
  by (induction rs) auto

lemma tget_tupd [tbl]:
  "(\<And>r. p r \<Longrightarrow> key (f r) = key r) \<Longrightarrow>
   tget key (tupd p f rs) i = map_option (\<lambda>r. if p r then f r else r) (tget key rs i)"
  by (induction rs) auto

lemma one_or_none_Nil [simp, tbl]: "one_or_none [] = Inr None"
  and one_or_none_single [simp, tbl]: "one_or_none [r] = Inr (Some r)"
  by (simp_all add: one_or_none_def)

lemma one_or_none_Some: "one_or_none rs = Inr (Some r) \<longleftrightarrow> rs = [r]"
  by (auto simp: one_or_none_def split: list.splits)

lemma one_or_none_None: "one_or_none rs = Inr None \<longleftrightarrow> rs = []"
  by (auto simp: one_or_none_def split: list.splits)

lemma one_or_none_take1: "\<exists>x. one_or_none (take 1 rs) = Inr x"
  by (cases rs) auto

lemma one_or_none_filterD:
  "one_or_none (filter p rs) = Inr (Some r) \<Longrightarrow> r \<in> set rs \<and> p r"
  by (metis (no_types, lifting) filter_eq_ConsD list.set_intros(1) mem_Collect_eq one_or_none_Some set_filter)

lemma one_or_none_no_exn: "length rs \<le> 1 \<Longrightarrow> \<exists>x. one_or_none rs = Inr x"
  by (cases rs) (auto simp: one_or_none_def)

lemma count_rows_Nil [simp, tbl]: "count_rows p [] = 0"
  by (simp add: count_rows_def)

lemma count_rows_Cons [simp, tbl]: "count_rows p (r # rs) = (if p r then 1 else 0) + count_rows p rs"
  by (simp add: count_rows_def)

lemma count_rows_append [simp, tbl]: "count_rows p (rs @ ss) = count_rows p rs + count_rows p ss"
  by (simp add: count_rows_def)

lemma count_rows_tupd [tbl]: "(\<And>r. p r \<Longrightarrow> q (f r) = q r) \<Longrightarrow> count_rows q (tupd p f rs) = count_rows q rs"
  by (induction rs) auto

lemma unique_on_Nil [simp, tbl]: "unique_on p key []"
  by (simp add: unique_on_def)

lemma unique_on_snoc [tbl]:
  "unique_on p key (rs @ [r]) \<longleftrightarrow>
     unique_on p key rs \<and> (p r \<longrightarrow> key r \<notin> key ` {q \<in> set rs. p q})"
  by (auto simp: unique_on_def)

lemma unique_on_filter_length:
  "unique_on p key rs \<Longrightarrow> length (filter (\<lambda>r. p r \<and> key r = k) rs) \<le> 1"
proof (induction rs)
  case (Cons r rs)
  have "filter (\<lambda>q. p q \<and> key q = k) rs = []" if "p r" "key r = k"
    using Cons.prems that
    by (auto simp: unique_on_def filter_empty_conv) (metis (mono_tags, lifting) image_eqI mem_Collect_eq)
  moreover have "unique_on p key rs"
    using Cons.prems by (simp add: unique_on_def split: if_splits)
  ultimately show ?case
    using Cons.IH by (auto split: if_splits)
qed simp

lemma unique_on_tupd [tbl]:
  assumes "\<And>r. q r \<Longrightarrow> p (f r) \<Longrightarrow> p r \<and> key (f r) = key r" and "unique_on p key rs"
  shows "unique_on p key (tupd q f rs)"
  using assms(2)
proof (induction rs)
  case (Cons r rs)
  have sub: "key ` {a \<in> set (tupd q f rs). p a} \<subseteq> key ` {a \<in> set rs. p a}"
  proof
    fix k
    assume "k \<in> key ` {a \<in> set (tupd q f rs). p a}"
    then obtain a where a: "a \<in> set (tupd q f rs)" "p a" "k = key a"
      by blast
    then obtain b where b: "b \<in> set rs" "a = (if q b then f b else b)"
      by (auto simp: set_tupd)
    with a assms(1) [of b] have "p b \<and> key b = k"
      by (auto split: if_splits)
    with b show "k \<in> key ` {a \<in> set rs. p a}"
      by blast
  qed
  have tail: "unique_on p key (tupd q f rs)"
    using Cons by (auto simp: unique_on_def split: if_splits)
  have head: "p r \<Longrightarrow> key r \<notin> key ` {a \<in> set rs. p a}"
    using Cons.prems by (auto simp: unique_on_def)
  show ?case
    using sub tail head assms(1) [of r] by (auto simp: unique_on_def split: if_splits)
qed simp

lemma unique_on_memb:
  "unique_on p key rs \<Longrightarrow> a \<in> set rs \<Longrightarrow> b \<in> set rs \<Longrightarrow> p a \<Longrightarrow> p b \<Longrightarrow> key a = key b \<Longrightarrow> a = b"
  by (auto simp: unique_on_def distinct_map inj_on_def)

lemma unique_on_filter: "unique_on p key rs \<Longrightarrow> unique_on p key (filter q rs)"
proof (induction rs)
  case (Cons r rs)
  then show ?case
    by (auto simp: unique_on_def split: if_splits)
qed simp

text \<open>Primary keys come from the id supply: they are distinct and below the next one.\<close>

definition ids_ok :: "('r \<Rightarrow> uuid) \<Rightarrow> uuid \<Rightarrow> 'r list \<Rightarrow> bool" where
  "ids_ok key n rows \<longleftrightarrow> keys_distinct key rows \<and> list_all (\<lambda>r. key r < n) rows"

lemma ids_ok_Nil [simp, tbl]: "ids_ok key n []"
  by (simp add: ids_ok_def keys_distinct_def)

lemma ids_ok_mono: "ids_ok key n rows \<Longrightarrow> n \<le> m \<Longrightarrow> ids_ok key m rows"
  by (auto simp: ids_ok_def list_all_iff)

lemma ids_ok_Suc [tbl]: "ids_ok key n rows \<Longrightarrow> ids_ok key (Suc n) rows"
  by (erule ids_ok_mono) simp

lemma ids_ok_snoc [tbl]: "ids_ok key n rows \<Longrightarrow> key r = n \<Longrightarrow> ids_ok key (Suc n) (rows @ [r])"
  by (force simp: ids_ok_def keys_distinct_def list_all_iff)

lemma ids_ok_tupd [tbl]: "(\<And>r. key (f r) = key r) \<Longrightarrow> ids_ok key n (tupd p f rows) = ids_ok key n rows"
proof -
  assume k: "\<And>r. key (f r) = key r"
  have "map key (tupd p f rows) = map key rows"
    by (rule map_tupd) (simp add: k)
  moreover have "list_all (\<lambda>r. key r < n) (tupd p f rows) = list_all (\<lambda>r. key r < n) rows"
    by (induction rows) (auto simp: k)
  ultimately show ?thesis
    by (simp add: ids_ok_def keys_distinct_def)
qed

lemma ids_ok_get: "ids_ok key n rows \<Longrightarrow> tget key rows i = Some r \<Longrightarrow> q \<in> set rows \<Longrightarrow> key q = i \<Longrightarrow> q = r"
  using tget_SomeI [of key rows q] by (auto simp: ids_ok_def)

lemma ids_ok_fresh: "ids_ok key n rows \<Longrightarrow> tget key rows n = None"
  by (auto simp: ids_ok_def tget_None list_all_iff)

lemma ids_ok_filter: "ids_ok key n rows \<Longrightarrow> ids_ok key n (filter p rows)"
  by (simp add: ids_ok_def keys_distinct_def list_all_iff distinct_map_filter)

lemma ids_ok_same: "ids_ok key n rows \<Longrightarrow> q \<in> set rows \<Longrightarrow> r \<in> set rows \<Longrightarrow> key q = key r \<Longrightarrow> q = r"
  by (auto simp: ids_ok_def keys_distinct_def distinct_map dest: inj_onD)

text \<open>Assigning to the attributes of the row with key \<open>i\<close>: what holds of all rows afterwards.\<close>

lemma list_all_tupd_key:
  assumes "ids_ok key n rows" "tget key rows i = Some r" "list_all P rows" "P r \<Longrightarrow> P (f r)"
  shows "list_all P (tupd (\<lambda>q. key q = i) f rows)"
proof -
  have "P r"
    using assms(3) tget_SomeD [OF assms(2)] by (simp add: list_all_iff)
  then have "P (if key q = i then f q else q)" if "q \<in> set rows" for q
    using that assms(3,4) ids_ok_get [OF assms(1,2) that] by (auto simp: list_all_iff)
  then show ?thesis
    by (induction rows) (auto simp: tupd_def list_all_iff)
qed

text \<open>Replacing the one row with key \<open>i\<close>, written as a function that changes that row only.\<close>

lemma tupd_replace:
  assumes "ids_ok key n rows" "tget key rows i = Some r"
  shows "tupd (\<lambda>q. key q = i) (\<lambda>_. r') rows = tupd (\<lambda>q. key q = i) (\<lambda>q. if q = r then r' else q) rows"
  using ids_ok_get [OF assms] by (auto simp: tupd_def)

lemma list_all_tupd: "list_all P rows \<Longrightarrow> (\<And>r. P r \<Longrightarrow> P (f r)) \<Longrightarrow> list_all P (tupd p f rows)"
  by (auto simp: list_all_iff set_tupd)

lemma list_all_tupd_iff: "list_all P (tupd p f rows) \<longleftrightarrow> list_all (\<lambda>r. P (if p r then f r else r)) rows"
  by (induction rows) auto

subsection \<open>Ordering and truncation of query results\<close>

text \<open>
  \<^verbatim>\<open>ORDER BY key\<close> is a stable insertion sort (rows with equal keys keep their table order;
  PostgreSQL leaves that order open), \<^verbatim>\<open>ORDER BY key DESC\<close> sorts by the negated key.
\<close>

fun insert_by :: "('r \<Rightarrow> int) \<Rightarrow> 'r \<Rightarrow> 'r list \<Rightarrow> 'r list" where
  "insert_by key r [] = [r]"
| "insert_by key r (q # qs) = (if key r \<le> key q then r # q # qs else q # insert_by key r qs)"

definition order_by :: "('r \<Rightarrow> int) \<Rightarrow> 'r list \<Rightarrow> 'r list" where
  "order_by key rows = foldr (insert_by key) rows []"

lemma set_insert_by [simp]: "set (insert_by key r qs) = insert r (set qs)"
  by (induction qs) auto

lemma length_insert_by [simp]: "length (insert_by key r qs) = Suc (length qs)"
  by (induction qs) auto

lemma sorted_insert_by: "sorted (map key qs) \<Longrightarrow> sorted (map key (insert_by key r qs))"
  by (induction qs) auto

lemma order_by_Nil [simp]: "order_by key [] = []"
  and order_by_Cons [simp]: "order_by key (r # rs) = insert_by key r (order_by key rs)"
  by (simp_all add: order_by_def)

lemma set_order_by [simp, tbl]: "set (order_by key rows) = set rows"
  by (induction rows) auto

lemma length_order_by [simp, tbl]: "length (order_by key rows) = length rows"
  by (induction rows) auto

lemma sorted_order_by: "sorted (map key (order_by key rows))"
  by (induction rows) (auto intro: sorted_insert_by)

lemma order_by_eq_Nil [simp]: "order_by key rows = [] \<longleftrightarrow> rows = []"
  by (metis length_0_conv length_order_by)

lemma distinct_map_insert_by:
  "distinct (map f (insert_by key r qs)) \<longleftrightarrow> f r \<notin> f ` set qs \<and> distinct (map f qs)"
  by (induction qs) auto

lemma distinct_map_order_by [simp, tbl]:
  "distinct (map f (order_by key rows)) \<longleftrightarrow> distinct (map f rows)"
  by (induction rows) (auto simp: distinct_map_insert_by)

lemma first_row_Some: "first_row rs = Some r \<Longrightarrow> r \<in> set rs"
  by (cases rs) (auto simp: first_row_def)

lemma first_row_None [simp]: "first_row rs = None \<longleftrightarrow> rs = []"
  by (cases rs) (auto simp: first_row_def)

lemma first_row_order_by_min:
  "first_row (order_by key rs) = Some r \<Longrightarrow> q \<in> set rs \<Longrightarrow> key r \<le> key q"
proof -
  assume f: "first_row (order_by key rs) = Some r" and q: "q \<in> set rs"
  obtain tl where o: "order_by key rs = r # tl"
    using f by (cases "order_by key rs") (auto simp: first_row_def)
  have "sorted (map key (r # tl))"
    using sorted_order_by [of key rs] o by simp
  moreover have "q \<in> set (r # tl)"
    using q o by (metis set_order_by)
  ultimately show ?thesis
    by auto
qed

text \<open>The decimal text of a number, as an f-string prints it.\<close>

fun nat_text :: "nat \<Rightarrow> string" where
  "nat_text n = (if n < 10 then [char_of (48 + n)] else nat_text (n div 10) @ [char_of (48 + n mod 10)])"

declare nat_text.simps [simp del]

definition int_text :: "int \<Rightarrow> string" where
  "int_text n = (if n < 0 then ''-'' @ nat_text (nat (- n)) else nat_text (nat n))"

end
