(* ===== verification/Permissions.thy ===== *)
theory Permissions
  imports Prelude
begin

section \<open>Permissions, roles and the request context\<close>

text \<open>
  \<^verbatim>\<open>domain/permissions.py\<close> (the permission catalogue, the system roles and the permissions of
  each role) and \<^verbatim>\<open>application/context.py\<close> (who is acting, in which tenant). The string value
  of an enumeration member is given by \<open>permission_code\<close> and \<open>role_value\<close>.
\<close>

subsection \<open>The catalogue\<close>

datatype permission =
    OrgRead
  | OrgUpdate
  | OrgMembersRead
  | OrgMembersManage
  | OrgInvitationsManage
  | OrgRetentionManage
  | FleetRead
  | FleetManage
  | TripsRead
  | TelemetryRead
  | EventsRead
  | EventsReview
  | EvidenceRead
  | EvidenceRawMedia
  | RisksRead
  | RisksManage
  | GeofencesManage
  | CoachingRead
  | CoachingManage
  | AnalyticsRead
  | ReportsRead
  | ReportsManage
  | NotificationsManage
  | IntegrationsRead
  | IntegrationsManage
  | SubscriptionRead
  | SubscriptionManage
  | AuditRead

datatype role_key =
    ROwner
  | RAdmin
  | RSafetyManager
  | RFleetManager
  | REventReviewer
  | RCoach
  | RAnalyst
  | RAuditor
  | RIntegrationManager
  | RDriver

definition all_permissions :: "permission list" where
  "all_permissions = [OrgRead, OrgUpdate, OrgMembersRead, OrgMembersManage, OrgInvitationsManage,
     OrgRetentionManage, FleetRead, FleetManage, TripsRead, TelemetryRead,
     EventsRead, EventsReview, EvidenceRead, EvidenceRawMedia, RisksRead,
     RisksManage, GeofencesManage, CoachingRead, CoachingManage, AnalyticsRead,
     ReportsRead, ReportsManage, NotificationsManage, IntegrationsRead, IntegrationsManage,
     SubscriptionRead, SubscriptionManage, AuditRead]"

fun permission_code :: "permission \<Rightarrow> string" where
  "permission_code OrgRead = ''org.read''"
| "permission_code OrgUpdate = ''org.update''"
| "permission_code OrgMembersRead = ''org.members.read''"
| "permission_code OrgMembersManage = ''org.members.manage''"
| "permission_code OrgInvitationsManage = ''org.invitations.manage''"
| "permission_code OrgRetentionManage = ''org.retention.manage''"
| "permission_code FleetRead = ''fleet.read''"
| "permission_code FleetManage = ''fleet.manage''"
| "permission_code TripsRead = ''trips.read''"
| "permission_code TelemetryRead = ''telemetry.read''"
| "permission_code EventsRead = ''events.read''"
| "permission_code EventsReview = ''events.review''"
| "permission_code EvidenceRead = ''events.evidence.read''"
| "permission_code EvidenceRawMedia = ''events.evidence.raw_media''"
| "permission_code RisksRead = ''risks.read''"
| "permission_code RisksManage = ''risks.manage''"
| "permission_code GeofencesManage = ''geofences.manage''"
| "permission_code CoachingRead = ''coaching.read''"
| "permission_code CoachingManage = ''coaching.manage''"
| "permission_code AnalyticsRead = ''analytics.read''"
| "permission_code ReportsRead = ''reports.read''"
| "permission_code ReportsManage = ''reports.manage''"
| "permission_code NotificationsManage = ''notifications.manage''"
| "permission_code IntegrationsRead = ''integrations.read''"
| "permission_code IntegrationsManage = ''integrations.manage''"
| "permission_code SubscriptionRead = ''subscription.read''"
| "permission_code SubscriptionManage = ''subscription.manage''"
| "permission_code AuditRead = ''audit.read''"

fun role_value :: "role_key \<Rightarrow> string" where
  "role_value ROwner = ''owner''"
| "role_value RAdmin = ''admin''"
| "role_value RSafetyManager = ''safety_manager''"
| "role_value RFleetManager = ''fleet_manager''"
| "role_value REventReviewer = ''event_reviewer''"
| "role_value RCoach = ''coach''"
| "role_value RAnalyst = ''analyst''"
| "role_value RAuditor = ''auditor''"
| "role_value RIntegrationManager = ''integration_manager''"
| "role_value RDriver = ''driver''"

definition read_only_audit :: "permission list" where
  "read_only_audit = [OrgRead, OrgMembersRead, FleetRead, TripsRead, EventsRead,
     RisksRead, CoachingRead, AnalyticsRead, ReportsRead, SubscriptionRead,
     AuditRead]"

fun role_permissions :: "role_key \<Rightarrow> permission list" where
  "role_permissions ROwner = all_permissions"
| "role_permissions RAdmin = filter (\<lambda>p. p \<noteq> SubscriptionManage) all_permissions"
| "role_permissions RSafetyManager =
     [OrgRead, OrgMembersRead, FleetRead, TripsRead, TelemetryRead,
      EventsRead, EventsReview, EvidenceRead, EvidenceRawMedia, RisksRead,
      RisksManage, GeofencesManage, CoachingRead, CoachingManage, AnalyticsRead,
      ReportsRead, ReportsManage, NotificationsManage]"
| "role_permissions RFleetManager =
     [OrgRead, OrgMembersRead, FleetRead, FleetManage, TripsRead,
      TelemetryRead, EventsRead, RisksRead, AnalyticsRead, ReportsRead]"
| "role_permissions REventReviewer =
     [OrgRead, FleetRead, TripsRead, EventsRead, EventsReview,
      EvidenceRead, RisksRead]"
| "role_permissions RCoach =
     [OrgRead, FleetRead, EventsRead, EvidenceRead, CoachingRead,
      CoachingManage, AnalyticsRead]"
| "role_permissions RAnalyst =
     [OrgRead, FleetRead, TripsRead, EventsRead, RisksRead,
      AnalyticsRead, ReportsRead, ReportsManage]"
| "role_permissions RAuditor = read_only_audit"
| "role_permissions RIntegrationManager =
     [OrgRead, FleetRead, IntegrationsRead, IntegrationsManage, NotificationsManage]"
| "role_permissions RDriver =
     [CoachingRead]"

definition role_has :: "role_key \<Rightarrow> permission \<Rightarrow> bool" where
  "role_has r p \<longleftrightarrow> p \<in> set (role_permissions r)"

subsection \<open>The request context\<close>

record request_context =
  c_user_id :: "uuid option"
  c_organization_id :: "uuid option"
  c_role :: "role_key option"
  c_is_platform_admin :: bool
  c_actor_label :: string
  c_request_id :: "string option"
  c_ip_address :: "string option"
  c_user_agent :: "string option"
  c_email_verified :: bool
  c_mfa_enabled :: bool

definition has_permission :: "request_context \<Rightarrow> permission \<Rightarrow> bool" where
  "has_permission ctx p =
     (if c_is_platform_admin ctx then True
      else case c_role ctx of None \<Rightarrow> False | Some r \<Rightarrow> role_has r p)"

definition system_context :: request_context where
  "system_context = \<lparr>c_user_id = None, c_organization_id = None, c_role = None,
     c_is_platform_admin = False, c_actor_label = ''system'', c_request_id = None,
     c_ip_address = None, c_user_agent = None, c_email_verified = False, c_mfa_enabled = False\<rparr>"

subsection \<open>The catalogue is complete and its codes are distinct\<close>

lemma all_permissions_complete: "p \<in> set all_permissions"
  by (cases p) (simp_all add: all_permissions_def)

lemma all_permissions_distinct: "distinct (map permission_code all_permissions)"
  by code_simp

lemma role_value_inj: "role_value r = role_value s \<Longrightarrow> r = s"
  by (cases r; cases s; simp)

lemma permission_code_inj: "permission_code p = permission_code q \<Longrightarrow> p = q"
  using all_permissions_distinct all_permissions_complete [of p] all_permissions_complete [of q]
  by (auto simp: distinct_map inj_on_def)

text \<open>The permissions that only read: their code ends in \<^verbatim>\<open>.read\<close>.\<close>

definition is_read_permission :: "permission \<Rightarrow> bool" where
  "is_read_permission p \<longleftrightarrow> suffix ''.read'' (permission_code p)"

subsection \<open>Facts on the roles\<close>

lemma owner_has_all: "role_has ROwner p"
  by (simp add: role_has_def all_permissions_complete)

lemma admin_has: "role_has RAdmin p \<longleftrightarrow> p \<noteq> SubscriptionManage"
  by (simp add: role_has_def all_permissions_complete)

lemma subscription_manage_owner_only: "role_has r SubscriptionManage \<longleftrightarrow> r = ROwner"
  by (cases r) (simp_all add: role_has_def all_permissions_complete read_only_audit_def)

lemma members_manage_roles: "role_has r OrgMembersManage \<longleftrightarrow> r \<in> {ROwner, RAdmin}"
  by (cases r) (simp_all add: role_has_def all_permissions_complete read_only_audit_def)

lemma coaching_manage_roles: "role_has r CoachingManage \<longleftrightarrow> r \<in> {ROwner, RAdmin, RSafetyManager, RCoach}"
  by (cases r) (simp_all add: role_has_def all_permissions_complete read_only_audit_def)

lemma auditor_reads_only: "role_has RAuditor p \<Longrightarrow> is_read_permission p"
  by (auto simp: role_has_def read_only_audit_def is_read_permission_def suffix_def)

lemma driver_permissions: "role_has RDriver p \<longleftrightarrow> p = CoachingRead"
  by (auto simp: role_has_def)

lemma no_role_no_permission: "\<not> c_is_platform_admin ctx \<Longrightarrow> c_role ctx = None \<Longrightarrow> \<not> has_permission ctx p"
  by (simp add: has_permission_def)

end
