(* ===== verification/Float64.thy ===== *)
theory Float64
  imports Prelude "HOL-Library.Log_Nat"
begin

section \<open>Python floats\<close>

text \<open>
  A finite Python \<^verbatim>\<open>float\<close> is a rational number. Every arithmetic operation is the exact
  operation followed by \<open>fl\<close>, the rounding to 53 significant bits (nearest, ties to even) of
  IEEE 754 binary64; comparisons are exact. Overflow, subnormal results, infinities and NaN are
  not modelled: every quantity of the program (speeds, coordinates, scores, seconds) is far
  inside the normal range. \<open>py_round\<close> is \<^verbatim>\<open>round(x, n)\<close>, which CPython computes from
  the exact value of \<^verbatim>\<open>x\<close> with ties to even. A literal \<^verbatim>\<open>1.6\<close> is \<open>fl (8/5)\<close>.
\<close>

type_synonym float64 = rat

definition rne :: "rat \<Rightarrow> int" where
  "rne x = (let f = \<lfloor>x\<rfloor>; d = x - of_int f in
     if d < 1/2 then f else if 1/2 < d then f + 1 else if even f then f else f + 1)"

definition pow2 :: "int \<Rightarrow> rat" where
  "pow2 e = (if 0 \<le> e then 2 ^ nat e else 1 / 2 ^ nat (- e))"

text \<open>The exponent \<open>e\<close> with \<open>2^e \<le> x < 2^(e+1)\<close>, from the bit lengths of numerator and denominator.\<close>

definition ilog2 :: "rat \<Rightarrow> int" where
  "ilog2 x = (case quotient_of x of (p, q) \<Rightarrow>
     let e = bitlen p - bitlen q in if pow2 e \<le> x then e else e - 1)"

definition fl :: "rat \<Rightarrow> float64" where
  "fl x = (if x = 0 then 0 else
     let u = pow2 (ilog2 \<bar>x\<bar> - 52) in of_int (rne (x / u)) * u)"

definition py_round :: "nat \<Rightarrow> float64 \<Rightarrow> float64" where
  "py_round n x = fl (of_int (rne (x * 10 ^ n)) / 10 ^ n)"

definition fadd :: "float64 \<Rightarrow> float64 \<Rightarrow> float64" where "fadd x y = fl (x + y)"
definition fsub :: "float64 \<Rightarrow> float64 \<Rightarrow> float64" where "fsub x y = fl (x - y)"
definition fmul :: "float64 \<Rightarrow> float64 \<Rightarrow> float64" where "fmul x y = fl (x * y)"
definition fdiv :: "float64 \<Rightarrow> float64 \<Rightarrow> float64" where "fdiv x y = fl (x / y)"

text \<open>\<^verbatim>\<open>int(x)\<close> of a float truncates; \<^verbatim>\<open>total_seconds()\<close> of a timedelta is a float.\<close>

definition trunc :: "rat \<Rightarrow> int" where
  "trunc x = (if 0 \<le> x then \<lfloor>x\<rfloor> else \<lceil>x\<rceil>)"

definition total_seconds :: "duration \<Rightarrow> float64" where
  "total_seconds us = fl (of_int us / 10 ^ 6)"

subsection \<open>Powers of two\<close>

lemma pow2_pos [simp]: "0 < pow2 e"
  by (simp add: pow2_def)

lemma pow2_nonneg [simp]: "0 \<le> pow2 e" and pow2_nz [simp]: "pow2 e \<noteq> 0"
  using pow2_pos [of e] by (simp_all add: less_imp_le less_imp_neq [symmetric])

lemma pow2_0 [simp]: "pow2 0 = 1"
  by (simp add: pow2_def)

lemma pow2_Suc: "pow2 (e + 1) = 2 * pow2 e"
proof (cases "0 \<le> e")
  case True
  then show ?thesis by (simp add: pow2_def nat_add_distrib)
next
  case False
  define k where "k = nat (- e) - 1"
  have e: "e = - int (Suc k)" using False by (simp add: k_def)
  show ?thesis unfolding e by (simp add: pow2_def nat_add_distrib nat_diff_distrib)
qed

lemma pow2_add_nat: "pow2 (e + int k) = pow2 e * 2 ^ k"
proof (induction k)
  case (Suc k)
  have "pow2 (e + int (Suc k)) = pow2 ((e + int k) + 1)"
    by (simp add: algebra_simps)
  then show ?case using Suc by (simp only: pow2_Suc) simp
qed simp

lemma pow2_add: "pow2 (a + b) = pow2 a * pow2 b"
proof (cases "0 \<le> b")
  case True
  then show ?thesis using pow2_add_nat [of a "nat b"] by (simp add: pow2_def)
next
  case False
  then show ?thesis
    using pow2_add_nat [of "a + b" "nat (- b)"] by (simp add: pow2_def field_simps)
qed

lemma pow2_mono: "a \<le> b \<Longrightarrow> pow2 a \<le> pow2 b"
  using pow2_add_nat [of a "nat (b - a)"]
  by (simp add: mult_le_cancel_left1 less_le_not_le)

lemma pow2_less_iff: "pow2 a < pow2 b \<longleftrightarrow> a < b"
proof
  assume "pow2 a < pow2 b"
  then show "a < b" using pow2_mono [of b a] by (meson leD leI)
next
  assume "a < b"
  then have "pow2 (a + 1) \<le> pow2 b" by (intro pow2_mono) simp
  then show "pow2 a < pow2 b" using pow2_Suc [of a] pow2_pos [of a] by linarith
qed

subsection \<open>The exponent\<close>

lemma bitlen_pow2_bounds:
  assumes "0 < (n::int)"
  shows "pow2 (bitlen n - 1) \<le> of_int n" and "of_int n < pow2 (bitlen n)"
proof -
  have b: "2 ^ nat (bitlen n - 1) \<le> n" "n < 2 ^ nat (bitlen n)"
    using bitlen_bounds [OF assms] by auto
  have "1 \<le> bitlen n"
    using assms bitlen_nonneg [of n] bitlen_eq_zero_iff [of n] by linarith
  then have "pow2 (bitlen n - 1) = of_int (2 ^ nat (bitlen n - 1))" "pow2 (bitlen n) = of_int (2 ^ nat (bitlen n))"
    by (simp_all add: pow2_def)
  with b show "pow2 (bitlen n - 1) \<le> of_int n" "of_int n < pow2 (bitlen n)"
    by (simp_all only: of_int_le_iff of_int_less_iff)
qed

lemma ilog2_bounds:
  assumes "0 < x"
  shows "pow2 (ilog2 x) \<le> x \<and> x < pow2 (ilog2 x + 1)"
proof -
  obtain p q where pq: "quotient_of x = (p, q)" by fastforce
  have q: "0 < q" using quotient_of_denom_pos [OF pq] .
  have x: "x = of_int p / of_int q" using quotient_of_div [OF pq] .
  have p: "0 < p" using assms q unfolding x by (simp add: zero_less_divide_iff)
  let ?e = "bitlen p - bitlen q"
  have lo: "pow2 (?e - 1) \<le> x"
  proof -
    have "pow2 (?e - 1) * of_int q \<le> pow2 (?e - 1) * pow2 (bitlen q)"
      using bitlen_pow2_bounds(2) [OF q] by (simp add: less_imp_le)
    also have "\<dots> = pow2 (bitlen p - 1)" by (simp flip: pow2_add)
    also have "\<dots> \<le> of_int p" by (rule bitlen_pow2_bounds(1) [OF p])
    finally show ?thesis unfolding x using q by (simp add: pos_le_divide_eq)
  qed
  have hi: "x < pow2 (?e + 1)"
  proof -
    have "of_int p < pow2 (bitlen p)" by (rule bitlen_pow2_bounds(2) [OF p])
    also have "\<dots> = pow2 (?e + 1) * pow2 (bitlen q - 1)" by (simp flip: pow2_add)
    also have "\<dots> \<le> pow2 (?e + 1) * of_int q"
      using bitlen_pow2_bounds(1) [OF q] by simp
    finally show ?thesis unfolding x using q by (simp add: pos_divide_less_eq)
  qed
  show ?thesis using lo hi by (auto simp: ilog2_def pq Let_def)
qed

lemma ilog2_unique: "pow2 k \<le> x \<Longrightarrow> x < pow2 (k + 1) \<Longrightarrow> ilog2 x = k"
proof -
  assume k: "pow2 k \<le> x" "x < pow2 (k + 1)"
  then have "0 < x" using pow2_pos [of k] by linarith
  then have "pow2 (ilog2 x) < pow2 (k + 1)" "pow2 k < pow2 (ilog2 x + 1)"
    using ilog2_bounds [of x] k by auto
  then show ?thesis by (simp add: pow2_less_iff)
qed

lemma ilog2_mono: "0 < x \<Longrightarrow> x \<le> y \<Longrightarrow> ilog2 x \<le> ilog2 y"
proof -
  assume "0 < x" "x \<le> y"
  then have "pow2 (ilog2 x) < pow2 (ilog2 y + 1)"
    using ilog2_bounds [of x] ilog2_bounds [of y] by linarith
  then show ?thesis by (simp add: pow2_less_iff)
qed

subsection \<open>Rounding to an integer\<close>

lemma rne_of_int [simp]: "rne (of_int n) = n"
  by (simp add: rne_def)

lemma rne_mono: "x \<le> y \<Longrightarrow> rne x \<le> rne y"
proof -
  assume le: "x \<le> y"
  then consider "\<lfloor>x\<rfloor> = \<lfloor>y\<rfloor>" | "\<lfloor>x\<rfloor> + 1 \<le> \<lfloor>y\<rfloor>"
    using floor_mono [OF le] by linarith
  then show ?thesis
  proof cases
    case 1
    then show ?thesis using le by (auto simp: rne_def Let_def)
  next
    case 2
    have "rne x \<le> \<lfloor>x\<rfloor> + 1" "\<lfloor>y\<rfloor> \<le> rne y" by (auto simp: rne_def Let_def)
    with 2 show ?thesis by linarith
  qed
qed

lemma rne_ge: "of_int n \<le> x \<Longrightarrow> n \<le> rne x"
  using rne_mono [of "of_int n" x] by simp

lemma rne_le: "x \<le> of_int n \<Longrightarrow> rne x \<le> n"
  using rne_mono [of x "of_int n"] by simp

lemma rne_minus: "rne (- x) = - rne x"
proof (cases "x = of_int \<lfloor>x\<rfloor>")
  case True
  then show ?thesis by (metis of_int_minus rne_of_int)
next
  case False
  have less: "of_int \<lfloor>x\<rfloor> < x"
    using False of_int_floor_le [of x] by (metis order.not_eq_order_implies_strict)
  have f: "\<lfloor>- x\<rfloor> = - \<lfloor>x\<rfloor> - 1"
  proof (rule floor_unique)
    show "of_int (- \<lfloor>x\<rfloor> - 1) \<le> - x" "- x < of_int (- \<lfloor>x\<rfloor> - 1) + 1"
      using less floor_correct [of x] by auto
  qed
  show ?thesis unfolding rne_def Let_def f by (auto simp: field_simps)
qed

subsection \<open>Rounding to binary64\<close>

lemma fl_0 [simp]: "fl 0 = 0"
  by (simp add: fl_def)

lemma fl_minus: "fl (- x) = - fl x"
  by (simp add: fl_def Let_def rne_minus)

lemma fl_at:
  assumes "pow2 k \<le> x" "x < pow2 (k + 1)"
  shows "fl x = of_int (rne (x / pow2 (k - 52))) * pow2 (k - 52)"
proof -
  have "0 < x" using assms(1) pow2_pos [of k] by linarith
  then show ?thesis using ilog2_unique [OF assms] by (simp add: fl_def Let_def)
qed

lemma pow2_52: "pow2 k / pow2 (k - 52) = of_int (2 ^ 52)"
proof -
  have "pow2 k = pow2 (k - 52) * pow2 52" by (simp flip: pow2_add)
  then show ?thesis by (simp add: pow2_def)
qed

lemma fl_binade:
  assumes "pow2 k \<le> x" "x < pow2 (k + 1)"
  shows "pow2 k \<le> fl x \<and> fl x \<le> pow2 (k + 1)"
proof -
  let ?u = "pow2 (k - 52)"
  have lo: "2 ^ 52 \<le> rne (x / ?u)"
    by (rule rne_ge) (use assms(1) in \<open>simp only: pow2_52 [of k, symmetric] divide_right_mono pow2_nonneg\<close>)
  have p: "pow2 (k + 1) / ?u = of_int (2 ^ 53)"
    unfolding pow2_Suc using pow2_52 [of k] by (simp only: times_divide_eq_right [symmetric]) simp
  have hi: "rne (x / ?u) \<le> 2 ^ 53"
    by (rule rne_le) (use assms(2) in \<open>simp only: p [symmetric] divide_right_mono pow2_nonneg less_imp_le\<close>)
  have "pow2 k = of_int (2 ^ 52) * ?u" "pow2 (k + 1) = of_int (2 ^ 53) * ?u"
    using pow2_52 [of k] p by (simp_all only: nonzero_divide_eq_eq pow2_nz not_False_eq_True)
  then show ?thesis
    unfolding fl_at [OF assms] using lo hi
    by (simp only: mult_right_mono of_int_le_iff pow2_nonneg)
qed

lemma fl_pos: "0 < x \<Longrightarrow> 0 < fl x"
  using fl_binade [of "ilog2 x" x] ilog2_bounds [of x] pow2_pos [of "ilog2 x"] by linarith

lemma fl_mono_pos: "0 < x \<Longrightarrow> x \<le> y \<Longrightarrow> fl x \<le> fl y"
proof -
  assume x: "0 < x" and le: "x \<le> y"
  let ?i = "ilog2 x" and ?j = "ilog2 y"
  have bx: "pow2 ?i \<le> x" "x < pow2 (?i + 1)" using ilog2_bounds [OF x] by auto
  have bj: "pow2 ?j \<le> y" "y < pow2 (?j + 1)" using ilog2_bounds [of y] x le by auto
  show ?thesis
  proof (cases "?i = ?j")
    case True
    have "x / pow2 (?i - 52) \<le> y / pow2 (?i - 52)" using le by (simp add: divide_right_mono)
    then show ?thesis
      using fl_at [OF bx] fl_at [OF bj] True rne_mono by (simp add: mult_right_mono)
  next
    case False
    then have "?i + 1 \<le> ?j" using ilog2_mono [OF x le] by linarith
    then show ?thesis using fl_binade [OF bx] fl_binade [OF bj] pow2_mono [of "?i + 1" ?j] by linarith
  qed
qed

lemma fl_mono: "x \<le> y \<Longrightarrow> fl x \<le> fl y"
proof -
  assume le: "x \<le> y"
  consider "0 < x" | "x \<le> 0" "0 \<le> y" | "y < 0" by linarith
  then show ?thesis
  proof cases
    case 1
    then show ?thesis using le by (rule fl_mono_pos)
  next
    case 2
    have "0 \<le> fl y" using 2 fl_pos [of y] by (cases "y = 0") auto
    moreover have "fl x \<le> 0" using 2 fl_pos [of "- x"] by (cases "x = 0") (auto simp: fl_minus)
    ultimately show ?thesis by linarith
  next
    case 3
    then have "fl (- y) \<le> fl (- x)" using le by (intro fl_mono_pos) auto
    then show ?thesis by (simp add: fl_minus)
  qed
qed

lemma fl_nonneg: "0 \<le> x \<Longrightarrow> 0 \<le> fl x"
  using fl_mono [of 0 x] by simp

text \<open>Integers below \<open>2^53\<close> in absolute value, and their quotients by powers of two, are exact.\<close>

lemma fl_dyadic_pos:
  assumes "0 < m" "m < 2 ^ 53"
  shows "fl (of_int m * pow2 e) = of_int m * pow2 e"
proof -
  let ?x = "of_int m * pow2 e"
  have xp: "0 < ?x" using assms by simp
  define k where "k = ilog2 ?x"
  have b: "pow2 k \<le> ?x" "?x < pow2 (k + 1)" using ilog2_bounds [OF xp] by (auto simp: k_def)
  have "of_int m < (of_int (2 ^ 53) :: rat)" using assms(2) by (simp only: of_int_less_iff)
  then have "?x < of_int (2 ^ 53) * pow2 e" by (simp only: mult_strict_right_mono pow2_pos)
  also have "of_int (2 ^ 53) * pow2 e = pow2 (e + 53)" using pow2_add_nat [of e 53] by simp
  finally have "pow2 k < pow2 (e + 53)" using b(1) by linarith
  then have "k - 52 \<le> e" by (simp add: pow2_less_iff)
  then have "?x / pow2 (k - 52) = of_int (m * 2 ^ nat (e - (k - 52)))"
    using pow2_add_nat [of "k - 52" "nat (e - (k - 52))"] by simp
  then show ?thesis
    using fl_at [OF b] by (metis nonzero_eq_divide_eq pow2_nz rne_of_int)
qed

lemma fl_dyadic: "\<bar>m\<bar> < 2 ^ 53 \<Longrightarrow> fl (of_int m * pow2 e) = of_int m * pow2 e"
  using fl_dyadic_pos [of m e] fl_dyadic_pos [of "- m" e] fl_minus [of "of_int m * pow2 e"]
  by (cases m "0 :: int" rule: linorder_cases) auto

lemma fl_of_int: "\<bar>m\<bar> < 2 ^ 53 \<Longrightarrow> fl (of_int m) = of_int m"
  using fl_dyadic [of m 0] by simp

text \<open>For evaluation: small integers over powers of two need no rounding.\<close>

definition dyadic53 :: "rat \<Rightarrow> bool" where
  "dyadic53 x = (case quotient_of x of (p, q) \<Rightarrow> \<bar>p\<bar> < 2 ^ 53 \<and> (q = 1 \<or> q = 2 ^ nat (bitlen q - 1)))"

lemma fl_dyadic53: "dyadic53 x \<Longrightarrow> fl x = x"
proof -
  assume d: "dyadic53 x"
  obtain p q where pq: "quotient_of x = (p, q)"
    by fastforce
  have x: "x = of_int p / of_int q"
    by (rule quotient_of_div [OF pq])
  have p: "\<bar>p\<bar> < 2 ^ 53" and "\<exists>k. q = 2 ^ k"
    using d by (auto simp: dyadic53_def pq intro: exI [of _ 0])
  then obtain k where "q = 2 ^ k"
    by blast
  then have "x = of_int p * pow2 (- int k)"
    by (cases "k = 0") (simp_all add: x pow2_def)
  then show ?thesis
    using fl_dyadic [OF p, of "- int k"] by simp
qed

lemma fl_code [code]:
  "fl x = (if dyadic53 x then x else let u = pow2 (ilog2 \<bar>x\<bar> - 52) in of_int (rne (x / u)) * u)"
  using fl_dyadic53 [of x] by (auto simp: fl_def dyadic53_def Let_def)

lemma fl_numeral: "numeral n < (2 ^ 53 :: int) \<Longrightarrow> fl (numeral n) = numeral n"
  using fl_of_int [of "numeral n"] by simp

lemma fl_1 [simp]: "fl 1 = 1"
  using fl_of_int [of 1] by simp

lemma fl_in_unit: "0 \<le> x \<Longrightarrow> x \<le> 1 \<Longrightarrow> 0 \<le> fl x \<and> fl x \<le> 1"
  using fl_mono [of 0 x] fl_mono [of x 1] by simp

text \<open>Rounding to decimals is monotone.\<close>

lemma py_round_mono: "x \<le> y \<Longrightarrow> py_round n x \<le> py_round n y"
  unfolding py_round_def
  by (intro fl_mono divide_right_mono) (simp_all add: rne_mono mult_right_mono)

lemma py_round_0 [simp]: "py_round n 0 = 0"
  using rne_of_int [of 0] by (simp add: py_round_def)

lemma py_round_1 [simp]: "py_round n 1 = 1"
  using rne_of_int [of "10 ^ n"] by (simp add: py_round_def)

lemma py_round_in_unit: "0 \<le> x \<Longrightarrow> x \<le> 1 \<Longrightarrow> 0 \<le> py_round n x \<and> py_round n x \<le> 1"
  using py_round_mono [of 0 x n] py_round_mono [of x 1 n] by simp

end
