(* ===== verification/Schema.thy ===== *)
theory Schema
  imports Permissions Float64
begin

section \<open>The database: one record per table, one record for the database\<close>

text \<open>
  The ORM classes of \<^verbatim>\<open>infrastructure/db/models/\<close>. A column is a field with the table's
  prefix, a nullable column an option, a column whose CHECK constraint lists its values a
  datatype. Columns of \<^verbatim>\<open>TimestampMixin\<close>: \<open>created_at\<close> is kept where a query sorts by it or a
  job reads it; \<open>updated_at\<close> is read by no modelled code and left out. Identifiers
  (\<^verbatim>\<open>uuid\<close>) are natural numbers, and \<open>next_id\<close> is the supply of new ones: a generated UUID
  is one that was never used before. The record \<open>db\<close> holds all tables, so that an operation
  that touches several of them is one function on \<open>db\<close>. Texts that only people read (the Turkish
  reason of a safety event, the subject of a mail) are left out, and a composite text key (the
  dedup key of an event, the idempotency key of a mail) is the tuple of its parts.
\<close>

subsection \<open>Identity and tenancy\<close>

datatype org_status = OrgActive | OrgSuspended | OrgClosed

record organization =
  org_id :: uuid
  org_name :: string
  org_slug :: string
  org_status :: org_status

record organization_settings =
  os_organization_id :: uuid
  os_timezone :: string
  os_currency :: string
  os_risk_thresholds :: pydict
  os_retention :: pydict
  os_security :: pydict

datatype user_status = UserActive | UserDisabled | UserErased

datatype platform_role = SuperAdmin | Support

record user =
  u_id :: uuid
  u_email :: string
  u_password_hash :: string
  u_full_name :: string
  u_locale :: string
  u_status :: user_status
  u_platform_role :: "platform_role option"
  u_email_verified_at :: "instant option"
  u_failed_login_count :: int
  u_locked_until :: "instant option"
  u_mfa_totp_secret_enc :: "string option"
  u_mfa_pending_secret_enc :: "string option"
  u_mfa_enabled_at :: "instant option"
  u_mfa_last_used_step :: "int option"
  u_password_changed_at :: "instant option"
  u_sessions_revoked_at :: "instant option"

datatype membership_status = MemActive | MemSuspended

record membership =
  m_id :: uuid
  m_user_id :: uuid
  m_organization_id :: uuid
  m_role_key :: role_key
  m_status :: membership_status
  m_created_at :: instant

record invitation =
  inv_id :: uuid
  inv_organization_id :: uuid
  inv_email :: string
  inv_role_key :: role_key
  inv_token_hash :: string
  inv_invited_by_user_id :: "uuid option"
  inv_expires_at :: instant
  inv_accepted_at :: "instant option"
  inv_revoked_at :: "instant option"
  inv_last_sent_at :: "instant option"

datatype token_purpose = PasswordReset | EmailVerification

record user_token =
  ut_id :: uuid
  ut_user_id :: uuid
  ut_purpose :: token_purpose
  ut_token_hash :: string
  ut_expires_at :: instant
  ut_used_at :: "instant option"
  ut_requested_ip :: "string option"

record mfa_recovery_code =
  rc_id :: uuid
  rc_user_id :: uuid
  rc_code_hash :: string
  rc_used_at :: "instant option"

record mfa_challenge =
  mc_id :: uuid
  mc_user_id :: uuid
  mc_token_hash :: string
  mc_expires_at :: instant
  mc_attempts :: int
  mc_consumed_at :: "instant option"
  mc_ip_address :: "string option"

record session =
  s_id :: uuid
  s_user_id :: uuid
  s_organization_id :: "uuid option"
  s_family_id :: uuid
  s_refresh_token_hash :: string
  s_user_agent :: "string option"
  s_ip_address :: "string option"
  s_expires_at :: instant
  s_revoked_at :: "instant option"
  s_reuse_detected_at :: "instant option"
  s_last_used_at :: "instant option"
  s_replaced_by_id :: "uuid option"

datatype client_status = ClientActive | ClientDisabled

record api_client =
  ac_id :: uuid
  ac_organization_id :: uuid
  ac_name :: string
  ac_created_by_user_id :: "uuid option"
  ac_status :: client_status

record api_token =
  at_id :: uuid
  at_api_client_id :: uuid
  at_token_hash :: string
  at_prefix :: string
  at_scopes :: "string list"
  at_expires_at :: "instant option"
  at_revoked_at :: "instant option"
  at_last_used_at :: "instant option"

subsection \<open>Fleet\<close>

record fleet =
  f_id :: uuid
  f_organization_id :: uuid
  f_name :: string
  f_region :: "string option"

datatype vehicle_status = VehActive | VehInactive | VehMaintenance

record vehicle =
  v_id :: uuid
  v_organization_id :: uuid
  v_fleet_id :: "uuid option"
  v_vehicle_group_id :: "uuid option"
  v_external_id :: string
  v_plate :: "string option"
  v_label :: "string option"
  v_make :: "string option"
  v_model :: "string option"
  v_year :: "int option"
  v_status :: vehicle_status
  v_attributes :: pydict
  v_created_at :: instant

datatype driver_status = DrvActive | DrvInactive | DrvErased

record driver =
  d_id :: uuid
  d_organization_id :: uuid
  d_external_id :: string
  d_full_name :: string
  d_user_id :: "uuid option"
  d_license_number_enc :: "string option"
  d_phone :: "string option"
  d_status :: driver_status
  d_erased_at :: "instant option"

record driver_assignment =
  da_id :: uuid
  da_organization_id :: uuid
  da_driver_id :: uuid
  da_vehicle_id :: uuid
  da_started_at :: instant
  da_ended_at :: "instant option"

datatype device_status = DevActive | DevInactive | DevOffline

record device =
  dev_id :: uuid
  dev_organization_id :: uuid
  dev_vehicle_id :: "uuid option"
  dev_external_id :: string
  dev_kind :: string
  dev_label :: "string option"
  dev_status :: device_status
  dev_last_seen_at :: "instant option"

datatype camera_status = CamActive | CamInactive | CamObstructed | CamOffline

record camera =
  cam_id :: uuid
  cam_organization_id :: uuid
  cam_device_id :: "uuid option"
  cam_vehicle_id :: "uuid option"
  cam_external_id :: string
  cam_position :: string
  cam_connection_ref :: "string option"
  cam_status :: camera_status
  cam_last_verified_at :: "instant option"

subsection \<open>Ingestion, trips and telemetry\<close>

datatype source_status = SrcActive | SrcPaused | SrcDisabled

record data_source =
  ds_id :: uuid
  ds_organization_id :: uuid
  ds_name :: string
  ds_kind :: string
  ds_source_key :: string
  ds_status :: source_status
  ds_last_event_at :: "instant option"
  ds_last_success_at :: "instant option"
  ds_accepted_count :: int
  ds_rejected_count :: int
  ds_duplicate_count :: int

datatype ingest_status = IngAccepted | IngProcessing | IngProcessed | IngQuarantined | IngDeadLetter

record ingest_event =
  ie_id :: uuid
  ie_organization_id :: uuid
  ie_data_source_id :: "uuid option"
  ie_source :: string
  ie_external_event_id :: string
  ie_event_type :: string
  ie_vehicle_external_id :: "string option"
  ie_occurred_at :: "instant option"
  ie_received_at :: instant
  ie_envelope :: pydict
  ie_status :: ingest_status
  ie_rejection_reason :: "string option"
  ie_detail :: "string option"
  ie_processed_at :: "instant option"

datatype trip_status = TripActive | TripCompleted | TripStale

record trip =
  t_id :: uuid
  t_organization_id :: uuid
  t_vehicle_id :: uuid
  t_driver_id :: "uuid option"
  t_status :: trip_status
  t_started_at :: instant
  t_ended_at :: "instant option"
  t_last_point_at :: "instant option"
  t_distance_km :: float64
  t_point_count :: int
  t_max_speed_kph :: "float64 option"
  t_last_latitude :: "float64 option"
  t_last_longitude :: "float64 option"

record telemetry_point =
  tp_id :: uuid
  tp_occurred_at :: instant
  tp_organization_id :: uuid
  tp_trip_id :: "uuid option"
  tp_vehicle_id :: uuid
  tp_driver_id :: "uuid option"
  tp_latitude :: float64
  tp_longitude :: float64
  tp_speed_kph :: "float64 option"
  tp_heading_deg :: "float64 option"
  tp_acceleration_ms2 :: "float64 option"
  tp_lateral_acceleration_ms2 :: "float64 option"
  tp_quality :: float64

subsection \<open>Safety events and evidence\<close>

datatype event_type = HarshBraking | HarshAcceleration | HarshCornering | Speeding | GpsAnomaly

datatype severity = Low | Medium | High | Critical

datatype review_status = RevPending | RevConfirmed | RevRejected | RevUncertain

record safety_event =
  se_id :: uuid
  se_organization_id :: uuid
  se_vehicle_id :: uuid
  se_driver_id :: "uuid option"
  se_trip_id :: "uuid option"
  se_event_type :: event_type
  se_severity :: severity
  se_confidence :: float64
  se_occurred_at :: instant
  se_latitude :: "float64 option"
  se_longitude :: "float64 option"
  se_measured_value :: "float64 option"
  se_threshold :: "float64 option"
  se_ruleset_version :: int
  se_severity_framework_version :: int
  se_data_quality :: "float64 option"
  se_review_status :: review_status
  se_reviewer_user_id :: "uuid option"
  se_reviewed_at :: "instant option"
  se_resolution :: "string option"
  se_root_cause :: "string option"
  se_reviewer_notes :: "string option"
  se_needs_review :: bool
  se_dedup_key :: "uuid \<times> event_type \<times> int"
  se_occurrence_count :: int
  se_details :: pydict

datatype evidence_status = EvPendingUpload | EvAvailable | EvRejected | EvDeleted

datatype evidence_kind = TelemetryWindow | Snapshot | Clip | Note

record event_evidence =
  ev_id :: uuid
  ev_organization_id :: uuid
  ev_safety_event_id :: uuid
  ev_kind :: evidence_kind
  ev_telemetry_window :: "pydict option"
  ev_storage_key :: "string option"
  ev_content_type :: "string option"
  ev_captured_at :: "instant option"
  ev_status :: evidence_status
  ev_size_bytes :: "int option"
  ev_original_filename :: "string option"
  ev_uploaded_by_user_id :: "uuid option"
  ev_uploaded_by_api_client_id :: "uuid option"
  ev_redaction_status :: string
  ev_deleted_at :: "instant option"
  ev_created_at :: instant

subsection \<open>Coaching\<close>

datatype coaching_status = CoOpen | CoInProgress | CoCompleted | CoCanceled

datatype coaching_outcome = Coached | NoActionNeeded | Escalated | DriverUnavailable

record coaching_action =
  ca_id :: uuid
  ca_organization_id :: uuid
  ca_safety_event_id :: "uuid option"
  ca_driver_id :: "uuid option"
  ca_assignee_user_id :: "uuid option"
  ca_created_by_user_id :: "uuid option"
  ca_title :: string
  ca_description :: "string option"
  ca_status :: coaching_status
  ca_due_at :: "instant option"
  ca_notes :: "string option"
  ca_outcome :: "coaching_outcome option"
  ca_outcome_notes :: "string option"
  ca_started_at :: "instant option"
  ca_completed_at :: "instant option"
  ca_canceled_at :: "instant option"
  ca_cancel_reason :: "string option"
  ca_created_at :: instant

subsection \<open>E-mail, audit trail and outbox\<close>

datatype email_status = MailPending | MailSending | MailSent | MailDeadLetter | MailCanceled

record email_message =
  em_id :: uuid
  em_organization_id :: "uuid option"
  em_recipient :: string
  em_template :: string
  em_context :: pydict
  em_secret_context_enc :: "string option"
  em_related :: "(string \<times> uuid) option"
  em_status :: email_status
  em_attempts :: int
  em_max_attempts :: int
  em_next_attempt_at :: instant
  em_last_error :: "string option"
  em_provider_message_id :: "uuid option"
  em_idempotency_key :: "(string \<times> uuid \<times> string) option"
  em_sent_at :: "instant option"
  em_created_at :: instant

record audit_log =
  al_organization_id :: "uuid option"
  al_actor_user_id :: "uuid option"
  al_actor_label :: string
  al_action :: string
  al_resource_type :: string
  al_resource_id :: "uuid option"
  al_ip_address :: "string option"
  al_request_id :: "string option"

datatype outbox_status = OutPending | OutProcessing | OutDone | OutDeadLetter

text \<open>The payloads of the event types the worker knows; any other type carries no payload here.\<close>

datatype outbox_payload =
    IngestAccepted (pl_org: uuid) (pl_ingest_event: uuid) (pl_ingest_type: string)
  | SafetyCreated (pl_org: uuid) (pl_safety_event: uuid) (pl_event_type: event_type) (pl_severity: severity)
  | OtherEvent string

record outbox_event =
  ob_id :: uuid
  ob_payload :: outbox_payload
  ob_status :: outbox_status
  ob_attempts :: int
  ob_next_attempt_at :: instant
  ob_last_error :: "string option"
  ob_occurred_at :: instant
  ob_processed_at :: "instant option"

subsection \<open>Notifications and webhooks\<close>

text \<open>The texts of a notification (\<^verbatim>\<open>title_tr\<close>, \<^verbatim>\<open>body_tr\<close>) are left out.\<close>

datatype rule_kind = SeverityThreshold | DeviceOffline | GeofenceRule

datatype channel = InApp | WebhookChannel | OtherChannel string

record notification_rule =
  nr_id :: uuid
  nr_organization_id :: uuid
  nr_name :: string
  nr_kind :: rule_kind
  nr_min_severity :: severity
  nr_channels :: "channel list"
  nr_active :: bool

datatype notification_level = LevelInfo | LevelWarning | LevelCritical

record notification =
  nt_id :: uuid
  nt_organization_id :: uuid
  nt_rule_id :: "uuid option"
  nt_safety_event_id :: "uuid option"
  nt_level :: notification_level
  nt_read_at :: "instant option"
  nt_created_at :: instant

record webhook_endpoint =
  we_id :: uuid
  we_organization_id :: uuid
  we_url :: string
  we_description :: "string option"
  we_secret_enc :: string
  we_active :: bool
  we_last_success_at :: "instant option"
  we_last_failure_at :: "instant option"

datatype delivery_status = DelPending | DelDelivered | DelFailed | DelDeadLetter

text \<open>The payload of a delivery: that of a safety event, or the sender of a test.\<close>

datatype delivery_payload = SafetyPayload uuid event_type severity | TestPayload string

record webhook_delivery =
  wd_id :: uuid
  wd_organization_id :: uuid
  wd_endpoint_id :: uuid
  wd_event_type :: string
  wd_payload :: delivery_payload
  wd_status :: delivery_status
  wd_attempts :: int
  wd_next_attempt_at :: instant
  wd_last_error :: "string option"
  wd_response_status :: "int option"
  wd_delivered_at :: "instant option"
  wd_created_at :: instant

subsection \<open>Plans and subscriptions\<close>

record plan =
  pl_key :: string
  pl_name_tr :: string
  pl_vehicle_limit :: int
  pl_user_limit :: int
  pl_retention_days :: int
  pl_monthly_price_try :: "float64 option"

datatype subscription_status = SubTrial | SubActive | SubPastDue | SubCanceled

record subscription =
  sub_id :: uuid
  sub_organization_id :: uuid
  sub_plan_key :: string
  sub_status :: subscription_status
  sub_billing_mode :: string
  sub_trial_ends_at :: "instant option"
  sub_canceled_at :: "instant option"

text \<open>A metric of \<^verbatim>\<open>usage_records\<close>; \<open>ur_period_start\<close> is the day it describes, as a number of days.\<close>

record usage_record =
  ur_id :: uuid
  ur_organization_id :: uuid
  ur_metric :: string
  ur_value :: int
  ur_recorded_at :: instant
  ur_period_start :: int

subsection \<open>Requests of data subjects\<close>

datatype privacy_kind = PrivExport | PrivErasure

datatype privacy_subject = SubjDriver | SubjUser

datatype privacy_status = PrPending | PrProcessing | PrCompleted | PrFailed | PrCanceled

record privacy_request =
  pr_id :: uuid
  pr_organization_id :: uuid
  pr_kind :: privacy_kind
  pr_subject_type :: privacy_subject
  pr_subject_id :: uuid
  pr_requested_by_user_id :: "uuid option"
  pr_reason :: "string option"
  pr_status :: privacy_status
  pr_attempts :: int
  pr_next_attempt_at :: instant
  pr_artifact_key :: "string option"
  pr_artifact_size_bytes :: "int option"
  pr_artifact_expires_at :: "instant option"
  pr_result :: "(string \<times> int) list"
  pr_error_code :: "string option"
  pr_completed_at :: "instant option"
  pr_created_at :: instant

subsection \<open>Road risks and geofences\<close>

record road_risk =
  rr_id :: uuid
  rr_organization_id :: uuid
  rr_risk_type :: string
  rr_center_latitude :: float64
  rr_center_longitude :: float64
  rr_radius_m :: float64
  rr_observed_count :: int
  rr_inferred_severity :: severity
  rr_confidence :: float64
  rr_source :: string
  rr_source_reliability :: "float64 option"
  rr_starts_at :: instant
  rr_expires_at :: "instant option"
  rr_last_observed_at :: "instant option"
  rr_review_status :: review_status

datatype geofence_kind = HighRisk | Depot | RestrictedArea | CustomArea

record geofence =
  gf_id :: uuid
  gf_organization_id :: uuid
  gf_name :: string
  gf_kind :: geofence_kind
  gf_center_latitude :: float64
  gf_center_longitude :: float64
  gf_radius_m :: float64
  gf_active :: bool
  gf_notes :: "string option"

subsection \<open>The database\<close>

record db =
  organizations :: "organization list"
  organization_settings_rows :: "organization_settings list"
  users :: "user list"
  memberships :: "membership list"
  invitations :: "invitation list"
  user_tokens :: "user_token list"
  mfa_recovery_codes :: "mfa_recovery_code list"
  mfa_challenges :: "mfa_challenge list"
  sessions :: "session list"
  api_clients :: "api_client list"
  api_tokens :: "api_token list"
  fleets :: "fleet list"
  vehicles :: "vehicle list"
  drivers :: "driver list"
  driver_assignments :: "driver_assignment list"
  devices :: "device list"
  cameras :: "camera list"
  data_sources :: "data_source list"
  ingest_events :: "ingest_event list"
  trips :: "trip list"
  telemetry_points :: "telemetry_point list"
  safety_events :: "safety_event list"
  event_evidence_rows :: "event_evidence list"
  coaching_actions :: "coaching_action list"
  email_messages :: "email_message list"
  audit_logs :: "audit_log list"
  outbox_events :: "outbox_event list"
  notification_rules :: "notification_rule list"
  notifications :: "notification list"
  webhook_endpoints :: "webhook_endpoint list"
  webhook_deliveries :: "webhook_delivery list"
  plans :: "plan list"
  subscriptions :: "subscription list"
  usage_records :: "usage_record list"
  privacy_requests :: "privacy_request list"
  road_risks :: "road_risk list"
  geofences :: "geofence list"
  next_id :: uuid

definition empty_db :: db where
  "empty_db = \<lparr>organizations = [], organization_settings_rows = [], users = [], memberships = [],
     invitations = [], user_tokens = [], mfa_recovery_codes = [], mfa_challenges = [], sessions = [],
     api_clients = [], api_tokens = [], fleets = [], vehicles = [], drivers = [],
     driver_assignments = [], devices = [], cameras = [], data_sources = [], ingest_events = [],
     trips = [], telemetry_points = [], safety_events = [], event_evidence_rows = [],
     coaching_actions = [], email_messages = [], audit_logs = [], outbox_events = [],
     notification_rules = [], notifications = [], webhook_endpoints = [], webhook_deliveries = [], plans = [],
     subscriptions = [], usage_records = [], privacy_requests = [], road_risks = [], geofences = [], next_id = 0\<rparr>"

end
