(* ===== verification/Outbox.thy ===== *)
theory Outbox
  imports Schema
begin

section \<open>Audit trail and transactional outbox: the writers\<close>

text \<open>
  \<^verbatim>\<open>application/audit.py\<close> and \<^verbatim>\<open>application/outbox.py\<close>: both append a row in the
  transaction of the change they record. The free-form \<^verbatim>\<open>data\<close> column of an audit row is not
  modelled.
\<close>

definition record_audit ::
    "request_context \<Rightarrow> string \<Rightarrow> string \<Rightarrow> uuid option \<Rightarrow> uuid option \<Rightarrow> db \<Rightarrow> db" where
  "record_audit ctx action resource_type resource_id organization_id d =
     d\<lparr>audit_logs := audit_logs d @
       [\<lparr>al_organization_id = (case organization_id of Some oid \<Rightarrow> Some oid | None \<Rightarrow> c_organization_id ctx),
         al_actor_user_id = c_user_id ctx,
         al_actor_label = c_actor_label ctx,
         al_action = action,
         al_resource_type = resource_type,
         al_resource_id = resource_id,
         al_ip_address = c_ip_address ctx,
         al_request_id = c_request_id ctx\<rparr>]\<rparr>"

definition publish_event :: "instant \<Rightarrow> outbox_payload \<Rightarrow> db \<Rightarrow> db" where
  "publish_event now payload d =
     d\<lparr>outbox_events := outbox_events d @
       [\<lparr>ob_id = next_id d, ob_payload = payload, ob_status = OutPending, ob_attempts = 0,
         ob_next_attempt_at = now, ob_last_error = None, ob_occurred_at = now, ob_processed_at = None\<rparr>],
       next_id := Suc (next_id d)\<rparr>"

text \<open>
  Both only append: every other table is untouched. The bundle \<open>audit_frame\<close> is what the
  component proofs use instead of unfolding the definitions.
\<close>

lemma record_audit_frame:
  "organizations (record_audit c a rt ri oid d) = organizations d"
  "organization_settings_rows (record_audit c a rt ri oid d) = organization_settings_rows d"
  "users (record_audit c a rt ri oid d) = users d"
  "memberships (record_audit c a rt ri oid d) = memberships d"
  "invitations (record_audit c a rt ri oid d) = invitations d"
  "user_tokens (record_audit c a rt ri oid d) = user_tokens d"
  "mfa_recovery_codes (record_audit c a rt ri oid d) = mfa_recovery_codes d"
  "mfa_challenges (record_audit c a rt ri oid d) = mfa_challenges d"
  "sessions (record_audit c a rt ri oid d) = sessions d"
  "api_clients (record_audit c a rt ri oid d) = api_clients d"
  "api_tokens (record_audit c a rt ri oid d) = api_tokens d"
  "fleets (record_audit c a rt ri oid d) = fleets d"
  "vehicles (record_audit c a rt ri oid d) = vehicles d"
  "drivers (record_audit c a rt ri oid d) = drivers d"
  "driver_assignments (record_audit c a rt ri oid d) = driver_assignments d"
  "devices (record_audit c a rt ri oid d) = devices d"
  "cameras (record_audit c a rt ri oid d) = cameras d"
  "data_sources (record_audit c a rt ri oid d) = data_sources d"
  "ingest_events (record_audit c a rt ri oid d) = ingest_events d"
  "trips (record_audit c a rt ri oid d) = trips d"
  "telemetry_points (record_audit c a rt ri oid d) = telemetry_points d"
  "safety_events (record_audit c a rt ri oid d) = safety_events d"
  "event_evidence_rows (record_audit c a rt ri oid d) = event_evidence_rows d"
  "coaching_actions (record_audit c a rt ri oid d) = coaching_actions d"
  "email_messages (record_audit c a rt ri oid d) = email_messages d"
  "outbox_events (record_audit c a rt ri oid d) = outbox_events d"
  "notification_rules (record_audit c a rt ri oid d) = notification_rules d"
  "notifications (record_audit c a rt ri oid d) = notifications d"
  "webhook_endpoints (record_audit c a rt ri oid d) = webhook_endpoints d"
  "webhook_deliveries (record_audit c a rt ri oid d) = webhook_deliveries d"
  "plans (record_audit c a rt ri oid d) = plans d"
  "subscriptions (record_audit c a rt ri oid d) = subscriptions d"
  "usage_records (record_audit c a rt ri oid d) = usage_records d"
  "privacy_requests (record_audit c a rt ri oid d) = privacy_requests d"
  "road_risks (record_audit c a rt ri oid d) = road_risks d"
  "next_id (record_audit c a rt ri oid d) = next_id d"
  by (simp_all add: record_audit_def)

lemma publish_event_frame:
  "organizations (publish_event t p d) = organizations d"
  "organization_settings_rows (publish_event t p d) = organization_settings_rows d"
  "users (publish_event t p d) = users d"
  "memberships (publish_event t p d) = memberships d"
  "invitations (publish_event t p d) = invitations d"
  "user_tokens (publish_event t p d) = user_tokens d"
  "mfa_recovery_codes (publish_event t p d) = mfa_recovery_codes d"
  "mfa_challenges (publish_event t p d) = mfa_challenges d"
  "sessions (publish_event t p d) = sessions d"
  "fleets (publish_event t p d) = fleets d"
  "vehicles (publish_event t p d) = vehicles d"
  "drivers (publish_event t p d) = drivers d"
  "driver_assignments (publish_event t p d) = driver_assignments d"
  "data_sources (publish_event t p d) = data_sources d"
  "ingest_events (publish_event t p d) = ingest_events d"
  "trips (publish_event t p d) = trips d"
  "telemetry_points (publish_event t p d) = telemetry_points d"
  "safety_events (publish_event t p d) = safety_events d"
  "event_evidence_rows (publish_event t p d) = event_evidence_rows d"
  "coaching_actions (publish_event t p d) = coaching_actions d"
  "email_messages (publish_event t p d) = email_messages d"
  "audit_logs (publish_event t p d) = audit_logs d"
  "notification_rules (publish_event t p d) = notification_rules d"
  "notifications (publish_event t p d) = notifications d"
  "webhook_endpoints (publish_event t p d) = webhook_endpoints d"
  "webhook_deliveries (publish_event t p d) = webhook_deliveries d"
  "plans (publish_event t p d) = plans d"
  "subscriptions (publish_event t p d) = subscriptions d"
  "usage_records (publish_event t p d) = usage_records d"
  "privacy_requests (publish_event t p d) = privacy_requests d"
  "road_risks (publish_event t p d) = road_risks d"
  by (simp_all add: publish_event_def)

lemmas audit_frame [simp, tbl] = record_audit_frame publish_event_frame

text \<open>The audit trail is append-only.\<close>

lemma record_audit_append: "prefix (audit_logs d) (audit_logs (record_audit c a rt ri oid d))"
  by (simp add: record_audit_def)

lemma record_audit_length [simp, tbl]:
  "length (audit_logs (record_audit c a rt ri oid d)) = Suc (length (audit_logs d))"
  by (simp add: record_audit_def)

lemma publish_event_next_id [simp, tbl]: "next_id (publish_event t p d) = Suc (next_id d)"
  by (simp add: publish_event_def)

lemma publish_event_length [simp, tbl]:
  "length (outbox_events (publish_event t p d)) = Suc (length (outbox_events d))"
  by (simp add: publish_event_def)

end
