(* ===== verification/Subscriptions.thy ===== *)
theory Subscriptions
  imports Outbox
begin

section \<open>Plans, subscriptions and the limits they enforce\<close>

text \<open>
  \<^verbatim>\<open>domain/usage.py\<close> (trial expiry, the effective status), \<^verbatim>\<open>application/saas/service.py\<close>
  (entitlements, the vehicle and user limits, trial start, plan change) and \<^verbatim>\<open>expire_trials\<close> of
  \<^verbatim>\<open>application/saas/usage.py\<close>. The usage snapshots are not modelled.
\<close>

subsection \<open>Trial rules\<close>

definition trial_has_expired :: "subscription_status \<Rightarrow> instant option \<Rightarrow> instant \<Rightarrow> bool" where
  "trial_has_expired status trial_ends_at now \<longleftrightarrow>
     status = SubTrial \<and> (case trial_ends_at of None \<Rightarrow> False | Some t \<Rightarrow> t \<le> now)"

definition effective_status :: "subscription_status \<Rightarrow> instant option \<Rightarrow> instant \<Rightarrow> subscription_status" where
  "effective_status status trial_ends_at now =
     (if trial_has_expired status trial_ends_at now then SubPastDue else status)"

definition trial_days_left :: "subscription_status \<Rightarrow> instant option \<Rightarrow> instant \<Rightarrow> int option" where
  "trial_days_left status trial_ends_at now =
     (case trial_ends_at of
        None \<Rightarrow> None
      | Some t \<Rightarrow>
          if status \<noteq> SubTrial then None
          else Some (max 0 \<lceil>fdiv (total_seconds (t - now)) 86400\<rceil>))"

definition growth_blocked_statuses :: "subscription_status list" where
  "growth_blocked_statuses = [SubPastDue, SubCanceled]"

subsection \<open>Entitlements\<close>

definition default_trial_plan :: string where
  "default_trial_plan = ''baslangic''"

definition plan_catalog :: "plan list" where
  "plan_catalog =
    [\<lparr>pl_key = ''baslangic'', pl_name_tr = ''Baslangic'', pl_vehicle_limit = 10, pl_user_limit = 5,
      pl_retention_days = 90, pl_monthly_price_try = Some 4900\<rparr>,
     \<lparr>pl_key = ''profesyonel'', pl_name_tr = ''Profesyonel'', pl_vehicle_limit = 100, pl_user_limit = 25,
      pl_retention_days = 365, pl_monthly_price_try = Some 19900\<rparr>,
     \<lparr>pl_key = ''kurumsal'', pl_name_tr = ''Kurumsal'', pl_vehicle_limit = -1, pl_user_limit = -1,
      pl_retention_days = 730, pl_monthly_price_try = None\<rparr>]"

record entitlements =
  en_plan_key :: string
  en_plan_name_tr :: string
  en_status :: subscription_status
  en_vehicle_limit :: int
  en_user_limit :: int
  en_retention_days :: int
  en_trial_ends_at :: "instant option"
  en_billing_mode :: string
  en_trial_days_left :: "int option"
  en_growth_blocked :: bool

definition start_trial :: "instant \<Rightarrow> uuid \<Rightarrow> db \<Rightarrow> db" where
  "start_trial now org d =
     d\<lparr>subscriptions := subscriptions d @
        [\<lparr>sub_id = next_id d, sub_organization_id = org, sub_plan_key = default_trial_plan,
          sub_status = SubTrial, sub_billing_mode = ''manual_invoice'',
          sub_trial_ends_at = Some (now + days 30), sub_canceled_at = None\<rparr>],
       next_id := Suc (next_id d)\<rparr>"

definition subscription_join :: "uuid \<Rightarrow> db \<Rightarrow> (subscription \<times> plan) list" where
  "subscription_join org d =
     [(s, p). s \<leftarrow> subscriptions d, p \<leftarrow> plans d, pl_key p = sub_plan_key s \<and> sub_organization_id s = org]"

definition get_entitlements :: "instant \<Rightarrow> uuid \<Rightarrow> db \<Rightarrow> entitlements result" where
  "get_entitlements now org d =
     bind (one_or_none (subscription_join org d)) (\<lambda>pair. case pair of
       None \<Rightarrow>
        (case find (\<lambda>p. pl_key p = default_trial_plan) (plans d) of
           None \<Rightarrow> Inl (PyRuntimeError ''plan_catalog_missing'')
         | Some p \<Rightarrow> Inr
            \<lparr>en_plan_key = pl_key p, en_plan_name_tr = pl_name_tr p, en_status = SubTrial,
             en_vehicle_limit = pl_vehicle_limit p, en_user_limit = pl_user_limit p,
             en_retention_days = pl_retention_days p, en_trial_ends_at = None,
             en_billing_mode = ''manual_invoice'', en_trial_days_left = None, en_growth_blocked = False\<rparr>)
     | Some (s, p) \<Rightarrow>
         (let status = effective_status (sub_status s) (sub_trial_ends_at s) now in Inr
            \<lparr>en_plan_key = pl_key p, en_plan_name_tr = pl_name_tr p, en_status = status,
             en_vehicle_limit = pl_vehicle_limit p, en_user_limit = pl_user_limit p,
             en_retention_days = pl_retention_days p, en_trial_ends_at = sub_trial_ends_at s,
             en_billing_mode = sub_billing_mode s,
             en_trial_days_left = trial_days_left status (sub_trial_ends_at s) now,
             en_growth_blocked = (status \<in> set growth_blocked_statuses)\<rparr>))"

definition ensure_growth_allowed :: "entitlements \<Rightarrow> unit result" where
  "ensure_growth_allowed e = raise_if (en_growth_blocked e) (DomainConflictError ''subscription_inactive'')"

definition enforce_vehicle_limit :: "instant \<Rightarrow> uuid \<Rightarrow> db \<Rightarrow> unit result" where
  "enforce_vehicle_limit now org d =
     bind (get_entitlements now org d) (\<lambda>e.
     bind (ensure_growth_allowed e) (\<lambda>_.
       if en_vehicle_limit e < 0 then Inr ()
       else raise_if (en_vehicle_limit e \<le> int (count_rows (\<lambda>v. v_organization_id v = org) (vehicles d)))
              (DomainConflictError ''vehicle_limit'')))"

definition enforce_user_limit :: "instant \<Rightarrow> uuid \<Rightarrow> db \<Rightarrow> unit result" where
  "enforce_user_limit now org d =
     bind (get_entitlements now org d) (\<lambda>e.
     bind (ensure_growth_allowed e) (\<lambda>_.
       if en_user_limit e < 0 then Inr ()
       else raise_if (en_user_limit e \<le> int (count_rows (\<lambda>m. m_organization_id m = org) (memberships d)))
              (DomainConflictError ''user_limit'')))"

definition change_plan :: "uuid \<Rightarrow> string \<Rightarrow> db \<Rightarrow> (subscription \<times> db) result" where
  "change_plan org plan_key d =
     (case find (\<lambda>p. pl_key p = plan_key) (plans d) of
        None \<Rightarrow> Inl (DomainConflictError ''unknown_plan'')
      | Some p \<Rightarrow>
          bind (one_or_none (filter (\<lambda>s. sub_organization_id s = org) (subscriptions d))) (\<lambda>row. case row of
            None \<Rightarrow>
              (let s = \<lparr>sub_id = next_id d, sub_organization_id = org, sub_plan_key = plan_key,
                        sub_status = SubActive, sub_billing_mode = ''manual_invoice'',
                        sub_trial_ends_at = None, sub_canceled_at = None\<rparr>
               in Inr (s, d\<lparr>subscriptions := subscriptions d @ [s], next_id := Suc (next_id d)\<rparr>))
          | Some s0 \<Rightarrow>
              (let s = s0\<lparr>sub_plan_key := plan_key, sub_status := SubActive, sub_trial_ends_at := None\<rparr>
               in Inr (s, d\<lparr>subscriptions :=
                    tupd (\<lambda>r. sub_id r = sub_id s0)
                      (\<lambda>r. r\<lparr>sub_plan_key := plan_key, sub_status := SubActive, sub_trial_ends_at := None\<rparr>)
                      (subscriptions d)\<rparr>))))"

subsection \<open>The maintenance job that expires trials\<close>

text \<open>
  \<open>locked\<close> is the set of rows another transaction holds (\<^verbatim>\<open>FOR UPDATE SKIP LOCKED\<close>).
\<close>

definition billing_context :: "uuid \<Rightarrow> request_context" where
  "billing_context org = system_context\<lparr>c_organization_id := Some org, c_actor_label := ''system:billing''\<rparr>"

definition trial_due :: "uuid list \<Rightarrow> instant \<Rightarrow> subscription \<Rightarrow> bool" where
  "trial_due locked now s \<longleftrightarrow> sub_id s \<notin> set locked \<and> sub_status s = SubTrial \<and>
     (case sub_trial_ends_at s of None \<Rightarrow> False | Some t \<Rightarrow> t \<le> now)"

definition expire_trials :: "uuid list \<Rightarrow> instant \<Rightarrow> db \<Rightarrow> nat \<times> db" where
  "expire_trials locked now d =
     (let due = filter (trial_due locked now) (subscriptions d);
          d1 = d\<lparr>subscriptions := tupd (trial_due locked now) (\<lambda>s. s\<lparr>sub_status := SubPastDue\<rparr>) (subscriptions d)\<rparr>
      in (length due,
          fold (\<lambda>s. record_audit (billing_context (sub_organization_id s))
                   ''subscription.trial_expired'' ''subscription'' (Some (sub_id s)) None) due d1))"

subsection \<open>Facts\<close>

text \<open>An inversion of \<open>enforce_vehicle_limit\<close>: what is known when it lets the caller go on.\<close>

lemma enforce_vehicle_limit_ok:
  assumes "enforce_vehicle_limit now org d = Inr ()"
  obtains e where "get_entitlements now org d = Inr e" "\<not> en_growth_blocked e"
    "en_vehicle_limit e < 0 \<or> int (count_rows (\<lambda>v. v_organization_id v = org) (vehicles d)) < en_vehicle_limit e"
  using assms
  by (auto simp: enforce_vehicle_limit_def bind_eq_Inr ensure_growth_allowed_def not_le split: if_splits)

lemma enforce_user_limit_ok:
  assumes "enforce_user_limit now org d = Inr ()"
  obtains e where "get_entitlements now org d = Inr e" "\<not> en_growth_blocked e"
    "en_user_limit e < 0 \<or> int (count_rows (\<lambda>m. m_organization_id m = org) (memberships d)) < en_user_limit e"
  using assms
  by (auto simp: enforce_user_limit_def bind_eq_Inr ensure_growth_allowed_def not_le split: if_splits)

lemma get_entitlements_cong:
  assumes "subscriptions d' = subscriptions d" and "plans d' = plans d"
  shows "get_entitlements now org d' = get_entitlements now org d"
  unfolding get_entitlements_def subscription_join_def assms ..

lemma get_entitlements_blocked:
  "get_entitlements now org d = Inr e \<Longrightarrow> en_growth_blocked e \<longleftrightarrow> en_status e \<in> {SubPastDue, SubCanceled}"
  by (auto simp: get_entitlements_def bind_eq_Inr growth_blocked_statuses_def Let_def split: option.splits)

lemma effective_status_idem [simp]:
  "effective_status (effective_status st t now) t now = effective_status st t now"
  by (simp add: effective_status_def trial_has_expired_def)

lemma effective_status_expired: "t \<le> now \<Longrightarrow> effective_status SubTrial (Some t) now = SubPastDue"
  by (simp add: effective_status_def trial_has_expired_def)

lemma fold_record_audit_frame [simp]:
  "subscriptions (fold (\<lambda>s. record_audit (c s) a rt (ri s) oid) xs d) = subscriptions d"
  "plans (fold (\<lambda>s. record_audit (c s) a rt (ri s) oid) xs d) = plans d"
  "length (audit_logs (fold (\<lambda>s. record_audit (c s) a rt (ri s) oid) xs d)) = length (audit_logs d) + length xs"
  by (induction xs arbitrary: d) simp_all

text \<open>Expiring a trial row does not change the status the enforcement computes from it.\<close>

lemma expire_row_effective:
  "trial_due locked now s \<Longrightarrow>
   effective_status SubPastDue (sub_trial_ends_at s) now = effective_status (sub_status s) (sub_trial_ends_at s) now"
  by (auto simp: trial_due_def effective_status_def trial_has_expired_def split: option.splits)

lemma subscription_join_tupd:
  assumes "\<And>s. sub_organization_id (f s) = sub_organization_id s" "\<And>s. sub_plan_key (f s) = sub_plan_key s"
  shows "subscription_join org (d\<lparr>subscriptions := tupd p f (subscriptions d)\<rparr>) =
         map (\<lambda>(s, q). (if p s then f s else s, q)) (subscription_join org d)"
proof -
  have "concat (map (\<lambda>s. concat (map (\<lambda>q. if pl_key q = sub_plan_key s \<and> sub_organization_id s = org
            then [(s, q)] else []) ps)) (tupd p f ss)) =
        map (\<lambda>(s, q). (if p s then f s else s, q))
          (concat (map (\<lambda>s. concat (map (\<lambda>q. if pl_key q = sub_plan_key s \<and> sub_organization_id s = org
            then [(s, q)] else []) ps)) ss))" for ps ss
    by (induction ss) (auto simp: assms map_concat intro!: arg_cong [where f = concat])
  then show ?thesis
    by (simp add: subscription_join_def)
qed

lemma one_or_none_map: "one_or_none (map f xs) = (case one_or_none xs of Inl e \<Rightarrow> Inl e | Inr x \<Rightarrow> Inr (map_option f x))"
  by (auto simp: one_or_none_def split: list.splits)

lemma expire_trials_frame:
  "subscriptions (snd (expire_trials locked now d)) =
     tupd (trial_due locked now) (\<lambda>s. s\<lparr>sub_status := SubPastDue\<rparr>) (subscriptions d)"
  "plans (snd (expire_trials locked now d)) = plans d"
  by (simp_all add: expire_trials_def Let_def)

lemma subscription_join_expire_trials:
  "subscription_join org (snd (expire_trials locked now d)) =
     map (\<lambda>(s, p). (if trial_due locked now s then s\<lparr>sub_status := SubPastDue\<rparr> else s, p)) (subscription_join org d)"
proof -
  have "subscription_join org (snd (expire_trials locked now d)) =
        subscription_join org (d\<lparr>subscriptions := tupd (trial_due locked now) (\<lambda>s. s\<lparr>sub_status := SubPastDue\<rparr>) (subscriptions d)\<rparr>)"
    by (simp add: subscription_join_def expire_trials_frame)
  then show ?thesis
    by (simp add: subscription_join_tupd)
qed

text \<open>
  The limits a tenant is held to do not depend on whether the maintenance job that flips
  expired trials to past_due has already run: whatever rows the job could lock, the entitlements
  computed at its instant are the same before and after it.
\<close>

theorem entitlements_independent_of_expiry_job:
  "get_entitlements now org (snd (expire_trials locked now d)) = get_entitlements now org d"
proof (cases "one_or_none (subscription_join org d)")
  case (Inr row)
  show ?thesis
  proof (cases row)
    case (Some sp)
    then show ?thesis
      using Inr
      by (cases sp) (auto simp: get_entitlements_def subscription_join_expire_trials one_or_none_map Let_def
          expire_row_effective)
  qed (use Inr in \<open>auto simp: get_entitlements_def subscription_join_expire_trials one_or_none_map
      expire_trials_frame\<close>)
qed (auto simp: get_entitlements_def subscription_join_expire_trials one_or_none_map)

end
