(* ===== verification/Fleet.thy ===== *)
theory Fleet
  imports Subscriptions
begin

section \<open>The fleet: vehicles, drivers, devices, cameras, assignments\<close>

text \<open>
  \<^verbatim>\<open>application/fleet/service.py\<close> over the tables of \<^verbatim>\<open>infrastructure/db/models/fleet.py\<close>.
  Every operation runs in the request's transaction: \<open>Inl\<close> is an exception, after which nothing
  is kept. \<open>flush_unique\<close> is the flush of the pending rows: it fails when the table's
  constraints (unique indexes, foreign keys, NOT NULL, CHECK) do not hold of the new contents.
  Listings by name (drivers, fleets) depend on the collation of the database and are left out.
\<close>

subsection \<open>Constraints\<close>

definition has_id :: "('r \<Rightarrow> uuid) \<Rightarrow> 'r list \<Rightarrow> uuid option \<Rightarrow> bool" where
  "has_id key rows i = (case i of None \<Rightarrow> True | Some j \<Rightarrow> tget key rows j \<noteq> None)"

definition fleet_constraints :: "db \<Rightarrow> bool" where
  "fleet_constraints d \<longleftrightarrow> unique_on (\<lambda>_. True) (\<lambda>f. (f_organization_id f, f_name f)) (fleets d)"

definition vehicle_constraints :: "db \<Rightarrow> bool" where
  "vehicle_constraints d \<longleftrightarrow>
     unique_on (\<lambda>_. True) (\<lambda>v. (v_organization_id v, v_external_id v)) (vehicles d) \<and>
     list_all (\<lambda>v. case v_year v of None \<Rightarrow> True | Some y \<Rightarrow> 1950 \<le> y \<and> y \<le> 2100) (vehicles d) \<and>
     list_all (\<lambda>v. has_id f_id (fleets d) (v_fleet_id v)) (vehicles d)"

definition driver_constraints :: "db \<Rightarrow> bool" where
  "driver_constraints d \<longleftrightarrow>
     unique_on (\<lambda>_. True) (\<lambda>r. (d_organization_id r, d_external_id r)) (drivers d)"

definition assignment_constraints :: "db \<Rightarrow> bool" where
  "assignment_constraints d \<longleftrightarrow>
     unique_on (\<lambda>a. da_ended_at a = None) da_vehicle_id (driver_assignments d) \<and>
     list_all (\<lambda>a. has_id d_id (drivers d) (Some (da_driver_id a)) \<and>
                   has_id v_id (vehicles d) (Some (da_vehicle_id a))) (driver_assignments d)"

definition device_constraints :: "db \<Rightarrow> bool" where
  "device_constraints d \<longleftrightarrow>
     unique_on (\<lambda>_. True) (\<lambda>r. (dev_organization_id r, dev_external_id r)) (devices d) \<and>
     list_all (\<lambda>r. dev_kind r \<in> {''telematics'', ''dashcam'', ''sensor'', ''gateway''} \<and>
                   has_id v_id (vehicles d) (dev_vehicle_id r)) (devices d)"

definition camera_constraints :: "db \<Rightarrow> bool" where
  "camera_constraints d \<longleftrightarrow>
     unique_on (\<lambda>_. True) (\<lambda>r. (cam_organization_id r, cam_external_id r)) (cameras d) \<and>
     list_all (\<lambda>r. cam_position r \<in> {''road'', ''driver'', ''cabin'', ''rear''} \<and>
                   has_id v_id (vehicles d) (cam_vehicle_id r) \<and>
                   has_id dev_id (devices d) (cam_device_id r)) (cameras d)"

subsection \<open>Helpers of the service\<close>

definition require :: "('r \<Rightarrow> uuid) \<Rightarrow> ('r \<Rightarrow> uuid) \<Rightarrow> 'r list \<Rightarrow> uuid \<Rightarrow> uuid \<Rightarrow> string \<Rightarrow> 'r result" where
  "require key org rows tenant i tag =
     (case tget key rows i of
        None \<Rightarrow> Inl (DomainNotFoundError tag)
      | Some r \<Rightarrow> if org r \<noteq> tenant then Inl (DomainNotFoundError tag) else Inr r)"

definition require_opt ::
    "('r \<Rightarrow> uuid) \<Rightarrow> ('r \<Rightarrow> uuid) \<Rightarrow> 'r list \<Rightarrow> uuid \<Rightarrow> uuid option \<Rightarrow> string \<Rightarrow> unit result" where
  "require_opt key org rows tenant i tag =
     (case i of None \<Rightarrow> Inr () | Some j \<Rightarrow> bind (require key org rows tenant j tag) (\<lambda>_. Inr ()))"

definition flush_unique :: "bool \<Rightarrow> string \<Rightarrow> unit result" where
  "flush_unique constraints_hold tag = raise_if (\<not> constraints_hold) (DomainConflictError tag)"

definition paginate :: "nat \<Rightarrow> nat \<Rightarrow> 'r list \<Rightarrow> 'r list \<times> nat" where
  "paginate limit offset rows = (take limit (drop offset rows), length rows)"

lemma require_ok [exn]:
  "require key org rows tenant i tag = Inr r \<longleftrightarrow> tget key rows i = Some r \<and> org r = tenant"
  by (auto simp: require_def split: option.splits)

text \<open>The reference \<open>i\<close>, when there is one, is to a row of the tenant.\<close>

definition in_tenant :: "('r \<Rightarrow> uuid) \<Rightarrow> ('r \<Rightarrow> uuid) \<Rightarrow> 'r list \<Rightarrow> uuid \<Rightarrow> uuid option \<Rightarrow> bool" where
  "in_tenant key org rows tenant i \<longleftrightarrow>
     (case i of None \<Rightarrow> True
      | Some j \<Rightarrow> (case tget key rows j of None \<Rightarrow> False | Some r \<Rightarrow> org r = tenant))"

lemma require_opt_ok [exn]:
  "require_opt key org rows tenant i tag = Inr u \<longleftrightarrow> in_tenant key org rows tenant i"
  by (auto simp: require_opt_def in_tenant_def bind_eq_Inr require_ok split: option.splits)

lemma in_tenant_Some: "tget key rows i = Some r \<Longrightarrow> in_tenant key org rows t (Some i) \<longleftrightarrow> org r = t"
  by (simp add: in_tenant_def)

lemma in_tenant_append: "in_tenant key org rows t i \<Longrightarrow> in_tenant key org (rows @ [r]) t i"
  by (auto simp: in_tenant_def tget_append split: option.splits)

lemma in_tenant_tupd:
  "(\<And>r. key (f r) = key r) \<Longrightarrow> (\<And>r. org (f r) = org r) \<Longrightarrow> in_tenant key org rows t i \<Longrightarrow>
   in_tenant key org (tupd p f rows) t i"
  by (auto simp: in_tenant_def tget_tupd split: option.splits)

lemma has_id_append: "has_id key rows i \<Longrightarrow> has_id key (rows @ [r]) i"
  by (auto simp: has_id_def tget_append split: option.splits)

lemma has_id_tupd: "(\<And>r. key (f r) = key r) \<Longrightarrow> has_id key rows i \<Longrightarrow> has_id key (tupd p f rows) i"
  by (auto simp: has_id_def tget_tupd split: option.splits)

lemmas ref_mono = in_tenant_append in_tenant_tupd has_id_append has_id_tupd

lemma flush_unique_ok [simp, exn]: "flush_unique c tag = Inr u \<longleftrightarrow> c"
  by (simp add: flush_unique_def)

subsection \<open>Vehicles\<close>

definition create_vehicle ::
    "instant \<Rightarrow> request_context \<Rightarrow> uuid \<Rightarrow> string \<Rightarrow> string option \<Rightarrow> string option \<Rightarrow> string option \<Rightarrow>
     string option \<Rightarrow> int option \<Rightarrow> uuid option \<Rightarrow> db \<Rightarrow> (vehicle \<times> db) result" where
  "create_vehicle now ctx tenant external_id plate label mk mdl yr fleet_id d =
     bind (enforce_vehicle_limit now tenant d) (\<lambda>_.
     bind (require_opt f_id f_organization_id (fleets d) tenant fleet_id ''fleet'') (\<lambda>_.
       let v = \<lparr>v_id = next_id d, v_organization_id = tenant, v_fleet_id = fleet_id,
                v_vehicle_group_id = None, v_external_id = strip external_id, v_plate = plate,
                v_label = label, v_make = mk, v_model = mdl, v_year = yr,
                v_status = VehActive, v_attributes = [], v_created_at = now\<rparr>;
           d1 = d\<lparr>vehicles := vehicles d @ [v], next_id := Suc (next_id d)\<rparr>
       in bind (flush_unique (vehicle_constraints d1) ''vehicle_external_id'') (\<lambda>_.
            Inr (v, record_audit ctx ''vehicle.created'' ''vehicle'' (Some (v_id v)) None d1))))"

definition list_vehicles :: "uuid \<Rightarrow> nat \<Rightarrow> nat \<Rightarrow> uuid option \<Rightarrow> db \<Rightarrow> vehicle list \<times> nat" where
  "list_vehicles tenant limit offset fleet_id d =
     paginate limit offset
       (order_by (\<lambda>v. - v_created_at v)
          (filter (\<lambda>v. v_organization_id v = tenant \<and> (fleet_id \<noteq> None \<longrightarrow> v_fleet_id v = fleet_id)) (vehicles d)))"

definition get_vehicle :: "uuid \<Rightarrow> uuid \<Rightarrow> db \<Rightarrow> vehicle result" where
  "get_vehicle tenant i d = require v_id v_organization_id (vehicles d) tenant i ''vehicle''"

text \<open>
  The body of a \<^verbatim>\<open>PATCH\<close>: a field is \<open>None\<close> when the client left it out
  (\<^verbatim>\<open>exclude_unset\<close>) and \<open>Some x\<close> when it gave it, null included. A vehicle's status may
  be given as null, which the NOT NULL column refuses at the flush.
\<close>

record vehicle_update =
  vu_plate :: "string option option"
  vu_label :: "string option option"
  vu_status :: "vehicle_status option option"
  vu_fleet_id :: "uuid option option"

definition apply_vehicle_update :: "vehicle_update \<Rightarrow> vehicle \<Rightarrow> vehicle" where
  "apply_vehicle_update u v =
     v\<lparr>v_plate := (case vu_plate u of None \<Rightarrow> v_plate v | Some x \<Rightarrow> x),
       v_label := (case vu_label u of None \<Rightarrow> v_label v | Some x \<Rightarrow> x),
       v_status := (case vu_status u of Some (Some x) \<Rightarrow> x | _ \<Rightarrow> v_status v),
       v_fleet_id := (case vu_fleet_id u of None \<Rightarrow> v_fleet_id v | Some x \<Rightarrow> x)\<rparr>"

definition update_vehicle ::
    "request_context \<Rightarrow> uuid \<Rightarrow> uuid \<Rightarrow> vehicle_update \<Rightarrow> db \<Rightarrow> (vehicle \<times> db) result" where
  "update_vehicle ctx tenant i u d =
     bind (get_vehicle tenant i d) (\<lambda>v.
       let d1 = d\<lparr>vehicles := tupd (\<lambda>r. v_id r = i) (apply_vehicle_update u) (vehicles d)\<rparr>
       in bind (flush_unique (vehicle_constraints d1 \<and> vu_status u \<noteq> Some None) ''vehicle_update'') (\<lambda>_.
            Inr (apply_vehicle_update u v,
                 record_audit ctx ''vehicle.updated'' ''vehicle'' (Some i) None d1)))"

subsection \<open>Drivers\<close>

definition create_driver ::
    "request_context \<Rightarrow> uuid \<Rightarrow> string \<Rightarrow> string \<Rightarrow> string option \<Rightarrow> db \<Rightarrow> (driver \<times> db) result" where
  "create_driver ctx tenant external_id full_name phone d =
     (let r = \<lparr>d_id = next_id d, d_organization_id = tenant, d_external_id = strip external_id,
               d_full_name = full_name, d_user_id = None, d_license_number_enc = None,
               d_phone = phone, d_status = DrvActive, d_erased_at = None\<rparr>;
          d1 = d\<lparr>drivers := drivers d @ [r], next_id := Suc (next_id d)\<rparr>
      in bind (flush_unique (driver_constraints d1) ''driver_external_id'') (\<lambda>_.
           Inr (r, record_audit ctx ''driver.created'' ''driver'' (Some (d_id r)) None d1)))"

definition get_driver :: "uuid \<Rightarrow> uuid \<Rightarrow> db \<Rightarrow> driver result" where
  "get_driver tenant i d = require d_id d_organization_id (drivers d) tenant i ''driver''"

subsection \<open>Devices\<close>

definition create_device ::
    "request_context \<Rightarrow> uuid \<Rightarrow> string \<Rightarrow> string \<Rightarrow> string option \<Rightarrow> uuid option \<Rightarrow> db \<Rightarrow> (device \<times> db) result" where
  "create_device ctx tenant external_id kind label vehicle_id d =
     bind (require_opt v_id v_organization_id (vehicles d) tenant vehicle_id ''vehicle'') (\<lambda>_.
       let r = \<lparr>dev_id = next_id d, dev_organization_id = tenant, dev_vehicle_id = vehicle_id,
                dev_external_id = strip external_id, dev_kind = kind, dev_label = label,
                dev_status = DevActive, dev_last_seen_at = None\<rparr>;
           d1 = d\<lparr>devices := devices d @ [r], next_id := Suc (next_id d)\<rparr>
       in bind (flush_unique (device_constraints d1) ''device_external_id'') (\<lambda>_.
            Inr (r, record_audit ctx ''device.created'' ''device'' (Some (dev_id r)) None d1)))"

text \<open>A null status is refused before the service (\<^verbatim>\<open>_reject_null_status\<close>).\<close>

record device_update =
  du_label :: "string option option"
  du_status :: "device_status option"
  du_vehicle_id :: "uuid option option"

definition apply_device_update :: "device_update \<Rightarrow> device \<Rightarrow> device" where
  "apply_device_update u r =
     r\<lparr>dev_label := (case du_label u of None \<Rightarrow> dev_label r | Some x \<Rightarrow> x),
       dev_status := (case du_status u of None \<Rightarrow> dev_status r | Some x \<Rightarrow> x),
       dev_vehicle_id := (case du_vehicle_id u of None \<Rightarrow> dev_vehicle_id r | Some x \<Rightarrow> x)\<rparr>"

definition given :: "'a option option \<Rightarrow> 'a option" where
  "given x = (case x of Some (Some y) \<Rightarrow> Some y | _ \<Rightarrow> None)"

definition update_device ::
    "request_context \<Rightarrow> uuid \<Rightarrow> uuid \<Rightarrow> device_update \<Rightarrow> db \<Rightarrow> (device \<times> db) result" where
  "update_device ctx tenant i u d =
     bind (require dev_id dev_organization_id (devices d) tenant i ''device'') (\<lambda>r.
     bind (require_opt v_id v_organization_id (vehicles d) tenant (given (du_vehicle_id u)) ''vehicle'') (\<lambda>_.
       let d1 = d\<lparr>devices := tupd (\<lambda>q. dev_id q = i) (apply_device_update u) (devices d)\<rparr>
       in bind (flush_unique (device_constraints d1) ''device_update'') (\<lambda>_.
            Inr (apply_device_update u r,
                 record_audit ctx ''device.updated'' ''device'' (Some i) None d1))))"

subsection \<open>Driver assignments\<close>

definition assign_driver ::
    "instant \<Rightarrow> request_context \<Rightarrow> uuid \<Rightarrow> uuid \<Rightarrow> uuid \<Rightarrow> instant option \<Rightarrow> db \<Rightarrow> (driver_assignment \<times> db) result" where
  "assign_driver now ctx tenant driver_id vehicle_id started_at d =
     bind (get_driver tenant driver_id d) (\<lambda>_.
     bind (get_vehicle tenant vehicle_id d) (\<lambda>_.
       let a = \<lparr>da_id = next_id d, da_organization_id = tenant, da_driver_id = driver_id,
                da_vehicle_id = vehicle_id,
                da_started_at = (case started_at of None \<Rightarrow> now | Some t \<Rightarrow> t), da_ended_at = None\<rparr>;
           d1 = d\<lparr>driver_assignments := driver_assignments d @ [a], next_id := Suc (next_id d)\<rparr>
       in bind (flush_unique (assignment_constraints d1) ''assignment_open'') (\<lambda>_.
            Inr (a, record_audit ctx ''driver.assigned'' ''driver_assignment'' (Some (da_id a)) None d1))))"

definition end_assignment ::
    "instant \<Rightarrow> request_context \<Rightarrow> uuid \<Rightarrow> uuid \<Rightarrow> instant option \<Rightarrow> db \<Rightarrow> (driver_assignment \<times> db) result" where
  "end_assignment now ctx tenant i ended_at d =
     bind (require da_id da_organization_id (driver_assignments d) tenant i ''assignment'') (\<lambda>a.
     bind (raise_if (da_ended_at a \<noteq> None) (DomainConflictError ''assignment_closed'')) (\<lambda>_.
       let t = (case ended_at of None \<Rightarrow> now | Some t \<Rightarrow> t);
           d1 = d\<lparr>driver_assignments :=
                    tupd (\<lambda>q. da_id q = i) (\<lambda>q. q\<lparr>da_ended_at := Some t\<rparr>) (driver_assignments d)\<rparr>
       in Inr (a\<lparr>da_ended_at := Some t\<rparr>,
               record_audit ctx ''driver.assignment_ended'' ''driver_assignment'' (Some i) None d1)))"

definition list_assignments :: "uuid \<Rightarrow> uuid option \<Rightarrow> db \<Rightarrow> driver_assignment list" where
  "list_assignments tenant vehicle_id d =
     order_by (\<lambda>a. - da_started_at a)
       (filter (\<lambda>a. da_organization_id a = tenant \<and>
                    (vehicle_id \<noteq> None \<longrightarrow> Some (da_vehicle_id a) = vehicle_id)) (driver_assignments d))"

subsection \<open>Fleets and cameras\<close>

definition create_fleet ::
    "request_context \<Rightarrow> uuid \<Rightarrow> string \<Rightarrow> string option \<Rightarrow> db \<Rightarrow> (fleet \<times> db) result" where
  "create_fleet ctx tenant name region d =
     (let r = \<lparr>f_id = next_id d, f_organization_id = tenant, f_name = name, f_region = region\<rparr>;
          d1 = d\<lparr>fleets := fleets d @ [r], next_id := Suc (next_id d)\<rparr>
      in bind (flush_unique (fleet_constraints d1) ''fleet_name'') (\<lambda>_.
           Inr (r, record_audit ctx ''fleet.created'' ''fleet'' (Some (f_id r)) None d1)))"

definition create_camera ::
    "request_context \<Rightarrow> uuid \<Rightarrow> string \<Rightarrow> string \<Rightarrow> uuid option \<Rightarrow> uuid option \<Rightarrow> db \<Rightarrow> (camera \<times> db) result" where
  "create_camera ctx tenant external_id position vehicle_id device_id d =
     bind (require_opt v_id v_organization_id (vehicles d) tenant vehicle_id ''vehicle'') (\<lambda>_.
     bind (require_opt dev_id dev_organization_id (devices d) tenant device_id ''device'') (\<lambda>_.
       let r = \<lparr>cam_id = next_id d, cam_organization_id = tenant, cam_device_id = device_id,
                cam_vehicle_id = vehicle_id, cam_external_id = strip external_id,
                cam_position = position, cam_connection_ref = None, cam_status = CamActive,
                cam_last_verified_at = None\<rparr>;
           d1 = d\<lparr>cameras := cameras d @ [r], next_id := Suc (next_id d)\<rparr>
       in bind (flush_unique (camera_constraints d1) ''camera_external_id'') (\<lambda>_.
            Inr (r, record_audit ctx ''camera.created'' ''camera'' (Some (cam_id r)) None d1))))"

record camera_update =
  cu_status :: "camera_status option"
  cu_vehicle_id :: "uuid option option"
  cu_device_id :: "uuid option option"

definition apply_camera_update :: "camera_update \<Rightarrow> camera \<Rightarrow> camera" where
  "apply_camera_update u r =
     r\<lparr>cam_status := (case cu_status u of None \<Rightarrow> cam_status r | Some x \<Rightarrow> x),
       cam_vehicle_id := (case cu_vehicle_id u of None \<Rightarrow> cam_vehicle_id r | Some x \<Rightarrow> x),
       cam_device_id := (case cu_device_id u of None \<Rightarrow> cam_device_id r | Some x \<Rightarrow> x)\<rparr>"

definition update_camera ::
    "request_context \<Rightarrow> uuid \<Rightarrow> uuid \<Rightarrow> camera_update \<Rightarrow> db \<Rightarrow> (camera \<times> db) result" where
  "update_camera ctx tenant i u d =
     bind (require cam_id cam_organization_id (cameras d) tenant i ''camera'') (\<lambda>r.
     bind (require_opt v_id v_organization_id (vehicles d) tenant (given (cu_vehicle_id u)) ''vehicle'') (\<lambda>_.
     bind (require_opt dev_id dev_organization_id (devices d) tenant (given (cu_device_id u)) ''device'') (\<lambda>_.
       let d1 = d\<lparr>cameras := tupd (\<lambda>q. cam_id q = i) (apply_camera_update u) (cameras d)\<rparr>
       in bind (flush_unique (camera_constraints d1) ''camera_update'') (\<lambda>_.
            Inr (apply_camera_update u r,
                 record_audit ctx ''camera.updated'' ''camera'' (Some i) None d1)))))"

subsection \<open>The invariant of the fleet tables\<close>

text \<open>
  Every constraint of the tables holds, and a device, camera or assignment refers only to rows of
  its own tenant. (A vehicle's fleet is not in the list: see \<open>update_vehicle_foreign_fleet\<close>.)
\<close>

definition fleet_inv :: "db \<Rightarrow> bool" where
  "fleet_inv d \<longleftrightarrow>
     ids_ok dev_id (next_id d) (devices d) \<and> ids_ok cam_id (next_id d) (cameras d) \<and>
     fleet_constraints d \<and> vehicle_constraints d \<and> driver_constraints d \<and>
     assignment_constraints d \<and> device_constraints d \<and> camera_constraints d \<and>
     list_all (\<lambda>r. in_tenant v_id v_organization_id (vehicles d) (dev_organization_id r) (dev_vehicle_id r)) (devices d) \<and>
     list_all (\<lambda>a. in_tenant d_id d_organization_id (drivers d) (da_organization_id a) (Some (da_driver_id a)) \<and>
                   in_tenant v_id v_organization_id (vehicles d) (da_organization_id a) (Some (da_vehicle_id a)))
       (driver_assignments d) \<and>
     list_all (\<lambda>r. in_tenant v_id v_organization_id (vehicles d) (cam_organization_id r) (cam_vehicle_id r) \<and>
                   in_tenant dev_id dev_organization_id (devices d) (cam_organization_id r) (cam_device_id r))
       (cameras d)"

text \<open>One committed request of the fleet API.\<close>

inductive fleet_step :: "db \<Rightarrow> db \<Rightarrow> bool" where
  "create_vehicle now ctx t e p l mk mdl y f d = Inr (v, d') \<Longrightarrow> fleet_step d d'"
| "update_vehicle ctx t i vu d = Inr (v, d') \<Longrightarrow> fleet_step d d'"
| "create_driver ctx t e n ph d = Inr (r, d') \<Longrightarrow> fleet_step d d'"
| "create_device ctx t e k l vi d = Inr (dv, d') \<Longrightarrow> fleet_step d d'"
| "update_device ctx t i du d = Inr (dv, d') \<Longrightarrow> fleet_step d d'"
| "assign_driver now ctx t di vi st d = Inr (a, d') \<Longrightarrow> fleet_step d d'"
| "end_assignment now ctx t i et d = Inr (a, d') \<Longrightarrow> fleet_step d d'"
| "create_fleet ctx t nm rg d = Inr (flt, d') \<Longrightarrow> fleet_step d d'"
| "create_camera ctx t e pos vi dvi d = Inr (c, d') \<Longrightarrow> fleet_step d d'"
| "update_camera ctx t i cu d = Inr (c, d') \<Longrightarrow> fleet_step d d'"

inductive fleet_reachable :: "db \<Rightarrow> bool" where
  start: "fleets d = [] \<Longrightarrow> vehicles d = [] \<Longrightarrow> drivers d = [] \<Longrightarrow> devices d = [] \<Longrightarrow> cameras d = [] \<Longrightarrow>
          driver_assignments d = [] \<Longrightarrow> fleet_reachable d"
| step: "fleet_reachable d \<Longrightarrow> fleet_step d d' \<Longrightarrow> fleet_reachable d'"

lemmas fleet_ops = create_vehicle_def update_vehicle_def get_vehicle_def create_driver_def get_driver_def
  create_device_def update_device_def assign_driver_def end_assignment_def create_fleet_def
  create_camera_def update_camera_def

lemmas fleet_constraint_defs = fleet_constraints_def vehicle_constraints_def driver_constraints_def
  assignment_constraints_def device_constraints_def camera_constraints_def

lemma apply_updates_keys [simp]:
  "v_id (apply_vehicle_update vu v) = v_id v"
  "v_organization_id (apply_vehicle_update vu v) = v_organization_id v"
  "dev_id (apply_device_update du r) = dev_id r"
  "dev_organization_id (apply_device_update du r) = dev_organization_id r"
  "cam_id (apply_camera_update cu c) = cam_id c"
  "cam_organization_id (apply_camera_update cu c) = cam_organization_id c"
  by (simp_all add: apply_vehicle_update_def apply_device_update_def apply_camera_update_def)

lemmas fleet_inv_defs = fleet_inv_def fleet_constraint_defs

text \<open>The tables that refer to a changed table keep their references.\<close>

lemma fleet_inv_vehicles:
  assumes "fleet_inv d" "vehicle_constraints d'"
    "vehicles d' = vehicles d @ [v] \<or> vehicles d' = tupd p (apply_vehicle_update u) (vehicles d)"
    "fleets d' = fleets d" "drivers d' = drivers d" "devices d' = devices d" "cameras d' = cameras d"
    "driver_assignments d' = driver_assignments d" "next_id d \<le> next_id d'"
  shows "fleet_inv d'"
proof -
  have h: "has_id v_id (vehicles d') i" if "has_id v_id (vehicles d) i" for i
    using assms(3) that by (auto simp: has_id_append has_id_tupd)
  have t: "in_tenant v_id v_organization_id (vehicles d') o1 i"
    if "in_tenant v_id v_organization_id (vehicles d) o1 i" for o1 i
    using assms(3) that by (auto simp: in_tenant_append in_tenant_tupd)
  show ?thesis
    using assms(1,2,4-9) unfolding fleet_inv_defs
    by (auto simp: list_all_iff h t intro: ids_ok_mono)
qed

lemma fleet_inv_devices:
  assumes "fleet_inv d" "device_constraints d'" "ids_ok dev_id (next_id d') (devices d')"
    "devices d' = devices d @ [r] \<or> devices d' = tupd p (apply_device_update u) (devices d)"
    "list_all (\<lambda>r. in_tenant v_id v_organization_id (vehicles d) (dev_organization_id r) (dev_vehicle_id r)) (devices d')"
    "fleets d' = fleets d" "drivers d' = drivers d" "vehicles d' = vehicles d" "cameras d' = cameras d"
    "driver_assignments d' = driver_assignments d" "next_id d \<le> next_id d'"
  shows "fleet_inv d'"
proof -
  have h: "has_id dev_id (devices d') i" if "has_id dev_id (devices d) i" for i
    using assms(4) that by (auto simp: has_id_append has_id_tupd)
  have t: "in_tenant dev_id dev_organization_id (devices d') o1 i"
    if "in_tenant dev_id dev_organization_id (devices d) o1 i" for o1 i
    using assms(4) that by (auto simp: in_tenant_append in_tenant_tupd)
  show ?thesis
    using assms(1-3,5-11) unfolding fleet_inv_defs
    by (auto simp: list_all_iff h t intro: ids_ok_mono)
qed

lemma fleet_inv_create_vehicle:
  "fleet_inv d \<Longrightarrow> create_vehicle now ctx t e p l mk mdl y f d = Inr (v, d') \<Longrightarrow> fleet_inv d'"
  by (erule fleet_inv_vehicles [where v = v])
     (auto simp: create_vehicle_def bind_eq_Inr Let_def vehicle_constraints_def)

lemma fleet_inv_update_vehicle:
  "fleet_inv d \<Longrightarrow> update_vehicle ctx t i u d = Inr (v, d') \<Longrightarrow> fleet_inv d'"
  by (erule fleet_inv_vehicles [where p = "\<lambda>r. v_id r = i" and u = u])
     (auto simp: update_vehicle_def bind_eq_Inr Let_def vehicle_constraints_def)

lemma fleet_inv_create_driver:
  "fleet_inv d \<Longrightarrow> create_driver ctx t e n ph d = Inr (r, d') \<Longrightarrow> fleet_inv d'"
  by (auto simp: create_driver_def bind_eq_Inr Let_def fleet_inv_defs
      list_all_iff has_id_append in_tenant_append ids_ok_Suc)

lemma fleet_inv_create_device:
  "fleet_inv d \<Longrightarrow> create_device ctx t e k l vi d = Inr (r, d') \<Longrightarrow> fleet_inv d'"
  by (rule fleet_inv_devices [where d = d and r = r])
     (auto simp: create_device_def bind_eq_Inr Let_def device_constraints_def require_opt_ok fleet_inv_def
       ids_ok_snoc)

lemma fleet_inv_create_fleet:
  "fleet_inv d \<Longrightarrow> create_fleet ctx t nm rg d = Inr (r, d') \<Longrightarrow> fleet_inv d'"
  by (auto simp: create_fleet_def bind_eq_Inr Let_def fleet_inv_defs
      list_all_iff has_id_append ids_ok_Suc)

lemma fleet_inv_create_camera:
  "fleet_inv d \<Longrightarrow> create_camera ctx t e pos vi di d = Inr (r, d') \<Longrightarrow> fleet_inv d'"
  by (auto simp: create_camera_def bind_eq_Inr Let_def fleet_inv_defs require_opt_ok
      ids_ok_Suc ids_ok_snoc)

lemma fleet_inv_assign_driver:
  "fleet_inv d \<Longrightarrow> assign_driver now ctx t di vi st d = Inr (r, d') \<Longrightarrow> fleet_inv d'"
  by (auto simp: assign_driver_def get_driver_def get_vehicle_def bind_eq_Inr Let_def fleet_inv_defs require_ok
      ids_ok_Suc in_tenant_Some)

lemma fleet_inv_end_assignment:
  "fleet_inv d \<Longrightarrow> end_assignment now ctx t i et d = Inr (r, d') \<Longrightarrow> fleet_inv d'"
  by (auto simp: end_assignment_def bind_eq_Inr Let_def fleet_inv_defs
      intro!: unique_on_tupd list_all_tupd)

lemma in_tenant_given:
  "in_tenant key org rows t (given x) \<Longrightarrow> in_tenant key org rows t old \<Longrightarrow>
   in_tenant key org rows t (case x of None \<Rightarrow> old | Some y \<Rightarrow> y)"
  by (auto simp: given_def in_tenant_def split: option.splits)

lemma fleet_inv_update_device:
  assumes "fleet_inv d" "update_device ctx t i u d = Inr (r, d')"
  shows "fleet_inv d'"
proof -
  obtain r0 where r0: "tget dev_id (devices d) i = Some r0" "dev_organization_id r0 = t"
      "in_tenant v_id v_organization_id (vehicles d) t (given (du_vehicle_id u))"
    and d': "device_constraints (d\<lparr>devices := tupd (\<lambda>q. dev_id q = i) (apply_device_update u) (devices d)\<rparr>)"
      "d' = record_audit ctx ''device.updated'' ''device'' (Some i) None
              (d\<lparr>devices := tupd (\<lambda>q. dev_id q = i) (apply_device_update u) (devices d)\<rparr>)"
    using assms(2) by (auto simp: update_device_def bind_eq_Inr Let_def require_ok require_opt_ok)
  have ids: "ids_ok dev_id (next_id d) (devices d)"
    using assms(1) by (simp add: fleet_inv_def)
  have "list_all (\<lambda>r. in_tenant v_id v_organization_id (vehicles d) (dev_organization_id r) (dev_vehicle_id r)) (devices d')"
    using assms(1) r0 unfolding d'(2)
    by (auto intro!: list_all_tupd_key [OF ids r0(1)] in_tenant_given
        simp: fleet_inv_def apply_device_update_def)
  then show ?thesis
    using d' ids by (intro fleet_inv_devices [OF assms(1), where p = "\<lambda>q. dev_id q = i" and u = u])
      (auto simp: device_constraints_def ids_ok_tupd)
qed

lemma fleet_inv_update_camera:
  assumes "fleet_inv d" "update_camera ctx t i u d = Inr (r, d')"
  shows "fleet_inv d'"
proof -
  let ?cams = "tupd (\<lambda>q. cam_id q = i) (apply_camera_update u) (cameras d)"
  let ?ok = "\<lambda>r. in_tenant v_id v_organization_id (vehicles d) (cam_organization_id r) (cam_vehicle_id r) \<and>
                 in_tenant dev_id dev_organization_id (devices d) (cam_organization_id r) (cam_device_id r)"
  obtain r0 where r0: "tget cam_id (cameras d) i = Some r0" "cam_organization_id r0 = t"
      "in_tenant v_id v_organization_id (vehicles d) t (given (cu_vehicle_id u))"
      "in_tenant dev_id dev_organization_id (devices d) t (given (cu_device_id u))"
    and d': "camera_constraints (d\<lparr>cameras := ?cams\<rparr>)"
      "d' = record_audit ctx ''camera.updated'' ''camera'' (Some i) None (d\<lparr>cameras := ?cams\<rparr>)"
    using assms(2) by (auto simp: update_camera_def bind_eq_Inr Let_def require_ok require_opt_ok)
  have ids: "ids_ok cam_id (next_id d) (cameras d)" and ok: "list_all ?ok (cameras d)"
    using assms(1) by (simp_all add: fleet_inv_def)
  have "list_all ?ok ?cams"
    using ok r0 by (intro list_all_tupd_key [OF ids r0(1) ok])
      (auto intro!: in_tenant_given simp: apply_camera_update_def)
  then show ?thesis
    using assms(1) d' ids by (auto simp: fleet_inv_defs ids_ok_tupd)
qed

lemmas fleet_inv_ops = fleet_inv_create_vehicle fleet_inv_update_vehicle fleet_inv_create_driver
  fleet_inv_create_device fleet_inv_update_device fleet_inv_assign_driver fleet_inv_end_assignment
  fleet_inv_create_fleet fleet_inv_create_camera fleet_inv_update_camera

lemma fleet_inv_step: "fleet_step d d' \<Longrightarrow> fleet_inv d \<Longrightarrow> fleet_inv d'"
  by (induction rule: fleet_step.induct) (blast intro: fleet_inv_ops)+

lemma fleet_inv_start:
  "fleets d = [] \<Longrightarrow> vehicles d = [] \<Longrightarrow> drivers d = [] \<Longrightarrow> devices d = [] \<Longrightarrow> cameras d = [] \<Longrightarrow>
   driver_assignments d = [] \<Longrightarrow> fleet_inv d"
  by (simp add: fleet_inv_defs)

subsection \<open>Properties\<close>

text \<open>
  C1: whatever requests the fleet API committed, every constraint of the fleet tables holds (in
  particular a vehicle has at most one open driver assignment) and a device, camera or assignment
  only ever refers to vehicles, devices and drivers of its own tenant.
\<close>

theorem fleet_reachable_inv: "fleet_reachable d \<Longrightarrow> fleet_inv d"
  by (induction rule: fleet_reachable.induct) (blast intro: fleet_inv_start fleet_inv_step)+

theorem fleet_reachable_inv_witness:
  "let d = committed (assign_driver 0 system_context 7 0 1 None)
            (committed (create_vehicle 0 system_context 7 '' V1'' None None None None None None)
              (committed (create_driver system_context 7 ''D1'' ''Ada'' None) (empty_db\<lparr>plans := plan_catalog\<rparr>)))
   in fleet_inv d \<and> map da_vehicle_id (driver_assignments d) = [1]"
proof -
  let ?d0 = "empty_db\<lparr>plans := plan_catalog\<rparr>"
  let ?d1 = "committed (create_driver system_context 7 ''D1'' ''Ada'' None) ?d0"
  let ?d2 = "committed (create_vehicle 0 system_context 7 '' V1'' None None None None None None) ?d1"
  let ?d3 = "committed (assign_driver 0 system_context 7 0 1 None) ?d2"
  have r0: "fleet_reachable ?d0"
    by (rule fleet_reachable.start) (simp_all add: empty_db_def)
  have "\<not> isl (create_driver system_context 7 ''D1'' ''Ada'' None ?d0)"
    by code_simp
  then have r1: "fleet_reachable ?d1"
    by (intro fleet_reachable.step [OF r0] fleet_step.intros(3) [OF committed_run])
  have "\<not> isl (create_vehicle 0 system_context 7 '' V1'' None None None None None None ?d1)"
    by code_simp
  then have r2: "fleet_reachable ?d2"
    by (intro fleet_reachable.step [OF r1] fleet_step.intros(1) [OF committed_run])
  have "\<not> isl (assign_driver 0 system_context 7 0 1 None ?d2)"
    by code_simp
  then have "fleet_reachable ?d3"
    by (intro fleet_reachable.step [OF r2] fleet_step.intros(6) [OF committed_run])
  then have "fleet_inv ?d3"
    by (rule fleet_reachable_inv)
  moreover have "map da_vehicle_id (driver_assignments ?d3) = [1]"
    by code_simp
  ultimately show ?thesis
    by (simp add: Let_def)
qed

text \<open>
  C16: creating a vehicle never takes a tenant over the limit of its plan: whenever the call
  succeeds on a plan with a limit, the tenant has at most that many vehicles afterwards, it is one
  more than before, and the subscription was not past due or canceled.
\<close>

theorem create_vehicle_within_limit:
  assumes "create_vehicle now ctx t e p l mk mdl y f d = Inr (v, d')"
    and "get_entitlements now t d = Inr ent" and "0 \<le> en_vehicle_limit ent"
  shows "int (count_rows (\<lambda>v. v_organization_id v = t) (vehicles d')) \<le> en_vehicle_limit ent \<and>
    count_rows (\<lambda>v. v_organization_id v = t) (vehicles d') =
      Suc (count_rows (\<lambda>v. v_organization_id v = t) (vehicles d)) \<and>
    en_status ent \<notin> {SubPastDue, SubCanceled}"
proof -
  have "enforce_vehicle_limit now t d = Inr ()"
    using assms(1) by (auto simp: create_vehicle_def bind_eq_Inr)
  then have "\<not> en_growth_blocked ent"
    "int (count_rows (\<lambda>v. v_organization_id v = t) (vehicles d)) < en_vehicle_limit ent"
    using assms(2,3) by (auto elim: enforce_vehicle_limit_ok)
  moreover have "en_growth_blocked ent \<longleftrightarrow> en_status ent \<in> {SubPastDue, SubCanceled}"
    by (rule get_entitlements_blocked [OF assms(2)])
  ultimately show ?thesis
    using assms(1) by (auto simp: create_vehicle_def bind_eq_Inr Let_def)
qed

theorem create_vehicle_within_limit_witness:
  "let d = empty_db\<lparr>plans := plan_catalog\<rparr>;
       d' = committed (create_vehicle 0 system_context 7 ''V1'' None None None None None None) d
   in count_rows (\<lambda>v. v_organization_id v = 7) (vehicles d') = 1 \<and>
      en_vehicle_limit (projr (get_entitlements 0 7 d)) = 10"
proof -
  let ?d = "empty_db\<lparr>plans := plan_catalog\<rparr>"
  let ?f = "create_vehicle 0 system_context 7 ''V1'' None None None None None None"
  have r: "\<not> isl (?f ?d)" and e: "\<not> isl (get_entitlements 0 7 ?d)"
    and l: "en_vehicle_limit (projr (get_entitlements 0 7 ?d)) = 10"
    and n: "count_rows (\<lambda>v. v_organization_id v = 7) (vehicles ?d) = 0"
    by code_simp+
  from create_vehicle_within_limit [OF committed_run [of ?f ?d, OF r] not_isl_projr [OF e]] show ?thesis
    using l n by (simp add: Let_def)
qed

text \<open>
  \<open>create_vehicle\<close> refuses the fleet of another tenant, \<open>update_vehicle\<close> does not: a
  \<^verbatim>\<open>PATCH\<close> whose \<^verbatim>\<open>fleet_id\<close> is any existing fleet, the tenant's own or not, succeeds and
  leaves the vehicle in that fleet. The same body is refused at creation.
\<close>

theorem update_vehicle_foreign_fleet:
  assumes "vehicle_constraints d" and "get_vehicle t i d = Inr v"
    and "tget f_id (fleets d) f = Some fleet" and "f_organization_id fleet \<noteq> t"
  shows "(\<exists>v' d'. update_vehicle ctx t i \<lparr>vu_plate = None, vu_label = None, vu_status = None,
                     vu_fleet_id = Some (Some f)\<rparr> d = Inr (v', d') \<and>
            v_organization_id v' = t \<and> v_fleet_id v' = Some f \<and> tget v_id (vehicles d') i = Some v') \<and>
         isl (create_vehicle now ctx t e p l mk mdl y (Some f) d)"
proof -
  let ?u = "\<lparr>vu_plate = None, vu_label = None, vu_status = None, vu_fleet_id = Some (Some f)\<rparr>"
  let ?d1 = "d\<lparr>vehicles := tupd (\<lambda>r. v_id r = i) (apply_vehicle_update ?u) (vehicles d)\<rparr>"
  have v: "tget v_id (vehicles d) i = Some v" "v_organization_id v = t"
    using assms(2) by (simp_all add: get_vehicle_def require_ok)
  have u: "apply_vehicle_update ?u r = r\<lparr>v_fleet_id := Some f\<rparr>" for r
    by (simp add: apply_vehicle_update_def)
  have "vehicle_constraints ?d1"
    using assms(1,3)
    by (auto simp: vehicle_constraints_def u has_id_def intro!: unique_on_tupd list_all_tupd)
  then have "\<exists>v' d'. update_vehicle ctx t i ?u d = Inr (v', d') \<and> v_organization_id v' = t \<and>
      v_fleet_id v' = Some f \<and> tget v_id (vehicles d') i = Some v'"
    using v assms(2) tget_SomeD [OF v(1)]
    by (auto simp: update_vehicle_def Let_def u tget_tupd flush_unique_def)
  moreover have "isl (create_vehicle now ctx t e p l mk mdl y (Some f) d)"
    using assms(3,4) by (cases "enforce_vehicle_limit now t d")
      (auto simp: create_vehicle_def require_opt_def require_def)
  ultimately show ?thesis
    by blast
qed

theorem update_vehicle_foreign_fleet_witness:
  "let d = committed (create_vehicle 0 system_context 7 ''V1'' None None None None None None)
            (committed (create_fleet system_context 8 ''other'' None) (empty_db\<lparr>plans := plan_catalog\<rparr>));
       u = \<lparr>vu_plate = None, vu_label = None, vu_status = None, vu_fleet_id = Some (Some 0)\<rparr>
   in map f_organization_id (fleets d) = [8] \<and>
      \<not> isl (update_vehicle system_context 7 1 u d) \<and>
      isl (create_vehicle 0 system_context 7 ''V2'' None None None None None (Some 0) d)"
proof -
  let ?d = "committed (create_vehicle 0 system_context 7 ''V1'' None None None None None None)
            (committed (create_fleet system_context 8 ''other'' None) (empty_db\<lparr>plans := plan_catalog\<rparr>))"
  let ?flt = "\<lparr>f_id = 0, f_organization_id = 8, f_name = ''other'', f_region = None\<rparr>"
  have g: "\<not> isl (get_vehicle 7 1 ?d)" and c: "vehicle_constraints ?d"
    and f: "tget f_id (fleets ?d) 0 = Some ?flt" and o: "map f_organization_id (fleets ?d) = [8]"
    by code_simp+
  have n: "f_organization_id ?flt \<noteq> 7"
    by simp
  note update_vehicle_foreign_fleet [OF c not_isl_projr [OF g] f n, where ctx = system_context and now = 0
      and e = "''V2''" and p = None and l = None and mk = None and mdl = None and y = None]
  then show ?thesis
    unfolding Let_def using o by (metis isl_def sum.disc(2))
qed

end
