(* ===== verification/RateLimit.thy ===== *)
theory RateLimit
  imports Prelude Float64 "HOL-Library.AList"
begin

section \<open>Rate limiting\<close>

text \<open>
  \<^verbatim>\<open>domain/ratelimit.py\<close> (the sliding-window arithmetic), the two limiters of
  \<^verbatim>\<open>infrastructure/ratelimit.py\<close> and \<^verbatim>\<open>enforce_rate_limit\<close> of \<^verbatim>\<open>api/ratelimit.py\<close>.
  Clock values are binary64 numbers of seconds between 0 and \<open>2^53\<close>, for which Python's \<^verbatim>\<open>//\<close>
  and \<^verbatim>\<open>%\<close> by an integer are exact. The Redis server is not part of the program: its pipeline, with
  its state, is a parameter of \<open>redis_hit\<close>. SHA-256 is the parameter \<open>sha256_hex\<close>.
\<close>

subsection \<open>Sliding-window arithmetic\<close>

record rate_limit_decision =
  allowed :: bool
  remaining :: int
  retry_after_seconds :: int

definition fmod :: "float64 \<Rightarrow> int \<Rightarrow> float64" where
  "fmod x w = fl (x - of_int w * of_int \<lfloor>x / of_int w\<rfloor>)"

definition window_index :: "float64 \<Rightarrow> int \<Rightarrow> int" where
  "window_index now_seconds window_seconds = \<lfloor>now_seconds / of_int window_seconds\<rfloor>"

definition sliding_estimate :: "int \<Rightarrow> int \<Rightarrow> float64 \<Rightarrow> int \<Rightarrow> float64" where
  "sliding_estimate current previous now_seconds window_seconds =
     (let elapsed = fdiv (fmod now_seconds window_seconds) (fl (of_int window_seconds))
      in fadd (fl (of_int current)) (fmul (fl (of_int previous)) (fsub 1 elapsed)))"

definition decide :: "float64 \<Rightarrow> int \<Rightarrow> float64 \<Rightarrow> int \<Rightarrow> rate_limit_decision" where
  "decide estimate limit now_seconds window_seconds =
     (let retry_after = window_seconds - trunc now_seconds mod window_seconds
      in \<lparr>allowed = (estimate \<le> of_int limit),
          remaining = max 0 (trunc (fsub (fl (of_int limit)) estimate)),
          retry_after_seconds = max 1 retry_after\<rparr>)"

subsection \<open>The in-memory limiter\<close>

type_synonym counters = "((string \<times> int) \<times> int) list"

definition max_tracked_keys :: int where
  "max_tracked_keys = 50000"

definition evict :: "int \<Rightarrow> counters \<Rightarrow> counters" where
  "evict index cs = (if max_tracked_keys < int (length cs) then filter (\<lambda>(k, v). index - 1 \<le> snd k) cs else cs)"

definition counter :: "counters \<Rightarrow> string \<Rightarrow> int \<Rightarrow> int" where
  "counter cs key index = (case map_of cs (key, index) of None \<Rightarrow> 0 | Some n \<Rightarrow> n)"

definition bump :: "int \<Rightarrow> string \<Rightarrow> counters \<Rightarrow> int \<times> int \<times> counters" where
  "bump index key cs =
     (let cs1 = evict index cs;
          n = counter cs1 key index + 1;
          cs2 = AList.update (key, index) n cs1
      in (n, counter cs2 key (index - 1), cs2))"

definition memory_hit :: "float64 \<Rightarrow> string \<Rightarrow> int \<Rightarrow> int \<Rightarrow> counters \<Rightarrow> rate_limit_decision \<times> counters" where
  "memory_hit now key limit window_seconds cs =
     (case bump (window_index now window_seconds) key cs of (n, previous, cs') \<Rightarrow>
        (decide (sliding_estimate n previous now window_seconds) limit now window_seconds, cs'))"

subsection \<open>The Redis limiter\<close>

text \<open>
  \<open>pipe incr ttl get\<close> is the transaction of the three commands: it increments the counter \<open>incr\<close>, sets its
  time to live when it has none, and reads the counter \<open>get\<close>; the reply is the new count and the old one.
\<close>

datatype redis_reply = RedisFailed | RedisReply int "int option"

definition redis_decision :: "redis_reply \<Rightarrow> float64 \<Rightarrow> int \<Rightarrow> int \<Rightarrow> rate_limit_decision" where
  "redis_decision reply now limit window_seconds =
     (case reply of
        RedisFailed \<Rightarrow> \<lparr>allowed = True, remaining = limit, retry_after_seconds = 0\<rparr>
      | RedisReply n previous \<Rightarrow>
          decide (sliding_estimate n (case previous of None \<Rightarrow> 0 | Some p \<Rightarrow> p) now window_seconds)
            limit now window_seconds)"

definition redis_key :: "string \<Rightarrow> int \<Rightarrow> string" where
  "redis_key key index = ''vr:rl:'' @ key @ '':'' @ int_text index"

definition redis_hit ::
    "(string \<Rightarrow> int \<Rightarrow> string \<Rightarrow> 's \<Rightarrow> redis_reply \<times> 's) \<Rightarrow> float64 \<Rightarrow> string \<Rightarrow> int \<Rightarrow> int \<Rightarrow> 's \<Rightarrow> rate_limit_decision \<times> 's" where
  "redis_hit pipe now key limit window_seconds s =
     (let index = window_index now window_seconds;
          (reply, s') = pipe (redis_key key index) (2 * window_seconds + 1) (redis_key key (index - 1)) s
      in (redis_decision reply now limit window_seconds, s'))"

subsection \<open>Enforcement in the route handlers\<close>

text \<open>\<open>Inl n\<close> is \<^verbatim>\<open>RateLimitedError\<close> with \<^verbatim>\<open>Retry-After: n\<close>.\<close>

definition enforce_rate_limit ::
    "(string \<Rightarrow> string) \<Rightarrow> (string \<Rightarrow> int \<Rightarrow> int \<Rightarrow> 's \<Rightarrow> rate_limit_decision \<times> 's) \<Rightarrow>
     string \<Rightarrow> string \<Rightarrow> int \<Rightarrow> int \<Rightarrow> 's \<Rightarrow> (int + unit) \<times> 's" where
  "enforce_rate_limit sha256_hex hit scope identity limit window_seconds s =
     (let digest = take 32 (sha256_hex (lower (strip identity)));
          (decision, s') = hit (scope @ '':'' @ digest) limit window_seconds s
      in (if \<not> allowed decision then Inl (retry_after_seconds decision) else Inr (), s'))"

subsection \<open>The interface: counters per key and window\<close>

text \<open>
  What the limiter needs from its counters: a hit counts itself and reads the previous window, and
  no counter of the current or the previous window is lost. \<open>run_hits\<close> is a sequence of requests
  \<open>(clock, key)\<close> against one limit; it returns the window, the key and whether the request passed.
\<close>

fun run_hits :: "(float64 \<Rightarrow> 'k \<Rightarrow> 's \<Rightarrow> rate_limit_decision \<times> 's) \<Rightarrow> int \<Rightarrow> (float64 \<times> 'k) list \<Rightarrow> 's \<Rightarrow>
    (int \<times> 'k \<times> bool) list" where
  "run_hits hit w [] s = []"
| "run_hits hit w ((now, k) # reqs) s =
     (case hit now k s of (dec, s') \<Rightarrow> (window_index now w, k, allowed dec) # run_hits hit w reqs s')"

definition passed :: "'k \<Rightarrow> int \<Rightarrow> (int \<times> 'k \<times> bool) list \<Rightarrow> nat" where
  "passed k i outcomes = length (filter (\<lambda>(j, k', ok). k' = k \<and> j = i \<and> ok) outcomes)"

definition valid_clock :: "float64 \<Rightarrow> bool" where
  "valid_clock now \<longleftrightarrow> 0 \<le> now \<and> now < 2 ^ 53"

locale sliding_counters =
  fixes count :: "'s \<Rightarrow> 'k \<Rightarrow> int \<Rightarrow> int"
    and bump :: "int \<Rightarrow> 'k \<Rightarrow> 's \<Rightarrow> int \<times> int \<times> 's"
    and ok :: "'s \<Rightarrow> bool"
  assumes bump_ok: "ok s \<Longrightarrow> bump i k s = (n, p, s') \<Longrightarrow> ok s' \<and> 0 \<le> p"
    and bump_count: "bump i k s = (n, p, s') \<Longrightarrow> n = count s k i + 1 \<and> p = count s k (i - 1)"
    and bump_keeps: "bump i k s = (n, p, s') \<Longrightarrow> i - 1 \<le> j \<Longrightarrow>
          count s' k' j = (if k' = k \<and> j = i then n else count s k' j)"
begin

lemma passed_bounded:
  assumes hit: "\<And>now k s dec s'. valid_clock now \<Longrightarrow> ok s \<Longrightarrow> hit now k s = (dec, s') \<Longrightarrow>
        \<exists>n p. bump (window_index now w) k s = (n, p, s') \<and> (allowed dec \<longrightarrow> n \<le> limit)"
    and "ok s" and "list_all (valid_clock \<circ> fst) reqs" and "sorted (map (\<lambda>r. window_index (fst r) w) reqs)"
  shows "int (passed k i (run_hits hit w reqs s)) \<le> max 0 (limit - count s k i)"
  using assms(2-4)
proof (induction reqs arbitrary: s)
  case (Cons r reqs)
  obtain now k0 where r: "r = (now, k0)"
    by (cases r)
  obtain dec s' where h: "hit now k0 s = (dec, s')"
    by fastforce
  obtain n p where b: "bump (window_index now w) k0 s = (n, p, s')" and le: "allowed dec \<longrightarrow> n \<le> limit"
    using hit [OF _ _ h] Cons.prems(1,2) by (auto simp: r)
  have IH: "int (passed k i (run_hits hit w reqs s')) \<le> max 0 (limit - count s' k i)"
    using Cons.IH Cons.prems bump_ok [OF _ b] by simp
  have n: "n = count s k0 (window_index now w) + 1"
    using bump_count [OF b] by simp
  show ?case
  proof (cases "window_index now w - 1 \<le> i")
    case True
    show ?thesis
      using IH le n bump_keeps [OF b True, of k]
      by (cases "k = k0 \<and> i = window_index now w"; cases "allowed dec") (auto simp: r h passed_def)
  next
    case False
    have later: "i < j" if "(j, k', ok) \<in> set (run_hits hit w reqs t)" for j k' ok t
      using that Cons.prems(3) False
    proof (induction reqs arbitrary: t)
      case (Cons q reqs)
      then show ?case
        by (cases q) (auto simp: r split: prod.splits)
    qed simp
    then have "filter (\<lambda>(j, k', ok). k' = k \<and> j = i \<and> ok) (run_hits hit w reqs s') = []"
      by (fastforce simp: filter_empty_conv)
    then show ?thesis
      using False by (simp add: r h passed_def)
  qed
qed (simp add: passed_def)

end

subsection \<open>Facts on the arithmetic\<close>

lemma elapsed_in_unit:
  assumes "valid_clock now" "0 < w" "w < 2 ^ 53"
  shows "0 \<le> fdiv (fmod now w) (fl (of_int w)) \<and> fdiv (fmod now w) (fl (of_int w)) \<le> 1"
proof -
  have w: "fl (of_int w) = of_int w"
    using assms by (intro fl_of_int) simp
  have w0: "0 < (of_int w :: rat)"
    using assms(2) by simp
  have "of_int w * of_int \<lfloor>now / of_int w\<rfloor> \<le> now" and "now < of_int w * (of_int \<lfloor>now / of_int w\<rfloor> + 1)"
    using floor_divide_lower [OF w0, of now] floor_divide_upper [OF w0, of now]
    by (simp_all add: algebra_simps)
  then have "0 \<le> now - of_int w * of_int \<lfloor>now / of_int w\<rfloor>" "now - of_int w * of_int \<lfloor>now / of_int w\<rfloor> \<le> of_int w"
    by (simp_all add: algebra_simps)
  then have "0 \<le> fmod now w \<and> fmod now w \<le> of_int w"
    unfolding fmod_def using fl_mono [of _ "of_int w"] by (simp add: fl_nonneg w)
  then show ?thesis
    unfolding fdiv_def w using assms(2) by (intro fl_in_unit) (simp_all add: field_simps)
qed

text \<open>The estimate is at least any integer below the hit count.\<close>

lemma sliding_estimate_ge:
  assumes "valid_clock now" "0 < w" "w < 2 ^ 53" "0 \<le> p" "m \<le> n" "\<bar>m\<bar> < 2 ^ 53"
  shows "of_int m \<le> sliding_estimate n p now w"
proof -
  let ?e = "fdiv (fmod now w) (fl (of_int w))"
  have "0 \<le> fsub 1 ?e"
    unfolding fsub_def using elapsed_in_unit [OF assms(1-3)] by (intro fl_nonneg) simp
  then have "0 \<le> fmul (fl (of_int p)) (fsub 1 ?e)"
    unfolding fmul_def using assms(4) by (intro fl_nonneg mult_nonneg_nonneg) (simp_all add: fl_nonneg)
  moreover have m: "of_int m \<le> fl (of_int n)"
    using fl_mono [of "of_int m" "of_int n"] assms(5,6) by (simp add: fl_of_int)
  ultimately have "of_int m \<le> fl (of_int n) + fmul (fl (of_int p)) (fsub 1 ?e)"
    by linarith
  then have "fl (of_int m) \<le> sliding_estimate n p now w"
    unfolding sliding_estimate_def Let_def fadd_def by (rule fl_mono)
  then show ?thesis
    using assms(6) by (simp add: fl_of_int)
qed

lemma allowed_count_le:
  assumes "allowed (decide (sliding_estimate n p now w) limit now w)"
    and "valid_clock now" "0 < w" "w < 2 ^ 53" "0 \<le> p" "0 \<le> limit" "limit < 2 ^ 52"
  shows "n \<le> limit"
proof (rule ccontr)
  assume "\<not> n \<le> limit"
  then have "of_int (limit + 1) \<le> sliding_estimate n p now w"
    using assms by (intro sliding_estimate_ge) simp_all
  then show False
    using assms(1) by (simp add: decide_def Let_def)
qed

lemma map_of_filter_key: "map_of (filter (\<lambda>(k, v). P k) al) k = (if P k then map_of al k else None)"
  by (induction al) auto

lemma counter_evict: "index - 1 \<le> j \<Longrightarrow> counter (evict index cs) key j = counter cs key j"
  by (simp add: counter_def evict_def map_of_filter_key)

lemma counter_update:
  "counter (AList.update (k, i) n cs) k' j = (if k' = k \<and> j = i then n else counter cs k' j)"
  by (auto simp: counter_def update_conv')

definition counters_ok :: "counters \<Rightarrow> bool" where
  "counters_ok cs \<longleftrightarrow> list_all (\<lambda>(k, n). 0 \<le> n) cs"

lemma counter_ok: "counters_ok cs \<Longrightarrow> 0 \<le> counter cs k i"
  by (auto simp: counters_ok_def counter_def list_all_iff dest: map_of_SomeD split: option.splits)

lemma counters_ok_update: "counters_ok cs \<Longrightarrow> 0 \<le> n \<Longrightarrow> counters_ok (AList.update k n cs)"
  by (induction cs) (auto simp: counters_ok_def)

lemma counters_ok_evict: "counters_ok cs \<Longrightarrow> counters_ok (evict i cs)"
  by (auto simp: counters_ok_def evict_def list_all_iff)

lemma bump_counters_ok: "counters_ok cs \<Longrightarrow> bump i k cs = (n, p, cs') \<Longrightarrow> counters_ok cs' \<and> 0 \<le> p"
  by (auto simp: bump_def Let_def counter_ok counters_ok_evict intro!: counters_ok_update counter_ok)

interpretation mem: sliding_counters counter bump counters_ok
  by unfold_locales (auto simp: bump_counters_ok bump_def Let_def counter_evict counter_update)

lemma memory_hit_bump:
  assumes "valid_clock now" "counters_ok cs" "memory_hit now k limit w cs = (dec, cs')"
    and "0 < w" "w < 2 ^ 53" "0 \<le> limit" "limit < 2 ^ 52"
  shows "\<exists>n p. bump (window_index now w) k cs = (n, p, cs') \<and> (allowed dec \<longrightarrow> n \<le> limit)"
proof -
  obtain n p cs1 where b: "bump (window_index now w) k cs = (n, p, cs1)"
    by (cases "bump (window_index now w) k cs")
  then have "0 \<le> p"
    using bump_counters_ok [OF assms(2)] by blast
  then show ?thesis
    using assms b allowed_count_le [of n p now w limit] by (auto simp: memory_hit_def)
qed

subsection \<open>Properties\<close>

text \<open>One limit alone: eviction never drops a counter that still matters.\<close>

theorem one_limit_bounds_window:
  assumes "counters_ok cs" and "list_all (valid_clock \<circ> fst) reqs"
    and "sorted (map (\<lambda>r. window_index (fst r) w) reqs)"
    and "0 < w" "w < 2 ^ 53" "0 \<le> limit" "limit < 2 ^ 52"
  shows "int (passed k i (run_hits (\<lambda>now k. memory_hit now k limit w) w reqs cs)) \<le> max 0 (limit - counter cs k i)"
  by (rule mem.passed_bounded [OF _ assms(1-3)]) (rule memory_hit_bump [OF _ _ _ assms(4-7)])

text \<open>
  The limiter of the application serves several limits at once: a request \<open>(clock, key, limit, window)\<close>
  brings its own.
\<close>

fun run_mixed :: "(float64 \<times> string \<times> int \<times> int) list \<Rightarrow> counters \<Rightarrow> (int \<times> string \<times> bool) list" where
  "run_mixed [] cs = []"
| "run_mixed ((now, k, limit, w) # reqs) cs =
     (case memory_hit now k limit w cs of (dec, cs') \<Rightarrow> (window_index now w, k, allowed dec) # run_mixed reqs cs')"

text \<open>
  No live counter of a window of length \<open>w\<close> can be evicted: either the table stays below the number of
  keys at which eviction starts, or no other window is shorter.
\<close>

definition evicts_no_live :: "int \<Rightarrow> (float64 \<times> string \<times> int \<times> int) list \<Rightarrow> counters \<Rightarrow> bool" where
  "evicts_no_live w reqs cs \<longleftrightarrow> int (length cs) + int (length reqs) \<le> max_tracked_keys \<or>
     list_all (\<lambda>(now, k, limit, w'). w \<le> w') reqs"

lemma window_index_mono: "0 < w \<Longrightarrow> now \<le> later \<Longrightarrow> window_index now w \<le> window_index later w"
  unfolding window_index_def by (intro floor_mono divide_right_mono) simp_all

lemma window_index_longer:
  assumes "0 \<le> now" "0 < w" "w \<le> w'"
  shows "window_index now w' \<le> window_index now w"
  unfolding window_index_def using assms by (intro floor_mono divide_left_mono) simp_all

lemma length_update: "length (AList.update k v al) \<le> Suc (length al)"
  by (induction al) auto

lemma bump_length: "bump i k cs = (n, p, cs') \<Longrightarrow> length cs' \<le> Suc (length cs)"
proof -
  assume "bump i k cs = (n, p, cs')"
  then have "length cs' \<le> Suc (length (evict i cs))"
    using length_update [of "(k, i)" n "evict i cs"] by (auto simp: bump_def Let_def)
  moreover have "length (evict i cs) \<le> length cs"
    by (simp add: evict_def)
  ultimately show ?thesis
    by simp
qed

text \<open>A later window than \<open>i\<close> for every further request of the key: nothing passes in \<open>i\<close> any more.\<close>

lemma no_earlier_window:
  assumes "list_all (\<lambda>(now, k', limit', w'). k' = k \<longrightarrow> i < window_index now w') reqs"
  shows "passed k i (run_mixed reqs cs) = 0"
  using assms
proof (induction reqs arbitrary: cs)
  case (Cons r reqs)
  obtain now k' limit' w' where r: "r = (now, k', limit', w')"
    by (cases r) auto
  obtain dec cs' where "memory_hit now k' limit' w' cs = (dec, cs')"
    by fastforce
  then show ?case
    using Cons by (auto simp: r passed_def)
qed (simp add: passed_def)



text \<open>
  The burst around a window boundary is closed, for both limiters: when the previous window
  holds \<open>p\<close> hits and at most the share \<open>1 - k/1024\<close> of the current one has elapsed, the \<open>n\<close>-th hit
  is allowed only if \<open>n + p * k/1024 \<le> limit\<close>. A full previous window thus leaves nothing at its end
  and half of the limit after half a window, in spite of the rounding of the weights.
\<close>

theorem sliding_window_closes_burst:
  assumes "allowed (redis_decision (RedisReply n (Some p)) now limit w)"
    and "valid_clock now" "0 < w" "w < 2 ^ 40"
    and "fmod now w * 1024 \<le> of_int ((1024 - k) * w)" and "0 \<le> k" "k \<le> 1024"
    and "0 \<le> n" "n < 2 ^ 40" "0 \<le> p" "p < 2 ^ 40" "0 \<le> limit" "limit < 2 ^ 40"
  shows "1024 * n + k * p \<le> 1024 * limit"
proof -
  let ?e = "fdiv (fmod now w) (fl (of_int w))"
  have ek: "fl (of_int m / 1024) = of_int m / 1024" if "\<bar>m\<bar> < 2 ^ 53" for m
    using fl_dyadic [of m "- 10"] that by (simp add: pow2_def)
  have e: "?e \<le> of_int (1024 - k) / 1024"
  proof -
    have "fmod now w / of_int w \<le> of_int (1024 - k) / 1024"
      using assms(3,5) by (simp add: field_simps)
    then have "?e \<le> fl (of_int (1024 - k) / 1024)"
      unfolding fdiv_def using assms(3,4) by (simp add: fl_of_int fl_mono)
    then show ?thesis
      using assms(6,7) by (subst (asm) ek) simp_all
  qed
  have "of_int k / 1024 \<le> 1 - ?e"
    using e by (simp add: field_simps)
  then have w: "of_int k / 1024 \<le> fsub 1 ?e"
    unfolding fsub_def using fl_mono [of "of_int k / 1024" "1 - ?e"] assms(6,7) by (simp add: ek)
  have kp: "0 \<le> k * p" "k * p \<le> 1024 * 2 ^ 40"
    using assms(6,7,10,11) mult_mono [of k 1024 p "2 ^ 40"] by simp_all
  have "of_int (k * p) / 1024 \<le> of_int p * fsub 1 ?e"
    using mult_left_mono [OF w, of "of_int p"] assms(10) by (simp add: field_simps)
  then have "fl (of_int (k * p) / 1024) \<le> fl (of_int p * fsub 1 ?e)"
    by (rule fl_mono)
  then have "of_int (k * p) / 1024 \<le> fmul (fl (of_int p)) (fsub 1 ?e)"
    using kp assms(10,11) ek [of "k * p"] by (simp add: fmul_def fl_of_int)
  then have "of_int (1024 * n + k * p) / 1024 \<le> fl (of_int n) + fmul (fl (of_int p)) (fsub 1 ?e)"
    using assms(8,9) by (simp add: fl_of_int field_simps)
  then have "fl (of_int (1024 * n + k * p) / 1024) \<le> sliding_estimate n p now w"
    unfolding sliding_estimate_def Let_def fadd_def by (rule fl_mono)
  moreover have "sliding_estimate n p now w \<le> of_int limit"
    using assms(1) by (simp add: redis_decision_def decide_def Let_def)
  ultimately have "of_int (1024 * n + k * p) / 1024 \<le> (of_int limit :: rat)"
    using kp assms(8,9) by (subst (asm) ek) simp_all
  then have "of_int (1024 * n + k * p) \<le> (of_int (1024 * limit) :: rat)"
    by (simp add: field_simps)
  then show ?thesis
    by (simp only: of_int_le_iff)
qed

theorem sliding_window_closes_burst_witness:
  "allowed (redis_decision (RedisReply 5 (Some 10)) 90 10 60) \<and> \<not> allowed (redis_decision (RedisReply 6 (Some 10)) 90 10 60) \<and>
   1024 * 5 + 512 * 10 \<le> (1024 * 10 :: int)"
proof -
  have half: "fl (1 / 2) = 1 / 2"
    using fl_dyadic [of 1 "- 1"] by (simp add: pow2_def)
  have "\<lfloor>3 / 2 :: rat\<rfloor> = 1"
    by (rule floor_unique) simp_all
  then have f: "fmod 90 60 = 30"
    by (simp add: fmod_def fl_numeral)
  then have est: "sliding_estimate n 10 90 60 = fadd (fl (of_int n)) 5" for n
    by (simp add: sliding_estimate_def Let_def fdiv_def fsub_def fmul_def fl_numeral half)
  have a: "allowed (redis_decision (RedisReply 5 (Some 10)) 90 10 60)"
    and n: "\<not> allowed (redis_decision (RedisReply 6 (Some 10)) 90 10 60)"
    by (simp_all add: redis_decision_def decide_def Let_def est fadd_def fl_numeral)
  have v: "valid_clock 90" and e: "fmod 90 60 * 1024 \<le> of_int ((1024 - 512) * 60)"
    by (simp_all add: valid_clock_def f)
  have "1024 * 5 + 512 * 10 \<le> (1024 * 10 :: int)"
    by (rule sliding_window_closes_burst [OF a v _ _ e]) simp_all
  then show ?thesis
    using a n by blast
qed

text \<open>
  Limits with different windows share the counters, and indices of different windows are not
  comparable: a hit of a limit with a short window (a large index) evicts the live counters of a
  limit with a longer window, once more than \<open>max_tracked_keys\<close> counters are held.
\<close>

lemma eviction_forgets_longer_windows:
  assumes "max_tracked_keys < int (length cs)"
    and "window_index now long_window < window_index now short_window - 1"
  shows "counter (snd (memory_hit now k limit short_window cs)) k' (window_index now long_window) = 0"
  using assms
  by (auto simp: memory_hit_def bump_def Let_def counter_update)
     (simp add: counter_def evict_def map_of_filter_key)

end
