(* ===== verification/TelemetryRules.thy ===== *)
theory TelemetryRules
  imports Schema
begin

section \<open>Telemetry rules: distance, data quality, implausible jumps\<close>

text \<open>
  \<^verbatim>\<open>domain/telemetry_rules.py\<close>. The functions of the C mathematical library (and \<^verbatim>\<open>**\<close>, which
  is its \<^verbatim>\<open>pow\<close>) are the parameter record \<open>libm\<close>. \<open>libm_ok\<close> states what is used of them: the
  sine is odd, a square does not see the sign, \<open>asin\<close> and \<open>sqrt\<close> send non-negative numbers to
  non-negative numbers, and all of them send zero to zero.
\<close>

record libm =
  m_radians :: "float64 \<Rightarrow> float64"
  m_sin :: "float64 \<Rightarrow> float64"
  m_cos :: "float64 \<Rightarrow> float64"
  m_asin :: "float64 \<Rightarrow> float64"
  m_sqrt :: "float64 \<Rightarrow> float64"
  m_square :: "float64 \<Rightarrow> float64"

definition trip_idle_gap :: duration where "trip_idle_gap = minutes 15"

definition earth_radius_km :: float64 where "earth_radius_km = fl (63710088 / 10000)"

definition haversine_km :: "libm \<Rightarrow> float64 \<Rightarrow> float64 \<Rightarrow> float64 \<Rightarrow> float64 \<Rightarrow> float64" where
  "haversine_km m lat1 lon1 lat2 lon2 =
     (let p1 = m_radians m lat1;
          p2 = m_radians m lat2;
          dphi = m_radians m (fsub lat2 lat1);
          dlambda = m_radians m (fsub lon2 lon1);
          a = fadd (m_square m (m_sin m (fdiv dphi 2)))
                (fmul (fmul (m_cos m p1) (m_cos m p2)) (m_square m (m_sin m (fdiv dlambda 2))))
      in fmul (fmul 2 earth_radius_km) (m_asin m (min 1 (m_sqrt m a))))"

definition data_quality :: "float64 option \<Rightarrow> int option \<Rightarrow> bool \<Rightarrow> float64" where
  "data_quality gps_hdop satellites has_speed =
     (let s0 = 1;
          s1 = (case gps_hdop of None \<Rightarrow> s0
                | Some h \<Rightarrow> if 10 < h then fsub s0 (1 / 2) else if 5 < h then fsub s0 (1 / 4) else s0);
          s2 = (case satellites of None \<Rightarrow> s1
                | Some n \<Rightarrow> if n < 4 then fsub s1 (fl (2 / 5)) else if n < 6 then fsub s1 (fl (3 / 20)) else s1);
          s3 = (if \<not> has_speed then fsub s2 (fl (1 / 10)) else s2)
      in max 0 (min 1 (py_round 3 s3)))"

definition implausible_jump_kph :: "float64 \<Rightarrow> float64 \<Rightarrow> float64 option" where
  "implausible_jump_kph distance_km secs =
     (if secs \<le> 0 then None
      else (let implied = fdiv distance_km (fdiv secs 3600)
            in if 400 < implied then Some implied else None))"

subsection \<open>What the code relies on of the mathematical library\<close>

definition libm_ok :: "libm \<Rightarrow> bool" where
  "libm_ok m \<longleftrightarrow>
     (\<forall>x. m_radians m (- x) = - m_radians m x) \<and> (\<forall>x. m_sin m (- x) = - m_sin m x) \<and>
     (\<forall>x. m_square m (- x) = m_square m x) \<and> (\<forall>x. 0 \<le> m_square m x) \<and>
     (\<forall>x. 0 \<le> m_sqrt m x) \<and> (\<forall>x. 0 \<le> x \<longrightarrow> 0 \<le> m_asin m x) \<and>
     m_radians m 0 = 0 \<and> m_sin m 0 = 0 \<and> m_square m 0 = 0 \<and> m_sqrt m 0 = 0 \<and> m_asin m 0 = 0"

lemma fsub_swap: "fsub y x = - fsub x y"
  unfolding fsub_def using fl_minus [of "x - y"] by simp

lemma fdiv_minus: "fdiv (- x) y = - fdiv x y"
  unfolding fdiv_def using fl_minus [of "x / y"] by simp

lemma fmul_comm: "fmul x y = fmul y x"
  by (simp add: fmul_def mult.commute)

lemma fsub_self [simp]: "fsub x x = 0"
  by (simp add: fsub_def)

lemma haversine_nonneg: "libm_ok m \<Longrightarrow> 0 \<le> haversine_km m a b c d"
proof -
  assume m: "libm_ok m"
  have "0 \<le> fmul 2 earth_radius_km"
    unfolding fmul_def earth_radius_km_def by (intro fl_nonneg mult_nonneg_nonneg) (simp_all add: fl_nonneg)
  then show ?thesis
    using m unfolding haversine_km_def Let_def libm_ok_def
    by (subst fmul_def) (intro fl_nonneg mult_nonneg_nonneg, simp_all)
qed

text \<open>
  The distance between two points is symmetric, never negative, and zero from a point to itself,
  in spite of the rounding of every intermediate result.
\<close>

theorem haversine_metric:
  assumes "libm_ok m"
  shows "haversine_km m a b c d = haversine_km m c d a b \<and> 0 \<le> haversine_km m a b c d \<and>
    haversine_km m a b a b = 0"
proof (intro conjI)
  show "haversine_km m a b c d = haversine_km m c d a b"
    using assms fsub_swap [of c a] fsub_swap [of d b] fmul_comm [of "m_cos m (m_radians m a)"]
    by (simp add: haversine_km_def Let_def libm_ok_def fdiv_minus)
  show "0 \<le> haversine_km m a b c d"
    by (rule haversine_nonneg [OF assms])
  show "haversine_km m a b a b = 0"
    using assms by (simp add: haversine_km_def Let_def libm_ok_def fdiv_def fmul_def fadd_def)
qed

theorem haversine_metric_witness:
  "let m = \<lparr>m_radians = (\<lambda>x. x), m_sin = (\<lambda>x. max (- 1) (min 1 x)), m_cos = (\<lambda>x. 1),
            m_asin = (\<lambda>x. x), m_sqrt = (\<lambda>x. max 0 x), m_square = (\<lambda>x. x * x)\<rparr>
   in haversine_km m 41 29 40 30 = haversine_km m 40 30 41 29 \<and> 0 \<le> haversine_km m 41 29 40 30"
proof -
  let ?m = "\<lparr>m_radians = (\<lambda>x. x), m_sin = (\<lambda>x. max (- 1) (min 1 x)), m_cos = (\<lambda>x. 1),
            m_asin = (\<lambda>x. x), m_sqrt = (\<lambda>x. max 0 x), m_square = (\<lambda>x. x * x)\<rparr> :: libm"
  have "libm_ok ?m"
    by (simp add: libm_ok_def) (auto simp: max_def min_def)
  from haversine_metric [OF this, of 41 29 40 30] show ?thesis
    by (simp add: Let_def)
qed

definition low_score :: "float64 \<Rightarrow> bool" where
  "low_score x \<longleftrightarrow> max 0 (min 1 (py_round 3 x)) < fl (3 / 5)"

text \<open>
  Which data is too poor to be trusted without a human: the score is between 0 and 1, it is 1 on
  clean data, and it is below the review limit of 0.6 exactly for an HDOP above 10, for fewer than
  four satellites together with an HDOP above 5 or a missing speed, and for an HDOP above 5 with
  fewer than six satellites and a missing speed.
\<close>

theorem data_quality_review:
  "0 \<le> data_quality h n sp \<and> data_quality h n sp \<le> 1 \<and> data_quality None None True = 1 \<and>
   (data_quality h n sp < fl (3 / 5) \<longleftrightarrow>
      (let bad = (case h of None \<Rightarrow> False | Some x \<Rightarrow> 10 < x); poor = (case h of None \<Rightarrow> False | Some x \<Rightarrow> 5 < x);
           few = (case n of None \<Rightarrow> False | Some k \<Rightarrow> k < 4); low = (case n of None \<Rightarrow> False | Some k \<Rightarrow> k < 6);
           blind = (sp = False)
       in bad \<or> few \<and> (poor \<or> blind) \<or> poor \<and> low \<and> blind))"
proof -
  let ?q = low_score
  let ?h = "fsub 1 (1 / 2)" and ?g = "fsub 1 (1 / 4)"
  let ?f = "\<lambda>x. fsub x (fl (2 / 5))" and ?e = "\<lambda>x. fsub x (fl (3 / 20))" and ?s = "\<lambda>x. fsub x (fl (1 / 10))"
  have low: "?q ?h = True" "?q (?s ?h) = True" "?q (?f ?h) = True" "?q (?e ?h) = True" "?q (?s (?f ?h)) = True"
    "?q (?s (?e ?h)) = True" "?q (?f ?g) = True" "?q (?s (?f ?g)) = True" "?q (?s (?e ?g)) = True" "?q (?s (?f 1)) = True"
    by code_simp+
  have high: "?q 1 = False" "?q (?s 1) = False" "?q (?e 1) = False" "?q (?s (?e 1)) = False" "?q (?f 1) = False"
    "?q ?g = False" "?q (?s ?g) = False" "?q (?e ?g) = False"
    by code_simp+
  have c: "data_quality None None True = 1"
    by (simp add: data_quality_def)
  have "(data_quality h n sp < fl (3 / 5) \<longleftrightarrow>
      (let bad = (case h of None \<Rightarrow> False | Some x \<Rightarrow> 10 < x); poor = (case h of None \<Rightarrow> False | Some x \<Rightarrow> 5 < x);
           few = (case n of None \<Rightarrow> False | Some k \<Rightarrow> k < 4); low = (case n of None \<Rightarrow> False | Some k \<Rightarrow> k < 6);
           blind = (sp = False)
       in bad \<or> few \<and> (poor \<or> blind) \<or> poor \<and> low \<and> blind))"
    unfolding data_quality_def Let_def low_score_def [symmetric]
    by (cases h; cases n; cases sp) (simp_all add: low high)
  then show ?thesis
    using c by (simp add: data_quality_def Let_def)
qed

end
