(* ===== verification/SafetyRules.thy ===== *)
theory SafetyRules
  imports Schema
begin

section \<open>The deterministic safety rules\<close>

text \<open>
  \<^verbatim>\<open>domain/safety.py\<close>: thresholds, severity bands, confidence, and the evaluation of one
  telemetry sample. The Turkish reason of a hit is not modelled. A division by a zero threshold
  raises, so \<open>evaluate_point\<close> returns a result.
\<close>

definition ruleset_version :: int where "ruleset_version = 2"
definition severity_framework_version :: int where "severity_framework_version = 1"

record thresholds =
  th_harsh_braking_ms2 :: float64
  th_harsh_acceleration_ms2 :: float64
  th_harsh_cornering_ms2 :: float64
  th_speeding_kph :: float64
  th_sustained_speeding_kph :: float64

definition default_thresholds :: thresholds where
  "default_thresholds = \<lparr>th_harsh_braking_ms2 = 7 / 2, th_harsh_acceleration_ms2 = 3,
     th_harsh_cornering_ms2 = 4, th_speeding_kph = 120, th_sustained_speeding_kph = 130\<rparr>"

text \<open>
  \<^verbatim>\<open>isinstance(raw, int | float)\<close> accepts booleans, which are ints in Python.
\<close>

fun number_of :: "pyval \<Rightarrow> float64 option" where
  "number_of (PBool b) = Some (if b then 1 else 0)"
| "number_of (PInt n) = Some (fl (of_int n))"
| "number_of (PFloat x) = Some x"
| "number_of _ = None"

definition override :: "pydict \<Rightarrow> string \<Rightarrow> float64 \<Rightarrow> float64" where
  "override d f base =
     (case dget d f of None \<Rightarrow> base | Some raw \<Rightarrow> (case number_of raw of None \<Rightarrow> base | Some x \<Rightarrow> x))"

definition from_overrides :: "pydict option \<Rightarrow> thresholds" where
  "from_overrides overrides =
     (case overrides of
        None \<Rightarrow> default_thresholds
      | Some d \<Rightarrow>
          if d = [] then default_thresholds
          else \<lparr>th_harsh_braking_ms2 = override d ''harsh_braking_ms2'' (th_harsh_braking_ms2 default_thresholds),
                th_harsh_acceleration_ms2 =
                  override d ''harsh_acceleration_ms2'' (th_harsh_acceleration_ms2 default_thresholds),
                th_harsh_cornering_ms2 =
                  override d ''harsh_cornering_ms2'' (th_harsh_cornering_ms2 default_thresholds),
                th_speeding_kph = override d ''speeding_kph'' (th_speeding_kph default_thresholds),
                th_sustained_speeding_kph =
                  override d ''sustained_speeding_kph'' (th_sustained_speeding_kph default_thresholds)\<rparr>)"

record telemetry_sample =
  ts_speed_kph :: "float64 option"
  ts_acceleration_ms2 :: "float64 option"
  ts_lateral_acceleration_ms2 :: "float64 option"
  ts_quality :: float64

record rule_hit =
  rh_event_type :: event_type
  rh_severity :: severity
  rh_confidence :: float64
  rh_measured_value :: float64
  rh_threshold :: float64
  rh_needs_review :: bool
  rh_extra :: "(string \<times> float64) list"

definition magnitude_severity :: "float64 \<Rightarrow> severity" where
  "magnitude_severity ratio =
     (if 2 \<le> ratio then Critical
      else if fl (8 / 5) \<le> ratio then High
      else if 5 / 4 \<le> ratio then Medium
      else Low)"

definition confidence :: "float64 \<Rightarrow> float64" where
  "confidence quality = py_round 3 (max (fl (3 / 10)) (min 1 quality))"

definition py_div :: "float64 \<Rightarrow> float64 \<Rightarrow> float64 result" where
  "py_div x y = (if y = 0 then Inl PyZeroDivisionError else Inr (fdiv x y))"

definition harsh_braking_hit :: "float64 \<Rightarrow> bool \<Rightarrow> float64 \<Rightarrow> thresholds \<Rightarrow> rule_hit list result" where
  "harsh_braking_hit conf review accel th =
     (if accel \<le> - th_harsh_braking_ms2 th then
        bind (py_div \<bar>accel\<bar> (th_harsh_braking_ms2 th)) (\<lambda>ratio. Inr
          [\<lparr>rh_event_type = HarshBraking, rh_severity = magnitude_severity ratio, rh_confidence = conf,
            rh_measured_value = py_round 2 \<bar>accel\<bar>, rh_threshold = th_harsh_braking_ms2 th,
            rh_needs_review = review, rh_extra = []\<rparr>])
      else Inr [])"

definition harsh_acceleration_hit :: "float64 \<Rightarrow> bool \<Rightarrow> float64 \<Rightarrow> thresholds \<Rightarrow> rule_hit list result" where
  "harsh_acceleration_hit conf review accel th =
     (if th_harsh_acceleration_ms2 th \<le> accel then
        bind (py_div accel (th_harsh_acceleration_ms2 th)) (\<lambda>ratio. Inr
          [\<lparr>rh_event_type = HarshAcceleration, rh_severity = magnitude_severity ratio, rh_confidence = conf,
            rh_measured_value = py_round 2 accel, rh_threshold = th_harsh_acceleration_ms2 th,
            rh_needs_review = review, rh_extra = []\<rparr>])
      else Inr [])"

definition harsh_cornering_hit :: "float64 \<Rightarrow> bool \<Rightarrow> float64 \<Rightarrow> thresholds \<Rightarrow> rule_hit list result" where
  "harsh_cornering_hit conf review lateral th =
     (if th_harsh_cornering_ms2 th \<le> \<bar>lateral\<bar> then
        bind (py_div \<bar>lateral\<bar> (th_harsh_cornering_ms2 th)) (\<lambda>ratio. Inr
          [\<lparr>rh_event_type = HarshCornering, rh_severity = magnitude_severity ratio, rh_confidence = conf,
            rh_measured_value = py_round 2 \<bar>lateral\<bar>, rh_threshold = th_harsh_cornering_ms2 th,
            rh_needs_review = review, rh_extra = []\<rparr>])
      else Inr [])"

definition speeding_hit :: "float64 \<Rightarrow> bool \<Rightarrow> float64 \<Rightarrow> thresholds \<Rightarrow> rule_hit list result" where
  "speeding_hit conf review speed th =
     (if th_speeding_kph th < speed then
        bind (py_div speed (th_speeding_kph th)) (\<lambda>ratio. Inr
          [\<lparr>rh_event_type = Speeding,
            rh_severity = (if th_sustained_speeding_kph th \<le> speed then High else Medium),
            rh_confidence = conf, rh_measured_value = py_round 1 speed, rh_threshold = th_speeding_kph th,
            rh_needs_review = review, rh_extra = [(''ratio'', py_round 2 ratio)]\<rparr>])
      else Inr [])"

definition on_value :: "(float64 \<Rightarrow> 'a list result) \<Rightarrow> float64 option \<Rightarrow> 'a list result" where
  "on_value f x = (case x of None \<Rightarrow> Inr [] | Some v \<Rightarrow> f v)"

definition evaluate_point :: "telemetry_sample \<Rightarrow> thresholds \<Rightarrow> rule_hit list result" where
  "evaluate_point s th =
     (let conf = confidence (ts_quality s);
          needs_review = ts_quality s < fl (3 / 5)
      in bind (on_value (\<lambda>a. harsh_braking_hit conf needs_review a th) (ts_acceleration_ms2 s)) (\<lambda>b.
         bind (on_value (\<lambda>a. harsh_acceleration_hit conf needs_review a th) (ts_acceleration_ms2 s)) (\<lambda>a.
         bind (on_value (\<lambda>l. harsh_cornering_hit conf needs_review l th) (ts_lateral_acceleration_ms2 s)) (\<lambda>c.
         bind (on_value (\<lambda>v. speeding_hit conf needs_review v th) (ts_speed_kph s)) (\<lambda>v.
           Inr (b @ a @ c @ v))))))"

subsection \<open>The order of severities\<close>

instantiation severity :: linorder
begin

fun severity_rank :: "severity \<Rightarrow> nat" where
  "severity_rank Low = 0" | "severity_rank Medium = 1" | "severity_rank High = 2" | "severity_rank Critical = 3"

definition less_eq_severity :: "severity \<Rightarrow> severity \<Rightarrow> bool" where
  "less_eq_severity a b \<longleftrightarrow> severity_rank a \<le> severity_rank b"

definition less_severity :: "severity \<Rightarrow> severity \<Rightarrow> bool" where
  "less_severity a b \<longleftrightarrow> severity_rank a < severity_rank b"

instance
proof
  fix a b :: severity
  show "a \<le> b \<Longrightarrow> b \<le> a \<Longrightarrow> a = b"
    by (cases a; cases b) (simp_all add: less_eq_severity_def)
qed (auto simp: less_eq_severity_def less_severity_def)

end

subsection \<open>Facts\<close>

lemma fl_8_5: "fl (8 / 5) = 3602879701896397 / 2251799813685248"
  by code_simp

lemma magnitude_severity_mono: "x \<le> y \<Longrightarrow> magnitude_severity x \<le> magnitude_severity y"
  by (auto simp: magnitude_severity_def less_eq_severity_def)

lemma confidence_range: "fl (3 / 10) \<le> confidence q \<and> confidence q \<le> 1"
proof -
  have r: "py_round 3 (fl (3 / 10)) = fl (3 / 10)"
    by code_simp
  have "py_round 3 (fl (3 / 10)) \<le> confidence q" and "confidence q \<le> py_round 3 1"
    unfolding confidence_def by (rule py_round_mono, use fl_in_unit [of "3 / 10"] in simp)+
  then show ?thesis
    by (simp add: r)
qed

text \<open>What it means for a sample to cross the threshold of a rule.\<close>

definition crosses :: "telemetry_sample \<Rightarrow> thresholds \<Rightarrow> event_type \<Rightarrow> bool" where
  "crosses s th t \<longleftrightarrow> (case t of
     HarshBraking \<Rightarrow> (case ts_acceleration_ms2 s of None \<Rightarrow> False | Some a \<Rightarrow> a \<le> - th_harsh_braking_ms2 th)
   | HarshAcceleration \<Rightarrow> (case ts_acceleration_ms2 s of None \<Rightarrow> False | Some a \<Rightarrow> th_harsh_acceleration_ms2 th \<le> a)
   | HarshCornering \<Rightarrow> (case ts_lateral_acceleration_ms2 s of None \<Rightarrow> False | Some l \<Rightarrow> th_harsh_cornering_ms2 th \<le> \<bar>l\<bar>)
   | Speeding \<Rightarrow> (case ts_speed_kph s of None \<Rightarrow> False | Some v \<Rightarrow> th_speeding_kph th < v)
   | GpsAnomaly \<Rightarrow> False)"

definition positive_thresholds :: "thresholds \<Rightarrow> bool" where
  "positive_thresholds th \<longleftrightarrow> 0 < th_harsh_braking_ms2 th \<and> 0 < th_harsh_acceleration_ms2 th \<and>
     0 < th_harsh_cornering_ms2 th \<and> 0 < th_speeding_kph th \<and> 0 < th_sustained_speeding_kph th"

lemmas rule_hit_defs = harsh_braking_hit_def harsh_acceleration_hit_def harsh_cornering_hit_def
  speeding_hit_def on_value_def py_div_def

text \<open>Each rule answers at most one hit, of its own type and with the shared confidence.\<close>

definition good_hits :: "event_type \<Rightarrow> bool \<Rightarrow> float64 \<Rightarrow> bool \<Rightarrow> rule_hit list result \<Rightarrow> bool" where
  "good_hits t c conf review r \<longleftrightarrow>
     (\<exists>hs. r = Inr hs \<and> map rh_event_type hs = (if c then [t] else []) \<and>
           list_all (\<lambda>h. rh_confidence h = conf \<and> rh_needs_review h = review) hs)"

lemma rules_good_hits:
  assumes "positive_thresholds th"
  shows "good_hits HarshBraking (crosses s th HarshBraking) conf review
           (on_value (\<lambda>a. harsh_braking_hit conf review a th) (ts_acceleration_ms2 s))"
    "good_hits HarshAcceleration (crosses s th HarshAcceleration) conf review
           (on_value (\<lambda>a. harsh_acceleration_hit conf review a th) (ts_acceleration_ms2 s))"
    "good_hits HarshCornering (crosses s th HarshCornering) conf review
           (on_value (\<lambda>l. harsh_cornering_hit conf review l th) (ts_lateral_acceleration_ms2 s))"
    "good_hits Speeding (crosses s th Speeding) conf review
           (on_value (\<lambda>v. speeding_hit conf review v th) (ts_speed_kph s))"
  using assms
  by (auto simp: good_hits_def rule_hit_defs crosses_def positive_thresholds_def split: option.splits)

lemma evaluate_point_hits:
  assumes "positive_thresholds th"
  shows "\<exists>hits. evaluate_point s th = Inr hits \<and>
    map rh_event_type hits = filter (crosses s th) [HarshBraking, HarshAcceleration, HarshCornering, Speeding] \<and>
    list_all (\<lambda>h. rh_confidence h = confidence (ts_quality s) \<and>
                  rh_needs_review h = (ts_quality s < fl (3 / 5))) hits"
proof -
  let ?c = "confidence (ts_quality s)" and ?r = "ts_quality s < fl (3 / 5)"
  note g = rules_good_hits [OF assms, of s ?c ?r]
  obtain b a c v where
    "on_value (\<lambda>a. harsh_braking_hit ?c ?r a th) (ts_acceleration_ms2 s) = Inr b"
    "on_value (\<lambda>a. harsh_acceleration_hit ?c ?r a th) (ts_acceleration_ms2 s) = Inr a"
    "on_value (\<lambda>l. harsh_cornering_hit ?c ?r l th) (ts_lateral_acceleration_ms2 s) = Inr c"
    "on_value (\<lambda>v. speeding_hit ?c ?r v th) (ts_speed_kph s) = Inr v"
    using g by (auto simp: good_hits_def)
  with g show ?thesis
    by (intro exI [of _ "b @ a @ c @ v"]) (auto simp: evaluate_point_def Let_def good_hits_def)
qed

subsection \<open>Properties\<close>

text \<open>
  With positive thresholds the evaluation of a sample never raises; it returns exactly one hit
  for each rule whose threshold the sample crosses, in the order of the rules, and every hit carries
  a confidence between 0.3 and 1 and asks for review exactly when the data quality is below 0.6.
\<close>

theorem evaluate_point_complete:
  assumes "positive_thresholds th"
  shows "\<exists>hits. evaluate_point s th = Inr hits \<and>
    map rh_event_type hits = filter (crosses s th) [HarshBraking, HarshAcceleration, HarshCornering, Speeding] \<and>
    list_all (\<lambda>h. fl (3 / 10) \<le> rh_confidence h \<and> rh_confidence h \<le> 1 \<and>
                  rh_needs_review h = (ts_quality s < fl (3 / 5))) hits"
  using evaluate_point_hits [OF assms, of s] by (auto simp: list_all_iff confidence_range)

theorem evaluate_point_complete_witness:
  "\<exists>hits. evaluate_point \<lparr>ts_speed_kph = Some 125, ts_acceleration_ms2 = Some (- 7),
        ts_lateral_acceleration_ms2 = Some 2, ts_quality = 1 / 2\<rparr> default_thresholds = Inr hits \<and>
      map rh_event_type hits = [HarshBraking, Speeding] \<and>
      list_all (\<lambda>h. fl (3 / 10) \<le> rh_confidence h \<and> rh_confidence h \<le> 1 \<and>
                    rh_needs_review h = (1 / 2 < fl (3 / 5))) hits"
proof -
  let ?s = "\<lparr>ts_speed_kph = Some 125, ts_acceleration_ms2 = Some (- 7),
        ts_lateral_acceleration_ms2 = Some 2, ts_quality = 1 / 2\<rparr> :: telemetry_sample"
  have "positive_thresholds default_thresholds"
    by (simp add: positive_thresholds_def default_thresholds_def)
  from evaluate_point_complete [OF this, of ?s] show ?thesis
    by (simp add: crosses_def default_thresholds_def)
qed

text \<open>
  Severity grows with the measured value: of two decelerations past a positive threshold, the
  harder one never gets the lower severity or the smaller measured value, a deceleration of twice
  the threshold or more is critical, and one of exactly the threshold is low.
\<close>

theorem braking_severity_monotone:
  assumes "0 < th_harsh_braking_ms2 th" and "a2 \<le> a1" and "a1 \<le> - th_harsh_braking_ms2 th"
  shows "\<exists>h1 h2. harsh_braking_hit conf r a1 th = Inr [h1] \<and> harsh_braking_hit conf r a2 th = Inr [h2] \<and>
    rh_severity h1 \<le> rh_severity h2 \<and> rh_measured_value h1 \<le> rh_measured_value h2 \<and>
    (a2 \<le> - 2 * th_harsh_braking_ms2 th \<longrightarrow> rh_severity h2 = Critical) \<and>
    (a1 = - th_harsh_braking_ms2 th \<longrightarrow> rh_severity h1 = Low)"
proof -
  let ?t = "th_harsh_braking_ms2 th"
  have le: "\<bar>a1\<bar> \<le> \<bar>a2\<bar>"
    using assms by linarith
  have "fdiv \<bar>a1\<bar> ?t \<le> fdiv \<bar>a2\<bar> ?t"
    unfolding fdiv_def using assms(1) le by (intro fl_mono divide_right_mono) simp_all
  then have s: "magnitude_severity (fdiv \<bar>a1\<bar> ?t) \<le> magnitude_severity (fdiv \<bar>a2\<bar> ?t)"
    by (rule magnitude_severity_mono)
  have c: "magnitude_severity (fdiv \<bar>a2\<bar> ?t) = Critical" if "a2 \<le> - 2 * ?t"
  proof -
    have "2 \<le> \<bar>a2\<bar> / ?t"
      using that assms(1) by (simp add: field_simps)
    then have "2 \<le> fdiv \<bar>a2\<bar> ?t"
      unfolding fdiv_def using fl_mono [of 2] by (simp add: fl_numeral)
    then show ?thesis
      by (simp add: magnitude_severity_def)
  qed
  have l: "magnitude_severity (fdiv \<bar>a1\<bar> ?t) = Low" if "a1 = - ?t"
    using that assms(1) by (simp add: fdiv_def magnitude_severity_def fl_8_5)
  show ?thesis
    using assms s c l by (simp add: harsh_braking_hit_def py_div_def py_round_mono)
qed

theorem braking_severity_monotone_witness:
  "\<exists>h1 h2. harsh_braking_hit 1 False (- 5) default_thresholds = Inr [h1] \<and>
     harsh_braking_hit 1 False (- 7) default_thresholds = Inr [h2] \<and> rh_severity h1 = Medium \<and> rh_severity h2 = Critical \<and>
     rh_severity h1 \<le> rh_severity h2"
proof -
  let ?m = "\<lambda>a. magnitude_severity (fdiv a (7 / 2))"
  have m: "?m 5 = Medium"
    by code_simp
  have "0 < th_harsh_braking_ms2 default_thresholds" "(- 7 :: rat) \<le> - 5" "- 5 \<le> - th_harsh_braking_ms2 default_thresholds"
    by (simp_all add: default_thresholds_def)
  from braking_severity_monotone [OF this, of 1 False] show ?thesis
    using m by (auto simp: harsh_braking_hit_def default_thresholds_def py_div_def)
qed

text \<open>
  The bands are computed on rounded quotients: a deceleration of 5.6, which is 1.6 times the default
  threshold of 3.5 and the start of the band of \<open>High\<close>, is graded \<open>Medium\<close>.
\<close>

lemma braking_at_high_band_is_medium:
  "map rh_severity (projr (harsh_braking_hit 1 False (fl (- (28 / 5))) default_thresholds)) = [Medium]"
  by code_simp

end
