(* ===== verification/SafetyEngine.thy ===== *)
theory SafetyEngine
  imports SafetyRules Outbox
begin

section \<open>The safety engine: deduplication and persistence of rule hits\<close>

text \<open>
  \<^verbatim>\<open>application/safety/engine.py\<close>. The advisory lock of \<^verbatim>\<open>_persist\<close> serialises the writers of
  one (vehicle, event type) until their transaction ends, so \<open>persist\<close> is one atomic step. The text
  of the dedup key is the triple of its parts. Columns the statement does not set take the defaults
  of \<^verbatim>\<open>infrastructure/db/models/safety.py\<close>.
\<close>

definition dedup_window :: duration where "dedup_window = seconds 30"

record point_context =
  pc_organization_id :: uuid
  pc_vehicle_id :: uuid
  pc_driver_id :: "uuid option"
  pc_trip_id :: "uuid option"
  pc_occurred_at :: instant
  pc_latitude :: "float64 option"
  pc_longitude :: "float64 option"
  pc_data_origin :: "string option"
  pc_environment :: "string option"

definition event_details :: "point_context \<Rightarrow> rule_hit \<Rightarrow> pydict" where
  "event_details ctx hit =
     (if rh_extra hit \<noteq> [] then [(''extra'', PDict (map (\<lambda>(k, v). (k, PFloat v)) (rh_extra hit)))] else []) @
     (case pc_data_origin ctx of None \<Rightarrow> [] | Some s \<Rightarrow> [(''data_origin'', PStr s)]) @
     (case pc_environment ctx of None \<Rightarrow> [] | Some s \<Rightarrow> [(''environment'', PStr s)])"

definition opt_float :: "float64 option \<Rightarrow> pyval" where
  "opt_float x = (case x of None \<Rightarrow> PNone | Some v \<Rightarrow> PFloat v)"

definition within_window :: "point_context \<Rightarrow> event_type \<Rightarrow> safety_event \<Rightarrow> bool" where
  "within_window ctx t e \<longleftrightarrow>
     se_organization_id e = pc_organization_id ctx \<and> se_vehicle_id e = pc_vehicle_id ctx \<and>
     se_event_type e = t \<and> pc_occurred_at ctx - dedup_window \<le> se_occurred_at e \<and>
     se_occurred_at e \<le> pc_occurred_at ctx + dedup_window"

definition dedup_key_of :: "point_context \<Rightarrow> event_type \<Rightarrow> uuid \<times> event_type \<times> int" where
  "dedup_key_of ctx t = (pc_vehicle_id ctx, t, trunc (fmul (total_seconds (pc_occurred_at ctx)) 1000))"

definition new_safety_event :: "point_context \<Rightarrow> rule_hit \<Rightarrow> telemetry_sample \<Rightarrow> uuid \<Rightarrow> safety_event" where
  "new_safety_event ctx hit sample new_id =
     \<lparr>se_id = new_id, se_organization_id = pc_organization_id ctx, se_vehicle_id = pc_vehicle_id ctx,
      se_driver_id = pc_driver_id ctx, se_trip_id = pc_trip_id ctx, se_event_type = rh_event_type hit,
      se_severity = rh_severity hit, se_confidence = rh_confidence hit,
      se_occurred_at = pc_occurred_at ctx, se_latitude = pc_latitude ctx, se_longitude = pc_longitude ctx,
      se_measured_value = Some (rh_measured_value hit), se_threshold = Some (rh_threshold hit),
      se_ruleset_version = ruleset_version, se_severity_framework_version = severity_framework_version,
      se_data_quality = Some (ts_quality sample), se_review_status = RevPending,
      se_reviewer_user_id = None, se_reviewed_at = None, se_resolution = None, se_root_cause = None,
      se_reviewer_notes = None, se_needs_review = rh_needs_review hit,
      se_dedup_key = dedup_key_of ctx (rh_event_type hit), se_occurrence_count = 1,
      se_details = event_details ctx hit\<rparr>"

definition telemetry_window_evidence :: "instant \<Rightarrow> point_context \<Rightarrow> rule_hit \<Rightarrow> telemetry_sample \<Rightarrow> uuid \<Rightarrow> uuid \<Rightarrow> event_evidence" where
  "telemetry_window_evidence now ctx hit sample event_id new_id =
     \<lparr>ev_id = new_id, ev_organization_id = pc_organization_id ctx, ev_safety_event_id = event_id,
      ev_kind = TelemetryWindow,
      ev_telemetry_window = Some
        [(''speed_kph'', opt_float (ts_speed_kph sample)),
         (''acceleration_ms2'', opt_float (ts_acceleration_ms2 sample)),
         (''lateral_acceleration_ms2'', opt_float (ts_lateral_acceleration_ms2 sample)),
         (''quality'', PFloat (ts_quality sample)),
         (''measured_value'', PFloat (rh_measured_value hit)),
         (''threshold'', PFloat (rh_threshold hit))],
      ev_storage_key = None, ev_content_type = None, ev_captured_at = Some (pc_occurred_at ctx),
      ev_status = EvAvailable, ev_size_bytes = None, ev_original_filename = None,
      ev_uploaded_by_user_id = None, ev_uploaded_by_api_client_id = None,
      ev_redaction_status = ''not_applicable'', ev_deleted_at = None, ev_created_at = now\<rparr>"

definition bump_occurrence :: "safety_event \<Rightarrow> safety_event" where
  "bump_occurrence e = e\<lparr>se_occurrence_count := se_occurrence_count e + 1\<rparr>"

definition persist :: "instant \<Rightarrow> point_context \<Rightarrow> telemetry_sample \<Rightarrow> rule_hit \<Rightarrow> db \<Rightarrow> (uuid \<times> db) result" where
  "persist now ctx sample hit d =
     bind (one_or_none (take 1 (order_by se_occurred_at
             (filter (within_window ctx (rh_event_type hit)) (safety_events d))))) (\<lambda>existing.
       case existing of
         Some e \<Rightarrow>
           Inr (se_id e, d\<lparr>safety_events := tupd (\<lambda>r. se_id r = se_id e) bump_occurrence (safety_events d)\<rparr>)
       | None \<Rightarrow>
           (let key = dedup_key_of ctx (rh_event_type hit);
                clash = (\<lambda>r. se_organization_id r = pc_organization_id ctx \<and> se_dedup_key r = key)
            in case find clash (safety_events d) of
                 Some r \<Rightarrow> Inr (se_id r, d\<lparr>safety_events := tupd clash bump_occurrence (safety_events d)\<rparr>)
               | None \<Rightarrow>
                   (let event_id = next_id d;
                        d1 = d\<lparr>safety_events := safety_events d @ [new_safety_event ctx hit sample event_id],
                               event_evidence_rows := event_evidence_rows d @
                                 [telemetry_window_evidence now ctx hit sample event_id (Suc event_id)],
                               next_id := Suc (Suc event_id)\<rparr>
                    in Inr (event_id, publish_event now
                         (SafetyCreated (pc_organization_id ctx) event_id (rh_event_type hit) (rh_severity hit)) d1))))"

fun persist_all :: "instant \<Rightarrow> point_context \<Rightarrow> telemetry_sample \<Rightarrow> rule_hit list \<Rightarrow> db \<Rightarrow> (uuid list \<times> db) result" where
  "persist_all now ctx sample [] d = Inr ([], d)"
| "persist_all now ctx sample (hit # hits) d =
     bind (persist now ctx sample hit d) (\<lambda>(i, d1).
     bind (persist_all now ctx sample hits d1) (\<lambda>(is, d2). Inr (i # is, d2)))"

definition evaluate :: "instant \<Rightarrow> point_context \<Rightarrow> telemetry_sample \<Rightarrow> thresholds \<Rightarrow> db \<Rightarrow> (uuid list \<times> db) result" where
  "evaluate now ctx sample th d =
     bind (evaluate_point sample th) (\<lambda>hits. persist_all now ctx sample hits d)"

definition load_thresholds :: "uuid \<Rightarrow> db \<Rightarrow> thresholds result" where
  "load_thresholds org d =
     bind (one_or_none (filter (\<lambda>s. os_organization_id s = org) (organization_settings_rows d))) (\<lambda>row.
       Inr (from_overrides (map_option os_risk_thresholds row)))"

subsection \<open>The invariant of the safety events\<close>

text \<open>
  Two events of one vehicle and type are more than the deduplication window apart; dedup keys are
  unique within a tenant; identifiers come from the supply.
\<close>

definition apart :: "safety_event \<Rightarrow> safety_event \<Rightarrow> bool" where
  "apart a b \<longleftrightarrow>
     (se_organization_id a = se_organization_id b \<and> se_vehicle_id a = se_vehicle_id b \<and>
      se_event_type a = se_event_type b \<longrightarrow> dedup_window < \<bar>se_occurred_at a - se_occurred_at b\<bar>)"

definition engine_inv :: "db \<Rightarrow> bool" where
  "engine_inv d \<longleftrightarrow> sorted_wrt apart (safety_events d) \<and>
     unique_on (\<lambda>_. True) (\<lambda>e. (se_organization_id e, se_dedup_key e)) (safety_events d) \<and>
     ids_ok se_id (next_id d) (safety_events d)"

definition occurrences :: "db \<Rightarrow> int" where
  "occurrences d = sum_list (map se_occurrence_count (safety_events d))"

lemma bump_occurrence_fields [simp]:
  "se_id (bump_occurrence e) = se_id e"
  "se_organization_id (bump_occurrence e) = se_organization_id e"
  "se_vehicle_id (bump_occurrence e) = se_vehicle_id e"
  "se_event_type (bump_occurrence e) = se_event_type e"
  "se_occurred_at (bump_occurrence e) = se_occurred_at e"
  "se_dedup_key (bump_occurrence e) = se_dedup_key e"
  "se_occurrence_count (bump_occurrence e) = se_occurrence_count e + 1"
  by (simp_all add: bump_occurrence_def)

lemma apart_bump [simp]:
  "apart (if p a then bump_occurrence a else a) (if p b then bump_occurrence b else b) = apart a b"
  by (simp add: apart_def)

lemma engine_inv_bump:
  "engine_inv d \<Longrightarrow> engine_inv (d\<lparr>safety_events := tupd p bump_occurrence (safety_events d)\<rparr>)"
  by (auto simp: engine_inv_def ids_ok_tupd intro!: unique_on_tupd)
     (simp add: tupd_def sorted_wrt_map)

text \<open>Bumping the one row a unique key selects adds one occurrence.\<close>

lemma sum_bump_unique:
  assumes "length (filter p rows) = 1"
  shows "sum_list (map se_occurrence_count (tupd p bump_occurrence rows)) =
         sum_list (map se_occurrence_count rows) + 1"
proof -
  have "sum_list (map se_occurrence_count (tupd p bump_occurrence rows)) =
        sum_list (map se_occurrence_count rows) + int (length (filter p rows))" for rows
    by (induction rows) auto
  then show ?thesis
    using assms by simp
qed

lemma length_filter_unique:
  assumes "unique_on (\<lambda>_. True) key rows" "r \<in> set rows"
  shows "length (filter (\<lambda>q. key q = key r) rows) = 1"
proof -
  have "length (filter (\<lambda>q. key q = key r) rows) \<le> 1"
    using unique_on_filter_length [OF assms(1)] by simp
  moreover have "filter (\<lambda>q. key q = key r) rows \<noteq> []"
    using assms(2) by (auto simp: filter_empty_conv)
  ultimately show ?thesis
    by (cases "filter (\<lambda>q. key q = key r) rows") auto
qed

lemma ids_ok_unique: "ids_ok key n rows \<Longrightarrow> unique_on (\<lambda>_. True) key rows"
  by (simp add: ids_ok_def keys_distinct_def unique_on_def)

text \<open>The three outcomes of \<open>persist\<close>: a row in the window, a row with the same key, a new row.\<close>

lemma persist_cases:
  obtains (window) e where "e \<in> set (safety_events d)" "within_window ctx (rh_event_type hit) e"
      "persist now ctx sample hit d =
         Inr (se_id e, d\<lparr>safety_events := tupd (\<lambda>r. se_id r = se_id e) bump_occurrence (safety_events d)\<rparr>)"
  | (key) e where "e \<in> set (safety_events d)"
      "se_organization_id e = pc_organization_id ctx" "se_dedup_key e = dedup_key_of ctx (rh_event_type hit)"
      "persist now ctx sample hit d =
         Inr (se_id e, d\<lparr>safety_events := tupd (\<lambda>r. se_organization_id r = pc_organization_id ctx \<and>
              se_dedup_key r = dedup_key_of ctx (rh_event_type hit)) bump_occurrence (safety_events d)\<rparr>)"
  | (new) "\<forall>e \<in> set (safety_events d). \<not> within_window ctx (rh_event_type hit) e"
      "\<forall>e \<in> set (safety_events d). se_organization_id e = pc_organization_id ctx \<longrightarrow>
          se_dedup_key e \<noteq> dedup_key_of ctx (rh_event_type hit)"
      "persist now ctx sample hit d = Inr (next_id d, publish_event now
         (SafetyCreated (pc_organization_id ctx) (next_id d) (rh_event_type hit) (rh_severity hit))
         (d\<lparr>safety_events := safety_events d @ [new_safety_event ctx hit sample (next_id d)],
            event_evidence_rows := event_evidence_rows d @
              [telemetry_window_evidence now ctx hit sample (next_id d) (Suc (next_id d))],
            next_id := Suc (Suc (next_id d))\<rparr>))"
proof -
  let ?rows = "order_by se_occurred_at (filter (within_window ctx (rh_event_type hit)) (safety_events d))"
  let ?clash = "\<lambda>r. se_organization_id r = pc_organization_id ctx \<and> se_dedup_key r = dedup_key_of ctx (rh_event_type hit)"
  show thesis
  proof (cases ?rows)
    case Nil
    then have none: "\<forall>e \<in> set (safety_events d). \<not> within_window ctx (rh_event_type hit) e"
      by (simp add: filter_empty_conv)
    show thesis
    proof (cases "find ?clash (safety_events d)")
      case None
      then have "\<forall>e \<in> set (safety_events d). se_organization_id e = pc_organization_id ctx \<longrightarrow>
          se_dedup_key e \<noteq> dedup_key_of ctx (rh_event_type hit)"
        by (auto simp: find_None_iff)
      then show thesis
        by (rule new [OF none]) (simp add: persist_def Let_def Nil None)
    next
      case (Some e)
      moreover have "e \<in> set (safety_events d)" "?clash e"
        using Some by (auto simp: find_Some_iff)
      ultimately show thesis
        by (intro key [of e]) (simp_all add: persist_def Let_def Nil)
    qed
  next
    case (Cons e es)
    then have "e \<in> set ?rows"
      by simp
    then have "e \<in> set (safety_events d)" "within_window ctx (rh_event_type hit) e"
      by simp_all
    then show thesis
      using Cons by (intro window [of e]) (simp_all add: persist_def)
  qed
qed

lemma within_window_apart:
  "apart e (new_safety_event ctx hit sample i) \<longleftrightarrow> \<not> within_window ctx (rh_event_type hit) e"
  by (auto simp: apart_def new_safety_event_def within_window_def)

lemma persist_inv:
  assumes "engine_inv d" "persist now ctx sample hit d = Inr (i, d')"
  shows "engine_inv d'"
proof (cases rule: persist_cases [of d ctx hit now sample])
  case new
  have "ids_ok se_id (Suc (next_id d)) (safety_events d @ [new_safety_event ctx hit sample (next_id d)])"
    using assms(1) by (intro ids_ok_snoc) (simp_all add: engine_inv_def new_safety_event_def)
  then show ?thesis
    using new assms
    by (auto simp: engine_inv_def sorted_wrt_append within_window_apart unique_on_snoc image_iff
        intro: ids_ok_mono) (auto simp: new_safety_event_def)
qed (use assms in \<open>auto intro: engine_inv_bump\<close>)

text \<open>
  What an evaluation may do to the rows: the old events keep everything but their occurrence count, and
  each new event has one evidence row and one notification of its own, in the same order.
\<close>

definition same_event :: "safety_event \<Rightarrow> safety_event \<Rightarrow> bool" where
  "same_event e e' \<longleftrightarrow> e' = e\<lparr>se_occurrence_count := se_occurrence_count e'\<rparr> \<and> se_occurrence_count e \<le> se_occurrence_count e'"

definition evidence_of :: "safety_event \<Rightarrow> event_evidence \<Rightarrow> bool" where
  "evidence_of e ev \<longleftrightarrow> ev_safety_event_id ev = se_id e \<and> ev_organization_id ev = se_organization_id e \<and>
     ev_kind ev = TelemetryWindow \<and> ev_captured_at ev = Some (se_occurred_at e)"

definition announces :: "safety_event \<Rightarrow> outbox_event \<Rightarrow> bool" where
  "announces e o1 \<longleftrightarrow> ob_payload o1 = SafetyCreated (se_organization_id e) (se_id e) (se_event_type e) (se_severity e) \<and>
     ob_status o1 = OutPending"

definition recorded :: "db \<Rightarrow> db \<Rightarrow> bool" where
  "recorded d d' \<longleftrightarrow> (\<exists>olds es evs os. safety_events d' = olds @ es \<and> list_all2 same_event (safety_events d) olds \<and>
     event_evidence_rows d' = event_evidence_rows d @ evs \<and> list_all2 evidence_of es evs \<and>
     outbox_events d' = outbox_events d @ os \<and> list_all2 announces es os)"

lemma same_event_refl [simp]: "same_event e e"
  by (simp add: same_event_def)

lemma same_event_fields:
  assumes "same_event e e'"
  shows "se_id e' = se_id e" "se_organization_id e' = se_organization_id e" "se_event_type e' = se_event_type e"
    "se_severity e' = se_severity e" "se_occurred_at e' = se_occurred_at e"
proof -
  obtain n where "e' = e\<lparr>se_occurrence_count := n\<rparr>"
    using assms by (auto simp: same_event_def)
  then show "se_id e' = se_id e" "se_organization_id e' = se_organization_id e" "se_event_type e' = se_event_type e"
    "se_severity e' = se_severity e" "se_occurred_at e' = se_occurred_at e"
    by simp_all
qed

lemma same_event_trans: "same_event a b \<Longrightarrow> same_event b c \<Longrightarrow> same_event a c"
proof -
  assume a: "same_event a b" "same_event b c"
  obtain n where "b = a\<lparr>se_occurrence_count := n\<rparr>"
    using a(1) unfolding same_event_def by blast
  moreover obtain m where "c = b\<lparr>se_occurrence_count := m\<rparr>"
    using a(2) unfolding same_event_def by blast
  ultimately show ?thesis
    using a by (simp add: same_event_def)
qed

lemma list_all2_transfer:
  "list_all2 R xs ys \<Longrightarrow> list_all2 P xs zs \<Longrightarrow> (\<And>x y z. R x y \<Longrightarrow> P x z \<Longrightarrow> P y z) \<Longrightarrow> list_all2 P ys zs"
  by (auto simp: list_all2_conv_all_nth)

lemma recorded_refl [simp]: "recorded d d"
  unfolding recorded_def
  by (intro exI [of _ "safety_events d"] exI [of _ "[]"]) (simp add: list_all2_same)

lemma recorded_trans:
  assumes "recorded d d1" "recorded d1 d2"
  shows "recorded d d2"
proof -
  obtain olds es evs os where a: "safety_events d1 = olds @ es" "list_all2 same_event (safety_events d) olds"
      "event_evidence_rows d1 = event_evidence_rows d @ evs" "list_all2 evidence_of es evs"
      "outbox_events d1 = outbox_events d @ os" "list_all2 announces es os"
    using assms(1) by (auto simp: recorded_def)
  obtain all2 es2 evs2 os2 where b: "safety_events d2 = all2 @ es2" "list_all2 same_event (safety_events d1) all2"
      "event_evidence_rows d2 = event_evidence_rows d1 @ evs2" "list_all2 evidence_of es2 evs2"
      "outbox_events d2 = outbox_events d1 @ os2" "list_all2 announces es2 os2"
    using assms(2) by (auto simp: recorded_def)
  obtain olds2 mid where m: "all2 = olds2 @ mid" "list_all2 same_event olds olds2" "list_all2 same_event es mid"
    using b(2) unfolding a(1) list_all2_append1 by blast
  have "list_all2 same_event (safety_events d) olds2"
    using a(2) m(2) by (rule list_all2_trans [rotated]) (rule same_event_trans)
  moreover have "list_all2 evidence_of mid evs"
    using m(3) a(4) by (rule list_all2_transfer) (auto simp: evidence_of_def dest: same_event_fields)
  moreover have "list_all2 announces mid os"
    using m(3) a(6) by (rule list_all2_transfer) (auto simp: announces_def dest: same_event_fields)
  ultimately show ?thesis
    unfolding recorded_def using a(3,5) b(1,3-6) m(1)
    by (intro exI [of _ olds2] exI [of _ "mid @ es2"] exI [of _ "evs @ evs2"] exI [of _ "os @ os2"])
      (simp add: list_all2_appendI)
qed

lemma recorded_bump: "recorded d (d\<lparr>safety_events := tupd p bump_occurrence (safety_events d)\<rparr>)"
  unfolding recorded_def
  by (intro exI [of _ "tupd p bump_occurrence (safety_events d)"] exI [of _ "[]"])
    (simp add: list_all2_conv_all_nth tupd_def same_event_def bump_occurrence_def)

text \<open>Every hit is one more occurrence, and every new event comes with evidence and a notification.\<close>

lemma persist_recorded:
  assumes "persist now ctx sample hit d = Inr (i, d')"
  shows "recorded d d'"
proof (cases rule: persist_cases [of d ctx hit now sample])
  case new
  let ?e = "new_safety_event ctx hit sample (next_id d)"
  show ?thesis
    using new(3) assms unfolding recorded_def
    by (intro exI [of _ "safety_events d"] exI [of _ "[?e]"])
      (auto simp: list_all2_same evidence_of_def announces_def new_safety_event_def telemetry_window_evidence_def publish_event_def)
qed (use assms recorded_bump in auto)

lemma persist_counts:
  assumes "engine_inv d" "persist now ctx sample hit d = Inr (i, d')"
  shows "occurrences d' = occurrences d + 1"
proof (cases rule: persist_cases [of d ctx hit now sample])
  case (window e)
  have "length (filter (\<lambda>r. se_id r = se_id e) (safety_events d)) = 1"
    using length_filter_unique [OF ids_ok_unique window(1)] assms(1) by (auto simp: engine_inv_def)
  then show ?thesis
    using window assms(2) by (auto simp: occurrences_def sum_bump_unique)
next
  case (key e)
  have "length (filter (\<lambda>r. se_organization_id r = pc_organization_id ctx \<and>
      se_dedup_key r = dedup_key_of ctx (rh_event_type hit)) (safety_events d)) = 1"
    using length_filter_unique [of "\<lambda>e. (se_organization_id e, se_dedup_key e)", OF _ key(1)] assms(1) key
    by (simp add: engine_inv_def)
  then show ?thesis
    using key assms(2) by (auto simp: occurrences_def sum_bump_unique)
qed (use assms in \<open>auto simp: occurrences_def new_safety_event_def\<close>)

lemma persist_total: "\<exists>r. persist now ctx sample hit d = Inr r"
  by (cases rule: persist_cases [of d ctx hit now sample]) auto

lemma persist_all_correct:
  "engine_inv d \<Longrightarrow>
   \<exists>ids d'. persist_all now ctx sample hits d = Inr (ids, d') \<and> engine_inv d' \<and> length ids = length hits \<and>
     occurrences d' = occurrences d + int (length hits) \<and> recorded d d'"
proof (induction hits arbitrary: d)
  case (Cons hit hits)
  obtain i d1 where p: "persist now ctx sample hit d = Inr (i, d1)"
    using persist_total [of now ctx sample hit d] by auto
  obtain ids d2 where q: "persist_all now ctx sample hits d1 = Inr (ids, d2)" "engine_inv d2"
      "length ids = length hits" "occurrences d2 = occurrences d1 + int (length hits)" "recorded d1 d2"
    using Cons.IH [OF persist_inv [OF Cons.prems p]] by blast
  then show ?case
    using p persist_counts [OF Cons.prems p] recorded_trans [OF persist_recorded [OF p] q(5)] by auto
qed simp

text \<open>The engine writes safety events, evidence and outbox rows, and nothing else.\<close>

lemma persist_frame:
  "persist now ctx sample hit d = Inr (i, d') \<Longrightarrow>
   trips d' = trips d \<and> telemetry_points d' = telemetry_points d \<and> ingest_events d' = ingest_events d \<and> next_id d \<le> next_id d'"
  by (cases rule: persist_cases [of d ctx hit now sample]) auto

lemma persist_all_frame:
  "persist_all now ctx sample hits d = Inr (is, d') \<Longrightarrow>
   trips d' = trips d \<and> telemetry_points d' = telemetry_points d \<and> ingest_events d' = ingest_events d \<and> next_id d \<le> next_id d'"
proof (induction hits arbitrary: d "is")
  case (Cons hit hits)
  then show ?case
    using persist_frame [of now ctx sample hit d] by (fastforce simp: bind_eq_Inr)
qed simp

lemma evaluate_frame:
  assumes "evaluate now ctx sample th d = Inr (is, d')"
  shows "trips d' = trips d \<and> telemetry_points d' = telemetry_points d \<and> ingest_events d' = ingest_events d \<and>
    next_id d \<le> next_id d' \<and> (engine_inv d \<longrightarrow> engine_inv d')"
proof -
  obtain hits where h: "persist_all now ctx sample hits d = Inr (is, d')"
    using assms by (auto simp: evaluate_def bind_eq_Inr)
  then show ?thesis
    using persist_all_frame [OF h] persist_all_correct [of d now ctx sample hits] by auto
qed

text \<open>
  The outbox only grows: new rows are appended under new identifiers, so a row that is there keeps
  its identifier and its content.
\<close>

definition outbox_inv :: "db \<Rightarrow> bool" where
  "outbox_inv d \<longleftrightarrow> ids_ok ob_id (next_id d) (outbox_events d)"

definition outbox_extends :: "db \<Rightarrow> db \<Rightarrow> bool" where
  "outbox_extends d d' \<longleftrightarrow> next_id d \<le> next_id d' \<and> (\<exists>obs. outbox_events d' = outbox_events d @ obs)"

lemma outbox_extends_refl [simp]: "outbox_extends d d"
  by (simp add: outbox_extends_def)

lemma outbox_extends_trans: "outbox_extends d d1 \<Longrightarrow> outbox_extends d1 d2 \<Longrightarrow> outbox_extends d d2"
  by (auto simp: outbox_extends_def)

lemma outbox_publish:
  assumes "outbox_inv d" "next_id d \<le> next_id d0" "outbox_events d0 = outbox_events d"
  shows "outbox_inv (publish_event now p d0) \<and> outbox_extends d (publish_event now p d0)"
proof -
  have "ids_ok ob_id (next_id d0) (outbox_events d)"
    using assms(1,2) by (auto simp: outbox_inv_def intro: ids_ok_mono)
  then show ?thesis
    using assms(2,3) by (simp add: outbox_inv_def outbox_extends_def publish_event_def ids_ok_snoc)
qed

lemma persist_outbox:
  assumes "outbox_inv d" "persist now ctx sample hit d = Inr (i, d')"
  shows "outbox_inv d' \<and> outbox_extends d d'"
proof (cases rule: persist_cases [of d ctx hit now sample])
  case new
  show ?thesis
    using new(3) assms(2) by (auto intro!: outbox_publish [OF assms(1), THEN conjunct1] outbox_publish [OF assms(1), THEN conjunct2])
qed (use assms in \<open>auto simp: outbox_inv_def outbox_extends_def\<close>)

lemma persist_all_outbox:
  "persist_all now ctx sample hits d = Inr (is, d') \<Longrightarrow> outbox_inv d \<Longrightarrow> outbox_inv d' \<and> outbox_extends d d'"
proof (induction hits arbitrary: d "is")
  case (Cons hit hits)
  then obtain i d1 js where "persist now ctx sample hit d = Inr (i, d1)" "persist_all now ctx sample hits d1 = Inr (js, d')"
    by (auto simp: bind_eq_Inr)
  then show ?case
    using persist_outbox [OF Cons.prems(2), of now ctx sample hit i d1] Cons.IH [of d1 js]
      outbox_extends_trans [of d d1 d'] by blast
qed simp

lemma evaluate_outbox:
  "evaluate now ctx sample th d = Inr (is, d') \<Longrightarrow> outbox_inv d \<Longrightarrow> outbox_inv d' \<and> outbox_extends d d'"
  using persist_all_outbox by (auto simp: evaluate_def bind_eq_Inr)

subsection \<open>Properties\<close>

text \<open>
  C15: evaluating a telemetry point never fails when the thresholds are positive and keeps the
  deduplication invariant: two safety events of a vehicle and type are always more than 30 seconds
  apart. Every rule hit is counted exactly once (as a new event or as an occurrence of an existing
  one); old events keep everything but their occurrence count, and each new event gets one evidence row
  and one pending notification of its own, and there are no other ones.
\<close>

theorem evaluate_deduplicates:
  assumes "engine_inv d" and "positive_thresholds th"
  shows "\<exists>ids d'. evaluate now ctx sample th d = Inr (ids, d') \<and> engine_inv d' \<and>
    length ids = length (filter (crosses sample th) [HarshBraking, HarshAcceleration, HarshCornering, Speeding]) \<and>
    occurrences d' = occurrences d + int (length ids) \<and>
    (\<exists>olds es evs os. safety_events d' = olds @ es \<and> list_all2 same_event (safety_events d) olds \<and>
       event_evidence_rows d' = event_evidence_rows d @ evs \<and> list_all2 evidence_of es evs \<and>
       outbox_events d' = outbox_events d @ os \<and> list_all2 announces es os)"
proof -
  obtain hits where h: "evaluate_point sample th = Inr hits"
    "map rh_event_type hits = filter (crosses sample th) [HarshBraking, HarshAcceleration, HarshCornering, Speeding]"
    using evaluate_point_hits [OF assms(2), of sample] by blast
  then have "length hits = length (filter (crosses sample th) [HarshBraking, HarshAcceleration, HarshCornering, Speeding])"
    by (metis length_map)
  with persist_all_correct [OF assms(1), of now ctx sample hits] h(1) show ?thesis
    unfolding recorded_def [symmetric] by (auto simp: evaluate_def)
qed

theorem evaluate_deduplicates_witness:
  "let ctx = \<lparr>pc_organization_id = 7, pc_vehicle_id = 3, pc_driver_id = None, pc_trip_id = None,
              pc_occurred_at = seconds 1000, pc_latitude = None, pc_longitude = None,
              pc_data_origin = None, pc_environment = None\<rparr>;
       sample = \<lparr>ts_speed_kph = Some 60, ts_acceleration_ms2 = Some (- 7),
              ts_lateral_acceleration_ms2 = Some 5, ts_quality = 1\<rparr>
   in \<exists>ids d'. evaluate 0 ctx sample default_thresholds empty_db = Inr (ids, d') \<and> engine_inv d' \<and>
        length ids = 2 \<and> occurrences d' = 2"
proof -
  let ?ctx = "\<lparr>pc_organization_id = 7, pc_vehicle_id = 3, pc_driver_id = None, pc_trip_id = None,
              pc_occurred_at = seconds 1000, pc_latitude = None, pc_longitude = None,
              pc_data_origin = None, pc_environment = None\<rparr> :: point_context"
  let ?s = "\<lparr>ts_speed_kph = Some 60, ts_acceleration_ms2 = Some (- 7),
              ts_lateral_acceleration_ms2 = Some 5, ts_quality = 1\<rparr> :: telemetry_sample"
  have "engine_inv empty_db" "positive_thresholds default_thresholds"
    by (simp_all add: engine_inv_def empty_db_def positive_thresholds_def default_thresholds_def)
  from evaluate_deduplicates [OF this, of 0 ?ctx ?s] show ?thesis
    by (auto simp: Let_def crosses_def default_thresholds_def occurrences_def empty_db_def)
qed

end
