(* ===== verification/Ingestion.thy ===== *)
theory Ingestion
  imports Outbox
begin

section \<open>Ingestion: validate, deduplicate, persist, publish or quarantine\<close>

text \<open>
  \<^verbatim>\<open>domain/ingestion.py\<close> (the contract) and \<^verbatim>\<open>application/ingestion/service.py\<close> (the pipeline).
  pydantic is not part of the program: its lax coercions of a JSON value to a field type, the names
  of its error types and the text of its exception are the parameter record \<open>pydantic\<close>. Which fields
  there are, which are required, their defaults, bounds and validators are those of the source.
\<close>

subsection \<open>Validation\<close>

text \<open>A validation error is a location and an error type.\<close>

type_synonym verror = "string \<times> string"

record pydantic =
  co_str :: "pyval \<Rightarrow> string + string"
  co_float :: "pyval \<Rightarrow> string + float64"
  co_int :: "pyval \<Rightarrow> string + int"
  co_datetime :: "pyval \<Rightarrow> string + pydatetime"
  exc_text :: "pydict \<Rightarrow> verror list \<Rightarrow> string"
  py_repr :: "pyval \<Rightarrow> string"
  iso_text :: "instant \<Rightarrow> string"
  datetime_text :: "instant \<Rightarrow> string"

definition field :: "pydict \<Rightarrow> string \<Rightarrow> 'a option \<Rightarrow> (pyval \<Rightarrow> string + 'a) \<Rightarrow> verror list + 'a" where
  "field d name dflt conv =
     (case dget d name of
        None \<Rightarrow> (case dflt of None \<Rightarrow> Inl [(name, ''missing'')] | Some x \<Rightarrow> Inr x)
      | Some v \<Rightarrow> (case conv v of Inl t \<Rightarrow> Inl [(name, t)] | Inr x \<Rightarrow> Inr x))"

definition errors :: "verror list + 'a \<Rightarrow> verror list" where
  "errors r = (case r of Inl es \<Rightarrow> es | Inr _ \<Rightarrow> [])"

definition nullable :: "(pyval \<Rightarrow> string + 'a) \<Rightarrow> pyval \<Rightarrow> string + 'a option" where
  "nullable conv v = (if v = PNone then Inr None else (case conv v of Inl t \<Rightarrow> Inl t | Inr x \<Rightarrow> Inr (Some x)))"

definition in_range :: "rat \<Rightarrow> rat \<Rightarrow> string + float64 \<Rightarrow> string + float64" where
  "in_range lo hi r = (case r of
     Inl t \<Rightarrow> Inl t
   | Inr x \<Rightarrow> if x < lo then Inl ''greater_than_equal'' else if hi < x then Inl ''less_than_equal'' else Inr x)"

definition at_least :: "rat \<Rightarrow> string + float64 \<Rightarrow> string + float64" where
  "at_least lo r = (case r of
     Inl t \<Rightarrow> Inl t | Inr x \<Rightarrow> if x < lo then Inl ''greater_than_equal'' else Inr x)"

definition int_range :: "int \<Rightarrow> int \<Rightarrow> string + int \<Rightarrow> string + int" where
  "int_range lo hi r = (case r of
     Inl t \<Rightarrow> Inl t
   | Inr x \<Rightarrow> if x < lo then Inl ''greater_than_equal'' else if hi < x then Inl ''less_than_equal'' else Inr x)"

definition of_length :: "nat \<Rightarrow> nat \<Rightarrow> string + string \<Rightarrow> string + string" where
  "of_length lo hi r = (case r of
     Inl t \<Rightarrow> Inl t
   | Inr s \<Rightarrow> if length s < lo then Inl ''string_too_short''
             else if hi < length s then Inl ''string_too_long'' else Inr s)"

definition co_dict :: "pyval \<Rightarrow> string + pydict" where
  "co_dict v = (case v of PDict d \<Rightarrow> Inr d | _ \<Rightarrow> Inl ''dict_type'')"

definition require_tz :: "string + pydatetime \<Rightarrow> string + instant" where
  "require_tz r = (case r of Inl t \<Rightarrow> Inl t | Inr (Naive _) \<Rightarrow> Inl ''value_error'' | Inr (Aware t) \<Rightarrow> Inr t)"

datatype ingest_type = TelemetryPosition | TripStart | TripEnd | DeviceStatus | ProviderEvent

fun ingest_type_value :: "ingest_type \<Rightarrow> string" where
  "ingest_type_value TelemetryPosition = ''telemetry.position''"
| "ingest_type_value TripStart = ''trip.start''"
| "ingest_type_value TripEnd = ''trip.end''"
| "ingest_type_value DeviceStatus = ''device.status''"
| "ingest_type_value ProviderEvent = ''provider.event''"

definition co_ingest_type :: "pyval \<Rightarrow> string + ingest_type" where
  "co_ingest_type v = (case find (\<lambda>t. v = PStr (ingest_type_value t))
       [TelemetryPosition, TripStart, TripEnd, DeviceStatus, ProviderEvent] of
     None \<Rightarrow> Inl ''enum'' | Some t \<Rightarrow> Inr t)"

definition schema_version_1 :: string where "schema_version_1 = ''1.0''"

definition is_schema_supported :: "string \<Rightarrow> bool" where
  "is_schema_supported v \<longleftrightarrow> v = schema_version_1"

record telemetry_payload =
  p_latitude :: float64
  p_longitude :: float64
  p_speed_kph :: "float64 option"
  p_heading_deg :: "float64 option"
  p_acceleration_ms2 :: "float64 option"
  p_lateral_acceleration_ms2 :: "float64 option"
  p_odometer_km :: "float64 option"
  p_gps_hdop :: "float64 option"
  p_satellites :: "int option"
  p_data_origin :: "string option"
  p_environment :: "string option"

definition payload_fields :: "string list" where
  "payload_fields = [''latitude'', ''longitude'', ''speed_kph'', ''heading_deg'', ''acceleration_ms2'',
     ''lateral_acceleration_ms2'', ''odometer_km'', ''gps_hdop'', ''satellites'', ''data_origin'', ''environment'']"

definition extra_errors :: "string list \<Rightarrow> pydict \<Rightarrow> verror list" where
  "extra_errors known d = map (\<lambda>kv. (fst kv, ''extra_forbidden'')) (filter (\<lambda>kv. fst kv \<notin> set known) d)"

definition validate_payload :: "pydantic \<Rightarrow> pydict \<Rightarrow> verror list + telemetry_payload" where
  "validate_payload pyd d =
     (let fl_range = (\<lambda>lo hi v. in_range lo hi (co_float pyd v));
          lat = field d ''latitude'' None (fl_range (- 90) 90);
          lon = field d ''longitude'' None (fl_range (- 180) 180);
          spd = field d ''speed_kph'' (Some None) (nullable (fl_range 0 400));
          hdg = field d ''heading_deg'' (Some None) (nullable (fl_range 0 360));
          acc = field d ''acceleration_ms2'' (Some None) (nullable (fl_range (- 50) 50));
          latacc = field d ''lateral_acceleration_ms2'' (Some None) (nullable (fl_range (- 50) 50));
          odo = field d ''odometer_km'' (Some None) (nullable (\<lambda>v. at_least 0 (co_float pyd v)));
          hdop = field d ''gps_hdop'' (Some None) (nullable (fl_range 0 100));
          sat = field d ''satellites'' (Some None) (nullable (\<lambda>v. int_range 0 64 (co_int pyd v)));
          orig = field d ''data_origin'' (Some None) (nullable (\<lambda>v. of_length 0 20 (co_str pyd v)));
          env = field d ''environment'' (Some None) (nullable (\<lambda>v. of_length 0 20 (co_str pyd v)));
          errs = errors lat @ errors lon @ errors spd @ errors hdg @ errors acc @ errors latacc @
                 errors odo @ errors hdop @ errors sat @ errors orig @ errors env @
                 extra_errors payload_fields d
      in if errs \<noteq> [] then Inl errs
         else Inr \<lparr>p_latitude = projr lat, p_longitude = projr lon, p_speed_kph = projr spd,
                   p_heading_deg = projr hdg, p_acceleration_ms2 = projr acc,
                   p_lateral_acceleration_ms2 = projr latacc, p_odometer_km = projr odo,
                   p_gps_hdop = projr hdop, p_satellites = projr sat, p_data_origin = projr orig,
                   p_environment = projr env\<rparr>)"

record event_envelope =
  e_schema_version :: string
  e_source :: string
  e_event_id :: string
  e_event_type :: ingest_type
  e_occurred_at :: instant
  e_received_at :: "instant option"
  e_vehicle_external_id :: string
  e_driver_external_id :: "string option"
  e_payload :: pydict
  e_signature :: "pydict option"

definition envelope_fields :: "string list" where
  "envelope_fields = [''schema_version'', ''source'', ''event_id'', ''event_type'', ''occurred_at'',
     ''received_at'', ''vehicle_external_id'', ''driver_external_id'', ''payload'', ''signature'']"

definition validate_envelope :: "pydantic \<Rightarrow> pydict \<Rightarrow> verror list + event_envelope" where
  "validate_envelope pyd d =
     (let ver = field d ''schema_version'' (Some schema_version_1) (co_str pyd);
          src = field d ''source'' None (\<lambda>v. of_length 1 120 (co_str pyd v));
          eid = field d ''event_id'' None (\<lambda>v. of_length 1 200 (co_str pyd v));
          typ = field d ''event_type'' None co_ingest_type;
          occ = field d ''occurred_at'' None (\<lambda>v. require_tz (co_datetime pyd v));
          rcv = field d ''received_at'' (Some None) (nullable (\<lambda>v. require_tz (co_datetime pyd v)));
          veh = field d ''vehicle_external_id'' None (\<lambda>v. of_length 1 120 (co_str pyd v));
          drv = field d ''driver_external_id'' (Some None) (nullable (\<lambda>v. of_length 0 120 (co_str pyd v)));
          pay = field d ''payload'' (Some []) co_dict;
          sig = field d ''signature'' (Some None) (nullable co_dict);
          errs = errors ver @ errors src @ errors eid @ errors typ @ errors occ @ errors rcv @
                 errors veh @ errors drv @ errors pay @ errors sig @ extra_errors envelope_fields d
      in if errs \<noteq> [] then Inl errs
         else Inr \<lparr>e_schema_version = projr ver, e_source = projr src, e_event_id = projr eid,
                   e_event_type = projr typ, e_occurred_at = projr occ, e_received_at = projr rcv,
                   e_vehicle_external_id = projr veh, e_driver_external_id = projr drv,
                   e_payload = projr pay, e_signature = projr sig\<rparr>)"

text \<open>\<^verbatim>\<open>model_dump(mode="json")\<close>: a datetime becomes its ISO text, a payload is kept.\<close>

definition opt_str :: "string option \<Rightarrow> pyval" where
  "opt_str x = (case x of None \<Rightarrow> PNone | Some s \<Rightarrow> PStr s)"

definition dump_envelope :: "pydantic \<Rightarrow> event_envelope \<Rightarrow> pydict" where
  "dump_envelope pyd e =
     [(''schema_version'', PStr (e_schema_version e)),
      (''source'', PStr (e_source e)),
      (''event_id'', PStr (e_event_id e)),
      (''event_type'', PStr (ingest_type_value (e_event_type e))),
      (''occurred_at'', PStr (iso_text pyd (e_occurred_at e))),
      (''received_at'', opt_str (map_option (iso_text pyd) (e_received_at e))),
      (''vehicle_external_id'', PStr (e_vehicle_external_id e)),
      (''driver_external_id'', opt_str (e_driver_external_id e)),
      (''payload'', PDict (e_payload e)),
      (''signature'', (case e_signature e of None \<Rightarrow> PNone | Some s \<Rightarrow> PDict s))]"

subsection \<open>The pipeline\<close>

datatype rejection_reason =
    SchemaVersionUnsupported | InvalidPayload | TimestampInFuture | TimestampTooOld
  | UnknownVehicle | CoordinatesOutOfRange

fun rejection_value :: "rejection_reason \<Rightarrow> string" where
  "rejection_value SchemaVersionUnsupported = ''schema_version_unsupported''"
| "rejection_value InvalidPayload = ''invalid_payload''"
| "rejection_value TimestampInFuture = ''timestamp_in_future''"
| "rejection_value TimestampTooOld = ''timestamp_too_old''"
| "rejection_value UnknownVehicle = ''unknown_vehicle''"
| "rejection_value CoordinatesOutOfRange = ''coordinates_out_of_range''"

definition max_clock_skew :: duration where "max_clock_skew = minutes 5"
definition max_age :: duration where "max_age = days 3"

definition check_timestamp :: "instant \<Rightarrow> instant \<Rightarrow> rejection_reason option" where
  "check_timestamp occurred_at now =
     (if now + max_clock_skew < occurred_at then Some TimestampInFuture
      else if occurred_at < now - max_age then Some TimestampTooOld
      else None)"

datatype outcome_status = OutcomeAccepted | OutcomeDuplicate | OutcomeQuarantined

record ingest_outcome =
  io_event_id :: string
  io_status :: outcome_status
  io_rejection_reason :: "rejection_reason option"
  io_detail :: "string option"

record batch_result =
  br_accepted :: int
  br_duplicates :: int
  br_quarantined :: int
  br_outcomes :: "ingest_outcome list"

text \<open>\<^verbatim>\<open>str(x)\<close> of a JSON value; the text of floats and containers is left to \<open>py_repr\<close>.\<close>

definition py_str :: "pydantic \<Rightarrow> pyval \<Rightarrow> string" where
  "py_str pyd v = (case v of
     PStr s \<Rightarrow> s | PNone \<Rightarrow> ''None'' | PBool b \<Rightarrow> (if b then ''True'' else ''False'') | _ \<Rightarrow> py_repr pyd v)"

definition raw_text :: "pydantic \<Rightarrow> pydict \<Rightarrow> string \<Rightarrow> string" where
  "raw_text pyd raw k = (case dget raw k of None \<Rightarrow> [] | Some v \<Rightarrow> py_str pyd v)"

fun join_errors :: "verror list \<Rightarrow> string" where
  "join_errors [] = []"
| "join_errors [(l, t)] = l @ '': '' @ t"
| "join_errors ((l, t) # es) = l @ '': '' @ t @ ''; '' @ join_errors es"

definition summarize_errors :: "verror list \<Rightarrow> string" where
  "summarize_errors es = join_errors (take 5 es)"

text \<open>
  An insert into \<^verbatim>\<open>ingest_events\<close> with \<^verbatim>\<open>ON CONFLICT DO NOTHING\<close> on the natural key. A value
  that does not fit its column (\<^verbatim>\<open>String(200)\<close>, \<^verbatim>\<open>String(120)\<close>) makes the statement fail.
\<close>

definition ingest_key :: "ingest_event \<Rightarrow> uuid \<times> string \<times> string" where
  "ingest_key r = (ie_organization_id r, ie_source r, ie_external_event_id r)"

definition insert_ingest_event :: "ingest_event \<Rightarrow> db \<Rightarrow> (bool \<times> db) result" where
  "insert_ingest_event r d =
     (if 200 < length (ie_external_event_id r) \<or> 120 < length (ie_source r) \<or>
         (case ie_vehicle_external_id r of None \<Rightarrow> False | Some v \<Rightarrow> 120 < length v)
      then Inl (PyRuntimeError ''DataError'')
      else if ingest_key r \<in> ingest_key ` set (ingest_events d) then Inr (False, d)
      else Inr (True, d\<lparr>ingest_events := ingest_events d @ [r], next_id := Suc (next_id d)\<rparr>))"

definition accepted_row :: "instant \<Rightarrow> pydantic \<Rightarrow> uuid \<Rightarrow> data_source \<Rightarrow> event_envelope \<Rightarrow> uuid \<Rightarrow> ingest_event" where
  "accepted_row now pyd tenant src e i =
     \<lparr>ie_id = i, ie_organization_id = tenant, ie_data_source_id = Some (ds_id src),
      ie_source = e_source e, ie_external_event_id = e_event_id e,
      ie_event_type = ingest_type_value (e_event_type e),
      ie_vehicle_external_id = Some (e_vehicle_external_id e),
      ie_occurred_at = Some (e_occurred_at e), ie_received_at = now, ie_envelope = dump_envelope pyd e,
      ie_status = IngAccepted, ie_rejection_reason = None, ie_detail = None, ie_processed_at = None\<rparr>"

definition store_accepted ::
    "instant \<Rightarrow> pydantic \<Rightarrow> uuid \<Rightarrow> data_source \<Rightarrow> event_envelope \<Rightarrow> db \<Rightarrow> (ingest_outcome \<times> db) result" where
  "store_accepted now pyd tenant src e d =
     (let r = accepted_row now pyd tenant src e (next_id d)
      in bind (insert_ingest_event r d) (\<lambda>(inserted, d1).
           if \<not> inserted then
             Inr (\<lparr>io_event_id = e_event_id e, io_status = OutcomeDuplicate,
                   io_rejection_reason = None, io_detail = None\<rparr>, d1)
           else
             Inr (\<lparr>io_event_id = e_event_id e, io_status = OutcomeAccepted,
                   io_rejection_reason = None, io_detail = None\<rparr>,
                  publish_event now (IngestAccepted tenant (ie_id r) (ie_event_type r)) d1)))"

definition quarantine_row ::
    "instant \<Rightarrow> uuid \<Rightarrow> data_source \<Rightarrow> pydict \<Rightarrow> string \<Rightarrow> event_envelope option \<Rightarrow> rejection_reason \<Rightarrow> string \<Rightarrow> uuid \<Rightarrow> ingest_event" where
  "quarantine_row now tenant src raw external_id env reason detail i =
     \<lparr>ie_id = i, ie_organization_id = tenant, ie_data_source_id = Some (ds_id src),
      ie_source = (case env of Some e \<Rightarrow> e_source e | None \<Rightarrow> ds_source_key src),
      ie_external_event_id = external_id,
      ie_event_type = (case env of Some e \<Rightarrow> ingest_type_value (e_event_type e) | None \<Rightarrow> ''unknown''),
      ie_vehicle_external_id = map_option e_vehicle_external_id env,
      ie_occurred_at = map_option e_occurred_at env, ie_received_at = now, ie_envelope = raw,
      ie_status = IngQuarantined, ie_rejection_reason = Some (rejection_value reason),
      ie_detail = Some (take 2000 detail), ie_processed_at = None\<rparr>"

definition store_quarantine ::
    "instant \<Rightarrow> uuid \<Rightarrow> data_source \<Rightarrow> pydict \<Rightarrow> string \<Rightarrow> event_envelope option \<Rightarrow> rejection_reason \<Rightarrow> string \<Rightarrow> db \<Rightarrow>
     (ingest_outcome \<times> db) result" where
  "store_quarantine now tenant src raw external_id env reason detail d =
     bind (insert_ingest_event (quarantine_row now tenant src raw external_id env reason detail (next_id d)) d) (\<lambda>(_, d1).
       Inr (\<lparr>io_event_id = external_id, io_status = OutcomeQuarantined,
             io_rejection_reason = Some reason, io_detail = Some detail\<rparr>, d1))"

definition mentions_coordinates :: "string \<Rightarrow> bool" where
  "mentions_coordinates s \<longleftrightarrow> sublist ''latitude'' s \<or> sublist ''longitude'' s"

text \<open>Steps 3 to 6, on an envelope that passed validation.\<close>

definition ingest_envelope ::
    "instant \<Rightarrow> pydantic \<Rightarrow> uuid \<Rightarrow> data_source \<Rightarrow> string set \<Rightarrow> event_envelope \<Rightarrow> db \<Rightarrow> (ingest_outcome \<times> db) result" where
  "ingest_envelope now pyd tenant src known_vehicles e d =
     (let quarantine = store_quarantine now tenant src (dump_envelope pyd e) (e_event_id e) (Some e);
          payload_errors = (if e_event_type e = TelemetryPosition
                            then errors (validate_payload pyd (e_payload e)) else [])
      in if payload_errors \<noteq> [] then
           quarantine
             (if mentions_coordinates (exc_text pyd (e_payload e) payload_errors)
              then CoordinatesOutOfRange else InvalidPayload)
             (summarize_errors payload_errors) d
         else (case check_timestamp (e_occurred_at e) now of
             Some reason \<Rightarrow> quarantine reason (datetime_text pyd (e_occurred_at e)) d
           | None \<Rightarrow>
               if e_vehicle_external_id e \<notin> known_vehicles
               then quarantine UnknownVehicle (e_vehicle_external_id e) d
               else store_accepted now pyd tenant src e d))"

definition ingest_one ::
    "instant \<Rightarrow> pydantic \<Rightarrow> uuid \<Rightarrow> data_source \<Rightarrow> string set \<Rightarrow> pydict \<Rightarrow> db \<Rightarrow> (ingest_outcome \<times> db) result" where
  "ingest_one now pyd tenant src known_vehicles raw d =
     (let id_text = raw_text pyd raw ''event_id'';
          external_id = (if id_text = [] then ''(bilinmiyor)'' else id_text);
          version = raw_text pyd raw ''schema_version''
      in if version \<noteq> [] \<and> \<not> is_schema_supported version then
           store_quarantine now tenant src raw external_id None SchemaVersionUnsupported
             (''schema_version='' @ version) d
         else (case validate_envelope pyd raw of
           Inl errs \<Rightarrow> store_quarantine now tenant src raw external_id None InvalidPayload (summarize_errors errs) d
         | Inr e \<Rightarrow> ingest_envelope now pyd tenant src known_vehicles e d))"

definition known_vehicle_ids :: "uuid \<Rightarrow> db \<Rightarrow> string set" where
  "known_vehicle_ids tenant d = v_external_id ` set (filter (\<lambda>v. v_organization_id v = tenant) (vehicles d))"

fun ingest_all ::
    "instant \<Rightarrow> pydantic \<Rightarrow> uuid \<Rightarrow> data_source \<Rightarrow> string set \<Rightarrow> pydict list \<Rightarrow> db \<Rightarrow>
     (ingest_outcome list \<times> db) result" where
  "ingest_all now pyd tenant src kv [] d = Inr ([], d)"
| "ingest_all now pyd tenant src kv (raw # raws) d =
     bind (ingest_one now pyd tenant src kv raw d) (\<lambda>(o1, d1).
     bind (ingest_all now pyd tenant src kv raws d1) (\<lambda>(os, d2). Inr (o1 # os, d2)))"

definition outcome_count :: "outcome_status \<Rightarrow> ingest_outcome list \<Rightarrow> int" where
  "outcome_count st os = int (length (filter (\<lambda>o1. io_status o1 = st) os))"

definition ingest_batch ::
    "instant \<Rightarrow> pydantic \<Rightarrow> uuid \<Rightarrow> data_source \<Rightarrow> pydict list \<Rightarrow> db \<Rightarrow> (batch_result \<times> db) result" where
  "ingest_batch now pyd tenant src raws d =
     bind (ingest_all now pyd tenant src (known_vehicle_ids tenant d) raws d) (\<lambda>(os, d1).
       let acc = outcome_count OutcomeAccepted os;
           dup = outcome_count OutcomeDuplicate os;
           qua = outcome_count OutcomeQuarantined os
       in Inr (\<lparr>br_accepted = acc, br_duplicates = dup, br_quarantined = qua, br_outcomes = os\<rparr>,
               d1\<lparr>data_sources := tupd (\<lambda>s. ds_id s = ds_id src)
                    (\<lambda>s. s\<lparr>ds_accepted_count := ds_accepted_count s + acc,
                           ds_rejected_count := ds_rejected_count s + qua,
                           ds_duplicate_count := ds_duplicate_count s + dup,
                           ds_last_event_at := Some now,
                           ds_last_success_at := (if acc \<noteq> 0 then Some now else ds_last_success_at s)\<rparr>)
                    (data_sources d1)\<rparr>))"

definition get_source_by_key :: "uuid \<Rightarrow> string \<Rightarrow> db \<Rightarrow> data_source option result" where
  "get_source_by_key tenant key d =
     one_or_none (filter (\<lambda>s. ds_organization_id s = tenant \<and> ds_source_key s = key) (data_sources d))"

subsection \<open>Facts\<close>

text \<open>
  The natural key an envelope is stored under depends only on its text and the data source: neither
  on the clock nor on the vehicles the tenant has.
\<close>

definition raw_key :: "pydantic \<Rightarrow> uuid \<Rightarrow> data_source \<Rightarrow> pydict \<Rightarrow> uuid \<times> string \<times> string" where
  "raw_key pyd tenant src raw =
     (let id_text = raw_text pyd raw ''event_id'';
          external_id = (if id_text = [] then ''(bilinmiyor)'' else id_text);
          version = raw_text pyd raw ''schema_version''
      in if version \<noteq> [] \<and> \<not> is_schema_supported version then (tenant, ds_source_key src, external_id)
         else (case validate_envelope pyd raw of
                 Inl _ \<Rightarrow> (tenant, ds_source_key src, external_id)
               | Inr e \<Rightarrow> (tenant, e_source e, e_event_id e)))"

definition key_fits :: "uuid \<times> string \<times> string \<Rightarrow> bool" where
  "key_fits k = (case k of (_, s, i) \<Rightarrow> length s \<le> 120 \<and> length i \<le> 200)"

lemma field_of_length:
  "errors (field d n None (\<lambda>v. of_length lo hi (conv v))) = [] \<Longrightarrow>
   length (projr (field d n None (\<lambda>v. of_length lo hi (conv v)))) \<le> hi"
  by (auto simp: field_def of_length_def errors_def split: option.splits sum.splits if_splits)

lemma validate_envelope_lengths:
  assumes "validate_envelope pyd raw = Inr e"
  shows "length (e_source e) \<le> 120" "length (e_event_id e) \<le> 200" "length (e_vehicle_external_id e) \<le> 120"
  using assms by (auto simp: validate_envelope_def Let_def field_of_length split: if_splits)

text \<open>What storing an envelope under a key that fits does to the tables.\<close>

definition ingested :: "instant \<Rightarrow> uuid \<times> string \<times> string \<Rightarrow> ingest_outcome \<Rightarrow> db \<Rightarrow> db \<Rightarrow> bool" where
  "ingested now k o1 d d' \<longleftrightarrow>
     (if k \<in> ingest_key ` set (ingest_events d) then io_status o1 \<noteq> OutcomeAccepted \<and> d' = d
      else io_status o1 \<noteq> OutcomeDuplicate \<and>
        (\<exists>r. ingest_key r = k \<and> ie_id r = next_id d \<and>
          ie_status r = (if io_status o1 = OutcomeAccepted then IngAccepted else IngQuarantined) \<and>
          d' = (if io_status o1 = OutcomeAccepted
                then publish_event now (IngestAccepted (ie_organization_id r) (next_id d) (ie_event_type r))
                  (d\<lparr>ingest_events := ingest_events d @ [r], next_id := Suc (next_id d)\<rparr>)
                else d\<lparr>ingest_events := ingest_events d @ [r], next_id := Suc (next_id d)\<rparr>)))"

lemma insert_fits:
  assumes "key_fits (ingest_key r)"
    and "case ie_vehicle_external_id r of None \<Rightarrow> True | Some v \<Rightarrow> length v \<le> 120"
  shows "insert_ingest_event r d =
    (if ingest_key r \<in> ingest_key ` set (ingest_events d) then Inr (False, d)
     else Inr (True, d\<lparr>ingest_events := ingest_events d @ [r], next_id := Suc (next_id d)\<rparr>))"
  using assms by (auto simp: insert_ingest_event_def key_fits_def ingest_key_def not_less split: option.splits)

lemma ingested_quarantine:
  fixes tenant src env i
  defines "k \<equiv> (tenant, (case env of Some e \<Rightarrow> e_source e | None \<Rightarrow> ds_source_key src), i)"
  assumes "key_fits k" and "\<And>e. env = Some e \<Longrightarrow> length (e_vehicle_external_id e) \<le> 120"
  shows "\<exists>o1 d'. store_quarantine now tenant src raw i env reason detail d = Inr (o1, d') \<and> ingested now k o1 d d'"
proof -
  let ?r = "quarantine_row now tenant src raw i env reason detail (next_id d)"
  have k: "ingest_key ?r = k"
    by (simp add: ingest_key_def quarantine_row_def k_def)
  have v: "case ie_vehicle_external_id ?r of None \<Rightarrow> True | Some v \<Rightarrow> length v \<le> 120"
    using assms(3) by (cases env) (auto simp: quarantine_row_def)
  have "insert_ingest_event ?r d = (if k \<in> ingest_key ` set (ingest_events d) then Inr (False, d)
     else Inr (True, d\<lparr>ingest_events := ingest_events d @ [?r], next_id := Suc (next_id d)\<rparr>))"
    using insert_fits [OF _ v, of d] assms(2) by (simp add: k)
  moreover have st: "ie_id ?r = next_id d" "ie_status ?r = IngQuarantined"
    by (simp_all add: quarantine_row_def)
  ultimately show ?thesis
    using k by (auto simp: store_quarantine_def ingested_def intro!: exI [of _ ?r])
qed

lemma ingested_accept:
  assumes "key_fits (tenant, e_source e, e_event_id e)" and "length (e_vehicle_external_id e) \<le> 120"
  shows "\<exists>o1 d'. store_accepted now pyd tenant src e d = Inr (o1, d') \<and>
    ingested now (tenant, e_source e, e_event_id e) o1 d d'"
proof -
  let ?r = "accepted_row now pyd tenant src e (next_id d)"
  have k: "ingest_key ?r = (tenant, e_source e, e_event_id e)"
    by (simp add: ingest_key_def accepted_row_def)
  have "insert_ingest_event ?r d = (if ingest_key ?r \<in> ingest_key ` set (ingest_events d) then Inr (False, d)
     else Inr (True, d\<lparr>ingest_events := ingest_events d @ [?r], next_id := Suc (next_id d)\<rparr>))"
    using insert_fits [of ?r d] assms by (simp add: k) (simp add: accepted_row_def)
  moreover have "ie_organization_id ?r = tenant" "ie_id ?r = next_id d" "ie_status ?r = IngAccepted"
    by (simp_all add: accepted_row_def)
  ultimately show ?thesis
    using k by (auto simp: store_accepted_def ingested_def Let_def intro!: exI [of _ ?r])
qed

lemma ingest_envelope_cases:
  "ingest_envelope now pyd tenant src kv e d = store_accepted now pyd tenant src e d \<or>
   (\<exists>reason detail. ingest_envelope now pyd tenant src kv e d =
      store_quarantine now tenant src (dump_envelope pyd e) (e_event_id e) (Some e) reason detail d)"
  unfolding ingest_envelope_def Let_def by (cases "check_timestamp (e_occurred_at e) now") auto

lemma ingest_one_spec:
  "if key_fits (raw_key pyd tenant src raw)
   then \<exists>o1 d'. ingest_one now pyd tenant src kv raw d = Inr (o1, d') \<and>
          ingested now (raw_key pyd tenant src raw) o1 d d'
   else isl (ingest_one now pyd tenant src kv raw d)"
proof -
  let ?id = "raw_text pyd raw ''event_id''" and ?v = "raw_text pyd raw ''schema_version''"
  let ?ext = "if ?id = [] then ''(bilinmiyor)'' else ?id"
  show ?thesis
  proof (cases "(?v \<noteq> [] \<and> \<not> is_schema_supported ?v) \<or> isl (validate_envelope pyd raw)")
    case True
    then have k: "raw_key pyd tenant src raw = (tenant, ds_source_key src, ?ext)"
      by (auto simp: raw_key_def Let_def split: sum.splits)
    have "\<exists>reason detail. ingest_one now pyd tenant src kv raw d = store_quarantine now tenant src raw ?ext None reason detail d"
    proof (cases "?v \<noteq> [] \<and> \<not> is_schema_supported ?v")
      case v: True
      show ?thesis
        using v by (intro exI [of _ SchemaVersionUnsupported] exI [of _ "''schema_version='' @ ?v"])
          (simp add: ingest_one_def Let_def)
    next
      case v: False
      then obtain errs where "validate_envelope pyd raw = Inl errs"
        using True by (cases "validate_envelope pyd raw") auto
      then show ?thesis
        by (intro exI [of _ InvalidPayload] exI [of _ "summarize_errors errs"])
           (simp only: ingest_one_def Let_def v if_False sum.case)
    qed
    then obtain reason detail where
      one: "ingest_one now pyd tenant src kv raw d = store_quarantine now tenant src raw ?ext None reason detail d"
      by blast
    show ?thesis
      using ingested_quarantine [where tenant = tenant and env = None and src = src and i = ?ext and raw = raw
          and reason = reason and detail = detail and d = d and now = now]
      unfolding k one by (auto simp: store_quarantine_def insert_ingest_event_def key_fits_def quarantine_row_def)
  next
    case False
    then obtain e where e: "validate_envelope pyd raw = Inr e" and v: "\<not> (?v \<noteq> [] \<and> \<not> is_schema_supported ?v)"
      by (cases "validate_envelope pyd raw") auto
    have k: "raw_key pyd tenant src raw = (tenant, e_source e, e_event_id e)"
      using v e by (auto simp: raw_key_def Let_def)
    have fits: "key_fits (tenant, e_source e, e_event_id e)"
      using validate_envelope_lengths [OF e] by (simp add: key_fits_def)
    have one: "ingest_one now pyd tenant src kv raw d = ingest_envelope now pyd tenant src kv e d"
      using v e by (auto simp: ingest_one_def Let_def)
    consider (q) reason detail where "ingest_envelope now pyd tenant src kv e d =
          store_quarantine now tenant src (dump_envelope pyd e) (e_event_id e) (Some e) reason detail d"
      | (a) "ingest_envelope now pyd tenant src kv e d = store_accepted now pyd tenant src e d"
      using ingest_envelope_cases [of now pyd tenant src kv e d] by blast
    then show ?thesis
      using fits validate_envelope_lengths [OF e]
        ingested_quarantine [where tenant = tenant and env = "Some e" and src = src and i = "e_event_id e"
          and raw = "dump_envelope pyd e" and d = d and now = now]
        ingested_accept [of tenant e now pyd src d]
      by cases (auto simp: k one)
  qed
qed

definition ingest_inv :: "db \<Rightarrow> bool" where
  "ingest_inv d \<longleftrightarrow> unique_on (\<lambda>_. True) ingest_key (ingest_events d) \<and> ids_ok ie_id (next_id d) (ingest_events d)"

definition accepted_payloads :: "ingest_event list \<Rightarrow> outbox_payload list" where
  "accepted_payloads rows =
     map (\<lambda>r. IngestAccepted (ie_organization_id r) (ie_id r) (ie_event_type r)) (filter (\<lambda>r. ie_status r = IngAccepted) rows)"

text \<open>The rows and outbox events a run of the pipeline adds.\<close>

definition ingest_log :: "(uuid \<times> string \<times> string) list \<Rightarrow> ingest_outcome list \<Rightarrow> db \<Rightarrow> db \<Rightarrow> bool" where
  "ingest_log keys os d d' \<longleftrightarrow>
     (\<exists>new obs. ingest_events d' = ingest_events d @ new \<and> outbox_events d' = outbox_events d @ obs \<and>
        ingest_key ` set (ingest_events d') = ingest_key ` set (ingest_events d) \<union> set keys \<and>
        map ob_payload obs = accepted_payloads new \<and>
        outcome_count OutcomeAccepted os = int (length obs) \<and>
        vehicles d' = vehicles d \<and> data_sources d' = data_sources d)"

lemma ingested_log: "ingested now k o1 d d' \<Longrightarrow> ingest_log [k] [o1] d d'"
  by (cases "k \<in> ingest_key ` set (ingest_events d)"; cases "io_status o1 = OutcomeAccepted")
     (auto simp: ingested_def ingest_log_def accepted_payloads_def outcome_count_def publish_event_def)

lemma ingested_inv: "ingested now k o1 d d' \<Longrightarrow> ingest_inv d \<Longrightarrow> ingest_inv d'"
  by (cases "k \<in> ingest_key ` set (ingest_events d)"; cases "io_status o1 = OutcomeAccepted")
     (auto simp: ingested_def ingest_inv_def unique_on_snoc publish_event_def ids_ok_Suc ids_ok_snoc)

lemma ingest_log_append: "ingest_log ks os d d1 \<Longrightarrow> ingest_log ks' os' d1 d2 \<Longrightarrow> ingest_log (ks @ ks') (os @ os') d d2"
proof -
  assume 1: "ingest_log ks os d d1" and 2: "ingest_log ks' os' d1 d2"
  obtain n1 b1 where "ingest_events d1 = ingest_events d @ n1" "outbox_events d1 = outbox_events d @ b1"
      "ingest_key ` set (ingest_events d1) = ingest_key ` set (ingest_events d) \<union> set ks"
      "map ob_payload b1 = accepted_payloads n1" "outcome_count OutcomeAccepted os = int (length b1)"
      "vehicles d1 = vehicles d" "data_sources d1 = data_sources d"
    using 1 unfolding ingest_log_def by blast
  moreover obtain n2 b2 where "ingest_events d2 = ingest_events d1 @ n2" "outbox_events d2 = outbox_events d1 @ b2"
      "ingest_key ` set (ingest_events d2) = ingest_key ` set (ingest_events d1) \<union> set ks'"
      "map ob_payload b2 = accepted_payloads n2" "outcome_count OutcomeAccepted os' = int (length b2)"
      "vehicles d2 = vehicles d1" "data_sources d2 = data_sources d1"
    using 2 unfolding ingest_log_def by blast
  ultimately show ?thesis
    unfolding ingest_log_def
    by (intro exI [of _ "n1 @ n2"] exI [of _ "b1 @ b2"])
       (simp add: accepted_payloads_def outcome_count_def Un_assoc)
qed

lemma ingest_all_spec:
  assumes "list_all (\<lambda>raw. key_fits (raw_key pyd tenant src raw)) raws"
  shows "\<exists>os d'. ingest_all now pyd tenant src kv raws d = Inr (os, d') \<and> length os = length raws \<and>
    ingest_log (map (raw_key pyd tenant src) raws) os d d' \<and> (ingest_inv d \<longrightarrow> ingest_inv d')"
  using assms
proof (induction raws arbitrary: d)
  case Nil
  then show ?case
    by (auto simp: ingest_log_def accepted_payloads_def outcome_count_def)
next
  case (Cons raw raws)
  then obtain o1 d1 where 1: "ingest_one now pyd tenant src kv raw d = Inr (o1, d1)"
      "ingested now (raw_key pyd tenant src raw) o1 d d1"
    using ingest_one_spec [of pyd tenant src raw now kv d] by auto
  obtain os d2 where 2: "ingest_all now pyd tenant src kv raws d1 = Inr (os, d2)" "length os = length raws"
      "ingest_log (map (raw_key pyd tenant src) raws) os d1 d2" "ingest_inv d1 \<longrightarrow> ingest_inv d2"
    using Cons.IH [of d1] Cons.prems by auto
  have "ingest_log (map (raw_key pyd tenant src) (raw # raws)) (o1 # os) d d2"
    using ingest_log_append [OF ingested_log [OF 1(2)] 2(3)] by simp
  then show ?case
    using 1 2 ingested_inv [OF 1(2)] by auto
qed

lemma ingest_all_overlong:
  "\<not> list_all (\<lambda>raw. key_fits (raw_key pyd tenant src raw)) raws \<Longrightarrow> isl (ingest_all now pyd tenant src kv raws d)"
proof (induction raws arbitrary: d)
  case (Cons raw raws)
  show ?case
  proof (cases "key_fits (raw_key pyd tenant src raw)")
    case True
    then obtain o1 d1 where 1: "ingest_one now pyd tenant src kv raw d = Inr (o1, d1)"
      using ingest_one_spec [of pyd tenant src raw now kv d] by auto
    then have "isl (ingest_all now pyd tenant src kv raws d1)"
      using Cons True by simp
    with 1 show ?thesis
      by (auto simp: isl_def)
  next
    case False
    then show ?thesis
      using ingest_one_spec [of pyd tenant src raw now kv d] by (auto simp: isl_def)
  qed
qed simp

lemma outcome_count_total:
  "outcome_count OutcomeAccepted os + outcome_count OutcomeDuplicate os + outcome_count OutcomeQuarantined os =
   int (length os)"
proof (induction os)
  case (Cons o1 os)
  then show ?case
    by (cases "io_status o1") (simp_all add: outcome_count_def)
qed (simp add: outcome_count_def)

text \<open>When all keys are taken already, nothing is stored and nothing is accepted.\<close>

lemma ingest_all_taken:
  assumes "list_all (\<lambda>raw. key_fits (raw_key pyd tenant src raw)) raws"
    and "set (map (raw_key pyd tenant src) raws) \<subseteq> ingest_key ` set (ingest_events d)"
  shows "\<exists>os. ingest_all now pyd tenant src kv raws d = Inr (os, d) \<and> outcome_count OutcomeAccepted os = 0"
  using assms
proof (induction raws)
  case (Cons raw raws)
  then obtain o1 d1 where 1: "ingest_one now pyd tenant src kv raw d = Inr (o1, d1)"
      "ingested now (raw_key pyd tenant src raw) o1 d d1"
    using ingest_one_spec [of pyd tenant src raw now kv d] by auto
  then have "d1 = d" "io_status o1 \<noteq> OutcomeAccepted"
    using Cons.prems by (auto simp: ingested_def)
  then show ?case
    using 1 Cons by (auto simp: outcome_count_def)
qed (simp add: outcome_count_def)

subsection \<open>Example data\<close>

text \<open>A coercion without conversions, in which a clock value is a number or, as text, its length; it runs
  the examples.\<close>

definition strict_pydantic :: pydantic where
  "strict_pydantic =
     \<lparr>co_str = (\<lambda>v. case v of PStr s \<Rightarrow> Inr s | _ \<Rightarrow> Inl ''string_type''),
      co_float = (\<lambda>v. case v of PFloat x \<Rightarrow> Inr x | PInt n \<Rightarrow> Inr (of_int n) | _ \<Rightarrow> Inl ''float_type''),
      co_int = (\<lambda>v. case v of PInt n \<Rightarrow> Inr n | _ \<Rightarrow> Inl ''int_type''),
      co_datetime = (\<lambda>v. case v of PInt n \<Rightarrow> Inr (Aware n) | PStr s \<Rightarrow> Inr (Aware (int (length s)))
                          | _ \<Rightarrow> Inl ''datetime_type''),
      exc_text = (\<lambda>_ es. concat (map fst es)), py_repr = (\<lambda>_. ''...''),
      iso_text = (\<lambda>t. replicate (nat t) (CHR ''i'')), datetime_text = (\<lambda>t. replicate (nat t) (CHR ''i''))\<rparr>"

definition example_source :: data_source where
  "example_source = \<lparr>ds_id = 0, ds_organization_id = 7, ds_name = ''n'', ds_kind = ''rest'',
     ds_source_key = ''k'', ds_status = SrcActive, ds_last_event_at = None, ds_last_success_at = None,
     ds_accepted_count = 0, ds_rejected_count = 0, ds_duplicate_count = 0\<rparr>"

definition example_event :: "string \<Rightarrow> pydict" where
  "example_event i = [(''source'', PStr ''k''), (''event_id'', PStr i), (''event_type'', PStr ''trip.start''),
     (''occurred_at'', PInt 0), (''vehicle_external_id'', PStr ''V1'')]"

definition example_db :: db where
  "example_db = empty_db\<lparr>data_sources := [example_source],
     vehicles := [\<lparr>v_id = 1, v_organization_id = 7, v_fleet_id = None, v_vehicle_group_id = None,
       v_external_id = ''V1'', v_plate = None, v_label = None, v_make = None, v_model = None, v_year = None,
       v_status = VehActive, v_attributes = [], v_created_at = 0\<rparr>], next_id := 2\<rparr>"

subsection \<open>Properties\<close>

text \<open>
  A batch whose keys fit their columns never fails, whatever its events look like. Every event
  gets exactly one outcome and the three counters add up to the size of the batch; the natural keys
  stay unique; and there is exactly one outbox event for each row stored as accepted, none for the
  others.
\<close>

theorem ingest_batch_accounts:
  assumes "list_all (\<lambda>raw. key_fits (raw_key pyd tenant src raw)) raws" and "ingest_inv d"
  shows "\<exists>res d' new obs. ingest_batch now pyd tenant src raws d = Inr (res, d') \<and> ingest_inv d' \<and>
    length (br_outcomes res) = length raws \<and>
    br_accepted res + br_duplicates res + br_quarantined res = int (length raws) \<and>
    ingest_events d' = ingest_events d @ new \<and> outbox_events d' = outbox_events d @ obs \<and>
    map ob_payload obs = accepted_payloads new \<and> br_accepted res = int (length obs)"
proof -
  obtain os d1 where 1: "ingest_all now pyd tenant src (known_vehicle_ids tenant d) raws d = Inr (os, d1)"
      "length os = length raws" "ingest_log (map (raw_key pyd tenant src) raws) os d d1" "ingest_inv d1"
    using ingest_all_spec [OF assms(1)] assms(2) by blast
  then obtain new obs where "ingest_events d1 = ingest_events d @ new" "outbox_events d1 = outbox_events d @ obs"
      "map ob_payload obs = accepted_payloads new" "outcome_count OutcomeAccepted os = int (length obs)"
    unfolding ingest_log_def by blast
  with 1 outcome_count_total [of os] show ?thesis
    by (auto simp: ingest_batch_def Let_def ingest_inv_def)
qed

theorem ingest_batch_accounts_witness:
  "let raws = [example_event ''e1'', example_event ''e1'', []]
   in \<exists>res d' new obs. ingest_batch 0 strict_pydantic 7 example_source raws example_db = Inr (res, d') \<and>
        length (br_outcomes res) = 3 \<and> br_accepted res = 1 \<and> br_duplicates res = 1 \<and>
        outbox_events d' = outbox_events example_db @ obs \<and> length obs = 1 \<and>
        ingest_events d' = ingest_events example_db @ new \<and> map ob_payload obs = accepted_payloads new"
proof -
  let ?raws = "[example_event ''e1'', example_event ''e1'', []]"
  have f: "list_all (\<lambda>raw. key_fits (raw_key strict_pydantic 7 example_source raw)) ?raws"
    by code_simp
  have i: "ingest_inv example_db"
    by (simp add: ingest_inv_def example_db_def empty_db_def)
  have c: "(\<lambda>r. (br_accepted r, br_duplicates r)) (fst (projr (ingest_batch 0 strict_pydantic 7 example_source ?raws example_db))) = (1, 1)"
    by code_simp
  obtain res d' new obs where r: "ingest_batch 0 strict_pydantic 7 example_source ?raws example_db = Inr (res, d')"
      "length (br_outcomes res) = length ?raws"
      "ingest_events d' = ingest_events example_db @ new" "outbox_events d' = outbox_events example_db @ obs"
      "map ob_payload obs = accepted_payloads new" "br_accepted res = int (length obs)"
    using ingest_batch_accounts [OF f i, of 0] by blast
  then have "br_accepted res = 1" "br_duplicates res = 1"
    using c by simp_all
  with r show ?thesis
    by (auto simp: Let_def)
qed

text \<open>
  C11: ingestion is idempotent. Once a batch went through, sending the same events again accepts
  nothing and stores nothing, at any later time and whatever rows and vehicles were added since. The
  same holds of an event that was quarantined: after its vehicle has been registered, sending it
  again is answered as a duplicate.
\<close>

theorem ingest_batch_idempotent:
  assumes "ingest_batch now pyd tenant src raws d = Inr (res, d1)"
    and "set (ingest_events d1) \<subseteq> set (ingest_events d2)"
  shows "\<exists>res' d3. ingest_batch now' pyd tenant src raws d2 = Inr (res', d3) \<and> br_accepted res' = 0 \<and>
    ingest_events d3 = ingest_events d2 \<and> outbox_events d3 = outbox_events d2"
proof -
  have fits: "list_all (\<lambda>raw. key_fits (raw_key pyd tenant src raw)) raws"
  proof (rule ccontr)
    assume "\<not> ?thesis"
    then have "isl (ingest_all now pyd tenant src (known_vehicle_ids tenant d) raws d)"
      by (rule ingest_all_overlong)
    then show False
      using assms(1) by (auto simp: ingest_batch_def isl_def)
  qed
  obtain os d0 where 1: "ingest_all now pyd tenant src (known_vehicle_ids tenant d) raws d = Inr (os, d0)"
      "ingest_log (map (raw_key pyd tenant src) raws) os d d0"
    using ingest_all_spec [OF fits] by blast
  then have "ingest_events d1 = ingest_events d0"
    using assms(1) by (auto simp: ingest_batch_def Let_def)
  then have "set (map (raw_key pyd tenant src) raws) \<subseteq> ingest_key ` set (ingest_events d2)"
    using 1(2) assms(2) unfolding ingest_log_def by (metis Un_upper2 image_mono order_trans)
  with ingest_all_taken [OF fits, of d2 now' "known_vehicle_ids tenant d2"] show ?thesis
    by (auto simp: ingest_batch_def Let_def)
qed

theorem ingest_batch_idempotent_witness:
  "let raws = [example_event ''e1'', []]; run = ingest_batch 0 strict_pydantic 7 example_source raws
   in \<not> isl (run example_db) \<and> br_accepted (fst (projr (run example_db))) = 1 \<and>
      (\<exists>res' d3. ingest_batch (days 9) strict_pydantic 7 example_source raws (snd (projr (run example_db))) = Inr (res', d3) \<and>
         br_accepted res' = 0)"
proof -
  let ?raws = "[example_event ''e1'', []]"
  let ?r = "ingest_batch 0 strict_pydantic 7 example_source ?raws example_db"
  have ok: "\<not> isl ?r" and one: "br_accepted (fst (projr ?r)) = 1"
    by code_simp+
  have "?r = Inr (fst (projr ?r), snd (projr ?r))"
    using ok by (cases ?r) auto
  from ingest_batch_idempotent [OF this subset_refl, of "days 9"] show ?thesis
    using ok one by (auto simp: Let_def)
qed

text \<open>
  One event whose \<^verbatim>\<open>event_id\<close> is a text of more than 200 characters makes the whole batch
  fail, wherever it stands: it does not pass validation, and quarantining it stores the identifier
  in a column of 200 characters. None of the other events of the batch is kept.
\<close>

theorem overlong_event_id_poisons_batch:
  assumes "raw \<in> set raws" and "dget raw ''event_id'' = Some (PStr s)" and "200 < length s"
    and "co_str pyd (PStr s) = Inr s"
  shows "isl (ingest_batch now pyd tenant src raws d)"
proof -
  have t: "raw_text pyd raw ''event_id'' = s"
    using assms(2) by (simp add: raw_text_def py_str_def)
  have ne: "s \<noteq> []"
    using assms(3) by auto
  have "field raw ''event_id'' None (\<lambda>v. of_length 1 200 (co_str pyd v)) = Inl [(''event_id'', ''string_too_long'')]"
    using assms(2-4) ne by (simp add: field_def of_length_def)
  then have "isl (validate_envelope pyd raw)"
    by (simp add: validate_envelope_def Let_def errors_def)
  then have "raw_key pyd tenant src raw = (tenant, ds_source_key src, s)"
    using t ne by (auto simp: raw_key_def Let_def split: sum.splits)
  then have "\<not> key_fits (raw_key pyd tenant src raw)"
    using assms(3) by (simp add: key_fits_def)
  then have "\<not> list_all (\<lambda>raw. key_fits (raw_key pyd tenant src raw)) raws"
    using assms(1) by (auto simp: list_all_iff)
  from ingest_all_overlong [OF this, of now "known_vehicle_ids tenant d" d] show ?thesis
    by (auto simp: ingest_batch_def isl_def)
qed

theorem overlong_event_id_poisons_batch_witness:
  "isl (ingest_batch 0 strict_pydantic 7 example_source [example_event ''e1'', example_event (replicate 201 (CHR ''x''))] example_db)"
proof (rule overlong_event_id_poisons_batch)
  show "example_event (replicate 201 (CHR ''x'')) \<in> set [example_event ''e1'', example_event (replicate 201 (CHR ''x''))]"
    by simp
  show "dget (example_event (replicate 201 (CHR ''x''))) ''event_id'' = Some (PStr (replicate 201 (CHR ''x'')))"
    by (simp add: example_event_def dget_def)
  show "200 < length (replicate 201 (CHR ''x''))"
    by simp
  show "co_str strict_pydantic (PStr (replicate 201 (CHR ''x''))) = Inr (replicate 201 (CHR ''x''))"
    by (simp add: strict_pydantic_def)
qed

end
