(* ===== verification/Telemetry.thy ===== *)
theory Telemetry
  imports TelemetryRules SafetyEngine Ingestion
begin

section \<open>The telemetry pipeline: from an accepted event to a trip, a point and safety events\<close>

text \<open>
  \<^verbatim>\<open>application/telemetry/service.py\<close> and \<^verbatim>\<open>application/telemetry/pipeline.py\<close>. The stored
  envelope is validated again; when that raises, so does the step (\<open>ValidationError\<close>), and the worker
  rolls the event back. A point gets its id from the same supply as every other row.
\<close>

record processed_point =
  pp_telemetry_point_id :: uuid
  pp_trip_id :: uuid
  pp_quality :: float64
  pp_gps_anomaly :: bool
  pp_context :: point_context
  pp_sample :: telemetry_sample

definition set_ingest_event :: "uuid \<Rightarrow> (ingest_event \<Rightarrow> ingest_event) \<Rightarrow> db \<Rightarrow> db" where
  "set_ingest_event i f d = d\<lparr>ingest_events := tupd (\<lambda>r. ie_id r = i) f (ingest_events d)\<rparr>"

definition set_trip :: "uuid \<Rightarrow> (trip \<Rightarrow> trip) \<Rightarrow> db \<Rightarrow> db" where
  "set_trip i f d = d\<lparr>trips := tupd (\<lambda>r. t_id r = i) f (trips d)\<rparr>"

definition resolve_vehicle :: "uuid \<Rightarrow> string \<Rightarrow> db \<Rightarrow> vehicle option result" where
  "resolve_vehicle tenant ext d =
     one_or_none (filter (\<lambda>v. v_organization_id v = tenant \<and> v_external_id v = ext) (vehicles d))"

definition current_driver :: "uuid \<Rightarrow> uuid \<Rightarrow> db \<Rightarrow> uuid option" where
  "current_driver tenant vehicle_id d =
     map_option da_driver_id (first_row (filter (\<lambda>a. da_organization_id a = tenant \<and>
        da_vehicle_id a = vehicle_id \<and> da_ended_at a = None) (driver_assignments d)))"

definition active_trips :: "uuid \<Rightarrow> uuid \<Rightarrow> db \<Rightarrow> trip list" where
  "active_trips tenant vehicle_id d =
     filter (\<lambda>t. t_organization_id t = tenant \<and> t_vehicle_id t = vehicle_id \<and> t_status t = TripActive) (trips d)"

definition new_trip :: "uuid \<Rightarrow> uuid \<Rightarrow> instant \<Rightarrow> db \<Rightarrow> trip" where
  "new_trip tenant vehicle_id occurred_at d =
     \<lparr>t_id = next_id d, t_organization_id = tenant, t_vehicle_id = vehicle_id,
      t_driver_id = current_driver tenant vehicle_id d, t_status = TripActive,
      t_started_at = occurred_at, t_ended_at = None, t_last_point_at = None, t_distance_km = 0,
      t_point_count = 0, t_max_speed_kph = None, t_last_latitude = None, t_last_longitude = None\<rparr>"

definition open_trip :: "uuid \<Rightarrow> uuid \<Rightarrow> instant \<Rightarrow> db \<Rightarrow> trip \<times> db" where
  "open_trip tenant vehicle_id occurred_at d =
     (let t = new_trip tenant vehicle_id occurred_at d
      in (t, d\<lparr>trips := trips d @ [t], next_id := Suc (next_id d)\<rparr>))"

definition close_trip :: "trip \<Rightarrow> trip" where
  "close_trip t = t\<lparr>t_status := TripCompleted, t_ended_at := t_last_point_at t\<rparr>"

definition active_trip :: "uuid \<Rightarrow> uuid \<Rightarrow> instant \<Rightarrow> db \<Rightarrow> trip \<times> db" where
  "active_trip tenant vehicle_id occurred_at d =
     (case first_row (order_by (\<lambda>t. - t_started_at t) (active_trips tenant vehicle_id d)) of
        None \<Rightarrow> open_trip tenant vehicle_id occurred_at d
      | Some t \<Rightarrow>
          (case t_last_point_at t of
             None \<Rightarrow> (t, d)
           | Some last_at \<Rightarrow>
               if trip_idle_gap < occurred_at - last_at
               then open_trip tenant vehicle_id occurred_at (set_trip (t_id t) close_trip d)
               else (t, d)))"

definition trip_distance :: "libm \<Rightarrow> trip \<Rightarrow> instant \<Rightarrow> telemetry_payload \<Rightarrow> float64 \<times> bool" where
  "trip_distance m t occurred_at p =
     (case (t_last_latitude t, t_last_longitude t, t_last_point_at t) of
        (Some lat, Some lon, Some last_at) \<Rightarrow>
          (let distance = haversine_km m lat lon (p_latitude p) (p_longitude p)
           in if implausible_jump_kph distance (total_seconds (occurred_at - last_at)) \<noteq> None
              then (0, True) else (distance, False))
      | _ \<Rightarrow> (0, False))"

definition update_trip_head :: "float64 \<Rightarrow> instant \<Rightarrow> telemetry_payload \<Rightarrow> trip \<Rightarrow> trip" where
  "update_trip_head distance occurred_at p t =
     t\<lparr>t_distance_km := fadd (t_distance_km t) distance,
       t_point_count := t_point_count t + 1,
       t_last_point_at := Some occurred_at,
       t_last_latitude := Some (p_latitude p),
       t_last_longitude := Some (p_longitude p),
       t_max_speed_kph := (case p_speed_kph p of
           None \<Rightarrow> t_max_speed_kph t
         | Some v \<Rightarrow> Some (max (case t_max_speed_kph t of None \<Rightarrow> 0 | Some w \<Rightarrow> w) v))\<rparr>"

definition mark_processed :: "instant \<Rightarrow> ingest_event \<Rightarrow> ingest_event" where
  "mark_processed now r = r\<lparr>ie_status := IngProcessed, ie_processed_at := Some now\<rparr>"

definition point_quality :: "telemetry_payload \<Rightarrow> bool \<Rightarrow> float64" where
  "point_quality p gps_anomaly =
     (let q = data_quality (p_gps_hdop p) (p_satellites p) (p_speed_kph p \<noteq> None)
      in if gps_anomaly then min q (fl (3 / 10)) else q)"

definition point_row :: "uuid \<Rightarrow> uuid \<Rightarrow> uuid \<Rightarrow> trip \<Rightarrow> instant \<Rightarrow> telemetry_payload \<Rightarrow> float64 \<Rightarrow> telemetry_point" where
  "point_row i tenant vehicle_id t occurred_at p quality =
     \<lparr>tp_id = i, tp_occurred_at = occurred_at, tp_organization_id = tenant,
      tp_trip_id = Some (t_id t), tp_vehicle_id = vehicle_id, tp_driver_id = t_driver_id t,
      tp_latitude = p_latitude p, tp_longitude = p_longitude p, tp_speed_kph = p_speed_kph p,
      tp_heading_deg = p_heading_deg p, tp_acceleration_ms2 = p_acceleration_ms2 p,
      tp_lateral_acceleration_ms2 = p_lateral_acceleration_ms2 p, tp_quality = quality\<rparr>"

definition processed_of :: "telemetry_point \<Rightarrow> trip \<Rightarrow> bool \<Rightarrow> telemetry_payload \<Rightarrow> processed_point" where
  "processed_of pt t gps_anomaly p =
     \<lparr>pp_telemetry_point_id = tp_id pt, pp_trip_id = t_id t, pp_quality = tp_quality pt,
      pp_gps_anomaly = gps_anomaly,
      pp_context = \<lparr>pc_organization_id = tp_organization_id pt, pc_vehicle_id = tp_vehicle_id pt,
         pc_driver_id = t_driver_id t, pc_trip_id = Some (t_id t), pc_occurred_at = tp_occurred_at pt,
         pc_latitude = Some (p_latitude p), pc_longitude = Some (p_longitude p),
         pc_data_origin = p_data_origin p, pc_environment = p_environment p\<rparr>,
      pp_sample = \<lparr>ts_speed_kph = p_speed_kph p, ts_acceleration_ms2 = p_acceleration_ms2 p,
         ts_lateral_acceleration_ms2 = p_lateral_acceleration_ms2 p, ts_quality = tp_quality pt\<rparr>\<rparr>"

text \<open>The part of \<^verbatim>\<open>process_ingest_event\<close> after the vehicle is known.\<close>

definition process_point ::
    "instant \<Rightarrow> libm \<Rightarrow> ingest_event \<Rightarrow> event_envelope \<Rightarrow> telemetry_payload \<Rightarrow> vehicle \<Rightarrow> db \<Rightarrow> processed_point \<times> db" where
  "process_point now m event e p v d =
     (let tenant = ie_organization_id event;
          occurred_at = e_occurred_at e;
          (t, d1) = active_trip tenant (v_id v) occurred_at d;
          (distance, gps_anomaly) = trip_distance m t occurred_at p;
          pt = point_row (next_id d1) tenant (v_id v) t occurred_at p (point_quality p gps_anomaly);
          d2 = d1\<lparr>telemetry_points := telemetry_points d1 @ [pt], next_id := Suc (next_id d1)\<rparr>;
          d3 = set_trip (t_id t) (update_trip_head distance occurred_at p) d2
      in (processed_of pt t gps_anomaly p, set_ingest_event (ie_id event) (mark_processed now) d3))"

definition of_validation :: "verror list + 'a \<Rightarrow> 'a result" where
  "of_validation r = (case r of Inl _ \<Rightarrow> Inl (PyRuntimeError ''ValidationError'') | Inr x \<Rightarrow> Inr x)"

definition process_ingest_event ::
    "instant \<Rightarrow> libm \<Rightarrow> pydantic \<Rightarrow> ingest_event \<Rightarrow> db \<Rightarrow> (processed_point option \<times> db) result" where
  "process_ingest_event now m pyd event d =
     (if ie_event_type event \<noteq> ''telemetry.position''
      then Inr (None, set_ingest_event (ie_id event) (mark_processed now) d)
      else
        bind (of_validation (validate_envelope pyd (ie_envelope event))) (\<lambda>e.
        bind (of_validation (validate_payload pyd (e_payload e))) (\<lambda>p.
        bind (resolve_vehicle (ie_organization_id event) (e_vehicle_external_id e) d) (\<lambda>vehicle.
          case vehicle of
            None \<Rightarrow> Inr (None, set_ingest_event (ie_id event)
                      (\<lambda>r. r\<lparr>ie_status := IngQuarantined, ie_rejection_reason := Some ''unknown_vehicle''\<rparr>) d)
          | Some v \<Rightarrow> (case process_point now m event e p v d of (pp, d1) \<Rightarrow> Inr (Some pp, d1))))))"

definition process_accepted_ingest_event ::
    "instant \<Rightarrow> libm \<Rightarrow> pydantic \<Rightarrow> ingest_event \<Rightarrow> db \<Rightarrow> (processed_point option \<times> db) result" where
  "process_accepted_ingest_event now m pyd event d =
     (if ie_status event \<noteq> IngAccepted then Inr (None, d)
      else
        (let d0 = set_ingest_event (ie_id event) (\<lambda>r. r\<lparr>ie_status := IngProcessing\<rparr>) d
         in bind (process_ingest_event now m pyd event d0) (\<lambda>(processed, d1).
              case processed of
                None \<Rightarrow> Inr (None, d1)
              | Some pp \<Rightarrow>
                  bind (load_thresholds (pc_organization_id (pp_context pp)) d1) (\<lambda>th.
                  bind (evaluate now (pp_context pp) (pp_sample pp) th d1) (\<lambda>(ids, d2).
                    Inr (Some pp, d2))))))"

subsection \<open>The invariant of trips\<close>

text \<open>
  A vehicle has at most one active trip, a trip counts exactly its points, a completed trip ends at its
  last point, and distances are not negative.
\<close>

definition points_of :: "trip \<Rightarrow> telemetry_point list \<Rightarrow> nat" where
  "points_of t pts = count_rows (\<lambda>p. tp_trip_id p = Some (t_id t)) pts"

definition trip_ok :: "telemetry_point list \<Rightarrow> trip \<Rightarrow> bool" where
  "trip_ok pts t \<longleftrightarrow> t_point_count t = int (points_of t pts) \<and> 0 \<le> t_distance_km t \<and>
     (t_status t = TripCompleted \<longrightarrow> t_last_point_at t \<noteq> None \<and> t_ended_at t = t_last_point_at t)"

definition point_below :: "uuid \<Rightarrow> telemetry_point \<Rightarrow> bool" where
  "point_below n p \<longleftrightarrow> (case tp_trip_id p of None \<Rightarrow> True | Some i \<Rightarrow> i < n)"

definition trip_inv :: "db \<Rightarrow> bool" where
  "trip_inv d \<longleftrightarrow>
     unique_on (\<lambda>t. t_status t = TripActive) (\<lambda>t. (t_organization_id t, t_vehicle_id t)) (trips d) \<and>
     ids_ok t_id (next_id d) (trips d) \<and> list_all (trip_ok (telemetry_points d)) (trips d) \<and>
     list_all (point_below (next_id d)) (telemetry_points d)"

lemma set_trip_frame [simp]:
  "trips (set_trip i f d) = tupd (\<lambda>r. t_id r = i) f (trips d)"
  "outbox_events (set_trip i f d) = outbox_events d"
  "next_id (set_trip i f d) = next_id d" "telemetry_points (set_trip i f d) = telemetry_points d"
  "safety_events (set_trip i f d) = safety_events d" "ingest_events (set_trip i f d) = ingest_events d"
  "organization_settings_rows (set_trip i f d) = organization_settings_rows d"
  "vehicles (set_trip i f d) = vehicles d" "driver_assignments (set_trip i f d) = driver_assignments d"
  by (simp_all add: set_trip_def)

lemma set_ingest_event_frame [simp]:
  "ingest_events (set_ingest_event i g d) = tupd (\<lambda>r. ie_id r = i) g (ingest_events d)"
  "outbox_events (set_ingest_event i g d) = outbox_events d"
  "next_id (set_ingest_event i g d) = next_id d"
  "telemetry_points (set_ingest_event i g d) = telemetry_points d"
  "safety_events (set_ingest_event i g d) = safety_events d" "trips (set_ingest_event i g d) = trips d"
  "organization_settings_rows (set_ingest_event i g d) = organization_settings_rows d"
  "vehicles (set_ingest_event i g d) = vehicles d" "driver_assignments (set_ingest_event i g d) = driver_assignments d"
  by (simp_all add: set_ingest_event_def)

lemma point_below_mono: "point_below n p \<Longrightarrow> n \<le> m \<Longrightarrow> point_below m p"
  by (auto simp: point_below_def split: option.splits)

lemma trip_inv_frame:
  "trip_inv d \<Longrightarrow> trips d' = trips d \<Longrightarrow> telemetry_points d' = telemetry_points d \<Longrightarrow> next_id d \<le> next_id d' \<Longrightarrow>
   trip_inv d'"
  by (auto simp: trip_inv_def list_all_iff intro: ids_ok_mono point_below_mono)

lemma trip_field_updates [simp]:
  "t_id (close_trip t) = t_id t" "t_organization_id (close_trip t) = t_organization_id t"
  "t_vehicle_id (close_trip t) = t_vehicle_id t" "t_status (close_trip t) = TripCompleted"
  "t_id (update_trip_head x a p t) = t_id t" "t_status (update_trip_head x a p t) = t_status t"
  "t_organization_id (update_trip_head x a p t) = t_organization_id t"
  "t_vehicle_id (update_trip_head x a p t) = t_vehicle_id t"
  by (simp_all add: close_trip_def update_trip_head_def)

text \<open>Closing a trip and opening a new one.\<close>

lemma trip_inv_close:
  assumes "trip_inv d" "tget t_id (trips d) (t_id t) = Some t" "t_last_point_at t \<noteq> None"
  shows "trip_inv (set_trip (t_id t) close_trip d)"
proof -
  have ids: "ids_ok t_id (next_id d) (trips d)" and ok: "list_all (trip_ok (telemetry_points d)) (trips d)"
    using assms(1) by (simp_all add: trip_inv_def)
  have "list_all (trip_ok (telemetry_points d)) (tupd (\<lambda>r. t_id r = t_id t) close_trip (trips d))"
    using assms(3) by (intro list_all_tupd_key [OF ids assms(2) ok])
      (auto simp: trip_ok_def close_trip_def points_of_def)
  then show ?thesis
    using assms(1) ids by (auto simp: trip_inv_def ids_ok_tupd intro!: unique_on_tupd)
qed

lemma points_of_fresh:
  "list_all (point_below n) pts \<Longrightarrow> n \<le> t_id t \<Longrightarrow> points_of t pts = 0"
  by (auto simp: points_of_def count_rows_def filter_empty_conv list_all_iff point_below_def)

lemma trip_inv_open:
  assumes "trip_inv d" "active_trips tenant v d = []"
  shows "trip_inv (snd (open_trip tenant v a d))"
proof -
  let ?t = "new_trip tenant v a d"
  have t: "t_id ?t = next_id d" "t_organization_id ?t = tenant" "t_vehicle_id ?t = v"
      "t_point_count ?t = 0" "t_distance_km ?t = 0" "t_status ?t = TripActive"
    by (simp_all add: new_trip_def)
  have "trip_ok (telemetry_points d) ?t"
    using assms(1) points_of_fresh [of "next_id d" "telemetry_points d" ?t] by (simp add: trip_ok_def t trip_inv_def)
  moreover have "(tenant, v) \<notin> (\<lambda>t. (t_organization_id t, t_vehicle_id t)) ` {t \<in> set (trips d). t_status t = TripActive}"
    using assms(2) by (auto simp: active_trips_def filter_empty_conv)
  moreover have "list_all (point_below (Suc (next_id d))) (telemetry_points d)"
    using assms(1) by (auto simp: trip_inv_def list_all_iff intro: point_below_mono)
  ultimately show ?thesis
    using assms(1) t by (simp add: trip_inv_def open_trip_def Let_def unique_on_snoc ids_ok_snoc)
qed

text \<open>The trip a point goes to: it is stored, active, and of the point's tenant and vehicle.\<close>

definition trip_of :: "uuid \<Rightarrow> uuid \<Rightarrow> trip \<Rightarrow> db \<Rightarrow> bool" where
  "trip_of tenant v t d \<longleftrightarrow> tget t_id (trips d) (t_id t) = Some t \<and> t_status t = TripActive \<and>
     t_organization_id t = tenant \<and> t_vehicle_id t = v \<and> t_id t < next_id d"

lemma open_trip_of: "ids_ok t_id (next_id d) (trips d) \<Longrightarrow> open_trip tenant v a d = (t, d') \<Longrightarrow> trip_of tenant v t d'"
  using ids_ok_fresh [of t_id "next_id d" "trips d"]
  by (auto simp: open_trip_def Let_def trip_of_def new_trip_def tget_append split: option.splits)

lemma active_trips_close:
  assumes "unique_on (\<lambda>t. t_status t = TripActive) (\<lambda>t. (t_organization_id t, t_vehicle_id t)) (trips d)"
    and "t \<in> set (active_trips tenant v d)"
  shows "active_trips tenant v (set_trip (t_id t) close_trip d) = []"
proof -
  have t: "t \<in> set (trips d)" "t_status t = TripActive" "t_organization_id t = tenant" "t_vehicle_id t = v"
    using assms(2) by (simp_all add: active_trips_def)
  have "\<not> (t_organization_id r = tenant \<and> t_vehicle_id r = v \<and> t_status r = TripActive)"
    if r: "r \<in> set (tupd (\<lambda>r. t_id r = t_id t) close_trip (trips d))" for r
  proof -
    obtain q where q: "q \<in> set (trips d)" "r = (if t_id q = t_id t then close_trip q else q)"
      using r by (auto simp: set_tupd)
    show ?thesis
    proof (cases "t_id q = t_id t")
      case True
      then show ?thesis
        using q(2) by simp
    next
      case False
      show ?thesis
      proof
        assume "t_organization_id r = tenant \<and> t_vehicle_id r = v \<and> t_status r = TripActive"
        then have "t = q"
          using False q(2) t by (intro unique_on_memb [OF assms(1) t(1) q(1)]) simp_all
        then show False
          using False by simp
      qed
    qed
  qed
  then show ?thesis
    by (auto simp: active_trips_def filter_empty_conv)
qed

lemma open_trip_step:
  assumes "trip_inv d" "active_trips tenant v d = []" "open_trip tenant v a d = (t, d')"
  shows "trip_inv d' \<and> trip_of tenant v t d' \<and> next_id d \<le> next_id d' \<and> telemetry_points d' = telemetry_points d \<and>
    safety_events d' = safety_events d \<and> ingest_events d' = ingest_events d \<and>
    organization_settings_rows d' = organization_settings_rows d"
proof -
  have "trip_inv d'"
    using trip_inv_open [OF assms(1,2), of a] assms(3) by simp
  moreover have "trip_of tenant v t d'"
    using open_trip_of [OF _ assms(3)] assms(1) by (simp add: trip_inv_def)
  ultimately show ?thesis
    using assms(3) by (auto simp: open_trip_def Let_def)
qed

lemma active_trip_correct:
  assumes "trip_inv d" "active_trip tenant v a d = (t, d')"
  shows "trip_inv d' \<and> trip_of tenant v t d' \<and> next_id d \<le> next_id d' \<and> telemetry_points d' = telemetry_points d \<and>
    safety_events d' = safety_events d \<and> ingest_events d' = ingest_events d \<and>
    organization_settings_rows d' = organization_settings_rows d"
proof (cases "first_row (order_by (\<lambda>t. - t_started_at t) (active_trips tenant v d))")
  case None
  then have "active_trips tenant v d = []"
    by simp
  moreover have "open_trip tenant v a d = (t, d')"
    using assms(2) unfolding active_trip_def None by simp
  ultimately show ?thesis
    using open_trip_step [OF assms(1)] by blast
next
  case (Some u)
  then have u: "u \<in> set (active_trips tenant v d)"
    using first_row_Some by fastforce
  have ids: "ids_ok t_id (next_id d) (trips d)"
    and uniq: "unique_on (\<lambda>t. t_status t = TripActive) (\<lambda>t. (t_organization_id t, t_vehicle_id t)) (trips d)"
    using assms(1) by (simp_all add: trip_inv_def)
  have mem: "u \<in> set (trips d)"
    using u by (simp add: active_trips_def)
  have get: "tget t_id (trips d) (t_id u) = Some u"
    using tget_SomeI [OF _ mem, of t_id] ids by (simp add: ids_ok_def)
  have of_u: "trip_of tenant v u d"
    using get u ids mem by (auto simp: trip_of_def active_trips_def ids_ok_def list_all_iff)
  show ?thesis
  proof (cases "\<exists>l. t_last_point_at u = Some l \<and> trip_idle_gap < a - l")
    case True
    let ?d1 = "set_trip (t_id u) close_trip d"
    have inv1: "trip_inv ?d1"
      using trip_inv_close [OF assms(1) get] True by auto
    have "open_trip tenant v a ?d1 = (t, d')"
      using True Some assms(2) by (auto simp: active_trip_def)
    from open_trip_step [OF inv1 active_trips_close [OF uniq u] this] show ?thesis
      by simp
  next
    case False
    then have "(t, d') = (u, d)"
      using Some assms(2) by (auto simp: active_trip_def split: option.splits if_splits)
    then show ?thesis
      using assms(1) of_u by simp
  qed
qed

text \<open>Adding a point to its trip.\<close>

lemma trip_inv_point:
  assumes "trip_inv d" "trip_of tenant v t d" "0 \<le> x"
  shows "trip_inv (set_trip (t_id t) (update_trip_head x a p)
    (d\<lparr>telemetry_points := telemetry_points d @ [point_row i tenant v t a p q], next_id := Suc (next_id d)\<rparr>))"
proof -
  let ?pts = "telemetry_points d @ [point_row i tenant v t a p q]"
  have ids: "ids_ok t_id (next_id d) (trips d)" and get: "tget t_id (trips d) (t_id t) = Some t"
    and ok: "list_all (trip_ok (telemetry_points d)) (trips d)"
    using assms(1,2) by (simp_all add: trip_inv_def trip_of_def)
  have "trip_ok ?pts (if t_id r = t_id t then update_trip_head x a p r else r)" if r: "r \<in> set (trips d)" for r
  proof -
    have r_ok: "trip_ok (telemetry_points d) r"
      using ok r by (simp add: list_all_iff)
    show ?thesis
    proof (cases "t_id r = t_id t")
      case True
      then have "r = t"
        using ids_ok_get [OF ids get r] by simp
      then show ?thesis
        using r_ok assms(2,3)
        by (auto simp: trip_ok_def points_of_def update_trip_head_def point_row_def trip_of_def fadd_def fl_nonneg)
    next
      case False
      then show ?thesis
        using r_ok by (simp add: trip_ok_def points_of_def point_row_def)
    qed
  qed
  then have "list_all (trip_ok ?pts) (tupd (\<lambda>r. t_id r = t_id t) (update_trip_head x a p) (trips d))"
    by (auto simp: list_all_iff set_tupd)
  moreover have "list_all (point_below (Suc (next_id d))) ?pts"
    using assms(1,2) by (auto simp: trip_inv_def trip_of_def list_all_iff point_row_def point_below_def
        less_Suc_eq split: option.splits)
  ultimately show ?thesis
    using assms(1) ids
    by (auto simp: trip_inv_def ids_ok_tupd ids_ok_Suc intro!: unique_on_tupd)
qed

lemma trip_distance_nonneg: "libm_ok m \<Longrightarrow> 0 \<le> fst (trip_distance m t a p)"
  by (auto simp: trip_distance_def Let_def haversine_nonneg split: option.splits)

text \<open>A jump that would need more than 400 km/h adds no distance.\<close>

lemma trip_distance_plausible:
  assumes "t_last_point_at t = Some l" "l < a" "trip_distance m t a p = (x, g)"
  shows "x = 0 \<or> \<not> g \<and> fdiv x (fdiv (total_seconds (a - l)) 3600) \<le> 400"
proof -
  have "0 < total_seconds (a - l)"
    unfolding total_seconds_def using assms(2) by (intro fl_pos) simp
  then show ?thesis
    using assms by (auto simp: trip_distance_def implausible_jump_kph_def Let_def split: option.splits if_splits)
qed

definition process_frame :: "db \<Rightarrow> db \<Rightarrow> bool" where
  "process_frame d d' \<longleftrightarrow> next_id d \<le> next_id d' \<and> safety_events d' = safety_events d \<and>
     organization_settings_rows d' = organization_settings_rows d \<and> outbox_events d' = outbox_events d"

lemma active_trip_outbox: "active_trip tenant v a d = (t, d') \<Longrightarrow> outbox_events d' = outbox_events d"
  by (auto simp: active_trip_def open_trip_def Let_def split: option.splits if_splits)

lemma process_point_correct:
  assumes "libm_ok m" "trip_inv d" "process_point now m event e p v d = (pp, d')"
  shows "trip_inv d' \<and> process_frame d d' \<and>
    ingest_events d' = tupd (\<lambda>r. ie_id r = ie_id event) (mark_processed now) (ingest_events d) \<and>
    (\<exists>pt. telemetry_points d' = telemetry_points d @ [pt] \<and> tp_trip_id pt = Some (pp_trip_id pp))"
proof -
  let ?o = "ie_organization_id event" and ?a = "e_occurred_at e"
  obtain t d1 where t: "active_trip ?o (v_id v) ?a d = (t, d1)"
    by fastforce
  obtain x g where x: "trip_distance m t ?a p = (x, g)"
    by fastforce
  have x0: "0 \<le> x"
    using trip_distance_nonneg [OF assms(1), of t ?a p] x by simp
  note c = active_trip_correct [OF assms(2) t]
  let ?q = "point_quality p g"
  let ?d3 = "set_trip (t_id t) (update_trip_head x ?a p)
    (d1\<lparr>telemetry_points := telemetry_points d1 @ [point_row (next_id d1) ?o (v_id v) t ?a p ?q], next_id := Suc (next_id d1)\<rparr>)"
  have d': "d' = set_ingest_event (ie_id event) (mark_processed now) ?d3"
    and pp: "pp_trip_id pp = t_id t"
    using assms(3) t x by (auto simp: process_point_def Let_def processed_of_def)
  have "trip_inv ?d3"
    using c by (intro trip_inv_point x0) simp_all
  then have "trip_inv d'"
    unfolding d' by (rule trip_inv_frame) simp_all
  then show ?thesis
    using c pp active_trip_outbox [OF t] by (simp add: d' process_frame_def point_row_def)
qed

subsection \<open>The whole step\<close>

lemma engine_inv_frame:
  "engine_inv d \<Longrightarrow> safety_events d' = safety_events d \<Longrightarrow> next_id d \<le> next_id d' \<Longrightarrow> engine_inv d'"
  by (auto simp: engine_inv_def intro: ids_ok_mono)

text \<open>What a step that did not raise did: nothing but a status, or one point of a trip.\<close>

lemma process_accepted_cases [consumes 3]:
  assumes "libm_ok m" "trip_inv d" "process_accepted_ingest_event now m pyd event d = Inr (r, d')"
  obtains (skip) "ie_status event \<noteq> IngAccepted" "r = None" "d' = d"
  | (status) f where "ie_status event = IngAccepted" "r = None"
      "\<And>q. ie_status (f q) \<in> {IngProcessed, IngQuarantined}" "\<And>q. ie_id (f q) = ie_id q"
      "d' = set_ingest_event (ie_id event) f (set_ingest_event (ie_id event) (\<lambda>r. r\<lparr>ie_status := IngProcessing\<rparr>) d)"
  | (point) pp d1 ids th pt where "ie_status event = IngAccepted" "r = Some pp" "trip_inv d1"
      "process_frame d d1" "evaluate now (pp_context pp) (pp_sample pp) th d1 = Inr (ids, d')"
      "ingest_events d1 = tupd (\<lambda>r. ie_id r = ie_id event) (mark_processed now)
          (tupd (\<lambda>r. ie_id r = ie_id event) (\<lambda>r. r\<lparr>ie_status := IngProcessing\<rparr>) (ingest_events d))"
      "telemetry_points d1 = telemetry_points d @ [pt]" "tp_trip_id pt = Some (pp_trip_id pp)"
proof (cases "ie_status event = IngAccepted")
  case False
  then show ?thesis
    using assms(3) by (intro skip) (simp_all add: process_accepted_ingest_event_def)
next
  case True
  let ?d0 = "set_ingest_event (ie_id event) (\<lambda>r. r\<lparr>ie_status := IngProcessing\<rparr>) d"
  obtain x d1 where x: "process_ingest_event now m pyd event ?d0 = Inr (x, d1)"
    using assms(3) True by (auto simp: process_accepted_ingest_event_def Let_def bind_eq_Inr)
  have inv0: "trip_inv ?d0"
    using assms(2) by (rule trip_inv_frame) simp_all
  show ?thesis
  proof (cases x)
    case None
    then have d': "r = None" "d' = d1"
      using assms(3) True x by (auto simp: process_accepted_ingest_event_def Let_def)
    consider "d1 = set_ingest_event (ie_id event) (mark_processed now) ?d0"
      | "d1 = set_ingest_event (ie_id event)
           (\<lambda>r. r\<lparr>ie_status := IngQuarantined, ie_rejection_reason := Some ''unknown_vehicle''\<rparr>) ?d0"
      using x None by (auto simp: process_ingest_event_def bind_eq_Inr split: if_splits option.splits prod.splits)
    then show ?thesis
    proof cases
      case 1
      then show ?thesis
        using d' True by (intro status [of "mark_processed now"]) (simp_all add: mark_processed_def)
    next
      case 2
      then show ?thesis
        using d' True by (intro status) simp_all
    qed
  next
    case (Some pp)
    obtain e p v where pt: "process_point now m event e p v ?d0 = (pp, d1)"
      using x Some
      by (auto simp: process_ingest_event_def bind_eq_Inr case_prod_beta prod_eq_iff split: if_splits option.splits)
    obtain th ids where "r = Some pp" "evaluate now (pp_context pp) (pp_sample pp) th d1 = Inr (ids, d')"
      using assms(3) True x Some by (auto simp: process_accepted_ingest_event_def Let_def bind_eq_Inr)
    then show ?thesis
      using process_point_correct [OF assms(1) inv0 pt] True
      by (auto simp: process_frame_def intro!: point)
  qed
qed

text \<open>What the outbox worker needs of a step: the invariants, and that it only appends to the outbox.\<close>

lemma process_accepted_frame:
  assumes "libm_ok m" "trip_inv d" "engine_inv d" "outbox_inv d"
    and "process_accepted_ingest_event now m pyd event d = Inr (r, d')"
  shows "trip_inv d' \<and> engine_inv d' \<and> outbox_inv d' \<and> outbox_extends d d'"
  using assms(1,2,5)
proof (cases rule: process_accepted_cases)
  case skip
  then show ?thesis
    using assms by simp
next
  case (status f)
  have "trip_inv d'"
    unfolding status by (rule trip_inv_frame [OF assms(2)]) simp_all
  moreover have "engine_inv d'"
    unfolding status by (rule engine_inv_frame [OF assms(3)]) simp_all
  ultimately show ?thesis
    using assms(4) by (simp add: status outbox_inv_def outbox_extends_def)
next
  case (point pp d1 ids th pt)
  note fr = evaluate_frame [OF point(5)]
  have pf: "next_id d \<le> next_id d1" "outbox_events d1 = outbox_events d" "safety_events d1 = safety_events d"
    using point(4) by (simp_all add: process_frame_def)
  have "trip_inv d'"
    by (rule trip_inv_frame [OF point(3)]) (use fr in simp_all)
  moreover have "engine_inv d1"
    by (rule engine_inv_frame [OF assms(3)]) (use pf in simp_all)
  moreover have o1: "outbox_inv d1"
    using assms(4) pf by (auto simp: outbox_inv_def intro: ids_ok_mono)
  ultimately show ?thesis
    using fr evaluate_outbox [OF point(5) o1] pf
    by (auto simp: outbox_extends_def)
qed

subsection \<open>Example data\<close>

definition flat_libm :: libm where
  "flat_libm = \<lparr>m_radians = (\<lambda>x. x), m_sin = (\<lambda>_. 0), m_cos = (\<lambda>_. 1), m_asin = (\<lambda>x. x),
     m_sqrt = (\<lambda>_. 0), m_square = (\<lambda>_. 0)\<rparr>"

definition position_event :: "uuid \<Rightarrow> instant \<Rightarrow> ingest_event" where
  "position_event i t =
     \<lparr>ie_id = i, ie_organization_id = 7, ie_data_source_id = Some 0, ie_source = ''k'', ie_external_event_id = ''e'',
      ie_event_type = ''telemetry.position'', ie_vehicle_external_id = Some ''V1'', ie_occurred_at = Some t, ie_received_at = t,
      ie_envelope = [(''source'', PStr ''k''), (''event_id'', PStr ''e''), (''event_type'', PStr ''telemetry.position''),
        (''occurred_at'', PInt t), (''vehicle_external_id'', PStr ''V1''),
        (''payload'', PDict [(''latitude'', PInt 41), (''longitude'', PInt 29), (''speed_kph'', PInt 50)])],
      ie_status = IngAccepted, ie_rejection_reason = None, ie_detail = None, ie_processed_at = None\<rparr>"

definition position_db :: db where
  "position_db = example_db\<lparr>ingest_events := [position_event 2 (seconds 1000)], next_id := 3\<rparr>"

lemma flat_libm_ok: "libm_ok flat_libm"
  by (simp add: libm_ok_def flat_libm_def)

lemma position_db_inv: "trip_inv position_db" "engine_inv position_db"
  by (simp_all add: trip_inv_def engine_inv_def position_db_def example_db_def empty_db_def)

subsection \<open>Properties\<close>

text \<open>
  C2: processing events, in any order of their times, keeps the invariants of trips and safety
  events: at most one active trip for each vehicle, a trip's point count equal to the number of its
  points, completed trips ending at their last point, distances never negative, safety events of a
  vehicle and type more than the deduplication window apart. A step adds one point or none.
\<close>

theorem telemetry_step_invariant:
  assumes "libm_ok m" and "trip_inv d" and "engine_inv d"
    and "process_accepted_ingest_event now m pyd event d = Inr (r, d')"
  shows "trip_inv d' \<and> engine_inv d' \<and>
    length (telemetry_points d') = length (telemetry_points d) + (if r = None then 0 else 1)"
  using assms(1,2,4)
proof (cases rule: process_accepted_cases)
  case skip
  then show ?thesis
    using assms by simp
next
  case (status f)
  have "trip_inv d'"
    unfolding status by (rule trip_inv_frame [OF assms(2)]) simp_all
  moreover have "engine_inv d'"
    unfolding status by (rule engine_inv_frame [OF assms(3)]) simp_all
  ultimately show ?thesis
    by (simp add: status)
next
  case (point pp d1 ids th pt)
  note fr = evaluate_frame [OF point(5)]
  have "trip_inv d'"
    by (rule trip_inv_frame [OF point(3)]) (use fr in simp_all)
  moreover have "engine_inv d1"
    by (rule engine_inv_frame [OF assms(3)]) (use point(4) in \<open>simp_all add: process_frame_def\<close>)
  ultimately show ?thesis
    using fr point by simp
qed

theorem telemetry_step_invariant_witness:
  "let d' = committed (process_accepted_ingest_event 0 flat_libm strict_pydantic (position_event 2 (seconds 1000))) position_db
   in trip_inv d' \<and> engine_inv d' \<and> length (telemetry_points d') = 1"
proof -
  let ?f = "process_accepted_ingest_event 0 flat_libm strict_pydantic (position_event 2 (seconds 1000))"
  have run: "\<not> isl (?f position_db)" and n: "length (telemetry_points (committed ?f position_db)) = 1"
    by code_simp+
  from telemetry_step_invariant [OF flat_libm_ok position_db_inv committed_run [of ?f position_db, OF run]]
  show ?thesis
    using n by (simp add: Let_def)
qed

text \<open>
  C17: an accepted event is processed exactly once: after a step that did not raise, the stored event
  is no longer accepted, and running the step on it again, at any time, does nothing.
\<close>

theorem telemetry_exactly_once:
  assumes "libm_ok m" and "trip_inv d" and "tget ie_id (ingest_events d) i = Some event"
    and "process_accepted_ingest_event now m pyd event d = Inr (r, d')"
  shows "\<exists>event'. tget ie_id (ingest_events d') i = Some event' \<and> ie_status event' \<noteq> IngAccepted \<and>
    process_accepted_ingest_event now' m pyd event' d' = Inr (None, d')"
proof -
  have i: "ie_id event = i"
    using tget_SomeD [OF assms(3)] by simp
  have "\<exists>event'. tget ie_id (ingest_events d') i = Some event' \<and> ie_status event' \<noteq> IngAccepted"
    using assms(1,2,4)
  proof (cases rule: process_accepted_cases)
    case skip
    then show ?thesis
      using assms(3) by simp
  next
    case (status f)
    have "ie_status (f q) \<noteq> IngAccepted" for q
      using status(3) [of q] by auto
    then show ?thesis
      using assms(3) i by (simp add: status(5) tget_tupd status(4))
  next
    case (point pp d1 ids th pt)
    then show ?thesis
      using assms(3) i evaluate_frame [OF point(5)] by (simp add: tget_tupd mark_processed_def)
  qed
  then show ?thesis
    by (auto simp: process_accepted_ingest_event_def)
qed

theorem telemetry_exactly_once_witness:
  "let d' = committed (process_accepted_ingest_event 0 flat_libm strict_pydantic (position_event 2 (seconds 1000))) position_db
   in \<exists>event'. tget ie_id (ingest_events d') 2 = Some event' \<and>
        process_accepted_ingest_event 5 flat_libm strict_pydantic event' d' = Inr (None, d')"
proof -
  let ?f = "process_accepted_ingest_event 0 flat_libm strict_pydantic (position_event 2 (seconds 1000))"
  have run: "\<not> isl (?f position_db)"
    by code_simp
  have get: "tget ie_id (ingest_events position_db) 2 = Some (position_event 2 (seconds 1000))"
    by (simp add: position_db_def position_event_def)
  from telemetry_exactly_once [OF flat_libm_ok position_db_inv(1) get committed_run [of ?f position_db, OF run]]
  show ?thesis
    by (auto simp: Let_def)
qed

text \<open>
  Events that arrive late break the order of a trip's times. A point older than the start of the
  active trip is added to that trip and becomes its last point, so when the next point after an idle
  gap closes the trip, the trip ends before it started.
\<close>

theorem late_point_ends_trip_before_start:
  assumes "trip_inv d" and "active_trips tenant (v_id v) d = [t]" and "t_last_point_at t = Some l"
    and "e_occurred_at e1 < t_started_at t" and "e_occurred_at e1 \<le> l"
    and "trip_idle_gap < e_occurred_at e2 - e_occurred_at e1"
    and "ie_organization_id ev1 = tenant" and "ie_organization_id ev2 = tenant"
    and "process_point now m ev1 e1 p1 v d = (pp1, d1)" and "process_point now m ev2 e2 p2 v d1 = (pp2, d2)"
  shows "\<exists>t'. tget t_id (trips d2) (t_id t) = Some t' \<and> t_status t' = TripCompleted \<and>
    t_ended_at t' = Some (e_occurred_at e1) \<and> t_started_at t' = t_started_at t \<and>
    e_occurred_at e1 < t_started_at t'"
proof -
  have mem: "t \<in> set (trips d)"
  proof -
    have "t \<in> set (active_trips tenant (v_id v) d)"
      using assms(2) by simp
    then show ?thesis
      by (simp add: active_trips_def)
  qed
  have get: "tget t_id (trips d) (t_id t) = Some t"
    using tget_SomeI [OF _ mem, of t_id] assms(1) by (simp add: trip_inv_def ids_ok_def)
  have "\<not> trip_idle_gap < e_occurred_at e1 - l"
    using assms(5) by (simp add: trip_idle_gap_def minutes_def)
  then have a1: "active_trip tenant (v_id v) (e_occurred_at e1) d = (t, d)"
    using assms(2,3) by (simp add: active_trip_def first_row_def)
  obtain x g where x: "trip_distance m t (e_occurred_at e1) p1 = (x, g)"
    by fastforce
  define u where "u = update_trip_head x (e_occurred_at e1) p1"
  have d1: "trips d1 = tupd (\<lambda>r. t_id r = t_id t) u (trips d)"
    using assms(7,9) a1 x by (auto simp: process_point_def Let_def u_def)
  have fields: "t_status (u r) = t_status r" "t_organization_id (u r) = t_organization_id r"
      "t_vehicle_id (u r) = t_vehicle_id r" "t_id (u r) = t_id r" "t_started_at (u r) = t_started_at r"
      "t_last_point_at (u r) = Some (e_occurred_at e1)" for r
    by (simp_all add: u_def update_trip_head_def)
  have "active_trips tenant (v_id v) d1 = tupd (\<lambda>r. t_id r = t_id t) u (active_trips tenant (v_id v) d)"
    unfolding active_trips_def d1 by (rule filter_tupd_same) (simp add: fields)
  then have act: "active_trips tenant (v_id v) d1 = [u t]"
    by (simp add: assms(2))
  have a2: "active_trip tenant (v_id v) (e_occurred_at e2) d1 =
      open_trip tenant (v_id v) (e_occurred_at e2) (set_trip (t_id t) close_trip d1)"
    using assms(6) by (simp add: active_trip_def act first_row_def fields)
  obtain n d3 where o: "open_trip tenant (v_id v) (e_occurred_at e2) (set_trip (t_id t) close_trip d1) = (n, d3)"
    by fastforce
  then have n: "t_id n = next_id d1" and d3: "trips d3 = tupd (\<lambda>r. t_id r = t_id t) close_trip (trips d1) @ [n]"
    by (auto simp: open_trip_def Let_def new_trip_def)
  obtain y h where y: "trip_distance m n (e_occurred_at e2) p2 = (y, h)"
    by fastforce
  have d2: "trips d2 = tupd (\<lambda>r. t_id r = t_id n) (update_trip_head y (e_occurred_at e2) p2) (trips d3)"
    using assms(8,10) a2 o y by (auto simp: process_point_def Let_def)
  have "t_id t < next_id d"
    using assms(1) mem by (auto simp: trip_inv_def ids_ok_def list_all_iff)
  moreover have "next_id d \<le> next_id d1"
    using assms(7,9) a1 x by (auto simp: process_point_def Let_def)
  ultimately have "t_id t \<noteq> t_id n"
    using n by simp
  then have "tget t_id (trips d2) (t_id t) = Some (close_trip (u t))"
    using get by (simp add: d2 d3 d1 tget_tupd tget_append fields)
  then show ?thesis
    using assms(4) by (auto simp: close_trip_def fields)
qed

definition example_trip :: trip where
  "example_trip = \<lparr>t_id = 2, t_organization_id = 7, t_vehicle_id = 1, t_driver_id = None, t_status = TripActive,
     t_started_at = seconds 5000, t_ended_at = None, t_last_point_at = Some (seconds 5000), t_distance_km = 0,
     t_point_count = 0, t_max_speed_kph = None, t_last_latitude = Some 41, t_last_longitude = Some 29\<rparr>"

theorem late_point_ends_trip_before_start_witness:
  "let d = position_db\<lparr>trips := [example_trip], next_id := 3\<rparr>;
       v = hd (vehicles position_db);
       e = (\<lambda>t. projr (validate_envelope strict_pydantic (ie_envelope (position_event 2 (seconds t)))));
       p = projr (validate_payload strict_pydantic (e_payload (e 0)));
       d1 = snd (process_point 0 flat_libm (position_event 2 0) (e 4000) p v d);
       d2 = snd (process_point 0 flat_libm (position_event 2 0) (e 5000) p v d1)
   in \<exists>t'. tget t_id (trips d2) 2 = Some t' \<and> t_ended_at t' = Some (seconds 4000) \<and> t_started_at t' = seconds 5000"
proof -
  let ?d = "position_db\<lparr>trips := [example_trip], next_id := 3\<rparr>"
  let ?v = "hd (vehicles position_db)"
  let ?e = "\<lambda>t. projr (validate_envelope strict_pydantic (ie_envelope (position_event 2 (seconds t))))"
  let ?p = "projr (validate_payload strict_pydantic (e_payload (?e 0)))"
  let ?x1 = "process_point 0 flat_libm (position_event 2 0) (?e 4000) ?p ?v ?d"
  let ?x2 = "process_point 0 flat_libm (position_event 2 0) (?e 5000) ?p ?v (snd ?x1)"
  have inv: "trip_inv ?d"
    by (simp add: trip_inv_def unique_on_def ids_ok_def keys_distinct_def trip_ok_def points_of_def example_trip_def
        position_db_def example_db_def empty_db_def)
  have act: "active_trips 7 (v_id ?v) ?d = [example_trip]"
    by (simp add: active_trips_def example_trip_def position_db_def example_db_def)
  have times: "e_occurred_at (?e 4000) = seconds 4000 \<and> e_occurred_at (?e 5000) = seconds 5000"
    by code_simp
  have t: "t_last_point_at example_trip = Some (seconds 5000)" "t_started_at example_trip = seconds 5000" "t_id example_trip = 2"
    by (simp_all add: example_trip_def)
  have c: "e_occurred_at (?e 4000) < t_started_at example_trip" "e_occurred_at (?e 4000) \<le> seconds 5000"
    "trip_idle_gap < e_occurred_at (?e 5000) - e_occurred_at (?e 4000)"
    using times t by (simp_all add: trip_idle_gap_def seconds_def minutes_def)
  have o: "ie_organization_id (position_event 2 0) = 7"
    by (simp add: position_event_def)
  from late_point_ends_trip_before_start [OF inv act t(1) c o o, of 0 flat_libm ?p "fst ?x1" "snd ?x1" ?p "fst ?x2" "snd ?x2"]
  show ?thesis
    unfolding Let_def using t times by auto
qed

end
