(* ===== verification/RetryQueue.thy ===== *)
theory RetryQueue
  imports Prelude
begin

section \<open>The contract of a retried row\<close>

text \<open>
  The outbox worker, the webhook delivery and the mail delivery retry a failed row in the same way: a
  failure counts an attempt, and either dead-letters the row (once its attempts reach a maximum) or
  schedules the next attempt after a delay that grows with the attempts up to a cap. The locale
  states that contract and what follows from it; each of the three interprets it on its own rows.
\<close>

locale retry_queue =
  fixes attempts :: "'r \<Rightarrow> int"
    and max_attempts :: "'r \<Rightarrow> int"
    and dead :: "'r \<Rightarrow> bool"
    and next_at :: "'r \<Rightarrow> instant"
    and fail :: "instant \<Rightarrow> 'r \<Rightarrow> 'r"
    and cap :: duration
  assumes fail_attempts: "attempts (fail now r) = attempts r + 1"
    and fail_max: "max_attempts (fail now r) = max_attempts r"
    and fail_dead: "\<not> dead r \<Longrightarrow> dead (fail now r) \<longleftrightarrow> max_attempts r \<le> attempts r + 1"
    and fail_next: "\<not> dead r \<Longrightarrow> 0 \<le> attempts r \<Longrightarrow> attempts r + 1 < max_attempts r \<Longrightarrow>
          now < next_at (fail now r) \<and> next_at (fail now r) \<le> now + cap"
begin

lemma fold_attempts: "attempts (fold fail ts r) = attempts r + int (length ts)"
  by (induction ts arbitrary: r) (simp_all add: fail_attempts)

lemma fold_max: "max_attempts (fold fail ts r) = max_attempts r"
  by (induction ts arbitrary: r) (simp_all add: fail_max)

text \<open>A row that keeps failing stays alive for all but the last of its attempts.\<close>

lemma fold_alive:
  "\<not> dead r \<Longrightarrow> attempts r + int (length ts) < max_attempts r \<Longrightarrow> \<not> dead (fold fail ts r)"
  by (induction ts arbitrary: r) (simp_all add: fail_attempts fail_max fail_dead)

lemma fold_dies:
  assumes "\<not> dead r" "attempts r < max_attempts r" "attempts r + int (length ts) = max_attempts r"
  shows "dead (fold fail ts r)"
proof -
  have "ts \<noteq> []"
    using assms(2,3) by auto
  then obtain us t where ts: "ts = us @ [t]"
    by (metis rev_exhaust)
  have "\<not> dead (fold fail us r)"
    using assms(1,3) ts by (intro fold_alive) simp_all
  then show ?thesis
    using assms(3) ts by (simp add: fail_dead fold_attempts fold_max)
qed

text \<open>Exactly at its last attempt does a row die, and until then each failure waits at most \<open>cap\<close>.\<close>

lemma dies_at_last_attempt:
  assumes "\<not> dead r" "attempts r = 0" "0 < max_attempts r" "int (length ts) \<le> max_attempts r"
  shows "dead (fold fail ts r) \<longleftrightarrow> int (length ts) = max_attempts r"
  using fold_alive [OF assms(1), of ts] fold_dies [OF assms(1), of ts] assms by fastforce

lemma next_attempt_bounded:
  assumes "\<not> dead r" "attempts r = 0" "ts \<noteq> []" "int (length ts) < max_attempts r"
  shows "last ts < next_at (fold fail ts r) \<and> next_at (fold fail ts r) \<le> last ts + cap"
proof -
  obtain us t where ts: "ts = us @ [t]"
    using assms(3) by (metis rev_exhaust)
  have "\<not> dead (fold fail us r)"
    using assms ts by (intro fold_alive) simp_all
  then show ?thesis
    using assms ts by (simp add: fail_next fold_attempts fold_max)
qed

end

end
