(* ===== verification/Notifications.thy ===== *)
theory Notifications
  imports Outbox SafetyRules RetryQueue
begin

section \<open>Notification rules and webhook deliveries\<close>

text \<open>
  \<^verbatim>\<open>application/notifications/service.py\<close>: which notifications and deliveries a safety event produces,
  and what a failed delivery does to its row. Sending is in \<open>Webhooks\<close>.
\<close>

definition max_delivery_attempts :: int where "max_delivery_attempts = 6"

subsection \<open>Evaluation of the rules\<close>

definition queue_delivery :: "instant \<Rightarrow> uuid \<Rightarrow> string \<Rightarrow> delivery_payload \<Rightarrow> webhook_endpoint \<Rightarrow> db \<Rightarrow> db" where
  "queue_delivery now org event_type_name payload e d =
     d\<lparr>webhook_deliveries := webhook_deliveries d @
         [\<lparr>wd_id = next_id d, wd_organization_id = org, wd_endpoint_id = we_id e,
           wd_event_type = event_type_name, wd_payload = payload, wd_status = DelPending,
           wd_attempts = 0, wd_next_attempt_at = now, wd_last_error = None,
           wd_response_status = None, wd_delivered_at = None, wd_created_at = now\<rparr>],
       next_id := Suc (next_id d)\<rparr>"

definition queue_webhooks :: "instant \<Rightarrow> uuid \<Rightarrow> string \<Rightarrow> delivery_payload \<Rightarrow> db \<Rightarrow> nat \<times> db" where
  "queue_webhooks now org event_type_name payload d =
     (let eps = filter (\<lambda>e. we_organization_id e = org \<and> we_active e) (webhook_endpoints d)
      in (length eps, fold (queue_delivery now org event_type_name payload) eps d))"

definition rule_matches :: "uuid \<Rightarrow> severity \<Rightarrow> notification_rule \<Rightarrow> bool" where
  "rule_matches org sev r \<longleftrightarrow> nr_organization_id r = org \<and> nr_active r \<and> nr_kind r = SeverityThreshold \<and>
     \<not> severity_rank sev < severity_rank (nr_min_severity r)"

definition notify_in_app :: "instant \<Rightarrow> uuid \<Rightarrow> uuid \<Rightarrow> severity \<Rightarrow> notification_rule \<Rightarrow> db \<Rightarrow> db" where
  "notify_in_app now org event_id sev r d =
     d\<lparr>notifications := notifications d @
         [\<lparr>nt_id = next_id d, nt_organization_id = org, nt_rule_id = Some (nr_id r),
           nt_safety_event_id = Some event_id,
           nt_level = (if sev = Critical then LevelCritical else LevelWarning),
           nt_read_at = None, nt_created_at = now\<rparr>],
       next_id := Suc (next_id d)\<rparr>"

definition apply_rule ::
    "instant \<Rightarrow> uuid \<Rightarrow> uuid \<Rightarrow> event_type \<Rightarrow> severity \<Rightarrow> notification_rule \<Rightarrow> nat \<times> db \<Rightarrow> nat \<times> db" where
  "apply_rule now org event_id t sev r st =
     (let (n1, d1) = (if InApp \<in> set (nr_channels r)
                      then (fst st + 1, notify_in_app now org event_id sev r (snd st)) else st)
      in if WebhookChannel \<in> set (nr_channels r)
         then (let (queued, d2) = queue_webhooks now org ''safety.event_created'' (SafetyPayload event_id t sev) d1
               in (n1 + queued, d2))
         else (n1, d1))"

definition on_safety_event :: "instant \<Rightarrow> uuid \<Rightarrow> uuid \<Rightarrow> event_type \<Rightarrow> severity \<Rightarrow> db \<Rightarrow> nat \<times> db" where
  "on_safety_event now org event_id t sev d =
     fold (apply_rule now org event_id t sev) (filter (rule_matches org sev) (notification_rules d)) (0, d)"

subsection \<open>A failed delivery\<close>

definition webhook_backoff :: "int \<Rightarrow> int" where
  "webhook_backoff attempts = min (2 ^ nat attempts * 5) 900"

definition fail_delivery :: "string \<Rightarrow> instant \<Rightarrow> webhook_delivery \<Rightarrow> webhook_delivery" where
  "fail_delivery err now w =
     (let n = wd_attempts w + 1;
          w1 = w\<lparr>wd_attempts := n, wd_last_error := Some (take 1000 err)\<rparr>
      in if max_delivery_attempts \<le> n then w1\<lparr>wd_status := DelDeadLetter\<rparr>
         else w1\<lparr>wd_next_attempt_at := now + seconds (webhook_backoff n)\<rparr>)"

definition http_error :: "int \<Rightarrow> string" where
  "http_error st = ''HTTP '' @ int_text st"

definition set_delivery :: "uuid \<Rightarrow> (webhook_delivery \<Rightarrow> webhook_delivery) \<Rightarrow> db \<Rightarrow> db" where
  "set_delivery i f d = d\<lparr>webhook_deliveries := tupd (\<lambda>w. wd_id w = i) f (webhook_deliveries d)\<rparr>"

definition set_endpoint :: "uuid \<Rightarrow> (webhook_endpoint \<Rightarrow> webhook_endpoint) \<Rightarrow> db \<Rightarrow> db" where
  "set_endpoint i f d = d\<lparr>webhook_endpoints := tupd (\<lambda>e. we_id e = i) f (webhook_endpoints d)\<rparr>"

subsection \<open>Webhook deliveries keep the retry contract\<close>

lemma webhook_backoff_bounds: "0 < webhook_backoff n \<and> webhook_backoff n \<le> 900"
  by (simp add: webhook_backoff_def)

interpretation webhook_retry: retry_queue wd_attempts "\<lambda>_. max_delivery_attempts" "\<lambda>w. wd_status w = DelDeadLetter"
    wd_next_attempt_at "fail_delivery err" "seconds 900"
  using webhook_backoff_bounds by unfold_locales (auto simp: fail_delivery_def Let_def seconds_def)

subsection \<open>Properties\<close>

definition active_endpoints :: "uuid \<Rightarrow> db \<Rightarrow> nat" where
  "active_endpoints org d = length (filter (\<lambda>e. we_organization_id e = org \<and> we_active e) (webhook_endpoints d))"

lemma fold_queue_delivery [simp]:
  "length (webhook_deliveries (fold (queue_delivery now org n p) eps d)) = length (webhook_deliveries d) + length eps"
  "notifications (fold (queue_delivery now org n p) eps d) = notifications d"
  "webhook_endpoints (fold (queue_delivery now org n p) eps d) = webhook_endpoints d"
  by (induction eps arbitrary: d) (simp_all add: queue_delivery_def)

lemma queue_webhooks_counts [simp]:
  "fst (queue_webhooks now org n p d) = active_endpoints org d"
  "length (webhook_deliveries (snd (queue_webhooks now org n p d))) = length (webhook_deliveries d) + active_endpoints org d"
  "notifications (snd (queue_webhooks now org n p d)) = notifications d"
  "active_endpoints org' (snd (queue_webhooks now org n p d)) = active_endpoints org' d"
  by (simp_all add: queue_webhooks_def active_endpoints_def Let_def)

lemma notify_in_app_counts [simp]:
  "length (notifications (notify_in_app now org i sev r d)) = Suc (length (notifications d))"
  "webhook_deliveries (notify_in_app now org i sev r d) = webhook_deliveries d"
  "active_endpoints org' (notify_in_app now org i sev r d) = active_endpoints org' d"
  by (simp_all add: notify_in_app_def active_endpoints_def)

text \<open>What one matching rule adds: a notification, and a delivery for each active endpoint.\<close>

definition in_app :: "notification_rule \<Rightarrow> nat" where
  "in_app r = (if InApp \<in> set (nr_channels r) then 1 else 0)"

definition by_webhook :: "notification_rule \<Rightarrow> nat" where
  "by_webhook r = (if WebhookChannel \<in> set (nr_channels r) then 1 else 0)"

lemma apply_rule_counts [simp]:
  "length (notifications (snd (apply_rule now org i t sev r st))) = length (notifications (snd st)) + in_app r"
  "length (webhook_deliveries (snd (apply_rule now org i t sev r st))) =
     length (webhook_deliveries (snd st)) + by_webhook r * active_endpoints org (snd st)"
  "fst (apply_rule now org i t sev r st) = fst st + in_app r + by_webhook r * active_endpoints org (snd st)"
  "active_endpoints org (snd (apply_rule now org i t sev r st)) = active_endpoints org (snd st)"
  by (simp_all add: apply_rule_def in_app_def by_webhook_def case_prod_beta)

lemma fold_rule_counts:
  "length (notifications (snd (fold (apply_rule now org i t sev) rs st))) =
     length (notifications (snd st)) + sum_list (map in_app rs)"
  "length (webhook_deliveries (snd (fold (apply_rule now org i t sev) rs st))) =
     length (webhook_deliveries (snd st)) + sum_list (map by_webhook rs) * active_endpoints org (snd st)"
  "fst (fold (apply_rule now org i t sev) rs st) =
     fst st + sum_list (map in_app rs) + sum_list (map by_webhook rs) * active_endpoints org (snd st)"
  by (induction rs arbitrary: st) (simp_all add: algebra_simps)

text \<open>
  A safety event produces one notification for each matching rule with the in-app channel, and
  one delivery to each active endpoint for each matching rule with the webhook channel (so an endpoint
  gets the event once per rule, not once); rules of other tenants, inactive rules and rules with a
  higher minimum severity produce nothing.
\<close>

theorem on_safety_event_counts:
  "let rs = filter (rule_matches org sev) (notification_rules d);
       d' = snd (on_safety_event now org i t sev d)
   in length (notifications d') = length (notifications d) + sum_list (map in_app rs) \<and>
      length (webhook_deliveries d') =
        length (webhook_deliveries d) + sum_list (map by_webhook rs) * active_endpoints org d \<and>
      fst (on_safety_event now org i t sev d) =
        sum_list (map in_app rs) + sum_list (map by_webhook rs) * active_endpoints org d"
  by (simp add: on_safety_event_def fold_rule_counts Let_def)

text \<open>
  A webhook delivery that keeps failing is dead-lettered at its sixth failure and not before, and
  every earlier failure schedules the next attempt within the following 15 minutes.
\<close>

theorem webhook_dead_letter_at_sixth_failure:
  assumes "wd_status w \<noteq> DelDeadLetter" and "wd_attempts w = 0" and "length ts \<le> 6"
  shows "(wd_status (fold (fail_delivery err) ts w) = DelDeadLetter \<longleftrightarrow> length ts = 6) \<and>
    (ts \<noteq> [] \<and> length ts < 6 \<longrightarrow>
       last ts < wd_next_attempt_at (fold (fail_delivery err) ts w) \<and>
       wd_next_attempt_at (fold (fail_delivery err) ts w) \<le> last ts + seconds 900)"
proof
  show "wd_status (fold (fail_delivery err) ts w) = DelDeadLetter \<longleftrightarrow> length ts = 6"
    using webhook_retry.dies_at_last_attempt [of w ts] assms by (simp add: max_delivery_attempts_def)
  show "ts \<noteq> [] \<and> length ts < 6 \<longrightarrow>
       last ts < wd_next_attempt_at (fold (fail_delivery err) ts w) \<and>
       wd_next_attempt_at (fold (fail_delivery err) ts w) \<le> last ts + seconds 900"
    using webhook_retry.next_attempt_bounded [of w ts] assms by (simp add: max_delivery_attempts_def)
qed

theorem webhook_dead_letter_at_sixth_failure_witness:
  "let w = \<lparr>wd_id = 0, wd_organization_id = 7, wd_endpoint_id = 1, wd_event_type = ''x'',
            wd_payload = SafetyPayload 3 Speeding High, wd_status = DelPending, wd_attempts = 0, wd_next_attempt_at = 0,
            wd_last_error = None, wd_response_status = None, wd_delivered_at = None, wd_created_at = 0\<rparr>
   in wd_status (fold (fail_delivery ''e'') [0, 10, 20, 30, 40, 50] w) = DelDeadLetter \<and>
      wd_status (fold (fail_delivery ''e'') [0, 10] w) \<noteq> DelDeadLetter"
proof -
  let ?w = "\<lparr>wd_id = 0, wd_organization_id = 7, wd_endpoint_id = 1, wd_event_type = ''x'',
            wd_payload = SafetyPayload 3 Speeding High, wd_status = DelPending, wd_attempts = 0, wd_next_attempt_at = 0,
            wd_last_error = None, wd_response_status = None, wd_delivered_at = None, wd_created_at = 0\<rparr>"
  show ?thesis
    using webhook_dead_letter_at_sixth_failure [of ?w "[0, 10, 20, 30, 40, 50]" "''e''"]
      webhook_dead_letter_at_sixth_failure [of ?w "[0, 10]" "''e''"]
    by (simp add: Let_def)
qed

end
