(* ===== verification/Worker.thy ===== *)
theory Worker
  imports Telemetry Notifications
begin

section \<open>The outbox worker\<close>

text \<open>
  \<^verbatim>\<open>worker/runner.py\<close>: one batch of outbox events. Each event is dispatched inside a savepoint, so
  a handler that raises leaves nothing but the retry mark on its own row. The signals to live
  streams (\<^verbatim>\<open>_notify_live\<close>) change no table and are left out; the text of an exception is the
  parameter \<open>exn_text\<close>; \<open>locked\<close> lists the rows other workers hold (\<^verbatim>\<open>SKIP LOCKED\<close>).
\<close>

definition max_outbox_attempts :: int where "max_outbox_attempts = 8"
definition outbox_batch :: nat where "outbox_batch = 50"

definition outbox_due :: "uuid list \<Rightarrow> instant \<Rightarrow> outbox_event \<Rightarrow> bool" where
  "outbox_due locked now o1 \<longleftrightarrow> ob_status o1 \<in> {OutPending, OutProcessing} \<and> ob_next_attempt_at o1 \<le> now \<and>
     ob_id o1 \<notin> set locked"

definition set_outbox :: "uuid \<Rightarrow> (outbox_event \<Rightarrow> outbox_event) \<Rightarrow> db \<Rightarrow> db" where
  "set_outbox i f d = d\<lparr>outbox_events := tupd (\<lambda>o1. ob_id o1 = i) f (outbox_events d)\<rparr>"

definition claim :: "uuid list \<Rightarrow> instant \<Rightarrow> db \<Rightarrow> outbox_event list \<times> db" where
  "claim locked now d =
     (let events = take outbox_batch (order_by ob_occurred_at (filter (outbox_due locked now) (outbox_events d)))
      in (events,
          d\<lparr>outbox_events := tupd (\<lambda>o1. ob_id o1 \<in> set (map ob_id events))
               (\<lambda>o1. o1\<lparr>ob_status := OutProcessing\<rparr>) (outbox_events d)\<rparr>))"

definition handle_ingest_accepted :: "instant \<Rightarrow> libm \<Rightarrow> pydantic \<Rightarrow> uuid \<Rightarrow> db \<Rightarrow> db result" where
  "handle_ingest_accepted now m pyd i d =
     (case tget ie_id (ingest_events d) i of
        None \<Rightarrow> Inr d
      | Some event \<Rightarrow> bind (process_accepted_ingest_event now m pyd event d) (\<lambda>(processed, d1). Inr d1))"

definition dispatch :: "instant \<Rightarrow> libm \<Rightarrow> pydantic \<Rightarrow> outbox_event \<Rightarrow> db \<Rightarrow> db result" where
  "dispatch now m pyd o1 d =
     (case ob_payload o1 of
        IngestAccepted org i ty \<Rightarrow> handle_ingest_accepted now m pyd i d
      | SafetyCreated org i t sev \<Rightarrow> Inr (snd (on_safety_event now org i t sev d))
      | OtherEvent _ \<Rightarrow> Inr d)"

definition outbox_backoff :: "int \<Rightarrow> int" where
  "outbox_backoff attempts = min (2 ^ nat attempts) 300"

definition mark_retry :: "string \<Rightarrow> instant \<Rightarrow> outbox_event \<Rightarrow> outbox_event" where
  "mark_retry err now o1 =
     (let n = ob_attempts o1 + 1;
          o2 = o1\<lparr>ob_attempts := n, ob_last_error := Some (take 2000 err)\<rparr>
      in if max_outbox_attempts \<le> n then o2\<lparr>ob_status := OutDeadLetter\<rparr>
         else o2\<lparr>ob_status := OutPending, ob_next_attempt_at := now + seconds (outbox_backoff n)\<rparr>)"

definition mark_done :: "instant \<Rightarrow> outbox_event \<Rightarrow> outbox_event" where
  "mark_done now o1 = o1\<lparr>ob_status := OutDone, ob_processed_at := Some now\<rparr>"

definition process_event ::
    "(exn \<Rightarrow> string) \<Rightarrow> instant \<Rightarrow> libm \<Rightarrow> pydantic \<Rightarrow> outbox_event \<Rightarrow> nat \<times> db \<Rightarrow> nat \<times> db" where
  "process_event exn_text now m pyd o1 st =
     (case dispatch now m pyd o1 (snd st) of
        Inl e \<Rightarrow> (fst st, set_outbox (ob_id o1) (mark_retry (exn_text e) now) (snd st))
      | Inr d1 \<Rightarrow> (fst st + 1, set_outbox (ob_id o1) (mark_done now) d1))"

definition process_outbox_batch ::
    "(exn \<Rightarrow> string) \<Rightarrow> uuid list \<Rightarrow> instant \<Rightarrow> libm \<Rightarrow> pydantic \<Rightarrow> db \<Rightarrow> nat \<times> db" where
  "process_outbox_batch exn_text locked now m pyd d =
     (case claim locked now d of (events, d1) \<Rightarrow> fold (process_event exn_text now m pyd) events (0, d1))"

subsection \<open>Outbox events keep the retry contract\<close>

lemma outbox_backoff_bounds: "0 < outbox_backoff n \<and> outbox_backoff n \<le> 300"
  by (simp add: outbox_backoff_def)

interpretation outbox_retry: retry_queue ob_attempts "\<lambda>_. max_outbox_attempts" "\<lambda>o1. ob_status o1 = OutDeadLetter"
    ob_next_attempt_at "mark_retry err" "seconds 300"
  using outbox_backoff_bounds by unfold_locales (auto simp: mark_retry_def Let_def seconds_def)

subsection \<open>What a handler does to the tables\<close>

text \<open>The notification handler touches neither trips, points, safety events nor the outbox.\<close>

definition notify_frame :: "db \<Rightarrow> db \<Rightarrow> bool" where
  "notify_frame d d' \<longleftrightarrow> outbox_events d' = outbox_events d \<and> trips d' = trips d \<and>
     telemetry_points d' = telemetry_points d \<and> safety_events d' = safety_events d \<and> next_id d \<le> next_id d'"

lemma notify_frame_refl [simp]: "notify_frame d d"
  by (simp add: notify_frame_def)

lemma notify_frame_trans [trans]: "notify_frame d d1 \<Longrightarrow> notify_frame d1 d2 \<Longrightarrow> notify_frame d d2"
  by (simp add: notify_frame_def)

lemma queue_delivery_frame: "notify_frame d (queue_delivery now org n p e d)"
  by (simp add: notify_frame_def queue_delivery_def)

lemma notify_in_app_frame: "notify_frame d (notify_in_app now org i sev r d)"
  by (simp add: notify_frame_def notify_in_app_def)

lemma queue_webhooks_frame: "notify_frame d (snd (queue_webhooks now org n p d))"
proof -
  have "notify_frame d (fold (queue_delivery now org n p) eps d)" for eps
    by (induction eps arbitrary: d) (auto intro: notify_frame_trans [OF queue_delivery_frame])
  then show ?thesis
    by (simp add: queue_webhooks_def Let_def)
qed

lemma apply_rule_frame: "notify_frame (snd st) (snd (apply_rule now org i t sev r st))"
  by (simp add: apply_rule_def case_prod_beta Let_def queue_webhooks_frame notify_in_app_frame
      notify_frame_trans [OF notify_in_app_frame queue_webhooks_frame])

lemma on_safety_event_frame: "notify_frame d (snd (on_safety_event now org i t sev d))"
proof -
  have "notify_frame (snd st) (snd (fold (apply_rule now org i t sev) rs st))" for rs st
  proof (induction rs arbitrary: st)
    case (Cons r rs)
    then show ?case
      using notify_frame_trans [OF apply_rule_frame Cons.IH] by simp
  qed simp
  from this [of "(0, d)"] show ?thesis
    by (simp add: on_safety_event_def)
qed

subsection \<open>The invariant of the worker\<close>

definition worker_inv :: "db \<Rightarrow> bool" where
  "worker_inv d \<longleftrightarrow> trip_inv d \<and> engine_inv d \<and> outbox_inv d"

lemma worker_inv_notify: "worker_inv d \<Longrightarrow> notify_frame d d' \<Longrightarrow> worker_inv d' \<and> outbox_extends d d'"
  by (auto simp: worker_inv_def notify_frame_def outbox_inv_def outbox_extends_def
      intro: trip_inv_frame [of d] engine_inv_frame [of d] ids_ok_mono)

lemma dispatch_inv:
  assumes "libm_ok m" "worker_inv d" "dispatch now m pyd o1 d = Inr d'"
  shows "worker_inv d' \<and> outbox_extends d d'"
proof (cases "ob_payload o1")
  case (IngestAccepted org i ty)
  then show ?thesis
    using assms process_accepted_frame [OF assms(1), of d now pyd]
    by (auto simp: dispatch_def handle_ingest_accepted_def worker_inv_def bind_eq_Inr case_prod_beta split: option.splits)
next
  case (SafetyCreated org i t sev)
  then show ?thesis
    using assms(3) worker_inv_notify [OF assms(2) on_safety_event_frame] by (auto simp: dispatch_def)
qed (use assms in \<open>auto simp: dispatch_def\<close>)

lemma mark_fields [simp]:
  "ob_id (mark_retry err now o1) = ob_id o1" "ob_id (mark_done now o1) = ob_id o1"
  "ob_status (mark_done now o1) = OutDone" "ob_status (mark_retry err now o1) \<noteq> OutDone"
  by (simp_all add: mark_retry_def mark_done_def Let_def)

lemma set_outbox_inv: "(\<And>o1. ob_id (f o1) = ob_id o1) \<Longrightarrow> worker_inv d \<Longrightarrow> worker_inv (set_outbox i f d)"
  by (auto simp: worker_inv_def set_outbox_def outbox_inv_def ids_ok_tupd
      intro: trip_inv_frame [of d] engine_inv_frame [of d])

lemma set_outbox_get:
  "(\<And>o1. ob_id (f o1) = ob_id o1) \<Longrightarrow>
   tget ob_id (outbox_events (set_outbox i f d)) j =
     map_option (\<lambda>r. if j = i then f r else r) (tget ob_id (outbox_events d) j)"
  using tget_SomeD [of ob_id "outbox_events d" j]
  by (cases "tget ob_id (outbox_events d) j") (auto simp: set_outbox_def tget_tupd)

lemma set_outbox_next [simp]: "next_id (set_outbox i f d) = next_id d"
  by (simp add: set_outbox_def)

lemma outbox_extends_get:
  "outbox_extends d d' \<Longrightarrow> tget ob_id (outbox_events d) j = Some r \<Longrightarrow> tget ob_id (outbox_events d') j = Some r"
  by (auto simp: outbox_extends_def tget_append)

text \<open>What processing makes of a claimed row: it is done, or it waits for a retry or is dead.\<close>

definition settled :: "instant \<Rightarrow> outbox_event \<Rightarrow> outbox_event \<Rightarrow> bool" where
  "settled now r r' \<longleftrightarrow> r' = mark_done now r \<or> (\<exists>err. r' = mark_retry err now r)"

lemma process_event_step:
  assumes "libm_ok m" "worker_inv d" "tget ob_id (outbox_events d) (ob_id o1) = Some r"
    and "process_event exn_text now m pyd o1 (n, d) = (n', d')"
  shows "worker_inv d' \<and>
    (\<exists>r'. tget ob_id (outbox_events d') (ob_id o1) = Some r' \<and> settled now r r' \<and>
          n' = n + (if ob_status r' = OutDone then 1 else 0)) \<and>
    (\<forall>j q. j \<noteq> ob_id o1 \<longrightarrow> tget ob_id (outbox_events d) j = Some q \<longrightarrow> tget ob_id (outbox_events d') j = Some q)"
proof (cases "dispatch now m pyd o1 d")
  case (Inl e)
  then have "n' = n" "d' = set_outbox (ob_id o1) (mark_retry (exn_text e) now) d"
    using assms(4) by (simp_all add: process_event_def)
  then show ?thesis
    using assms(2,3) by (auto simp: set_outbox_inv set_outbox_get settled_def)
next
  case (Inr d1)
  have d1: "worker_inv d1" "outbox_extends d d1"
    using dispatch_inv [OF assms(1,2) Inr] by simp_all
  have "n' = n + 1" "d' = set_outbox (ob_id o1) (mark_done now) d1"
    using assms(4) Inr by (simp_all add: process_event_def)
  then show ?thesis
    using d1 outbox_extends_get [OF d1(2)] assms(3)
    by (auto simp: set_outbox_inv set_outbox_get settled_def)
qed

text \<open>The number of claimed rows that are done in a state.\<close>

definition done_in :: "db \<Rightarrow> uuid \<Rightarrow> bool" where
  "done_in d i \<longleftrightarrow> (case tget ob_id (outbox_events d) i of None \<Rightarrow> False | Some r \<Rightarrow> ob_status r = OutDone)"

lemma done_in_Some: "tget ob_id (outbox_events d) i = Some r \<Longrightarrow> done_in d i \<longleftrightarrow> ob_status r = OutDone"
  by (simp add: done_in_def)

lemma process_events_settle:
  assumes "libm_ok m"
  shows "worker_inv d \<Longrightarrow> distinct (map ob_id es) \<Longrightarrow>
    (\<And>o1. o1 \<in> set es \<Longrightarrow> \<exists>r. tget ob_id (outbox_events d) (ob_id o1) = Some r) \<Longrightarrow>
    fold (process_event exn_text now m pyd) es (n, d) = (n', d') \<Longrightarrow>
    worker_inv d' \<and> n' = n + length (filter (done_in d') (map ob_id es)) \<and>
    (\<forall>j r. tget ob_id (outbox_events d) j = Some r \<longrightarrow>
       (\<exists>r'. tget ob_id (outbox_events d') j = Some r' \<and> (if j \<in> ob_id ` set es then settled now r r' else r' = r)))"
proof (induction es arbitrary: n d)
  case (Cons o1 es)
  obtain n1 d1 where s: "process_event exn_text now m pyd o1 (n, d) = (n1, d1)"
    by fastforce
  obtain r where r: "tget ob_id (outbox_events d) (ob_id o1) = Some r"
    using Cons.prems(3) by fastforce
  note st = process_event_step [OF assms Cons.prems(1) r s]
  then obtain r' where r': "tget ob_id (outbox_events d1) (ob_id o1) = Some r'" "settled now r r'"
      "n1 = n + (if ob_status r' = OutDone then 1 else 0)"
    by blast
  have keep: "tget ob_id (outbox_events d1) j = Some q"
    if "j \<noteq> ob_id o1" "tget ob_id (outbox_events d) j = Some q" for j q
    using st that by blast
  have ex: "\<exists>r. tget ob_id (outbox_events d1) (ob_id o2) = Some r" if "o2 \<in> set es" for o2
    using Cons.prems(3) [of o2] keep that r'(1) by (cases "ob_id o2 = ob_id o1") auto
  have run: "fold (process_event exn_text now m pyd) es (n1, d1) = (n', d')"
    using Cons.prems(4) s by simp
  have "worker_inv d1" "distinct (map ob_id es)"
    using st Cons.prems(2) by simp_all
  note ih = Cons.IH [OF this ex run]
  have o1: "ob_id o1 \<notin> ob_id ` set es"
    using Cons.prems(2) by simp
  then have "tget ob_id (outbox_events d') (ob_id o1) = Some r'"
    using ih r'(1) by fastforce
  then have "n' = n + length (filter (done_in d') (map ob_id (o1 # es)))"
    using ih r'(3) by (simp add: done_in_Some)
  moreover have "\<exists>q'. tget ob_id (outbox_events d') j = Some q' \<and>
      (if j \<in> ob_id ` set (o1 # es) then settled now q q' else q' = q)"
    if q: "tget ob_id (outbox_events d) j = Some q" for j q
  proof (cases "j = ob_id o1")
    case True
    then show ?thesis
      using q r r'(2) \<open>tget ob_id (outbox_events d') (ob_id o1) = Some r'\<close> by simp
  next
    case False
    then show ?thesis
      using ih keep [OF False q] by simp
  qed
  ultimately show ?case
    using ih by blast
qed simp

text \<open>The claim itself: distinct rows that are there, marked as being processed.\<close>

lemma claim_rows:
  assumes "worker_inv d" "claim locked now d = (es, d1)"
  shows "worker_inv d1 \<and> distinct (map ob_id es) \<and> (\<forall>o1 \<in> set es. o1 \<in> set (outbox_events d) \<and> outbox_due locked now o1) \<and>
    length es = min outbox_batch (count_rows (outbox_due locked now) (outbox_events d)) \<and>
    (\<forall>j. tget ob_id (outbox_events d1) j = map_option
       (\<lambda>r. if j \<in> ob_id ` set es then r\<lparr>ob_status := OutProcessing\<rparr> else r) (tget ob_id (outbox_events d) j))"
proof -
  let ?due = "filter (outbox_due locked now) (outbox_events d)"
  have es: "es = take outbox_batch (order_by ob_occurred_at ?due)"
    and d1: "d1 = d\<lparr>outbox_events := tupd (\<lambda>o1. ob_id o1 \<in> set (map ob_id es)) (\<lambda>o1. o1\<lparr>ob_status := OutProcessing\<rparr>) (outbox_events d)\<rparr>"
    using assms(2) by (auto simp: claim_def Let_def)
  have "distinct (map ob_id (outbox_events d))"
    using assms(1) by (simp add: worker_inv_def outbox_inv_def ids_ok_def keys_distinct_def)
  then have "distinct (map ob_id (order_by ob_occurred_at ?due))"
    by (simp add: distinct_map_filter)
  then have "distinct (map ob_id es)"
    by (simp add: es take_map [symmetric])
  moreover have "worker_inv d1"
    using assms(1) unfolding d1
    by (auto simp: worker_inv_def outbox_inv_def ids_ok_tupd intro: trip_inv_frame [of d] engine_inv_frame [of d])
  moreover have "\<forall>o1 \<in> set es. o1 \<in> set (outbox_events d) \<and> outbox_due locked now o1"
    using set_take_subset [of outbox_batch "order_by ob_occurred_at ?due"] by (auto simp: es)
  moreover have "tget ob_id (outbox_events d1) j = map_option
       (\<lambda>r. if j \<in> ob_id ` set es then r\<lparr>ob_status := OutProcessing\<rparr> else r) (tget ob_id (outbox_events d) j)" for j
    using tget_SomeD [of ob_id "outbox_events d" j]
    by (cases "tget ob_id (outbox_events d) j") (auto simp: d1 tget_tupd)
  moreover have "length es = min outbox_batch (count_rows (outbox_due locked now) (outbox_events d))"
    by (simp add: es count_rows_def min.commute)
  ultimately show ?thesis
    by blast
qed

subsection \<open>Properties\<close>

definition any_exn_text :: "exn \<Rightarrow> string" where
  "any_exn_text e = ''error''"

definition queued :: "uuid \<Rightarrow> outbox_payload \<Rightarrow> outbox_event" where
  "queued i p = \<lparr>ob_id = i, ob_payload = p, ob_status = OutPending, ob_attempts = 0, ob_next_attempt_at = 0,
     ob_last_error = None, ob_occurred_at = 0, ob_processed_at = None\<rparr>"

definition worker_db :: db where
  "worker_db = position_db\<lparr>outbox_events := [queued 0 (IngestAccepted 7 2 ''telemetry.position''),
      queued 1 (OtherEvent ''x'')]\<rparr>"

text \<open>
  C8: one batch of the outbox worker takes at most 50 of the rows that are due (all of them when
  there are fewer), settles each of them (done, or counted as a failed attempt; none is left in
  processing), changes no other stored row, and returns the number of the rows that are done.
\<close>

theorem outbox_batch_settles:
  assumes "libm_ok m" and "worker_inv d" and "claim locked now d = (es, d1)"
    and "process_outbox_batch exn_text locked now m pyd d = (n, d')"
  shows "length es = min 50 (count_rows (outbox_due locked now) (outbox_events d)) \<and>
    n = length (filter (done_in d') (map ob_id es)) \<and>
    (\<forall>j r. tget ob_id (outbox_events d) j = Some r \<longrightarrow>
       (\<exists>r'. tget ob_id (outbox_events d') j = Some r' \<and>
          (if j \<in> ob_id ` set es then ob_status r' \<noteq> OutProcessing \<and> settled now (r\<lparr>ob_status := OutProcessing\<rparr>) r'
           else r' = r)))"
proof -
  note c = claim_rows [OF assms(2,3)]
  have keys: "keys_distinct ob_id (outbox_events d)"
    using assms(2) by (simp add: worker_inv_def outbox_inv_def ids_ok_def)
  have ex: "\<exists>r. tget ob_id (outbox_events d1) (ob_id o1) = Some r" if "o1 \<in> set es" for o1
    using c that tget_SomeI [OF keys, of o1] by auto
  have run: "fold (process_event exn_text now m pyd) es (0, d1) = (n, d')"
    using assms(3,4) by (simp add: process_outbox_batch_def)
  have alive: "settled now q r' \<Longrightarrow> ob_status r' \<noteq> OutProcessing" for q r'
    by (auto simp: settled_def mark_retry_def mark_done_def Let_def split: if_splits)
  have inv1: "worker_inv d1" and dist: "distinct (map ob_id es)"
    and get1: "\<And>j. tget ob_id (outbox_events d1) j = map_option
       (\<lambda>r. if j \<in> ob_id ` set es then r\<lparr>ob_status := OutProcessing\<rparr> else r) (tget ob_id (outbox_events d) j)"
    using c by blast+
  note p = process_events_settle [OF assms(1) inv1 dist ex run]
  have "\<exists>r'. tget ob_id (outbox_events d') j = Some r' \<and>
          (if j \<in> ob_id ` set es then ob_status r' \<noteq> OutProcessing \<and> settled now (r\<lparr>ob_status := OutProcessing\<rparr>) r'
           else r' = r)" if r: "tget ob_id (outbox_events d) j = Some r" for j r
  proof (cases "j \<in> ob_id ` set es")
    case True
    then have "tget ob_id (outbox_events d1) j = Some (r\<lparr>ob_status := OutProcessing\<rparr>)"
      using get1 [of j] r by simp
    then show ?thesis
      using p True alive by metis
  next
    case False
    then have "tget ob_id (outbox_events d1) j = Some r"
      using get1 [of j] r by simp
    then show ?thesis
      using p False by metis
  qed
  moreover have "length es = min 50 (count_rows (outbox_due locked now) (outbox_events d))"
    using c by (simp add: outbox_batch_def)
  ultimately show ?thesis
    using p by simp
qed

theorem outbox_batch_settles_witness:
  "let es = fst (claim [] 5 worker_db);
       (n, d') = process_outbox_batch any_exn_text [] 5 flat_libm strict_pydantic worker_db
   in length es = 2 \<and> n = length (filter (done_in d') (map ob_id es)) \<and> n = 2"
proof -
  let ?b = "process_outbox_batch any_exn_text [] 5 flat_libm strict_pydantic worker_db"
  have inv: "worker_inv worker_db"
    using position_db_inv
    by (auto simp: worker_inv_def worker_db_def outbox_inv_def ids_ok_def keys_distinct_def queued_def
        position_db_def intro: trip_inv_frame [of position_db] engine_inv_frame [of position_db])
  have n: "fst ?b = 2" and due: "count_rows (outbox_due [] 5) (outbox_events worker_db) = 2"
    by code_simp+
  obtain es d1 k d' where r: "claim [] 5 worker_db = (es, d1)" "?b = (k, d')"
    by fastforce
  from outbox_batch_settles [OF flat_libm_ok inv r] show ?thesis
    using r n due by (simp add: Let_def)
qed

text \<open>
  Whatever the handlers of a batch do, also when some of them raise, the batch keeps the
  invariants of trips and of safety events and only appends to the outbox.
\<close>

theorem outbox_batch_invariant:
  assumes "libm_ok m" and "trip_inv d" and "engine_inv d" and "outbox_inv d"
  shows "(let d' = snd (process_outbox_batch exn_text locked now m pyd d)
          in trip_inv d' \<and> engine_inv d' \<and> outbox_inv d')"
proof -
  have inv: "worker_inv d"
    using assms by (simp add: worker_inv_def)
  obtain es d1 n d' where c: "claim locked now d = (es, d1)"
    and run: "fold (process_event exn_text now m pyd) es (0, d1) = (n, d')"
    by (metis surj_pair)
  have keys: "keys_distinct ob_id (outbox_events d)"
    using assms(4) by (simp add: outbox_inv_def ids_ok_def)
  have "\<exists>r. tget ob_id (outbox_events d1) (ob_id o1) = Some r" if "o1 \<in> set es" for o1
    using claim_rows [OF inv c] that tget_SomeI [OF keys, of o1] by auto
  moreover have "worker_inv d1" "distinct (map ob_id es)"
    using claim_rows [OF inv c] by blast+
  ultimately have "worker_inv d'"
    using process_events_settle [OF assms(1) _ _ _ run] by blast
  then show ?thesis
    using c run by (simp add: process_outbox_batch_def worker_inv_def)
qed

theorem outbox_batch_invariant_witness:
  "let d' = snd (process_outbox_batch any_exn_text [] 5 flat_libm strict_pydantic position_db)
   in trip_inv d' \<and> engine_inv d' \<and> outbox_inv d'"
proof -
  have "outbox_inv position_db"
    by (simp add: outbox_inv_def position_db_def example_db_def empty_db_def)
  from outbox_batch_invariant [OF flat_libm_ok position_db_inv this] show ?thesis .
qed

text \<open>
  An outbox event whose handler keeps failing is dead-lettered at its eighth failure and not
  before, and each earlier failure schedules the next attempt within the following five minutes.
\<close>

theorem outbox_dead_letter_at_eighth_failure:
  assumes "ob_status o1 \<noteq> OutDeadLetter" and "ob_attempts o1 = 0" and "length ts \<le> 8"
  shows "(ob_status (fold (mark_retry err) ts o1) = OutDeadLetter \<longleftrightarrow> length ts = 8) \<and>
    (ts \<noteq> [] \<and> length ts < 8 \<longrightarrow>
       last ts < ob_next_attempt_at (fold (mark_retry err) ts o1) \<and>
       ob_next_attempt_at (fold (mark_retry err) ts o1) \<le> last ts + minutes 5)"
proof
  show "ob_status (fold (mark_retry err) ts o1) = OutDeadLetter \<longleftrightarrow> length ts = 8"
    using outbox_retry.dies_at_last_attempt [of o1 ts] assms by (simp add: max_outbox_attempts_def)
  show "ts \<noteq> [] \<and> length ts < 8 \<longrightarrow>
       last ts < ob_next_attempt_at (fold (mark_retry err) ts o1) \<and>
       ob_next_attempt_at (fold (mark_retry err) ts o1) \<le> last ts + minutes 5"
    using outbox_retry.next_attempt_bounded [of o1 ts] assms
    by (simp add: max_outbox_attempts_def time_defs)
qed

theorem outbox_dead_letter_at_eighth_failure_witness:
  "ob_status (fold (mark_retry ''e'') [0, 1, 2, 3, 4, 5, 6, 7] (queued 0 (OtherEvent ''x''))) = OutDeadLetter \<and>
   ob_status (fold (mark_retry ''e'') [0, 1] (queued 0 (OtherEvent ''x''))) \<noteq> OutDeadLetter"
proof -
  have q: "ob_status (queued 0 (OtherEvent ''x'')) \<noteq> OutDeadLetter" "ob_attempts (queued 0 (OtherEvent ''x'')) = 0"
    by (simp_all add: queued_def)
  show ?thesis
    using outbox_dead_letter_at_eighth_failure [OF q, of "[0, 1, 2, 3, 4, 5, 6, 7]" "''e''"]
      outbox_dead_letter_at_eighth_failure [OF q, of "[0, 1]" "''e''"] by simp
qed

end
