(* ===== verification/Lifecycle.thy ===== *)
theory Lifecycle
  imports Prelude
begin

section \<open>The contract of rows with a life cycle\<close>

text \<open>
  Mail messages, coaching actions and other rows have a status that moves along the arrows of a
  small diagram and a set of final states in which a row is history. The locale states what one step
  of a component owes to such rows, and derives what holds along any sequence of steps.
\<close>

locale lifecycle =
  fixes row :: "'s \<Rightarrow> uuid \<Rightarrow> 'r option"
    and inv :: "'s \<Rightarrow> bool"
    and step :: "'s \<Rightarrow> 's \<Rightarrow> bool"
    and status :: "'r \<Rightarrow> 'q"
    and arrow :: "'q \<Rightarrow> 'q \<Rightarrow> bool"
    and final :: "'q \<Rightarrow> bool"
  assumes step_inv: "step s s' \<Longrightarrow> inv s \<Longrightarrow> inv s'"
    and step_row: "step s s' \<Longrightarrow> inv s \<Longrightarrow> row s i = Some r \<Longrightarrow>
          \<exists>r'. row s' i = Some r' \<and> (status r' = status r \<or> arrow (status r) (status r'))"
    and step_final: "step s s' \<Longrightarrow> inv s \<Longrightarrow> row s i = Some r \<Longrightarrow> final (status r) \<Longrightarrow> row s' i = Some r"
begin

lemma run_inv: "step\<^sup>*\<^sup>* s s' \<Longrightarrow> inv s \<Longrightarrow> inv s'"
  by (induction rule: rtranclp_induct) (auto intro: step_inv)

text \<open>A row never disappears, and its status follows the arrows.\<close>

lemma run_row:
  "step\<^sup>*\<^sup>* s s' \<Longrightarrow> inv s \<Longrightarrow> row s i = Some r \<Longrightarrow>
   \<exists>r'. row s' i = Some r' \<and> arrow\<^sup>*\<^sup>* (status r) (status r')"
proof (induction rule: rtranclp_induct)
  case (step s1 s2)
  then obtain r1 where r1: "row s1 i = Some r1" "arrow\<^sup>*\<^sup>* (status r) (status r1)"
    by blast
  have "inv s1"
    using run_inv [OF step.hyps(1) step.prems(1)] .
  then obtain r2 where "row s2 i = Some r2" "status r2 = status r1 \<or> arrow (status r1) (status r2)"
    using step_row [OF step.hyps(2) _ r1(1)] by blast
  then show ?case
    using r1(2) by (auto intro: rtranclp.rtrancl_into_rtrancl)
qed auto

text \<open>A row in a final state is history.\<close>

lemma run_final:
  "step\<^sup>*\<^sup>* s s' \<Longrightarrow> inv s \<Longrightarrow> row s i = Some r \<Longrightarrow> final (status r) \<Longrightarrow> row s' i = Some r"
proof (induction rule: rtranclp_induct)
  case (step s1 s2)
  then show ?case
    using step_final [OF step.hyps(2) run_inv [OF step.hyps(1)]] by blast
qed

end

end
