(* ===== verification/Mail.thy ===== *)
theory Mail
  imports Outbox RetryQueue Lifecycle
begin

section \<open>The mail queue\<close>

text \<open>
  \<^verbatim>\<open>application/mail/service.py\<close> (messages are queued in the transaction of the change that
  causes them) and \<^verbatim>\<open>application/mail/delivery.py\<close> (a worker claims due messages under a lease,
  sends them outside of any transaction, and records the outcome). Encryption, the rendering of the
  templates and the transport are the fields of the parameter \<open>mail_env\<close>; the subject, which is the
  rendering of the context, is left out. \<open>locked\<close> lists the rows other workers hold.
\<close>

subsection \<open>Queueing\<close>

definition mail_templates :: "string list" where
  "mail_templates = [''invitation'', ''password_reset'', ''email_verification'', ''security_notice'',
     ''coaching_assigned'', ''privacy_export_ready'']"

record mail_request =
  mr_template :: string
  mr_recipient :: string
  mr_context :: pydict
  mr_secret_context :: "pydict option"
  mr_organization_id :: "uuid option"
  mr_related :: "(string \<times> uuid) option"
  mr_idempotency_key :: "(string \<times> uuid \<times> string) option"
  mr_max_attempts :: int

text \<open>\<open>encrypt\<close> is the cipher, when one is configured. An empty secret context is no secret context.\<close>

definition seal_secret :: "(pydict \<Rightarrow> string) option \<Rightarrow> pydict option \<Rightarrow> string option result" where
  "seal_secret encrypt secret =
     (case secret of
        None \<Rightarrow> Inr None
      | Some s \<Rightarrow> if s = [] then Inr None
                else (case encrypt of None \<Rightarrow> Inl (ServiceNotConfiguredError ''mail_cipher'')
                      | Some e \<Rightarrow> Inr (Some (e s))))"

definition queued_mail :: "instant \<Rightarrow> mail_request \<Rightarrow> string option \<Rightarrow> uuid \<Rightarrow> email_message" where
  "queued_mail now q sec i =
     \<lparr>em_id = i, em_organization_id = mr_organization_id q, em_recipient = mr_recipient q,
      em_template = mr_template q, em_context = mr_context q, em_secret_context_enc = sec,
      em_related = mr_related q, em_status = MailPending, em_attempts = 0,
      em_max_attempts = mr_max_attempts q, em_next_attempt_at = now, em_last_error = None,
      em_provider_message_id = None, em_idempotency_key = mr_idempotency_key q, em_sent_at = None,
      em_created_at = now\<rparr>"

definition key_used :: "(string \<times> uuid \<times> string) option \<Rightarrow> email_message list \<Rightarrow> bool" where
  "key_used k rows \<longleftrightarrow> k \<noteq> None \<and> list_ex (\<lambda>r. em_idempotency_key r = k) rows"

definition enqueue :: "(pydict \<Rightarrow> string) option \<Rightarrow> instant \<Rightarrow> mail_request \<Rightarrow> db \<Rightarrow> (uuid option \<times> db) result" where
  "enqueue encrypt now q d =
     (if mr_template q \<notin> set mail_templates then Inl (PyValueError ''template'')
      else bind (seal_secret encrypt (mr_secret_context q)) (\<lambda>sec.
        if key_used (mr_idempotency_key q) (email_messages d) then Inr (None, d)
        else Inr (Some (next_id d),
                  d\<lparr>email_messages := email_messages d @ [queued_mail now q sec (next_id d)],
                    next_id := Suc (next_id d)\<rparr>)))"

subsection \<open>Delivery\<close>

definition sending_lease :: duration where "sending_lease = minutes 5"
definition max_backoff_seconds :: int where "max_backoff_seconds = 3600"

record delivery_stats =
  st_sent :: nat
  st_retried :: nat
  st_dead_lettered :: nat
  st_message_ids :: "uuid list"

definition handled :: "delivery_stats \<Rightarrow> nat" where
  "handled s = st_sent s + st_retried s + st_dead_lettered s"

record claimed =
  cl_id :: uuid
  cl_recipient :: string
  cl_template :: string
  cl_context :: pydict
  cl_secret_context_enc :: "string option"
  cl_attempts :: int
  cl_max_attempts :: int

datatype outcome_kind = Sent | Retry | DeadLetter

record mail_outcome =
  mo_status :: outcome_kind
  mo_error :: "string option"

record outgoing_email =
  og_message_id :: uuid
  og_to_address :: string
  og_rendered :: "string \<times> string \<times> string"

text \<open>
  \<open>me_decrypt\<close> is the cipher followed by \<^verbatim>\<open>json.loads\<close>: \<open>Inl\<close> is \<^verbatim>\<open>FieldEncryptionError\<close>. A text that decrypts was
  written by \<^verbatim>\<open>json.dumps\<close> in \<^verbatim>\<open>MailService.enqueue\<close> (the cipher authenticates it), so the JSON is never malformed.
\<close>

record mail_env =
  me_decrypt :: "(string \<Rightarrow> string + pydict) option"
  me_render :: "string \<Rightarrow> pydict \<Rightarrow> pydict \<Rightarrow> string + (string \<times> string \<times> string)"
  me_send :: "outgoing_email \<Rightarrow> (string \<times> bool) option"

definition backoff_for :: "int \<Rightarrow> duration" where
  "backoff_for attempts = seconds (min (60 * 2 ^ nat (max (attempts - 1) 0)) max_backoff_seconds)"

definition mail_due :: "uuid list \<Rightarrow> instant \<Rightarrow> email_message \<Rightarrow> bool" where
  "mail_due locked now r \<longleftrightarrow>
     (em_status r = MailPending \<and> em_next_attempt_at r \<le> now \<or>
      em_status r = MailSending \<and> em_next_attempt_at r \<le> now) \<and> em_id r \<notin> set locked"

definition claim_row :: "instant \<Rightarrow> email_message \<Rightarrow> email_message" where
  "claim_row now r = r\<lparr>em_status := MailSending, em_attempts := em_attempts r + 1,
                       em_next_attempt_at := now + sending_lease\<rparr>"

definition claimed_of :: "email_message \<Rightarrow> claimed" where
  "claimed_of r = \<lparr>cl_id = em_id r, cl_recipient = em_recipient r, cl_template = em_template r,
     cl_context = em_context r, cl_secret_context_enc = em_secret_context_enc r,
     cl_attempts = em_attempts r, cl_max_attempts = em_max_attempts r\<rparr>"

definition claim_mail :: "uuid list \<Rightarrow> nat \<Rightarrow> instant \<Rightarrow> db \<Rightarrow> claimed list \<times> db" where
  "claim_mail locked limit now d =
     (let rows = take limit (order_by em_created_at (filter (mail_due locked now) (email_messages d)))
      in (map (claimed_of \<circ> claim_row now) rows,
          d\<lparr>email_messages := tupd (\<lambda>r. em_id r \<in> set (map em_id rows)) (claim_row now) (email_messages d)\<rparr>))"

definition decrypt_secret :: "mail_env \<Rightarrow> string option \<Rightarrow> string + pydict" where
  "decrypt_secret env v =
     (case v of None \<Rightarrow> Inr []
      | Some x \<Rightarrow> (case me_decrypt env of None \<Rightarrow> Inl ''key_missing'' | Some f \<Rightarrow> f x))"

definition retry_or_dead :: "claimed \<Rightarrow> string \<Rightarrow> mail_outcome" where
  "retry_or_dead c err =
     (if cl_max_attempts c \<le> cl_attempts c then \<lparr>mo_status = DeadLetter, mo_error = Some (take 1000 err)\<rparr>
      else \<lparr>mo_status = Retry, mo_error = Some (take 1000 err)\<rparr>)"

definition attempt :: "mail_env \<Rightarrow> claimed \<Rightarrow> mail_outcome" where
  "attempt env c =
     (case decrypt_secret env (cl_secret_context_enc c) of
        Inl e \<Rightarrow> retry_or_dead c (''decrypt: '' @ e)
      | Inr secret \<Rightarrow>
          (case me_render env (cl_template c) (cl_context c) secret of
             Inl e \<Rightarrow> \<lparr>mo_status = DeadLetter, mo_error = Some (''template: '' @ e)\<rparr>
           | Inr rendered \<Rightarrow>
               (case me_send env \<lparr>og_message_id = cl_id c, og_to_address = cl_recipient c, og_rendered = rendered\<rparr> of
                  None \<Rightarrow> \<lparr>mo_status = Sent, mo_error = None\<rparr>
                | Some (reason, permanent) \<Rightarrow>
                    if permanent then \<lparr>mo_status = DeadLetter, mo_error = Some (take 1000 reason)\<rparr>
                    else retry_or_dead c reason)))"

definition record_row :: "instant \<Rightarrow> claimed \<Rightarrow> mail_outcome \<Rightarrow> email_message \<Rightarrow> email_message" where
  "record_row now c oc r =
     (if em_status r \<noteq> MailSending then r
      else (case mo_status oc of
          Sent \<Rightarrow> r\<lparr>em_status := MailSent, em_sent_at := Some now, em_last_error := None,
                   em_provider_message_id := Some (cl_id c), em_secret_context_enc := None\<rparr>
        | Retry \<Rightarrow> r\<lparr>em_status := MailPending, em_last_error := mo_error oc,
                    em_next_attempt_at := now + backoff_for (cl_attempts c)\<rparr>
        | DeadLetter \<Rightarrow> r\<lparr>em_status := MailDeadLetter, em_last_error := mo_error oc,
                         em_secret_context_enc := None\<rparr>))"

definition record_outcome :: "instant \<Rightarrow> claimed \<Rightarrow> mail_outcome \<Rightarrow> db \<Rightarrow> db" where
  "record_outcome now c oc d =
     d\<lparr>email_messages := tupd (\<lambda>r. em_id r = cl_id c) (record_row now c oc) (email_messages d)\<rparr>"

definition count_outcome :: "claimed \<Rightarrow> mail_outcome \<Rightarrow> delivery_stats \<Rightarrow> delivery_stats" where
  "count_outcome c oc s =
     (let s1 = s\<lparr>st_message_ids := st_message_ids s @ [cl_id c]\<rparr>
      in case mo_status oc of
           Sent \<Rightarrow> s1\<lparr>st_sent := Suc (st_sent s1)\<rparr>
         | Retry \<Rightarrow> s1\<lparr>st_retried := Suc (st_retried s1)\<rparr>
         | DeadLetter \<Rightarrow> s1\<lparr>st_dead_lettered := Suc (st_dead_lettered s1)\<rparr>)"

definition deliver_one :: "mail_env \<Rightarrow> instant \<Rightarrow> claimed \<Rightarrow> delivery_stats \<times> db \<Rightarrow> delivery_stats \<times> db" where
  "deliver_one env now c st =
     (let oc = attempt env c in (count_outcome c oc (fst st), record_outcome now c oc (snd st)))"

definition no_stats :: delivery_stats where
  "no_stats = \<lparr>st_sent = 0, st_retried = 0, st_dead_lettered = 0, st_message_ids = []\<rparr>"

definition deliver_due :: "mail_env \<Rightarrow> uuid list \<Rightarrow> nat \<Rightarrow> instant \<Rightarrow> db \<Rightarrow> delivery_stats \<times> db" where
  "deliver_due env locked limit now d =
     (case claim_mail locked limit now d of (cs, d1) \<Rightarrow> fold (deliver_one env now) cs (no_stats, d1))"

subsection \<open>Mail keeps the retry contract\<close>

text \<open>One failed attempt of one message: it is claimed, the transport fails for now, that is recorded.\<close>

definition fail_mail :: "string \<Rightarrow> instant \<Rightarrow> email_message \<Rightarrow> email_message" where
  "fail_mail err now r =
     (let c = claimed_of (claim_row now r) in record_row now c (retry_or_dead c err) (claim_row now r))"

lemma backoff_for_bounds: "0 < backoff_for n \<and> backoff_for n \<le> hours 1"
  by (simp add: backoff_for_def seconds_def hours_def max_backoff_seconds_def min_def)

interpretation mail_retry: retry_queue em_attempts em_max_attempts "\<lambda>r. em_status r = MailDeadLetter"
    em_next_attempt_at "fail_mail err" "hours 1"
  using backoff_for_bounds
  by unfold_locales
    (auto simp: fail_mail_def Let_def claim_row_def claimed_of_def record_row_def retry_or_dead_def)

subsection \<open>The life of a message\<close>

text \<open>
  Several workers deliver at once, and one may stop between any two of its steps. A state of the
  protocol is the database, the messages the workers have claimed and not yet recorded, and, as a
  ghost, the messages the transport has accepted so far.
\<close>

record mail_state =
  ms_db :: db
  ms_flight :: "claimed list"
  ms_accepted :: "uuid set"

inductive mail_step :: "mail_state \<Rightarrow> mail_state \<Rightarrow> bool" where
  queue: "enqueue encrypt now q (ms_db s) = Inr (r, d') \<Longrightarrow> mail_step s (s\<lparr>ms_db := d'\<rparr>)"
| claim: "claim_mail locked limit now (ms_db s) = (cs, d') \<Longrightarrow>
    mail_step s (s\<lparr>ms_db := d', ms_flight := ms_flight s @ cs\<rparr>)"
| deliver: "c \<in> set (ms_flight s) \<Longrightarrow> attempt env c = oc \<Longrightarrow>
    mail_step s \<lparr>ms_db = record_outcome now c oc (ms_db s), ms_flight = remove1 c (ms_flight s),
      ms_accepted = (if mo_status oc = Sent then insert (cl_id c) (ms_accepted s) else ms_accepted s)\<rparr>"
| crash: "c \<in> set (ms_flight s) \<Longrightarrow> mail_step s (s\<lparr>ms_flight := remove1 c (ms_flight s)\<rparr>)"
| crash_after_send: "c \<in> set (ms_flight s) \<Longrightarrow> mo_status (attempt env c) = Sent \<Longrightarrow>
    mail_step s (s\<lparr>ms_flight := remove1 c (ms_flight s), ms_accepted := insert (cl_id c) (ms_accepted s)\<rparr>)"

inductive mail_reachable :: "mail_state \<Rightarrow> bool" where
  start: "email_messages (ms_db s) = [] \<Longrightarrow> ms_flight s = [] \<Longrightarrow> ms_accepted s = {} \<Longrightarrow> mail_reachable s"
| step: "mail_reachable s \<Longrightarrow> mail_step s s' \<Longrightarrow> mail_reachable s'"

definition terminal :: "email_status \<Rightarrow> bool" where
  "terminal s \<longleftrightarrow> s \<in> {MailSent, MailDeadLetter, MailCanceled}"

text \<open>
  A settled message has no secret left, a message that counts as sent was accepted by the transport,
  and a key is used by one message only.
\<close>

definition mail_ok :: "uuid set \<Rightarrow> email_message \<Rightarrow> bool" where
  "mail_ok accepted r \<longleftrightarrow>
     (em_status r \<in> {MailSent, MailDeadLetter} \<longrightarrow> em_secret_context_enc r = None) \<and>
     (em_status r = MailSent \<longrightarrow> em_id r \<in> accepted \<and> em_provider_message_id r = Some (em_id r))"

definition mail_inv :: "mail_state \<Rightarrow> bool" where
  "mail_inv s \<longleftrightarrow> ids_ok em_id (next_id (ms_db s)) (email_messages (ms_db s)) \<and>
     unique_on (\<lambda>r. em_idempotency_key r \<noteq> None) em_idempotency_key (email_messages (ms_db s)) \<and>
     list_all (mail_ok (ms_accepted s)) (email_messages (ms_db s))"

lemma claim_row_fields [simp]:
  "em_id (claim_row now r) = em_id r" "em_idempotency_key (claim_row now r) = em_idempotency_key r"
  "em_status (claim_row now r) = MailSending"
  by (simp_all add: claim_row_def)

lemma record_row_fields [simp]:
  "em_id (record_row now c oc r) = em_id r"
  "em_idempotency_key (record_row now c oc r) = em_idempotency_key r"
  by (simp_all add: record_row_def split: outcome_kind.split)

lemma mail_ok_mono: "mail_ok acc r \<Longrightarrow> acc \<subseteq> acc' \<Longrightarrow> mail_ok acc' r"
  by (auto simp: mail_ok_def)

lemma mail_ok_claim: "mail_ok acc (claim_row now r)"
  by (simp add: mail_ok_def)

lemma mail_ok_record:
  "mail_ok acc r \<Longrightarrow> em_id r = cl_id c \<Longrightarrow> acc \<subseteq> acc' \<Longrightarrow> (mo_status oc = Sent \<Longrightarrow> cl_id c \<in> acc') \<Longrightarrow>
   mail_ok acc' (record_row now c oc r)"
  by (auto simp: mail_ok_def record_row_def split: outcome_kind.split)

lemma mail_inv_tupd:
  assumes "mail_inv s" "\<And>r. em_id (f r) = em_id r" "\<And>r. em_idempotency_key (f r) = em_idempotency_key r"
    and "ms_accepted s \<subseteq> acc" "\<And>r. p r \<Longrightarrow> mail_ok (ms_accepted s) r \<Longrightarrow> mail_ok acc (f r)"
  shows "mail_inv \<lparr>ms_db = (ms_db s)\<lparr>email_messages := tupd p f (email_messages (ms_db s))\<rparr>, ms_flight = cs, ms_accepted = acc\<rparr>"
proof -
  have "mail_ok acc (if p q then f q else q)" if "q \<in> set (email_messages (ms_db s))" for q
  proof -
    have "mail_ok (ms_accepted s) q"
      using that assms(1) by (simp add: mail_inv_def list_all_iff)
    then show ?thesis
      using assms(5) mail_ok_mono [OF _ assms(4)] by simp
  qed
  then have "list_all (mail_ok acc) (tupd p f (email_messages (ms_db s)))"
    by (auto simp: list_all_iff set_tupd)
  then show ?thesis
    using assms(1-3) by (auto simp: mail_inv_def ids_ok_tupd intro!: unique_on_tupd)
qed

lemma enqueue_cases [consumes 1]:
  assumes "enqueue encrypt now q d = Inr (r, d')"
  obtains (duplicate) "r = None" "d' = d" "key_used (mr_idempotency_key q) (email_messages d)"
  | (queued) sec where "r = Some (next_id d)" "\<not> key_used (mr_idempotency_key q) (email_messages d)"
      "seal_secret encrypt (mr_secret_context q) = Inr sec"
      "d' = d\<lparr>email_messages := email_messages d @ [queued_mail now q sec (next_id d)], next_id := Suc (next_id d)\<rparr>"
  using assms that by (auto simp: enqueue_def bind_eq_Inr split: if_splits)

lemma mail_inv_enqueue:
  assumes "mail_inv s" "enqueue encrypt now q (ms_db s) = Inr (r, d')"
  shows "mail_inv (s\<lparr>ms_db := d'\<rparr>)"
  using assms(2)
proof (cases rule: enqueue_cases)
  case duplicate
  then show ?thesis
    using assms(1) by simp
next
  case (queued sec)
  let ?m = "queued_mail now q sec (next_id (ms_db s))"
  have "mail_ok (ms_accepted s) ?m" "em_id ?m = next_id (ms_db s)" "em_idempotency_key ?m = mr_idempotency_key q"
    by (simp_all add: mail_ok_def queued_mail_def)
  then show ?thesis
    using assms(1) queued by (auto simp: mail_inv_def ids_ok_snoc unique_on_snoc key_used_def list_ex_iff)
qed

lemma mail_step_inv: "mail_step s s' \<Longrightarrow> mail_inv s \<Longrightarrow> mail_inv s'"
proof (induction rule: mail_step.induct)
  case (queue encrypt now q s r d')
  then show ?case
    by (rule mail_inv_enqueue [rotated])
next
  case (claim locked limit now s cs d')
  have "mail_inv \<lparr>ms_db = d', ms_flight = ms_flight s @ cs, ms_accepted = ms_accepted s\<rparr>"
    using mail_inv_tupd [OF claim.prems, of "claim_row now" "ms_accepted s"] claim.hyps
    by (auto simp: claim_mail_def Let_def mail_ok_claim)
  then show ?case
    by (simp add: mail_inv_def)
next
  case (deliver c s env oc now)
  then show ?case
    unfolding record_outcome_def
    by (intro mail_inv_tupd) (auto intro: mail_ok_record)
next
  case (crash c s)
  then show ?case
    by (simp add: mail_inv_def)
next
  case (crash_after_send c s env)
  then show ?case
    by (auto simp: mail_inv_def list_all_iff intro: mail_ok_mono)
qed

text \<open>A settled message is left alone by every step.\<close>

lemma record_row_terminal: "terminal (em_status r) \<Longrightarrow> record_row now c oc r = r"
  by (auto simp: record_row_def terminal_def)

lemma mail_step_terminal:
  "mail_step s s' \<Longrightarrow> mail_inv s \<Longrightarrow> tget em_id (email_messages (ms_db s)) i = Some r \<Longrightarrow> terminal (em_status r) \<Longrightarrow>
   tget em_id (email_messages (ms_db s')) i = Some r"
proof (induction rule: mail_step.induct)
  case (queue encrypt now q s x d')
  from queue(1) show ?case
    using queue.prems by (cases rule: enqueue_cases) (simp_all add: tget_append)
next
  case (claim locked limit now s cs d')
  let ?rows = "take limit (order_by em_created_at (filter (mail_due locked now) (email_messages (ms_db s))))"
  have ids: "ids_ok em_id (next_id (ms_db s)) (email_messages (ms_db s))"
    using claim.prems(1) by (simp add: mail_inv_def)
  have "r \<notin> set ?rows"
    using claim.prems(3) by (auto simp: mail_due_def terminal_def dest: in_set_takeD)
  have "em_id q \<noteq> i" if "q \<in> set ?rows" for q
  proof
    assume "em_id q = i"
    moreover have "q \<in> set (email_messages (ms_db s))"
      using that by (auto dest: in_set_takeD)
    ultimately have "q = r"
      using ids_ok_get [OF ids claim.prems(2)] by simp
    then show False
      using that \<open>r \<notin> set ?rows\<close> by simp
  qed
  then have "i \<notin> em_id ` set ?rows"
    by blast
  then show ?case
    using claim.hyps claim.prems(2) tget_SomeD [OF claim.prems(2)]
    by (auto simp: claim_mail_def Let_def tget_tupd)
next
  case (deliver c s env oc now)
  then show ?case
    by (simp add: record_outcome_def tget_tupd record_row_terminal)
qed simp_all

text \<open>The arrows of a message's life, and the contract of its steps.\<close>

definition mail_arrow :: "email_status \<Rightarrow> email_status \<Rightarrow> bool" where
  "mail_arrow a b \<longleftrightarrow> (a, b) \<in> {(MailPending, MailSending), (MailSending, MailSent), (MailSending, MailPending),
     (MailSending, MailDeadLetter)}"

definition mail_get :: "mail_state \<Rightarrow> uuid \<Rightarrow> email_message option" where
  "mail_get s i = tget em_id (email_messages (ms_db s)) i"

lemma record_row_arrow:
  "em_status (record_row now c oc r) = em_status r \<or> mail_arrow (em_status r) (em_status (record_row now c oc r))"
  by (auto simp: record_row_def mail_arrow_def split: outcome_kind.split)

lemma mail_step_row:
  "mail_step s s' \<Longrightarrow> mail_inv s \<Longrightarrow> mail_get s i = Some r \<Longrightarrow>
   \<exists>r'. mail_get s' i = Some r' \<and> (em_status r' = em_status r \<or> mail_arrow (em_status r) (em_status r'))"
proof (cases "terminal (em_status r)")
  case True
  then show "mail_step s s' \<Longrightarrow> mail_inv s \<Longrightarrow> mail_get s i = Some r \<Longrightarrow> ?thesis"
    using mail_step_terminal by (auto simp: mail_get_def)
next
  case False
  then have live: "em_status r = MailPending \<or> em_status r = MailSending"
    by (cases "em_status r") (auto simp: terminal_def)
  show "mail_step s s' \<Longrightarrow> mail_inv s \<Longrightarrow> mail_get s i = Some r \<Longrightarrow> ?thesis"
  proof (induction rule: mail_step.induct)
    case (queue encrypt now q s x d')
    from queue(1) show ?case
      using queue.prems by (cases rule: enqueue_cases) (simp_all add: mail_get_def tget_append)
  next
    case (claim locked limit now s cs d')
    then show ?case
      using live by (auto simp: mail_get_def claim_mail_def Let_def tget_tupd mail_arrow_def)
  next
    case (deliver c s env oc now)
    then show ?case
      using record_row_arrow by (auto simp: mail_get_def record_outcome_def tget_tupd)
  qed (simp_all add: mail_get_def)
qed

interpretation mail_life: lifecycle mail_get mail_inv mail_step em_status mail_arrow terminal
proof
  show "mail_step s s' \<Longrightarrow> mail_inv s \<Longrightarrow> mail_inv s'" for s s'
    by (rule mail_step_inv)
  show "mail_step s s' \<Longrightarrow> mail_inv s \<Longrightarrow> mail_get s i = Some r \<Longrightarrow>
      \<exists>r'. mail_get s' i = Some r' \<and> (em_status r' = em_status r \<or> mail_arrow (em_status r) (em_status r'))" for s s' i r
    by (rule mail_step_row)
  show "mail_step s s' \<Longrightarrow> mail_inv s \<Longrightarrow> mail_get s i = Some r \<Longrightarrow> terminal (em_status r) \<Longrightarrow>
      mail_get s' i = Some r" for s s' i r
    using mail_step_terminal by (simp add: mail_get_def)
qed

lemma mail_reachable_inv: "mail_reachable s \<Longrightarrow> mail_inv s"
proof (induction rule: mail_reachable.induct)
  case (start s)
  then show ?case
    by (simp add: mail_inv_def)
qed (rule mail_step_inv)

subsection \<open>Properties\<close>

definition example_request :: mail_request where
  "example_request = \<lparr>mr_template = ''invitation'', mr_recipient = ''a@b.c'', mr_context = [],
     mr_secret_context = Some [(''token'', PStr ''s'')], mr_organization_id = Some 7, mr_related = None,
     mr_idempotency_key = Some (''invitation'', 1, ''h''), mr_max_attempts = 8\<rparr>"

definition seal :: "pydict \<Rightarrow> string" where "seal s = ''sealed''"

definition good_env :: mail_env where
  "good_env = \<lparr>me_decrypt = Some (\<lambda>_. Inr []), me_render = (\<lambda>_ _ _. Inr (''s'', ''t'', ''h'')), me_send = (\<lambda>_. None)\<rparr>"

definition start_state :: mail_state where
  "start_state = \<lparr>ms_db = empty_db, ms_flight = [], ms_accepted = {}\<rparr>"

definition queued_state :: mail_state where
  "queued_state = start_state\<lparr>ms_db := committed (enqueue (Some seal) 0 example_request) empty_db\<rparr>"

definition claimed_state :: mail_state where
  "claimed_state = (let (cs, d) = claim_mail [] 20 5 (ms_db queued_state)
     in queued_state\<lparr>ms_db := d, ms_flight := ms_flight queued_state @ cs\<rparr>)"

definition sent_state :: mail_state where
  "sent_state = (let c = hd (ms_flight claimed_state); oc = attempt good_env c
     in \<lparr>ms_db = record_outcome 6 c oc (ms_db claimed_state), ms_flight = remove1 c (ms_flight claimed_state),
         ms_accepted = (if mo_status oc = Sent then insert (cl_id c) (ms_accepted claimed_state)
                        else ms_accepted claimed_state)\<rparr>)"

lemma sent_state_reachable: "mail_reachable sent_state"
proof -
  have "mail_reachable start_state"
    by (rule mail_reachable.start) (simp_all add: start_state_def empty_db_def)
  moreover have "mail_step start_state queued_state"
    unfolding queued_state_def
    by (rule mail_step.queue [of "Some seal" 0 example_request _ "fst (projr (enqueue (Some seal) 0 example_request empty_db))"])
      (simp add: start_state_def committed_run [of "enqueue (Some seal) 0 example_request", symmetric]
        enqueue_def seal_secret_def example_request_def mail_templates_def key_used_def empty_db_def)
  moreover have "mail_step queued_state claimed_state"
    using mail_step.claim [of "[]" 20 5 queued_state "fst (claim_mail [] 20 5 (ms_db queued_state))"
          "snd (claim_mail [] 20 5 (ms_db queued_state))"]
    by (simp add: claimed_state_def case_prod_beta)
  moreover have "ms_flight claimed_state \<noteq> []"
    by code_simp
  then have "mail_step claimed_state sent_state"
    unfolding sent_state_def Let_def by (intro mail_step.deliver) simp_all
  ultimately show ?thesis
    by (meson mail_reachable.step)
qed

text \<open>
  C10: however the steps of several workers interleave, with workers that stop at any point, and
  whatever the transport answers: a message that is marked sent was accepted by the transport under
  its own message id, the encrypted one-time secret of a message is gone once it is sent or dead,
  and no two messages share an idempotency key.
\<close>

theorem mail_reachable_invariant:
  assumes "mail_reachable s" and "tget em_id (email_messages (ms_db s)) i = Some r"
  shows "(em_status r = MailSent \<longrightarrow> i \<in> ms_accepted s \<and> em_provider_message_id r = Some i) \<and>
    (em_status r \<in> {MailSent, MailDeadLetter} \<longrightarrow> em_secret_context_enc r = None) \<and>
    unique_on (\<lambda>r. em_idempotency_key r \<noteq> None) em_idempotency_key (email_messages (ms_db s))"
proof -
  have "mail_inv s"
    by (rule mail_reachable_inv [OF assms(1)])
  then show ?thesis
    using tget_SomeD [OF assms(2)] by (auto simp: mail_inv_def list_all_iff mail_ok_def)
qed

theorem mail_reachable_invariant_witness:
  "0 \<in> ms_accepted sent_state \<and>
   (\<exists>r. tget em_id (email_messages (ms_db sent_state)) 0 = Some r \<and> em_status r = MailSent \<and> em_secret_context_enc r = None)"
proof -
  have "map_option em_status (tget em_id (email_messages (ms_db sent_state)) 0) = Some MailSent"
    by code_simp
  then obtain r where r: "tget em_id (email_messages (ms_db sent_state)) 0 = Some r" "em_status r = MailSent"
    by auto
  from mail_reachable_invariant [OF sent_state_reachable r(1)] r show ?thesis
    by auto
qed

text \<open>
  A message that was sent, dead-lettered or canceled stays as it is, whatever the workers do
  afterwards: an outcome that comes late, from a worker whose lease expired, does not touch it.
\<close>

theorem settled_mail_is_final:
  assumes "mail_reachable s" and "mail_step\<^sup>*\<^sup>* s s'" and "tget em_id (email_messages (ms_db s)) i = Some r"
    and "em_status r \<in> {MailSent, MailDeadLetter, MailCanceled}"
  shows "tget em_id (email_messages (ms_db s')) i = Some r"
  using mail_life.run_final [OF assms(2) mail_reachable_inv [OF assms(1)], of i r] assms(3,4)
  by (auto simp: mail_get_def terminal_def)

theorem settled_mail_is_final_witness:
  "\<exists>r s'. mail_step\<^sup>*\<^sup>* sent_state s' \<and> length (email_messages (ms_db s')) = 2 \<and> em_status r = MailSent \<and>
     tget em_id (email_messages (ms_db s')) 0 = Some r"
proof -
  let ?q = "example_request\<lparr>mr_idempotency_key := None\<rparr>"
  let ?s = "sent_state\<lparr>ms_db := committed (enqueue (Some seal) 9 ?q) (ms_db sent_state)\<rparr>"
  have ok: "\<not> isl (enqueue (Some seal) 9 ?q (ms_db sent_state))" and n: "length (email_messages (ms_db ?s)) = 2"
    by code_simp+
  have st: "map_option em_status (tget em_id (email_messages (ms_db sent_state)) 0) = Some MailSent"
    by code_simp
  then obtain r where r: "tget em_id (email_messages (ms_db sent_state)) 0 = Some r" "em_status r = MailSent"
    by auto
  have step: "mail_step\<^sup>*\<^sup>* sent_state ?s"
    by (rule r_into_rtranclp, rule mail_step.queue, rule committed_run, rule ok)
  from settled_mail_is_final [OF sent_state_reachable step r(1)] r(2) n step show ?thesis
    by (intro exI [of _ r] exI [of _ ?s]) simp
qed

text \<open>
  C20: a message whose delivery keeps failing for now is dead-lettered at exactly its last allowed
  attempt, and every earlier failure schedules the next attempt within the hour.
\<close>

theorem mail_dead_letter_at_last_attempt:
  assumes "em_status r \<noteq> MailDeadLetter" and "em_attempts r = 0" and "0 < em_max_attempts r"
    and "int (length ts) \<le> em_max_attempts r"
  shows "(em_status (fold (fail_mail err) ts r) = MailDeadLetter \<longleftrightarrow> int (length ts) = em_max_attempts r) \<and>
    (ts \<noteq> [] \<and> int (length ts) < em_max_attempts r \<longrightarrow>
       last ts < em_next_attempt_at (fold (fail_mail err) ts r) \<and>
       em_next_attempt_at (fold (fail_mail err) ts r) \<le> last ts + hours 1)"
  using mail_retry.dies_at_last_attempt [of r ts err] mail_retry.next_attempt_bounded [of r ts err] assms by blast

theorem mail_dead_letter_at_last_attempt_witness:
  "let r = (queued_mail 0 example_request (Some ''x'') 0)\<lparr>em_max_attempts := 3\<rparr>
   in em_status (fold (fail_mail ''e'') [0, 100, 300] r) = MailDeadLetter \<and>
      em_status (fold (fail_mail ''e'') [0, 100] r) \<noteq> MailDeadLetter"
proof -
  let ?r = "(queued_mail 0 example_request (Some ''x'') 0)\<lparr>em_max_attempts := 3\<rparr>"
  have r: "em_status ?r \<noteq> MailDeadLetter" "em_attempts ?r = 0" "0 < em_max_attempts ?r"
    by (simp_all add: queued_mail_def)
  show ?thesis
    using mail_dead_letter_at_last_attempt [OF r, of "[0, 100, 300]" "''e''"]
      mail_dead_letter_at_last_attempt [OF r, of "[0, 100]" "''e''"] by (simp add: Let_def)
qed

end
