(* ===== verification/Coaching.thy ===== *)
theory Coaching
  imports Fleet Mail
begin

section \<open>Coaching actions and the review of safety events\<close>

text \<open>
  \<^verbatim>\<open>domain/coaching.py\<close>, \<^verbatim>\<open>application/coaching/service.py\<close> and
  \<^verbatim>\<open>application/safety/review.py\<close>. Creating an action checks for an active one, then inserts, and
  other requests may commit between the two: \<open>race\<close> is what they did to the database. In the context
  of a mail, an identifier or an instant stands for its text. \<open>mail\<close> is the mail service of the
  caller, when it has one, with its cipher. The average of the completion times in the summary is
  computed by the database (parameter \<open>pg_avg\<close>, over seconds).
\<close>

subsection \<open>Rules\<close>

fun coaching_value :: "coaching_status \<Rightarrow> string" where
  "coaching_value CoOpen = ''open''"
| "coaching_value CoInProgress = ''in_progress''"
| "coaching_value CoCompleted = ''completed''"
| "coaching_value CoCanceled = ''canceled''"

definition coaching_active :: "coaching_status \<Rightarrow> bool" where
  "coaching_active s \<longleftrightarrow> s \<in> {CoOpen, CoInProgress}"

fun coaching_transitions :: "coaching_status \<Rightarrow> coaching_status list" where
  "coaching_transitions CoOpen = [CoInProgress, CoCompleted, CoCanceled]"
| "coaching_transitions CoInProgress = [CoCompleted, CoCanceled]"
| "coaching_transitions CoCompleted = []"
| "coaching_transitions CoCanceled = []"

definition default_due_days :: int where "default_due_days = 7"

definition can_transition :: "coaching_status \<Rightarrow> coaching_status \<Rightarrow> bool" where
  "can_transition cur target \<longleftrightarrow> target \<in> set (coaching_transitions cur)"

definition is_overdue :: "coaching_status \<Rightarrow> instant option \<Rightarrow> instant \<Rightarrow> bool" where
  "is_overdue s due now \<longleftrightarrow> coaching_active s \<and> (case due of None \<Rightarrow> False | Some t \<Rightarrow> t < now)"

datatype resolution =
    CoachingAssigned | DriverInformed | NoActionRequired | EquipmentCheck | FalseAlarm

fun resolution_value :: "resolution \<Rightarrow> string" where
  "resolution_value CoachingAssigned = ''kocluk_atandi''"
| "resolution_value DriverInformed = ''surucu_bilgilendirildi''"
| "resolution_value NoActionRequired = ''islem_gerekmedi''"
| "resolution_value EquipmentCheck = ''ekipman_kontrolu''"
| "resolution_value FalseAlarm = ''yanlis_alarm''"

subsection \<open>Constraints\<close>

definition active_action :: "coaching_action \<Rightarrow> bool" where
  "active_action a \<longleftrightarrow> ca_safety_event_id a \<noteq> None \<and> coaching_active (ca_status a)"

definition coaching_constraints :: "db \<Rightarrow> bool" where
  "coaching_constraints d \<longleftrightarrow>
     unique_on active_action (\<lambda>a. (ca_organization_id a, ca_safety_event_id a)) (coaching_actions d) \<and>
     list_all (\<lambda>a. has_id se_id (safety_events d) (ca_safety_event_id a) \<and>
                   has_id d_id (drivers d) (ca_driver_id a) \<and>
                   has_id u_id (users d) (ca_assignee_user_id a) \<and>
                   has_id u_id (users d) (ca_created_by_user_id a)) (coaching_actions d)"

subsection \<open>Queries\<close>

record coaching_filters =
  cf_status :: "coaching_status option"
  cf_driver_id :: "uuid option"
  cf_assigned_to_me :: bool
  cf_overdue_only :: bool
  cf_safety_event_id :: "uuid option"

record coaching_summary =
  cs_open :: nat
  cs_in_progress :: nat
  cs_completed :: nat
  cs_canceled :: nat
  cs_overdue :: nat
  cs_completed_last_30_days :: nat
  cs_average_days_to_complete :: "float64 option"

record assignee =
  as_user_id :: uuid
  as_full_name :: string
  as_email :: string
  as_role_key :: role_key

definition scoped :: "request_context \<Rightarrow> uuid \<Rightarrow> db \<Rightarrow> coaching_action list" where
  "scoped ctx tenant d =
     filter (\<lambda>a. ca_organization_id a = tenant \<and>
               (c_role ctx = Some RDriver \<and> \<not> c_is_platform_admin ctx \<longrightarrow>
                  list_ex (\<lambda>r. Some (d_id r) = ca_driver_id a \<and> d_user_id r = c_user_id ctx) (drivers d)))
       (coaching_actions d)"

definition max_page :: nat where "max_page = 200"

definition nulls_last :: "('r \<Rightarrow> instant option) \<Rightarrow> 'r list \<Rightarrow> 'r list" where
  "nulls_last f rows = order_by (\<lambda>r. the (f r)) (filter (\<lambda>r. f r \<noteq> None) rows) @ filter (\<lambda>r. f r = None) rows"

definition list_actions ::
    "instant \<Rightarrow> request_context \<Rightarrow> uuid \<Rightarrow> coaching_filters \<Rightarrow> nat \<Rightarrow> nat \<Rightarrow> db \<Rightarrow> coaching_action list \<times> nat" where
  "list_actions now ctx tenant f limit offset d =
     (let rows = filter (\<lambda>a.
            (case cf_status f of None \<Rightarrow> True | Some s \<Rightarrow> ca_status a = s) \<and>
            (cf_driver_id f \<noteq> None \<longrightarrow> ca_driver_id a = cf_driver_id f) \<and>
            (cf_safety_event_id f \<noteq> None \<longrightarrow> ca_safety_event_id a = cf_safety_event_id f) \<and>
            (cf_assigned_to_me f \<longrightarrow> ca_assignee_user_id a = c_user_id ctx) \<and>
            (cf_overdue_only f \<longrightarrow> is_overdue (ca_status a) (ca_due_at a) now)) (scoped ctx tenant d)
      in (take (min limit max_page) (drop offset (nulls_last ca_due_at (order_by (\<lambda>a. - ca_created_at a) rows))),
          length rows))"

definition get_action :: "request_context \<Rightarrow> uuid \<Rightarrow> uuid \<Rightarrow> db \<Rightarrow> coaching_action result" where
  "get_action ctx tenant i d =
     bind (one_or_none (filter (\<lambda>a. ca_id a = i) (scoped ctx tenant d))) (\<lambda>a.
       case a of None \<Rightarrow> Inl (DomainNotFoundError ''coaching_action'') | Some x \<Rightarrow> Inr x)"

definition active_for_event :: "uuid \<Rightarrow> uuid \<Rightarrow> db \<Rightarrow> coaching_action option result" where
  "active_for_event tenant event_id d =
     one_or_none (filter (\<lambda>a. ca_organization_id a = tenant \<and> ca_safety_event_id a = Some event_id \<and>
                           coaching_active (ca_status a)) (coaching_actions d))"

text \<open>Ordered by name in the source, which no modelled code depends on.\<close>

definition assignees :: "uuid \<Rightarrow> db \<Rightarrow> assignee list" where
  "assignees tenant d =
     filter (\<lambda>a. role_has (as_role_key a) CoachingManage)
       [\<lparr>as_user_id = u_id u, as_full_name = u_full_name u, as_email = u_email u, as_role_key = m_role_key m\<rparr>.
         u \<leftarrow> users d, m \<leftarrow> memberships d,
         m_user_id m = u_id u \<and> m_organization_id m = tenant \<and> m_status m = MemActive \<and> u_status u = UserActive]"

definition summary :: "(duration list \<Rightarrow> float64 option) \<Rightarrow> instant \<Rightarrow> uuid \<Rightarrow> db \<Rightarrow> coaching_summary" where
  "summary pg_avg now tenant d =
     (let rows = filter (\<lambda>a. ca_organization_id a = tenant) (coaching_actions d);
          n = (\<lambda>s. count_rows (\<lambda>a. ca_status a = s) rows);
          recent = filter (\<lambda>a. ca_status a = CoCompleted \<and>
             (case ca_completed_at a of None \<Rightarrow> False | Some t \<Rightarrow> now - days 30 \<le> t)) rows
      in \<lparr>cs_open = n CoOpen, cs_in_progress = n CoInProgress, cs_completed = n CoCompleted,
          cs_canceled = n CoCanceled, cs_overdue = count_rows (\<lambda>a. is_overdue (ca_status a) (ca_due_at a) now) rows,
          cs_completed_last_30_days = length recent,
          cs_average_days_to_complete =
            map_option (\<lambda>s. py_round 1 (fdiv s 86400))
              (pg_avg (map (\<lambda>a. the (ca_completed_at a) - ca_created_at a) recent))\<rparr>)"

subsection \<open>Commands\<close>

definition require_assignee :: "uuid \<Rightarrow> uuid \<Rightarrow> db \<Rightarrow> unit result" where
  "require_assignee tenant user_id d =
     raise_if (\<not> list_ex (\<lambda>a. as_user_id a = user_id) (assignees tenant d)) (ValidationFailedError ''assignee'')"

fun default_title :: "safety_event option \<Rightarrow> string" where
  "default_title None = ''Surucu koclugu''"
| "default_title (Some e) =
     (case se_event_type e of
        HarshBraking \<Rightarrow> ''Sert fren'' | HarshAcceleration \<Rightarrow> ''Sert hizlanma''
      | HarshCornering \<Rightarrow> ''Sert viraj'' | Speeding \<Rightarrow> ''Hiz asimi'' | GpsAnomaly \<Rightarrow> ''GPS anomalisi'')
     @ '' olayi icin surucu koclugu''"

type_synonym mail_port = "(pydict \<Rightarrow> string) option"

definition notify_assignee :: "mail_port option \<Rightarrow> instant \<Rightarrow> uuid \<Rightarrow> coaching_action \<Rightarrow> db \<Rightarrow> db result" where
  "notify_assignee mail now tenant a d =
     (case (mail, ca_assignee_user_id a) of
        (Some encrypt, Some uid) \<Rightarrow>
          (case (tget u_id (users d) uid, tget org_id (organizations d) tenant) of
             (Some u, Some org) \<Rightarrow>
               bind (enqueue encrypt now
                 \<lparr>mr_template = ''coaching_assigned'', mr_recipient = u_email u,
                  mr_context = [(''full_name'', PStr (u_full_name u)), (''organization_name'', PStr (org_name org)),
                    (''title'', PStr (ca_title a)),
                    (''due_at'', (case ca_due_at a of None \<Rightarrow> PStr [] | Some t \<Rightarrow> PInt t)),
                    (''action_id'', PInt (int (ca_id a)))],
                  mr_secret_context = None, mr_organization_id = Some tenant,
                  mr_related = Some (''coaching_action'', ca_id a), mr_idempotency_key = None,
                  mr_max_attempts = 8\<rparr> d) (\<lambda>(_, d1). Inr d1)
           | _ \<Rightarrow> Inr d)
      | _ \<Rightarrow> Inr d)"

definition event_of :: "uuid \<Rightarrow> uuid option \<Rightarrow> db \<Rightarrow> safety_event option result" where
  "event_of tenant event_id d =
     (case event_id of None \<Rightarrow> Inr None
      | Some i \<Rightarrow> bind (require se_id se_organization_id (safety_events d) tenant i ''safety_event'') (\<lambda>e. Inr (Some e)))"

definition existing_action :: "uuid \<Rightarrow> uuid option \<Rightarrow> db \<Rightarrow> coaching_action option result" where
  "existing_action tenant event_id d =
     (case event_id of None \<Rightarrow> Inr None | Some i \<Rightarrow> active_for_event tenant i d)"

definition check_assignee :: "request_context \<Rightarrow> uuid \<Rightarrow> uuid option \<Rightarrow> db \<Rightarrow> unit result" where
  "check_assignee ctx tenant uid d =
     (case uid of None \<Rightarrow> Inr ()
      | Some u \<Rightarrow>
          bind (raise_if (\<not> has_permission ctx CoachingManage) (ValidationFailedError ''assignee_permission'')) (\<lambda>_.
            require_assignee tenant u d))"

definition check_due :: "pydatetime option \<Rightarrow> instant option result" where
  "check_due due = (case due of None \<Rightarrow> Inr None | Some (Naive _) \<Rightarrow> Inl (ValidationFailedError ''due_timezone'')
     | Some (Aware t) \<Rightarrow> Inr (Some t))"

definition insert_action ::
    "mail_port option \<Rightarrow> (db \<Rightarrow> db) \<Rightarrow> instant \<Rightarrow> request_context \<Rightarrow> uuid \<Rightarrow> coaching_action \<Rightarrow> db \<Rightarrow>
     ((coaching_action \<times> bool) \<times> db) result" where
  "insert_action mail race now ctx tenant row d =
     (let d0 = race d;
          a = row\<lparr>ca_id := next_id d0\<rparr>;
          d1 = d0\<lparr>coaching_actions := coaching_actions d0 @ [a], next_id := Suc (next_id d0)\<rparr>
      in if coaching_constraints d1
         then (let d2 = record_audit ctx ''coaching_action.created'' ''coaching_action'' (Some (ca_id a)) None d1
               in if ca_assignee_user_id a \<noteq> None \<and> ca_assignee_user_id a \<noteq> c_user_id ctx
                  then bind (notify_assignee mail now tenant a d2) (\<lambda>d3. Inr ((a, True), d3))
                  else Inr ((a, True), d2))
         else bind (existing_action tenant (ca_safety_event_id a) d0) (\<lambda>existing.
                case existing of None \<Rightarrow> Inl IntegrityError | Some x \<Rightarrow> Inr ((x, False), d0)))"

definition create_action ::
    "mail_port option \<Rightarrow> (db \<Rightarrow> db) \<Rightarrow> instant \<Rightarrow> request_context \<Rightarrow> uuid \<Rightarrow> string option \<Rightarrow> string option \<Rightarrow>
     uuid option \<Rightarrow> uuid option \<Rightarrow> uuid option \<Rightarrow> pydatetime option \<Rightarrow> db \<Rightarrow>
     ((coaching_action \<times> bool) \<times> db) result" where
  "create_action mail race now ctx tenant title descr event_id driver_id assignee_id due d =
     bind (event_of tenant event_id d) (\<lambda>event.
     bind (existing_action tenant event_id d) (\<lambda>existing.
       case existing of
         Some a \<Rightarrow> Inr ((a, False), d)
       | None \<Rightarrow>
          (let driver = (case driver_id of Some i \<Rightarrow> Some i
                         | None \<Rightarrow> (case event of None \<Rightarrow> None | Some e \<Rightarrow> se_driver_id e))
           in bind (require_opt d_id d_organization_id (drivers d) tenant driver ''driver'') (\<lambda>_.
              bind (check_assignee ctx tenant assignee_id d) (\<lambda>_.
              bind (check_due due) (\<lambda>due_at.
                let given_title = strip (case title of None \<Rightarrow> [] | Some s \<Rightarrow> s)
                in insert_action mail race now ctx tenant
                  \<lparr>ca_id = 0, ca_organization_id = tenant, ca_safety_event_id = event_id,
                   ca_driver_id = driver, ca_assignee_user_id = assignee_id,
                   ca_created_by_user_id = c_user_id ctx,
                   ca_title = take 200 (if given_title = [] then default_title event else given_title),
                   ca_description = descr, ca_status = CoOpen,
                   ca_due_at = Some (case due_at of None \<Rightarrow> now + days default_due_days | Some t \<Rightarrow> t),
                   ca_notes = None, ca_outcome = None, ca_outcome_notes = None, ca_started_at = None,
                   ca_completed_at = None, ca_canceled_at = None, ca_cancel_reason = None,
                   ca_created_at = now\<rparr> d))))))"

text \<open>The body of a \<^verbatim>\<open>PATCH\<close>: \<open>None\<close> for a field the client left out.\<close>

record coaching_changes =
  cc_assignee_user_id :: "uuid option option"
  cc_title :: "string option option"
  cc_description :: "string option option"
  cc_notes :: "string option option"
  cc_due_at :: "pydatetime option option"

definition set_action :: "uuid \<Rightarrow> (coaching_action \<Rightarrow> coaching_action) \<Rightarrow> db \<Rightarrow> db" where
  "set_action i f d = d\<lparr>coaching_actions := tupd (\<lambda>a. ca_id a = i) f (coaching_actions d)\<rparr>"

definition change_assignee ::
    "mail_port option \<Rightarrow> instant \<Rightarrow> request_context \<Rightarrow> uuid \<Rightarrow> coaching_action \<Rightarrow> uuid option option \<Rightarrow> db \<Rightarrow> db result" where
  "change_assignee mail now ctx tenant a change d =
     (case change of None \<Rightarrow> Inr d
      | Some uid \<Rightarrow>
          bind (case uid of None \<Rightarrow> Inr () | Some u \<Rightarrow> require_assignee tenant u d) (\<lambda>_.
            if uid = ca_assignee_user_id a then Inr d
            else (let d1 = set_action (ca_id a) (\<lambda>r. r\<lparr>ca_assignee_user_id := uid\<rparr>) d
                  in if uid \<noteq> None \<and> uid \<noteq> c_user_id ctx
                     then notify_assignee mail now tenant (a\<lparr>ca_assignee_user_id := uid\<rparr>) d1
                     else Inr d1)))"

definition check_title :: "string option option \<Rightarrow> unit result" where
  "check_title t =
     (case t of None \<Rightarrow> Inr ()
      | Some s \<Rightarrow> raise_if (case s of None \<Rightarrow> True | Some x \<Rightarrow> strip x = []) (ValidationFailedError ''title''))"

definition apply_changes :: "coaching_changes \<Rightarrow> instant option option \<Rightarrow> coaching_action \<Rightarrow> coaching_action" where
  "apply_changes c due a =
     a\<lparr>ca_title := (case cc_title c of Some (Some t) \<Rightarrow> t | _ \<Rightarrow> ca_title a),
       ca_description := (case cc_description c of None \<Rightarrow> ca_description a | Some x \<Rightarrow> x),
       ca_notes := (case cc_notes c of None \<Rightarrow> ca_notes a | Some x \<Rightarrow> x),
       ca_due_at := (case due of None \<Rightarrow> ca_due_at a | Some x \<Rightarrow> x)\<rparr>"

definition changes_anything :: "coaching_action \<Rightarrow> coaching_changes \<Rightarrow> bool" where
  "changes_anything a c \<longleftrightarrow>
     (case cc_assignee_user_id c of None \<Rightarrow> False | Some uid \<Rightarrow> uid \<noteq> ca_assignee_user_id a) \<or>
     cc_title c \<noteq> None \<or> cc_description c \<noteq> None \<or> cc_notes c \<noteq> None \<or> cc_due_at c \<noteq> None"

definition update_action ::
    "mail_port option \<Rightarrow> instant \<Rightarrow> request_context \<Rightarrow> uuid \<Rightarrow> uuid \<Rightarrow> coaching_changes \<Rightarrow> db \<Rightarrow> db result" where
  "update_action mail now ctx tenant i c d =
     bind (get_action ctx tenant i d) (\<lambda>a.
     bind (raise_if (\<not> coaching_active (ca_status a)) (DomainConflictError ''coaching_closed'')) (\<lambda>_.
     bind (change_assignee mail now ctx tenant a (cc_assignee_user_id c) d) (\<lambda>d1.
     bind (check_title (cc_title c)) (\<lambda>_.
     bind (case cc_due_at c of None \<Rightarrow> Inr None | Some x \<Rightarrow> bind (check_due x) (\<lambda>y. Inr (Some y))) (\<lambda>due.
       let d2 = set_action i (apply_changes c due) d1
       in Inr (if changes_anything a c
               then record_audit ctx ''coaching_action.updated'' ''coaching_action'' (Some i) None d2 else d2))))))"

definition move_action ::
    "instant \<Rightarrow> request_context \<Rightarrow> coaching_status \<Rightarrow> coaching_outcome option \<Rightarrow> string option \<Rightarrow> string option \<Rightarrow>
     coaching_action \<Rightarrow> coaching_action result" where
  "move_action now ctx target outcome outcome_notes cancel_reason a =
     (case target of
        CoOpen \<Rightarrow> Inr (a\<lparr>ca_status := CoOpen\<rparr>)
      | CoInProgress \<Rightarrow>
          Inr (a\<lparr>ca_status := CoInProgress, ca_started_at := Some now,
                 ca_assignee_user_id := (if ca_assignee_user_id a = None then c_user_id ctx else ca_assignee_user_id a)\<rparr>)
      | CoCompleted \<Rightarrow>
          (case outcome of None \<Rightarrow> Inl (ValidationFailedError ''outcome'')
           | Some oc \<Rightarrow> Inr (a\<lparr>ca_status := CoCompleted, ca_outcome := Some oc, ca_outcome_notes := outcome_notes,
               ca_completed_at := Some now,
               ca_started_at := (if ca_started_at a = None then Some now else ca_started_at a)\<rparr>))
      | CoCanceled \<Rightarrow>
          (let reason = strip (case cancel_reason of None \<Rightarrow> [] | Some s \<Rightarrow> s)
           in if reason = [] then Inl (ValidationFailedError ''cancel_reason'')
              else Inr (a\<lparr>ca_status := CoCanceled, ca_cancel_reason := Some (take 300 reason),
                          ca_canceled_at := Some now\<rparr>)))"

definition transition ::
    "instant \<Rightarrow> request_context \<Rightarrow> uuid \<Rightarrow> uuid \<Rightarrow> coaching_status \<Rightarrow> coaching_outcome option \<Rightarrow> string option \<Rightarrow>
     string option \<Rightarrow> db \<Rightarrow> (coaching_action \<times> db) result" where
  "transition now ctx tenant i target outcome outcome_notes cancel_reason d =
     bind (get_action ctx tenant i d) (\<lambda>a.
       if ca_status a = target then Inr (a, d)
       else bind (raise_if (\<not> can_transition (ca_status a) target) (DomainConflictError ''coaching_transition'')) (\<lambda>_.
            bind (move_action now ctx target outcome outcome_notes cancel_reason a) (\<lambda>a1.
              Inr (a1, record_audit ctx (''coaching_action.'' @ coaching_value target) ''coaching_action'' (Some i) None
                         (set_action i (\<lambda>_. a1) d)))))"

subsection \<open>Review of a safety event\<close>

record coaching_assignment =
  cas_assignee_user_id :: "uuid option"
  cas_due_at :: "pydatetime option"

record review_outcome =
  ro_event :: uuid
  ro_coaching_action :: "coaching_action option"

text \<open>The decisions, by their text; \<^verbatim>\<open>pending\<close> is no decision.\<close>

definition decision_of :: "string \<Rightarrow> review_status option" where
  "decision_of s = (if s = ''confirmed'' then Some RevConfirmed else if s = ''rejected'' then Some RevRejected
     else if s = ''uncertain'' then Some RevUncertain else None)"

definition apply_review ::
    "instant \<Rightarrow> request_context \<Rightarrow> review_status \<Rightarrow> string option \<Rightarrow> string option \<Rightarrow> resolution option \<Rightarrow>
     safety_event \<Rightarrow> safety_event" where
  "apply_review now ctx rs notes root_cause res e =
     e\<lparr>se_review_status := rs, se_reviewer_user_id := c_user_id ctx, se_reviewed_at := Some now,
       se_reviewer_notes := (if notes = None then se_reviewer_notes e else notes),
       se_root_cause := (if root_cause = None then se_root_cause e else root_cause),
       se_resolution := (case res of None \<Rightarrow> se_resolution e | Some r \<Rightarrow> Some (resolution_value r))\<rparr>"

definition review ::
    "mail_port option \<Rightarrow> (db \<Rightarrow> db) \<Rightarrow> instant \<Rightarrow> request_context \<Rightarrow> uuid \<Rightarrow> uuid \<Rightarrow> string \<Rightarrow> string option \<Rightarrow>
     string option \<Rightarrow> resolution option \<Rightarrow> coaching_assignment option \<Rightarrow> db \<Rightarrow> (review_outcome \<times> db) result" where
  "review mail race now ctx tenant event_id decision notes root_cause res coaching d =
     (case decision_of decision of
        None \<Rightarrow> Inl (ValidationFailedError ''decision'')
      | Some rs \<Rightarrow>
          bind (raise_if (res = Some CoachingAssigned \<and> rs \<noteq> RevConfirmed) (ValidationFailedError ''resolution'')) (\<lambda>_.
          bind (require se_id se_organization_id (safety_events d) tenant event_id ''safety_event'') (\<lambda>e.
            let d1 = d\<lparr>safety_events := tupd (\<lambda>x. se_id x = event_id)
                         (apply_review now ctx rs notes root_cause res) (safety_events d)\<rparr>
            in bind (if res = Some CoachingAssigned
                     then bind (create_action mail race now ctx tenant None notes (Some event_id) None
                            (case coaching of None \<Rightarrow> None | Some c \<Rightarrow> cas_assignee_user_id c)
                            (case coaching of None \<Rightarrow> None | Some c \<Rightarrow> cas_due_at c) d1)
                            (\<lambda>((a, created), d2). Inr (Some a, d2))
                     else Inr (None, d1)) (\<lambda>(action, d2).
               Inr (\<lparr>ro_event = event_id, ro_coaching_action = action\<rparr>,
                    record_audit ctx ''safety_event.reviewed'' ''safety_event'' (Some event_id) None d2)))))"

subsection \<open>The invariant of coaching actions\<close>

text \<open>What the columns of an action say of each other, for each status.\<close>

definition life_ok :: "coaching_action \<Rightarrow> bool" where
  "life_ok a \<longleftrightarrow>
     (ca_started_at a \<noteq> None \<longleftrightarrow> ca_status a = CoInProgress \<or> ca_status a = CoCompleted \<or>
        ca_status a = CoCanceled \<and> ca_started_at a \<noteq> None) \<and>
     (ca_completed_at a \<noteq> None \<longleftrightarrow> ca_status a = CoCompleted) \<and>
     (ca_outcome a \<noteq> None \<longleftrightarrow> ca_status a = CoCompleted) \<and>
     (ca_canceled_at a \<noteq> None \<longleftrightarrow> ca_status a = CoCanceled) \<and>
     (ca_cancel_reason a \<noteq> None \<longleftrightarrow> ca_status a = CoCanceled) \<and> ca_cancel_reason a \<noteq> Some []"

definition refs_ok :: "db \<Rightarrow> coaching_action \<Rightarrow> bool" where
  "refs_ok d a \<longleftrightarrow>
     in_tenant se_id se_organization_id (safety_events d) (ca_organization_id a) (ca_safety_event_id a) \<and>
     in_tenant d_id d_organization_id (drivers d) (ca_organization_id a) (ca_driver_id a)"

definition coaching_inv :: "db \<Rightarrow> bool" where
  "coaching_inv d \<longleftrightarrow> ids_ok ca_id (next_id d) (coaching_actions d) \<and>
     unique_on active_action (\<lambda>a. (ca_organization_id a, ca_safety_event_id a)) (coaching_actions d) \<and>
     list_all life_ok (coaching_actions d) \<and> list_all (refs_ok d) (coaching_actions d)"

text \<open>What may happen to the tables an action refers to: rows keep their tenant.\<close>

definition refs_kept :: "db \<Rightarrow> db \<Rightarrow> bool" where
  "refs_kept d d' \<longleftrightarrow> next_id d \<le> next_id d' \<and> (\<forall>a. refs_ok d a \<longrightarrow> refs_ok d' a)"

lemma refs_kept_refl [simp]: "refs_kept d d"
  by (simp add: refs_kept_def)

lemma refs_kept_trans: "refs_kept d d1 \<Longrightarrow> refs_kept d1 d2 \<Longrightarrow> refs_kept d d2"
  by (auto simp: refs_kept_def)

lemma refs_keptI: "safety_events d' = safety_events d \<Longrightarrow> drivers d' = drivers d \<Longrightarrow> next_id d \<le> next_id d' \<Longrightarrow> refs_kept d d'"
  by (simp add: refs_kept_def refs_ok_def)

lemma coaching_inv_frame:
  "coaching_inv d \<Longrightarrow> coaching_actions d' = coaching_actions d \<Longrightarrow> refs_kept d d' \<Longrightarrow> coaching_inv d'"
  by (auto simp: coaching_inv_def refs_kept_def list_all_iff intro: ids_ok_mono)

definition same_keys :: "coaching_action \<Rightarrow> coaching_action \<Rightarrow> bool" where
  "same_keys a b \<longleftrightarrow> ca_id b = ca_id a \<and> ca_organization_id b = ca_organization_id a \<and>
     ca_safety_event_id b = ca_safety_event_id a \<and> ca_driver_id b = ca_driver_id a"

lemma coaching_inv_set:
  assumes "coaching_inv d" "\<And>r. same_keys r (f r)" "\<And>r. active_action (f r) \<Longrightarrow> active_action r"
    and "\<And>r. life_ok r \<Longrightarrow> life_ok (f r)"
  shows "coaching_inv (set_action i f d)"
proof -
  have "refs_ok d r \<Longrightarrow> refs_ok (set_action i f d) (f r)" "refs_ok d r \<Longrightarrow> refs_ok (set_action i f d) r" for r
    using assms(2) [of r] by (simp_all add: refs_ok_def set_action_def same_keys_def)
  then have "list_all (refs_ok (set_action i f d)) (tupd (\<lambda>a. ca_id a = i) f (coaching_actions d))"
    using assms(1) by (auto simp: coaching_inv_def list_all_iff set_tupd)
  moreover have "list_all life_ok (tupd (\<lambda>a. ca_id a = i) f (coaching_actions d))"
    using assms(1,4) by (simp add: coaching_inv_def list_all_tupd)
  moreover have "unique_on active_action (\<lambda>a. (ca_organization_id a, ca_safety_event_id a))
      (tupd (\<lambda>a. ca_id a = i) f (coaching_actions d))"
    using assms(1-3) by (intro unique_on_tupd) (auto simp: coaching_inv_def same_keys_def)
  ultimately show ?thesis
    using assms(1,2) by (simp add: coaching_inv_def set_action_def ids_ok_tupd same_keys_def)
qed

lemma set_action_get:
  "(\<And>r. same_keys r (f r)) \<Longrightarrow>
   tget ca_id (coaching_actions (set_action i f d)) j =
     map_option (\<lambda>r. if j = i then f r else r) (tget ca_id (coaching_actions d) j)"
  using tget_SomeD [of ca_id "coaching_actions d" j]
  by (cases "tget ca_id (coaching_actions d) j") (auto simp: set_action_def tget_tupd same_keys_def)

lemma set_action_refs [simp]: "refs_kept d (set_action i f d)"
  by (rule refs_keptI) (simp_all add: set_action_def)

text \<open>Mail and the audit trail touch none of it.\<close>

lemma notify_assignee_frame:
  "notify_assignee mail now tenant a d = Inr d' \<Longrightarrow> coaching_actions d' = coaching_actions d \<and> refs_kept d d'"
  by (auto simp: notify_assignee_def bind_eq_Inr enqueue_def case_prod_beta
      intro!: refs_keptI split: option.splits if_splits)

lemma record_audit_refs [simp]: "refs_kept d (record_audit ctx x y z w d)"
  by (rule refs_keptI) simp_all

lemma get_action_ok:
  assumes "coaching_inv d" "get_action ctx tenant i d = Inr a"
  shows "tget ca_id (coaching_actions d) i = Some a \<and> ca_organization_id a = tenant \<and> ca_id a = i"
proof -
  have "a \<in> set (coaching_actions d)" "ca_id a = i" "ca_organization_id a = tenant"
    using assms(2) one_or_none_filterD [of "\<lambda>a. ca_id a = i" "scoped ctx tenant d" a]
    by (auto simp: get_action_def bind_eq_Inr scoped_def split: option.splits)
  then show ?thesis
    using assms(1) tget_SomeI [of ca_id "coaching_actions d" a] by (auto simp: coaching_inv_def ids_ok_def)
qed

subsection \<open>What each command does\<close>

text \<open>What one command may do to one stored action.\<close>

definition moved :: "coaching_action \<Rightarrow> coaching_action \<Rightarrow> bool" where
  "moved a b \<longleftrightarrow> same_keys a b \<and>
     (ca_status b = ca_status a \<or> can_transition (ca_status a) (ca_status b)) \<and>
     (\<not> coaching_active (ca_status a) \<longrightarrow> b = a)"

lemma moved_refl [simp]: "moved a a"
  by (simp add: moved_def same_keys_def)

lemma move_action_ok:
  assumes "move_action now ctx target oc notes reason a = Inr b" "can_transition (ca_status a) target" "life_ok a"
  shows "life_ok b \<and> moved a b \<and> ca_status b = target \<and> (active_action b \<longrightarrow> active_action a)"
  using assms
  by (cases "ca_status a"; cases target)
    (auto simp: move_action_def can_transition_def life_ok_def moved_def same_keys_def active_action_def
      coaching_active_def Let_def split: option.splits if_splits)

definition command_ok :: "db \<Rightarrow> db \<Rightarrow> bool" where
  "command_ok d d' \<longleftrightarrow> coaching_inv d' \<and> refs_kept d d' \<and>
     (\<forall>i a. tget ca_id (coaching_actions d) i = Some a \<longrightarrow>
        (\<exists>b. tget ca_id (coaching_actions d') i = Some b \<and> moved a b))"

lemma command_ok_frame: "coaching_inv d \<Longrightarrow> coaching_actions d' = coaching_actions d \<Longrightarrow> refs_kept d d' \<Longrightarrow> command_ok d d'"
  by (auto simp: command_ok_def intro: coaching_inv_frame)

lemma command_ok_after:
  "command_ok d d1 \<Longrightarrow> coaching_actions d2 = coaching_actions d1 \<Longrightarrow> refs_kept d1 d2 \<Longrightarrow> command_ok d d2"
  by (auto simp: command_ok_def intro: coaching_inv_frame refs_kept_trans)

lemma command_ok_set:
  assumes "coaching_inv d" "\<And>r. same_keys r (f r)" "\<And>r. active_action (f r) \<Longrightarrow> active_action r"
    and "\<And>r. life_ok r \<Longrightarrow> life_ok (f r)" "\<And>a. tget ca_id (coaching_actions d) i = Some a \<Longrightarrow> moved a (f a)"
  shows "command_ok d (set_action i f d)"
  using coaching_inv_set [OF assms(1-4)] set_action_get [OF assms(2)] assms(5) by (auto simp: command_ok_def)

lemma transition_ok:
  assumes "coaching_inv d" "transition now ctx tenant i target oc notes reason d = Inr (a1, d')"
  shows "command_ok d d'"
proof -
  obtain a where a: "get_action ctx tenant i d = Inr a"
    using assms(2) by (auto simp: transition_def bind_eq_Inr)
  note ga = get_action_ok [OF assms(1) a]
  show ?thesis
  proof (cases "ca_status a = target")
    case True
    then show ?thesis
      using assms a by (simp add: transition_def command_ok_frame)
  next
    case False
    then have ct: "can_transition (ca_status a) target" and mv: "move_action now ctx target oc notes reason a = Inr a1"
      and d': "d' = record_audit ctx (''coaching_action.'' @ coaching_value target) ''coaching_action'' (Some i) None
        (set_action i (\<lambda>_. a1) d)"
      using assms(2) a by (auto simp: transition_def bind_eq_Inr)
    have "life_ok a"
      using assms(1) ga tget_SomeD [of ca_id "coaching_actions d" i a] by (auto simp: coaching_inv_def list_all_iff)
    note mo = move_action_ok [OF mv ct this]
    have ids: "ids_ok ca_id (next_id d) (coaching_actions d)"
      using assms(1) by (simp add: coaching_inv_def)
    have "command_ok d (set_action i (\<lambda>r. if r = a then a1 else r) d)"
      using mo ga by (intro command_ok_set [OF assms(1)]) (auto simp: moved_def same_keys_def split: if_splits)
    moreover have "set_action i (\<lambda>_. a1) d = set_action i (\<lambda>r. if r = a then a1 else r) d"
      using tupd_replace [OF ids, of i a a1] ga by (simp add: set_action_def)
    ultimately show ?thesis
      unfolding d' by (auto intro: command_ok_after)
  qed
qed

lemma change_assignee_ok:
  assumes "coaching_inv d" "change_assignee mail now ctx tenant a c d = Inr d1" "coaching_active (ca_status a)"
    and "tget ca_id (coaching_actions d) (ca_id a) = Some a"
  shows "command_ok d d1 \<and> (\<exists>b. tget ca_id (coaching_actions d1) (ca_id a) = Some b \<and> ca_status b = ca_status a)"
proof (cases "d1 = d")
  case True
  then show ?thesis
    using assms(1,4) by (simp add: command_ok_frame)
next
  case False
  then obtain uid where c: "c = Some uid" "uid \<noteq> ca_assignee_user_id a"
    using assms(2) by (auto simp: change_assignee_def bind_eq_Inr split: option.splits if_splits)
  let ?f = "\<lambda>r. r\<lparr>ca_assignee_user_id := uid\<rparr>" and ?d = "set_action (ca_id a) (\<lambda>r. r\<lparr>ca_assignee_user_id := uid\<rparr>) d"
  have set: "command_ok d ?d"
    using assms(3,4)
    by (intro command_ok_set [OF assms(1)]) (auto simp: same_keys_def active_action_def life_ok_def moved_def)
  moreover have "coaching_actions d1 = coaching_actions ?d \<and> refs_kept ?d d1"
    using assms(2) c notify_assignee_frame [of mail now tenant "?f a" ?d d1]
    by (auto simp: change_assignee_def bind_eq_Inr Let_def split: if_splits)
  ultimately show ?thesis
    using command_ok_after [OF set] assms(4) set_action_get [of ?f "ca_id a" d "ca_id a"]
    by (simp add: same_keys_def)
qed

lemma moved_trans: "moved a b \<Longrightarrow> ca_status b = ca_status a \<Longrightarrow> moved b c \<Longrightarrow> moved a c"
  by (auto simp: moved_def same_keys_def)

lemma update_action_ok:
  assumes "coaching_inv d" "update_action mail now ctx tenant i c d = Inr d'"
  shows "command_ok d d'"
proof -
  obtain a d1 due where a: "get_action ctx tenant i d = Inr a" and act: "coaching_active (ca_status a)"
    and c1: "change_assignee mail now ctx tenant a (cc_assignee_user_id c) d = Inr d1"
    and d': "d' = (if changes_anything a c
       then record_audit ctx ''coaching_action.updated'' ''coaching_action'' (Some i) None (set_action i (apply_changes c due) d1)
       else set_action i (apply_changes c due) d1)"
    using assms(2) by (auto simp: update_action_def bind_eq_Inr Let_def)
  note ga = get_action_ok [OF assms(1) a]
  have o1: "command_ok d d1" and st: "\<exists>b. tget ca_id (coaching_actions d1) i = Some b \<and> ca_status b = ca_status a"
    using change_assignee_ok [OF assms(1) c1 act] ga by auto
  then have inv1: "coaching_inv d1"
    by (simp add: command_ok_def)
  let ?d2 = "set_action i (apply_changes c due) d1"
  have o2: "command_ok d1 ?d2"
    using st act
    by (intro command_ok_set [OF inv1])
      (auto simp: same_keys_def apply_changes_def active_action_def life_ok_def moved_def)
  have "\<exists>b. tget ca_id (coaching_actions ?d2) j = Some b \<and> moved q b"
    if q: "tget ca_id (coaching_actions d) j = Some q" for j q
  proof -
    obtain q1 where q1: "tget ca_id (coaching_actions d1) j = Some q1" "moved q q1"
      using o1 q by (auto simp: command_ok_def)
    obtain q2 where q2: "tget ca_id (coaching_actions ?d2) j = Some q2" "moved q1 q2"
      using o2 q1(1) by (auto simp: command_ok_def)
    have "j \<noteq> i \<Longrightarrow> q2 = q1"
      using q1(1) q2(1) set_action_get [of "apply_changes c due" i d1 j] by (simp add: same_keys_def apply_changes_def)
    moreover have "j = i \<Longrightarrow> ca_status q1 = ca_status q"
      using st q1(1) q ga by auto
    ultimately have "moved q q2"
      using moved_trans [OF q1(2) _ q2(2)] q1(2) by blast
    then show ?thesis
      using q2(1) by blast
  qed
  then have "command_ok d ?d2"
    using o1 o2 by (auto simp: command_ok_def intro: refs_kept_trans)
  then show ?thesis
    unfolding d' by (auto intro: command_ok_after)
qed

lemma fresh_action_ok:
  assumes "coaching_inv d" "coaching_constraints d1" "ca_id a = next_id d" "life_ok a" "refs_ok d a"
    and "d1 = d\<lparr>coaching_actions := coaching_actions d @ [a], next_id := Suc (next_id d)\<rparr>"
  shows "command_ok d d1"
proof -
  have "refs_kept d d1"
    by (rule refs_keptI) (simp_all add: assms(6))
  moreover have "coaching_inv d1"
    using assms \<open>refs_kept d d1\<close>
    by (auto simp: coaching_inv_def coaching_constraints_def ids_ok_snoc refs_kept_def list_all_iff)
  ultimately show ?thesis
    by (auto simp: command_ok_def assms(6) tget_append)
qed

text \<open>
  Other requests may run between the check and the insert, as long as they keep the invariant and
  the tenants of the rows an action refers to. What comes back for an event is its active action.
\<close>

lemma insert_action_ok:
  assumes "insert_action mail race now ctx tenant row d = Inr ((a, created), d')"
    and "coaching_inv (race d)" "refs_ok (race d) row" "\<And>i. life_ok (row\<lparr>ca_id := i\<rparr>)"
    and "ca_organization_id row = tenant" "ca_status row = CoOpen"
  shows "command_ok (race d) d' \<and>
    (ca_safety_event_id row \<noteq> None \<longrightarrow>
       ca_safety_event_id a = ca_safety_event_id row \<and> ca_organization_id a = tenant \<and> active_action a \<and>
       a \<in> set (coaching_actions d'))"
proof -
  let ?d0 = "race d" and ?a = "row\<lparr>ca_id := next_id (race d)\<rparr>"
  let ?d1 = "?d0\<lparr>coaching_actions := coaching_actions ?d0 @ [?a], next_id := Suc (next_id ?d0)\<rparr>"
  let ?d2 = "record_audit ctx ''coaching_action.created'' ''coaching_action'' (Some (next_id ?d0)) None ?d1"
  show ?thesis
  proof (cases "coaching_constraints ?d1")
    case True
    have "command_ok ?d0 ?d1"
      using fresh_action_ok [OF assms(2) True, of ?a] assms(3,4) by (simp add: refs_ok_def)
    moreover have d': "coaching_actions d' = coaching_actions ?d1 \<and> refs_kept ?d1 d'" "a = ?a"
      using assms(1) True notify_assignee_frame [of mail now tenant ?a ?d2 d'] refs_kept_trans [of ?d1 ?d2 d']
      by (auto simp: insert_action_def Let_def bind_eq_Inr split: if_splits)
    ultimately have "command_ok ?d0 d'"
      using command_ok_after by blast
    then show ?thesis
      using d' assms(5,6) by (auto simp: active_action_def coaching_active_def)
  next
    case False
    then have ex: "existing_action tenant (ca_safety_event_id row) ?d0 = Inr (Some a)" "d' = ?d0"
      using assms(1) by (auto simp: insert_action_def Let_def bind_eq_Inr split: option.splits)
    then show ?thesis
      using assms(2) one_or_none_filterD [of _ "coaching_actions ?d0" a]
      by (fastforce simp: command_ok_frame existing_action_def active_for_event_def active_action_def split: option.splits)
  qed
qed

lemma create_action_ok:
  assumes "create_action mail race now ctx tenant title descr event_id driver_id assignee_id due d = Inr ((a, created), d')"
    and "coaching_inv d" "coaching_inv (race d)" "refs_kept d (race d)"
  shows "(command_ok d d' \<and> d' = d \<or> command_ok (race d) d') \<and>
    (event_id \<noteq> None \<longrightarrow>
       ca_safety_event_id a = event_id \<and> ca_organization_id a = tenant \<and> active_action a \<and> a \<in> set (coaching_actions d'))"
proof -
  obtain event existing where ev: "event_of tenant event_id d = Inr event"
    and ex: "existing_action tenant event_id d = Inr existing"
    using assms(1) by (auto simp: create_action_def bind_eq_Inr)
  show ?thesis
  proof (cases existing)
    case (Some x)
    then have "a = x" "d' = d"
      using assms(1) ev ex by (auto simp: create_action_def)
    then show ?thesis
      using Some ex assms(2) one_or_none_filterD [of _ "coaching_actions d" x]
      by (fastforce simp: command_ok_frame existing_action_def active_for_event_def active_action_def split: option.splits)
  next
    case None
    then obtain row where ins: "insert_action mail race now ctx tenant row d = Inr ((a, created), d')"
      and row: "ca_organization_id row = tenant" "ca_status row = CoOpen" "ca_safety_event_id row = event_id"
        "life_ok row" "in_tenant d_id d_organization_id (drivers d) tenant (ca_driver_id row)"
      using assms(1) ev ex
      by (auto simp: create_action_def bind_eq_Inr require_opt_ok Let_def life_ok_def)
    have "in_tenant se_id se_organization_id (safety_events d) tenant event_id"
      using ev by (auto simp: event_of_def in_tenant_def bind_eq_Inr require_ok split: option.splits)
    then have "refs_ok (race d) row"
      using row assms(4) by (auto simp: refs_kept_def refs_ok_def)
    from insert_action_ok [OF ins assms(3) this _ row(1,2)] row(3,4) show ?thesis
      by (simp add: life_ok_def)
  qed
qed

text \<open>A review writes the event and leaves its tenant alone.\<close>

definition reviewed :: "uuid \<Rightarrow> (safety_event \<Rightarrow> safety_event) \<Rightarrow> db \<Rightarrow> db" where
  "reviewed i f d = d\<lparr>safety_events := tupd (\<lambda>x. se_id x = i) f (safety_events d)\<rparr>"

lemma apply_review_keys [simp]:
  "se_id (apply_review now ctx rs notes rc res e) = se_id e"
  "se_organization_id (apply_review now ctx rs notes rc res e) = se_organization_id e"
  by (simp_all add: apply_review_def)

lemma reviewed_frame:
  "coaching_actions (reviewed i (apply_review now ctx rs notes rc res) d) = coaching_actions d"
  "refs_kept d (reviewed i (apply_review now ctx rs notes rc res) d)"
  by (simp_all add: reviewed_def refs_kept_def refs_ok_def in_tenant_tupd)

lemma review_cases [consumes 1]:
  assumes "review mail race now ctx tenant i decision notes rc res c d = Inr (out, d')"
  obtains (plain) rs where "decision_of decision = Some rs" "res \<noteq> Some CoachingAssigned" "ro_coaching_action out = None"
      "d' = record_audit ctx ''safety_event.reviewed'' ''safety_event'' (Some i) None
              (reviewed i (apply_review now ctx rs notes rc res) d)"
  | (coaching) a created d2 where "decision_of decision = Some RevConfirmed" "res = Some CoachingAssigned"
      "ro_coaching_action out = Some a"
      "create_action mail race now ctx tenant None notes (Some i) None
         (case c of None \<Rightarrow> None | Some x \<Rightarrow> cas_assignee_user_id x)
         (case c of None \<Rightarrow> None | Some x \<Rightarrow> cas_due_at x)
         (reviewed i (apply_review now ctx RevConfirmed notes rc res) d) = Inr ((a, created), d2)"
      "d' = record_audit ctx ''safety_event.reviewed'' ''safety_event'' (Some i) None d2"
  using assms that
  by (auto simp: review_def reviewed_def bind_eq_Inr Let_def split: option.splits if_splits prod.splits)

lemma review_ok:
  assumes "coaching_inv d" "review mail id now ctx tenant i decision notes rc res c d = Inr (out, d')"
  shows "command_ok d d'"
  using assms(2)
proof (cases rule: review_cases)
  case (plain rs)
  show ?thesis
    unfolding plain
    by (rule command_ok_frame [OF assms(1)])
      (simp_all add: reviewed_frame refs_kept_trans [OF reviewed_frame(2) record_audit_refs])
next
  case (coaching a created d2)
  let ?d1 = "reviewed i (apply_review now ctx RevConfirmed notes rc res) d"
  have o1: "command_ok d ?d1"
    by (rule command_ok_frame [OF assms(1)]) (simp_all add: reviewed_frame)
  then have inv1: "coaching_inv ?d1"
    by (simp add: command_ok_def)
  have "command_ok ?d1 d2"
    using create_action_ok [OF coaching(4) inv1] inv1 by auto
  moreover have "coaching_actions ?d1 = coaching_actions d"
    by (simp add: reviewed_frame)
  ultimately have "command_ok d d2"
    using o1 by (auto simp: command_ok_def intro: refs_kept_trans)
  then show ?thesis
    unfolding coaching(5) by (auto intro: command_ok_after)
qed

subsection \<open>The coaching workflow refines the life cycle of its rules\<close>

text \<open>There is one active action of an event, and the query finds it.\<close>

lemma active_unique:
  assumes "coaching_inv d" "a \<in> set (coaching_actions d)" "active_action a" "ca_organization_id a = tenant"
    and "ca_safety_event_id a = Some e"
  shows "filter (\<lambda>x. ca_organization_id x = tenant \<and> ca_safety_event_id x = Some e \<and> coaching_active (ca_status x))
     (coaching_actions d) = [a]" (is "filter ?act _ = _")
    and "active_for_event tenant e d = Inr (Some a)"
proof -
  have "filter ?act (coaching_actions d) =
      filter (\<lambda>x. active_action x \<and> (ca_organization_id x, ca_safety_event_id x) = (tenant, Some e)) (coaching_actions d)"
    by (rule filter_cong) (auto simp: active_action_def)
  then have "length (filter ?act (coaching_actions d)) \<le> 1"
    using assms(1) unique_on_filter_length [of active_action "\<lambda>a. (ca_organization_id a, ca_safety_event_id a)"
        "coaching_actions d" "(tenant, Some e)"] by (simp add: coaching_inv_def)
  moreover have "a \<in> set (filter ?act (coaching_actions d))"
    using assms by (simp add: active_action_def)
  ultimately show f: "filter ?act (coaching_actions d) = [a]"
    by (cases "filter ?act (coaching_actions d)") auto
  show "active_for_event tenant e d = Inr (Some a)"
    by (simp add: active_for_event_def f)
qed

text \<open>One committed request of the coaching and review API.\<close>

inductive coaching_step :: "db \<Rightarrow> db \<Rightarrow> bool" where
  create: "create_action mail id now ctx t title descr ev dr asg due d = Inr (r, d') \<Longrightarrow> coaching_step d d'"
| update: "update_action mail now ctx t i c d = Inr d' \<Longrightarrow> coaching_step d d'"
| move: "transition now ctx t i target oc notes reason d = Inr (a, d') \<Longrightarrow> coaching_step d d'"
| review: "review mail id now ctx t i decision notes rc res c d = Inr (out, d') \<Longrightarrow> coaching_step d d'"

lemma coaching_step_ok: "coaching_step d d' \<Longrightarrow> coaching_inv d \<Longrightarrow> command_ok d d'"
proof (induction rule: coaching_step.induct)
  case (create mail now ctx t title descr ev dr asg due d r d')
  then show ?case
    using create_action_ok [of mail id now ctx t title descr ev dr asg due d "fst r" "snd r" d'] by auto
next
  case (update mail now ctx t i c d d')
  then show ?case
    by (rule update_action_ok [rotated])
next
  case (move now ctx t i target oc nts reason d a d')
  then show ?case
    by (rule transition_ok [rotated])
next
  case (review mail now ctx t i decision nts rc res c d out d')
  then show ?case
    by (rule review_ok [rotated])
qed

definition coaching_get :: "db \<Rightarrow> uuid \<Rightarrow> coaching_action option" where
  "coaching_get d i = tget ca_id (coaching_actions d) i"

interpretation coaching_life: lifecycle coaching_get coaching_inv coaching_step ca_status can_transition
    "\<lambda>s. \<not> coaching_active s"
proof
  show "coaching_step d d' \<Longrightarrow> coaching_inv d \<Longrightarrow> coaching_inv d'" for d d'
    using coaching_step_ok [of d d'] by (simp add: command_ok_def)
  show "coaching_step d d' \<Longrightarrow> coaching_inv d \<Longrightarrow> coaching_get d i = Some r \<Longrightarrow>
      \<exists>r'. coaching_get d' i = Some r' \<and> (ca_status r' = ca_status r \<or> can_transition (ca_status r) (ca_status r'))"
    for d d' i r
    using coaching_step_ok [of d d'] unfolding command_ok_def coaching_get_def moved_def by blast
  show "coaching_step d d' \<Longrightarrow> coaching_inv d \<Longrightarrow> coaching_get d i = Some r \<Longrightarrow> \<not> coaching_active (ca_status r) \<Longrightarrow>
      coaching_get d' i = Some r" for d d' i r
    using coaching_step_ok [of d d'] unfolding command_ok_def coaching_get_def moved_def by blast
qed

subsection \<open>Properties\<close>

definition coaching_event :: safety_event where
  "coaching_event = \<lparr>se_id = 1, se_organization_id = 7, se_vehicle_id = 3, se_driver_id = Some 0, se_trip_id = None,
     se_event_type = Speeding, se_severity = High, se_confidence = 1, se_occurred_at = 0, se_latitude = None,
     se_longitude = None, se_measured_value = None, se_threshold = None, se_ruleset_version = 1,
     se_severity_framework_version = 1, se_data_quality = None, se_review_status = RevPending,
     se_reviewer_user_id = None, se_reviewed_at = None, se_resolution = None, se_root_cause = None,
     se_reviewer_notes = None, se_needs_review = False, se_dedup_key = (3, Speeding, 0), se_occurrence_count = 1,
     se_details = []\<rparr>"

definition coaching_driver :: driver where
  "coaching_driver = \<lparr>d_id = 0, d_organization_id = 7, d_external_id = ''D1'', d_full_name = ''Ada'', d_user_id = None,
     d_license_number_enc = None, d_phone = None, d_status = DrvActive, d_erased_at = None\<rparr>"

definition coaching_db :: db where
  "coaching_db = empty_db\<lparr>drivers := [coaching_driver], safety_events := [coaching_event], next_id := 2\<rparr>"

lemma coaching_db_inv: "coaching_inv coaching_db"
  by (simp add: coaching_inv_def coaching_db_def empty_db_def)

definition review_it :: "string \<Rightarrow> resolution option \<Rightarrow> db \<Rightarrow> (review_outcome \<times> db) result" where
  "review_it decision res = review None id 5 system_context 7 1 decision None None res None"

text \<open>
  C9: the coaching API refines the life cycle of the rules: along any sequence of committed
  requests (create, edit, start, complete, cancel, review) an action never disappears, its status
  follows the allowed transitions, a completed or canceled action is never changed again, its
  timestamps, outcome and reason are those of its status, and an event has at most one active action.
\<close>

theorem coaching_refines_lifecycle:
  assumes "coaching_inv d" and "coaching_step\<^sup>*\<^sup>* d d'" and "tget ca_id (coaching_actions d) i = Some a"
  shows "(\<exists>b. tget ca_id (coaching_actions d') i = Some b \<and> can_transition\<^sup>*\<^sup>* (ca_status a) (ca_status b) \<and>
        life_ok b \<and> (\<not> coaching_active (ca_status a) \<longrightarrow> b = a)) \<and>
    unique_on active_action (\<lambda>a. (ca_organization_id a, ca_safety_event_id a)) (coaching_actions d')"
proof -
  have g: "coaching_get d i = Some a"
    using assms(3) by (simp add: coaching_get_def)
  have inv: "coaching_inv d'"
    by (rule coaching_life.run_inv [OF assms(2,1)])
  obtain b where b: "coaching_get d' i = Some b" "can_transition\<^sup>*\<^sup>* (ca_status a) (ca_status b)"
    using coaching_life.run_row [OF assms(2,1) g] by blast
  have "life_ok b"
    using inv b(1) tget_SomeD [of ca_id "coaching_actions d'" i b]
    by (auto simp: coaching_inv_def coaching_get_def list_all_iff)
  moreover have "\<not> coaching_active (ca_status a) \<Longrightarrow> b = a"
    using coaching_life.run_final [OF assms(2,1) g] b(1) by simp
  ultimately show ?thesis
    using b inv by (auto simp: coaching_get_def coaching_inv_def)
qed

definition assigned_db :: db where
  "assigned_db = committed (review_it ''confirmed'' (Some CoachingAssigned)) coaching_db"

definition complete_it :: "db \<Rightarrow> (coaching_action \<times> db) result" where
  "complete_it = transition 6 system_context 7 2 CoCompleted (Some Coached) None None"

lemma assigned_step: "coaching_step coaching_db assigned_db"
proof -
  have "\<not> isl (review_it ''confirmed'' (Some CoachingAssigned) coaching_db)"
    by code_simp
  from committed_run [of "review_it ''confirmed'' (Some CoachingAssigned)", OF this] show ?thesis
    unfolding assigned_db_def review_it_def by (rule coaching_step.review)
qed

lemma assigned_inv: "coaching_inv assigned_db"
  by (rule coaching_life.step_inv [OF assigned_step coaching_db_inv])

theorem coaching_refines_lifecycle_witness:
  "let d = assigned_db; d' = committed complete_it d
   in coaching_step\<^sup>*\<^sup>* d d' \<and> (\<exists>b. tget ca_id (coaching_actions d') 2 = Some b \<and> ca_status b = CoCompleted \<and> life_ok b)"
proof -
  have run: "\<not> isl (complete_it assigned_db)"
    by code_simp
  have "coaching_step assigned_db (committed complete_it assigned_db)"
    using committed_run [of complete_it, OF run] unfolding complete_it_def by (rule coaching_step.move)
  then have st: "coaching_step\<^sup>*\<^sup>* assigned_db (committed complete_it assigned_db)"
    by (rule r_into_rtranclp)
  have a: "map_option ca_status (tget ca_id (coaching_actions assigned_db) 2) = Some CoOpen"
    and b: "map_option ca_status (tget ca_id (coaching_actions (committed complete_it assigned_db)) 2) = Some CoCompleted"
    by code_simp+
  from a obtain x where x: "tget ca_id (coaching_actions assigned_db) 2 = Some x"
    by auto
  from coaching_refines_lifecycle [OF assigned_inv st x] b st show ?thesis
    by (auto simp: Let_def)
qed

text \<open>
  Creating an action for an event is safe under concurrency. Whatever other requests commit
  between the check and the insert, as long as they keep the invariant, the request either fails or
  returns the one active action of the event, its own or that of the other request.
\<close>

theorem concurrent_create_is_unique:
  assumes "coaching_inv d" and "coaching_inv (race d)" and "refs_kept d (race d)"
    and "create_action mail race now ctx tenant title descr (Some e) driver_id assignee_id due d = Inr ((a, created), d')"
  shows "filter (\<lambda>x. ca_organization_id x = tenant \<and> ca_safety_event_id x = Some e \<and> coaching_active (ca_status x))
     (coaching_actions d') = [a]"
proof -
  note c = create_action_ok [OF assms(4,1,2,3)]
  have inv: "coaching_inv d'"
    using c by (auto simp: command_ok_def)
  show ?thesis
    using c by (intro active_unique(1) inv) auto
qed

theorem concurrent_create_is_unique_witness:
  "let race = (\<lambda>d. committed (review_it ''confirmed'' (Some CoachingAssigned)) d);
       r = create_action None race 5 system_context 7 None None (Some 1) None None None coaching_db
   in \<exists>a d'. r = Inr ((a, False), d') \<and> ca_id a = 2 \<and>
        filter (\<lambda>x. ca_organization_id x = 7 \<and> ca_safety_event_id x = Some 1 \<and> coaching_active (ca_status x))
          (coaching_actions d') = [a]"
proof -
  let ?race = "\<lambda>d. committed (review_it ''confirmed'' (Some CoachingAssigned)) d"
  let ?r = "create_action None ?race 5 system_context 7 None None (Some 1) None None None coaching_db"
  have v: "(case ?r of Inl _ \<Rightarrow> False | Inr ((a, c), d') \<Rightarrow> ca_id a = 2 \<and> c = False)"
    by code_simp
  then obtain a d' where r: "?r = Inr ((a, False), d')" "ca_id a = 2"
    by (auto split: sum.splits)
  have inv: "coaching_inv (?race coaching_db)" and kept: "refs_kept coaching_db (?race coaching_db)"
    using assigned_inv coaching_step_ok [OF assigned_step coaching_db_inv]
    by (simp_all add: assigned_db_def command_ok_def)
  from concurrent_create_is_unique [OF coaching_db_inv inv kept r(1)] r show ?thesis
    by (simp add: Let_def)
qed

text \<open>
  Assigning coaching in a review confirms the event and leaves it with exactly one active
  action, and reviewing it so again returns the same action and creates none.
\<close>

theorem review_assigns_coaching_once:
  assumes "coaching_inv d"
    and "review mail id now ctx tenant e decision notes rc (Some CoachingAssigned) c d = Inr (out, d')"
    and "review mail' id now' ctx' tenant e decision' notes' rc' (Some CoachingAssigned) c' d' = Inr (out', d'')"
  shows "(\<exists>a. ro_coaching_action out = Some a \<and> ro_coaching_action out' = Some a \<and> active_action a \<and>
      ca_safety_event_id a = Some e) \<and> decision = ''confirmed'' \<and>
    coaching_actions d'' = coaching_actions d'"
  using assms(2)
proof (cases rule: review_cases)
  case (coaching a created d2)
  let ?d1 = "reviewed e (apply_review now ctx RevConfirmed notes rc (Some CoachingAssigned)) d"
  have inv1: "coaching_inv ?d1"
    by (rule coaching_inv_frame [OF assms(1)]) (simp_all add: reviewed_frame)
  have a: "ca_safety_event_id a = Some e" "ca_organization_id a = tenant" "active_action a" "a \<in> set (coaching_actions d2)"
    and inv2: "coaching_inv d2"
    using create_action_ok [OF coaching(4) inv1] inv1 by (auto simp: command_ok_def)
  have acts: "coaching_actions d' = coaching_actions d2"
    by (simp add: coaching(5))
  then have act: "active_for_event tenant e d' = Inr (Some a)"
    using active_unique [of d2 a tenant e] a inv2 by (simp add: active_for_event_def)
  from assms(3) show ?thesis
  proof (cases rule: review_cases)
    case (coaching a' created' d3)
    then have "existing_action tenant (Some e) (reviewed e (apply_review now' ctx' RevConfirmed notes' rc' (Some CoachingAssigned)) d') = Inr (Some a)"
      using act by (simp add: existing_action_def active_for_event_def reviewed_frame)
    then have "a' = a" "coaching_actions d3 = coaching_actions d'"
      using coaching(4) by (auto simp: create_action_def bind_eq_Inr reviewed_frame)
    then show ?thesis
      using coaching(3,5) \<open>ro_coaching_action out = Some a\<close> \<open>decision_of decision = Some RevConfirmed\<close> a
      by (auto simp: decision_of_def split: if_splits)
  qed simp
qed simp

theorem review_assigns_coaching_once_witness:
  "let f = review_it ''confirmed'' (Some CoachingAssigned); d' = committed f coaching_db
   in length (coaching_actions d') = 1 \<and> coaching_actions (committed f d') = coaching_actions d'"
proof -
  let ?f = "review_it ''confirmed'' (Some CoachingAssigned)"
  have r: "\<not> isl (?f coaching_db)" "\<not> isl (?f (committed ?f coaching_db))"
    and n: "length (coaching_actions (committed ?f coaching_db)) = 1"
    by code_simp+
  from review_assigns_coaching_once [OF coaching_db_inv committed_run [of ?f, OF r(1), unfolded review_it_def]
      committed_run [of ?f, OF r(2), unfolded review_it_def]] n
  show ?thesis
    by (simp add: Let_def review_it_def)
qed

text \<open>
  Rejecting a confirmed event later does not undo its coaching. The event is then rejected and
  still resolved by coaching, a combination one review request is not allowed to make, and its
  coaching action stays active.
\<close>

theorem rejection_keeps_coaching:
  assumes "tget se_id (safety_events d) e = Some ev"
    and "se_resolution ev = Some (resolution_value CoachingAssigned)"
    and "review mail race now ctx tenant e ''rejected'' notes rc None c d = Inr (out, d')"
  shows "(\<exists>ev'. tget se_id (safety_events d') e = Some ev' \<and> se_review_status ev' = RevRejected \<and>
      se_resolution ev' = Some (resolution_value CoachingAssigned)) \<and>
    coaching_actions d' = coaching_actions d \<and>
    review mail race now ctx tenant e ''rejected'' notes rc (Some CoachingAssigned) c d = Inl (ValidationFailedError ''resolution'')"
  using assms(3)
proof (cases rule: review_cases)
  case (plain rs)
  then have rs: "rs = RevRejected"
    by (simp add: decision_of_def)
  have "tget se_id (safety_events d') e = Some (apply_review now ctx rs notes rc None ev)"
    using assms(1) tget_SomeD [OF assms(1)] by (simp add: plain(4) reviewed_def tget_tupd)
  then show ?thesis
    using assms(2) rs by (simp add: plain(4) reviewed_frame apply_review_def review_def decision_of_def)
qed simp

theorem rejection_keeps_coaching_witness:
  "let d' = committed (review_it ''rejected'' None) assigned_db
   in \<exists>ev. tget se_id (safety_events d') 1 = Some ev \<and> se_review_status ev = RevRejected \<and>
        se_resolution ev = Some ''kocluk_atandi'' \<and> coaching_actions d' = coaching_actions assigned_db"
proof -
  let ?f = "review_it ''rejected'' None"
  have run: "\<not> isl (?f assigned_db)"
    and e: "map_option se_resolution (tget se_id (safety_events assigned_db) 1) = Some (Some ''kocluk_atandi'')"
    by code_simp+
  then obtain ev where ev: "tget se_id (safety_events assigned_db) 1 = Some ev"
      "se_resolution ev = Some (resolution_value CoachingAssigned)"
    by auto
  from rejection_keeps_coaching [OF ev committed_run [of ?f, OF run, unfolded review_it_def]] show ?thesis
    by (simp add: Let_def review_it_def)
qed

end
