(* ===== verification/Identity.thy ===== *)
theory Identity
  imports Subscriptions Mail Lifecycle
begin

section \<open>Identity and tenancy\<close>

text \<open>
  \<^verbatim>\<open>domain/passwords.py\<close> and \<^verbatim>\<open>application/identity/service.py\<close>: registration, password
  login with lockout, refresh-token sessions, invitations. SHA-256, the password hash, and the
  settings are the fields of \<open>identity_env\<close>; the random part of a new secret is an argument. An
  operation that raises leaves the database as it was, so most return \<open>db \<Rightarrow> ('a \<times> db) result\<close>;
  \<open>authenticate\<close> and \<open>rotate_refresh_token\<close> commit before they raise and return
  \<open>'a result \<times> db\<close>. The check that hides an unknown account's timing has no result and is left out.
\<close>

subsection \<open>Passwords\<close>

definition min_length :: nat where "min_length = 12"

definition blocklist :: "string list" where
  "blocklist = [''123456789012'', ''password1234'', ''visionroute1'', ''qwertyuiop12'']"

datatype password_problem = TooShort | TooCommon | OneClass

definition password_problems :: "string \<Rightarrow> password_problem list" where
  "password_problems pw =
     (if length pw < min_length then [TooShort] else []) @
     (if lower pw \<in> set blocklist then [TooCommon] else []) @
     (if isdigit pw \<or> isalpha pw then [OneClass] else [])"

definition check_password :: "string \<Rightarrow> unit result" where
  "check_password pw = raise_if (password_problems pw \<noteq> []) (ValidationFailedError ''password'')"

subsection \<open>Environment and constraints\<close>

record identity_env =
  iv_sha :: "string \<Rightarrow> string"
  iv_hash :: "string \<Rightarrow> string"
  iv_verify :: "string \<Rightarrow> string \<Rightarrow> bool"
  iv_refresh_ttl :: duration
  iv_reuse_grace :: duration
  iv_invitation_ttl :: duration
  iv_mail :: "(pydict \<Rightarrow> string) option option"

text \<open>
  \<open>iv_mail\<close>: no mail service, or one with or without a cipher. The constraints below are what the
  database checks when rows are flushed.
\<close>

definition slug_char :: "char \<Rightarrow> bool" where
  "slug_char c \<longleftrightarrow> is_lower c \<or> is_digit c"

definition slug_ok :: "string \<Rightarrow> bool" where
  "slug_ok s \<longleftrightarrow> 3 \<le> length s \<and> length s \<le> 80 \<and> slug_char (hd s) \<and> slug_char (last s) \<and>
     list_all (\<lambda>c. slug_char c \<or> c = CHR ''-'') s"

definition identity_constraints :: "db \<Rightarrow> bool" where
  "identity_constraints d \<longleftrightarrow>
     unique_on (\<lambda>_. True) org_slug (organizations d) \<and> list_all (slug_ok \<circ> org_slug) (organizations d) \<and>
     unique_on (\<lambda>_. True) (lower \<circ> u_email) (users d) \<and>
     unique_on (\<lambda>_. True) (\<lambda>m. (m_user_id m, m_organization_id m)) (memberships d) \<and>
     unique_on (\<lambda>_. True) inv_token_hash (invitations d) \<and>
     list_all (\<lambda>i. inv_invited_by_user_id i \<noteq> None) (invitations d) \<and>
     unique_on (\<lambda>_. True) s_refresh_token_hash (sessions d)"

definition flush :: "db \<Rightarrow> unit result" where
  "flush d = raise_if (\<not> identity_constraints d) IntegrityError"

definition set_user :: "uuid \<Rightarrow> (user \<Rightarrow> user) \<Rightarrow> db \<Rightarrow> db" where
  "set_user i f d = d\<lparr>users := tupd (\<lambda>u. u_id u = i) f (users d)\<rparr>"

definition set_session :: "uuid \<Rightarrow> (session \<Rightarrow> session) \<Rightarrow> db \<Rightarrow> db" where
  "set_session i f d = d\<lparr>sessions := tupd (\<lambda>s. s_id s = i) f (sessions d)\<rparr>"

definition set_invitation :: "uuid \<Rightarrow> (invitation \<Rightarrow> invitation) \<Rightarrow> db \<Rightarrow> db" where
  "set_invitation i f d = d\<lparr>invitations := tupd (\<lambda>x. inv_id x = i) f (invitations d)\<rparr>"

text \<open>\<^verbatim>\<open>x or y\<close> on a text that may be missing: the empty text counts as missing.\<close>

definition or_text :: "string option \<Rightarrow> string option \<Rightarrow> string option" where
  "or_text x y = (if x = None \<or> x = Some [] then y else x)"

subsection \<open>Users and registration\<close>

definition get_user_by_email :: "string \<Rightarrow> db \<Rightarrow> user option result" where
  "get_user_by_email email d =
     one_or_none (filter (\<lambda>u. lower (u_email u) = lower (strip email)) (users d))"

definition get_active_membership :: "uuid \<Rightarrow> db \<Rightarrow> membership option" where
  "get_active_membership uid d =
     first_row (order_by m_created_at
       (filter (\<lambda>m. m_user_id m = uid \<and> m_status m = MemActive) (memberships d)))"

definition new_user :: "uuid \<Rightarrow> string \<Rightarrow> string \<Rightarrow> string \<Rightarrow> instant option \<Rightarrow> user" where
  "new_user i email pw_hash name verified =
     \<lparr>u_id = i, u_email = email, u_password_hash = pw_hash, u_full_name = name, u_locale = ''tr'',
      u_status = UserActive, u_platform_role = None, u_email_verified_at = verified,
      u_failed_login_count = 0, u_locked_until = None, u_mfa_totp_secret_enc = None,
      u_mfa_pending_secret_enc = None, u_mfa_enabled_at = None, u_mfa_last_used_step = None,
      u_password_changed_at = None, u_sessions_revoked_at = None\<rparr>"

definition new_membership :: "instant \<Rightarrow> uuid \<Rightarrow> uuid \<Rightarrow> uuid \<Rightarrow> role_key \<Rightarrow> membership" where
  "new_membership now i uid org role =
     \<lparr>m_id = i, m_user_id = uid, m_organization_id = org, m_role_key = role, m_status = MemActive,
      m_created_at = now\<rparr>"

definition add_tenant :: "identity_env \<Rightarrow> string \<Rightarrow> string \<Rightarrow> string \<Rightarrow> string \<Rightarrow> string \<Rightarrow> db \<Rightarrow> db" where
  "add_tenant env name slug email full_name pw d =
     (let oid = next_id d in
      d\<lparr>organizations := organizations d @ [\<lparr>org_id = oid, org_name = name, org_slug = slug, org_status = OrgActive\<rparr>],
        organization_settings_rows := organization_settings_rows d @
          [\<lparr>os_organization_id = oid, os_timezone = ''Europe/Istanbul'', os_currency = ''TRY'',
            os_risk_thresholds = [], os_retention = [], os_security = []\<rparr>],
        users := users d @ [new_user (Suc oid) (lower (strip email)) (iv_hash env pw) full_name None],
        next_id := next_id d + 2\<rparr>)"

definition add_membership :: "instant \<Rightarrow> uuid \<Rightarrow> uuid \<Rightarrow> role_key \<Rightarrow> db \<Rightarrow> db" where
  "add_membership now uid org role d =
     d\<lparr>memberships := memberships d @ [new_membership now (next_id d) uid org role], next_id := Suc (next_id d)\<rparr>"

definition register_organization ::
    "identity_env \<Rightarrow> instant \<Rightarrow> request_context \<Rightarrow> string \<Rightarrow> string \<Rightarrow> string \<Rightarrow> string \<Rightarrow> string \<Rightarrow> db \<Rightarrow>
     ((organization \<times> user \<times> membership) \<times> db) result" where
  "register_organization env now ctx name slug email full_name pw d =
     bind (check_password pw) (\<lambda>_.
     bind (one_or_none (filter (\<lambda>o'. org_slug o' = slug) (organizations d))) (\<lambda>existing.
     bind (raise_if (existing \<noteq> None) (DomainConflictError ''slug'')) (\<lambda>_.
     bind (get_user_by_email email d) (\<lambda>u.
     bind (raise_if (u \<noteq> None) (DomainConflictError ''email'')) (\<lambda>_.
       let oid = next_id d; d1 = add_tenant env name slug email full_name pw d
       in bind (flush d1) (\<lambda>_.
          let d2 = add_membership now (Suc oid) oid ROwner d1
          in bind (flush d2) (\<lambda>_.
             let d3 = record_audit ctx ''organization.registered'' ''organization'' (Some oid) (Some oid) d2
             in Inr ((last (organizations d1), last (users d1), last (memberships d2)),
                     publish_event now (OtherEvent ''organization.registered'') (start_trial now oid d3)))))))))"

subsection \<open>Password login\<close>

definition max_failed_logins :: int where "max_failed_logins = 10"
definition lockout :: duration where "lockout = minutes 15"

definition locked_out :: "instant \<Rightarrow> user \<Rightarrow> bool" where
  "locked_out now u \<longleftrightarrow> (case u_locked_until u of None \<Rightarrow> False | Some t \<Rightarrow> now < t)"

definition fail_login :: "instant \<Rightarrow> user \<Rightarrow> user" where
  "fail_login now u =
     (if max_failed_logins \<le> u_failed_login_count u + 1
      then u\<lparr>u_failed_login_count := 0, u_locked_until := Some (now + lockout)\<rparr>
      else u\<lparr>u_failed_login_count := u_failed_login_count u + 1\<rparr>)"

definition record_failed_login :: "instant \<Rightarrow> request_context \<Rightarrow> user \<Rightarrow> db \<Rightarrow> db" where
  "record_failed_login now ctx u d =
     (let d1 = set_user (u_id u) (fail_login now) d
      in if max_failed_logins \<le> u_failed_login_count u + 1
         then record_audit ctx ''auth.account_locked'' ''user'' (Some (u_id u)) None d1 else d1)"

definition clear_failures :: "user \<Rightarrow> user" where
  "clear_failures u = u\<lparr>u_failed_login_count := 0, u_locked_until := None\<rparr>"

definition authenticate ::
    "identity_env \<Rightarrow> instant \<Rightarrow> request_context \<Rightarrow> string \<Rightarrow> string \<Rightarrow> db \<Rightarrow> (user \<times> membership option) result \<times> db" where
  "authenticate env now ctx email pw d =
     (case get_user_by_email email d of
        Inl e \<Rightarrow> (Inl e, d)
      | Inr None \<Rightarrow> (Inl InvalidCredentialsError, d)
      | Inr (Some u) \<Rightarrow>
          if u_status u \<noteq> UserActive then (Inl InvalidCredentialsError, d)
          else if locked_out now u then (Inl AccountLockedError, d)
          else if \<not> iv_verify env (u_password_hash u) pw
          then (Inl InvalidCredentialsError, record_failed_login now ctx u d)
          else (Inr (clear_failures u, get_active_membership (u_id u) d), set_user (u_id u) clear_failures d))"

subsection \<open>Sessions\<close>

definition opaque_secret :: "string \<Rightarrow> string \<Rightarrow> string" where
  "opaque_secret pre rnd = pre @ ''_'' @ rnd"

record authenticated =
  au_user :: user
  au_membership :: "membership option"
  au_refresh_token :: string
  au_session_id :: uuid

definition stored_agent :: "request_context \<Rightarrow> string option" where
  "stored_agent ctx =
     (let a = take 400 (case c_user_agent ctx of None \<Rightarrow> [] | Some x \<Rightarrow> x) in if a = [] then None else Some a)"

definition start_session ::
    "identity_env \<Rightarrow> instant \<Rightarrow> request_context \<Rightarrow> string \<Rightarrow> user \<Rightarrow> membership option \<Rightarrow> db \<Rightarrow>
     (authenticated \<times> db) result" where
  "start_session env now ctx rnd u m d =
     (let token = opaque_secret ''vrt'' rnd;
          s = \<lparr>s_id = Suc (next_id d), s_user_id = u_id u, s_organization_id = map_option m_organization_id m,
               s_family_id = next_id d, s_refresh_token_hash = iv_sha env token, s_user_agent = stored_agent ctx,
               s_ip_address = c_ip_address ctx, s_expires_at = now + iv_refresh_ttl env, s_revoked_at = None,
               s_reuse_detected_at = None, s_last_used_at = Some now, s_replaced_by_id = None\<rparr>;
          d1 = d\<lparr>sessions := sessions d @ [s], next_id := next_id d + 2\<rparr>
      in bind (flush d1) (\<lambda>_.
           Inr (\<lparr>au_user = u, au_membership = m, au_refresh_token = token, au_session_id = s_id s\<rparr>,
                record_audit ctx ''auth.login'' ''user'' (Some (u_id u)) (map_option m_organization_id m) d1)))"

definition session_by_token :: "identity_env \<Rightarrow> string \<Rightarrow> db \<Rightarrow> session option result" where
  "session_by_token env token d =
     one_or_none (filter (\<lambda>s. s_refresh_token_hash s = iv_sha env token) (sessions d))"

definition unused_successor :: "identity_env \<Rightarrow> instant \<Rightarrow> request_context \<Rightarrow> session \<Rightarrow> db \<Rightarrow> session option" where
  "unused_successor env now ctx s d =
     (case (s_replaced_by_id s, s_revoked_at s) of
        (Some i, Some t) \<Rightarrow>
          if iv_reuse_grace env \<le> 0 \<or> s_reuse_detected_at s \<noteq> None \<or> iv_reuse_grace env < now - t \<or>
             s_user_agent s \<noteq> c_user_agent ctx then None
          else (case tget s_id (sessions d) i of
                  None \<Rightarrow> None
                | Some x \<Rightarrow> if s_revoked_at x \<noteq> None then None else Some x)
      | _ \<Rightarrow> None)"

definition revoke_session :: "instant \<Rightarrow> session \<Rightarrow> session" where
  "revoke_session now s = s\<lparr>s_revoked_at := Some now\<rparr>"

definition revoke_family :: "instant \<Rightarrow> bool \<Rightarrow> uuid \<Rightarrow> db \<Rightarrow> db" where
  "revoke_family now reuse fam d =
     d\<lparr>sessions := tupd (\<lambda>s. s_family_id s = fam \<and> s_revoked_at s = None)
         (\<lambda>s. s\<lparr>s_revoked_at := Some now,
                s_reuse_detected_at := (if reuse then Some now else s_reuse_detected_at s)\<rparr>) (sessions d)\<rparr>"

definition report_reuse :: "instant \<Rightarrow> request_context \<Rightarrow> session \<Rightarrow> db \<Rightarrow> db" where
  "report_reuse now ctx s d =
     record_audit ctx ''auth.refresh_reuse_detected'' ''session'' (Some (s_id s)) (s_organization_id s)
       (revoke_family now True (s_family_id s) d)"

definition rotated :: "identity_env \<Rightarrow> instant \<Rightarrow> request_context \<Rightarrow> string \<Rightarrow> uuid \<Rightarrow> uuid \<Rightarrow> session \<Rightarrow> session" where
  "rotated env now ctx token i uid s =
     \<lparr>s_id = i, s_user_id = uid, s_organization_id = s_organization_id s, s_family_id = s_family_id s,
      s_refresh_token_hash = iv_sha env token, s_user_agent = s_user_agent s,
      s_ip_address = or_text (c_ip_address ctx) (s_ip_address s), s_expires_at = now + iv_refresh_ttl env,
      s_revoked_at = None, s_reuse_detected_at = None, s_last_used_at = Some now, s_replaced_by_id = None\<rparr>"

text \<open>
  The rotation of the session row \<open>s\<close> that was read: \<open>s\<close> is what the request saw, \<open>d\<close> the database it
  writes to. The two differ when another request committed in between (the row is read without a
  lock); \<open>race\<close> is what such requests did.
\<close>

definition supersede :: "instant \<Rightarrow> request_context \<Rightarrow> session \<Rightarrow> session option \<Rightarrow> db \<Rightarrow> db" where
  "supersede now ctx s succ d =
     (case succ of None \<Rightarrow> d
      | Some x \<Rightarrow> record_audit ctx ''auth.refresh_retried'' ''session'' (Some (s_id s)) (s_organization_id s)
                    (set_session (s_id x) (revoke_session now) d))"

definition open_successor ::
    "identity_env \<Rightarrow> instant \<Rightarrow> request_context \<Rightarrow> string \<Rightarrow> user \<Rightarrow> session \<Rightarrow> db \<Rightarrow> (authenticated \<times> db) result" where
  "open_successor env now ctx rnd u s d =
     (let token = opaque_secret ''vrt'' rnd;
          n = rotated env now ctx token (next_id d) (u_id u) s;
          d1 = (if s_revoked_at s = None then set_session (s_id s) (revoke_session now) d else d);
          d2 = d1\<lparr>sessions := sessions d1 @ [n], next_id := Suc (next_id d)\<rparr>
      in bind (flush d2) (\<lambda>_.
           Inr (\<lparr>au_user = u, au_membership = get_active_membership (u_id u) d, au_refresh_token = token,
                 au_session_id = s_id n\<rparr>,
                set_session (s_id s) (\<lambda>r. r\<lparr>s_replaced_by_id := Some (s_id n)\<rparr>) d2)))"

definition rotate_session ::
    "identity_env \<Rightarrow> instant \<Rightarrow> request_context \<Rightarrow> string \<Rightarrow> session \<Rightarrow> db \<Rightarrow> authenticated result \<times> db" where
  "rotate_session env now ctx rnd s d =
     (let succ = (if s_revoked_at s = None then None else unused_successor env now ctx s d)
      in if s_revoked_at s \<noteq> None \<and> succ = None then (Inl InvalidCredentialsError, report_reuse now ctx s d)
         else if s_expires_at s \<le> now then (Inl InvalidCredentialsError, d)
         else (case tget u_id (users d) (s_user_id s) of
                 None \<Rightarrow> (Inl InvalidCredentialsError, d)
               | Some u \<Rightarrow>
                   if u_status u \<noteq> UserActive then (Inl InvalidCredentialsError, d)
                   else transact (\<lambda>d. open_successor env now ctx rnd u s (supersede now ctx s succ d)) d))"

definition rotate_refresh_token ::
    "identity_env \<Rightarrow> (db \<Rightarrow> db) \<Rightarrow> instant \<Rightarrow> request_context \<Rightarrow> string \<Rightarrow> string \<Rightarrow> db \<Rightarrow>
     authenticated result \<times> db" where
  "rotate_refresh_token env race now ctx rnd token d =
     (case session_by_token env token d of
        Inl e \<Rightarrow> (Inl e, race d)
      | Inr None \<Rightarrow> (Inl InvalidCredentialsError, race d)
      | Inr (Some s) \<Rightarrow> rotate_session env now ctx rnd s (race d))"

definition logout :: "identity_env \<Rightarrow> instant \<Rightarrow> request_context \<Rightarrow> string \<Rightarrow> db \<Rightarrow> (unit \<times> db) result" where
  "logout env now ctx token d =
     bind (session_by_token env token d) (\<lambda>row.
       case row of None \<Rightarrow> Inr ((), d)
       | Some s \<Rightarrow> Inr ((), record_audit ctx ''auth.logout'' ''session'' (Some (s_id s)) None
                              (revoke_family now False (s_family_id s) d)))"

subsection \<open>Invitations\<close>

definition open_invitation :: "instant \<Rightarrow> invitation \<Rightarrow> bool" where
  "open_invitation now i \<longleftrightarrow> inv_accepted_at i = None \<and> inv_revoked_at i = None \<and> now < inv_expires_at i"

fun role_label :: "role_key \<Rightarrow> string" where
  "role_label ROwner = ''Organizasyon Sahibi''"
| "role_label RAdmin = ''Organizasyon Yoneticisi''"
| "role_label RSafetyManager = ''Guvenlik Muduru''"
| "role_label RFleetManager = ''Filo Yoneticisi''"
| "role_label REventReviewer = ''Olay Inceleyici''"
| "role_label RCoach = ''Surucu Kocu''"
| "role_label RAnalyst = ''Analist''"
| "role_label RAuditor = ''Salt Okunur Denetci''"
| "role_label RIntegrationManager = ''Entegrasyon Yoneticisi''"
| "role_label RDriver = ''Surucu (Self Servis)''"

definition send_invitation ::
    "identity_env \<Rightarrow> instant \<Rightarrow> request_context \<Rightarrow> invitation \<Rightarrow> string \<Rightarrow> db \<Rightarrow> (unit \<times> db) result" where
  "send_invitation env now ctx i token d =
     (case iv_mail env of
        None \<Rightarrow> Inl (ServiceNotConfiguredError ''mail'')
      | Some encrypt \<Rightarrow>
          (let org = tget org_id (organizations d) (inv_organization_id i);
               inviter = (case c_user_id ctx of None \<Rightarrow> None | Some uid \<Rightarrow> tget u_id (users d) uid)
           in bind (enqueue encrypt now
                \<lparr>mr_template = ''invitation'', mr_recipient = inv_email i,
                 mr_context = [(''organization_name'', PStr (case org of None \<Rightarrow> ''VisiOnRoute'' | Some x \<Rightarrow> org_name x)),
                   (''inviter_name'', PStr (case inviter of None \<Rightarrow> ''Organizasyon yoneticiniz'' | Some x \<Rightarrow> u_full_name x)),
                   (''role_label'', PStr (role_label (inv_role_key i))),
                   (''expires_at'', PInt (inv_expires_at i))],
                 mr_secret_context = Some [(''token'', PStr token)],
                 mr_organization_id = Some (inv_organization_id i),
                 mr_related = Some (''invitation'', inv_id i),
                 mr_idempotency_key = Some (''invitation'', inv_id i, take 24 (inv_token_hash i)),
                 mr_max_attempts = 8\<rparr> d) (\<lambda>(_, d1).
                Inr ((), set_invitation (inv_id i) (\<lambda>r. r\<lparr>inv_last_sent_at := Some now\<rparr>) d1))))"

definition already_member :: "uuid \<Rightarrow> uuid \<Rightarrow> db \<Rightarrow> bool" where
  "already_member uid org d \<longleftrightarrow>
     list_ex (\<lambda>m. m_user_id m = uid \<and> m_organization_id m = org) (memberships d)"

definition create_invitation ::
    "identity_env \<Rightarrow> instant \<Rightarrow> request_context \<Rightarrow> string \<Rightarrow> string \<Rightarrow> role_key \<Rightarrow> db \<Rightarrow> (uuid \<times> db) result" where
  "create_invitation env now ctx rnd email role d =
     (case c_organization_id ctx of
        None \<Rightarrow> Inl (DomainNotFoundError ''organization_context'')
      | Some org \<Rightarrow>
          bind (raise_if (role = ROwner) (ValidationFailedError ''owner_invitation'')) (\<lambda>_.
          bind (enforce_user_limit now org d) (\<lambda>_.
            let normalized = lower (strip email) in
          bind (get_user_by_email normalized d) (\<lambda>u.
          bind (raise_if (case u of None \<Rightarrow> False | Some x \<Rightarrow> already_member (u_id x) org d)
                 (DomainConflictError ''already_member'')) (\<lambda>_.
          bind (raise_if (list_ex (\<lambda>i. inv_organization_id i = org \<and> lower (inv_email i) = normalized \<and>
                                   open_invitation now i) (invitations d)) (DomainConflictError ''pending_invitation'')) (\<lambda>_.
            let token = opaque_secret ''vri'' rnd;
                i = \<lparr>inv_id = next_id d, inv_organization_id = org, inv_email = normalized, inv_role_key = role,
                     inv_token_hash = iv_sha env token, inv_invited_by_user_id = c_user_id ctx,
                     inv_expires_at = now + iv_invitation_ttl env, inv_accepted_at = None, inv_revoked_at = None,
                     inv_last_sent_at = None\<rparr>;
                d1 = d\<lparr>invitations := invitations d @ [i], next_id := Suc (next_id d)\<rparr>
            in bind (flush d1) (\<lambda>_.
               bind (send_invitation env now ctx i token d1) (\<lambda>(_, d2).
                 Inr (inv_id i, publish_event now (OtherEvent ''invitation.created'')
                   (record_audit ctx ''invitation.created'' ''invitation'' (Some (inv_id i)) None d2)))))))))) "

definition tenant_invitation :: "request_context \<Rightarrow> uuid \<Rightarrow> db \<Rightarrow> invitation result" where
  "tenant_invitation ctx i d =
     (case tget inv_id (invitations d) i of
        None \<Rightarrow> Inl (DomainNotFoundError ''invitation'')
      | Some x \<Rightarrow> if Some (inv_organization_id x) \<noteq> c_organization_id ctx
                  then Inl (DomainNotFoundError ''invitation'') else Inr x)"

definition resend_invitation ::
    "identity_env \<Rightarrow> instant \<Rightarrow> request_context \<Rightarrow> string \<Rightarrow> uuid \<Rightarrow> db \<Rightarrow> (uuid \<times> db) result" where
  "resend_invitation env now ctx rnd i d =
     bind (tenant_invitation ctx i d) (\<lambda>x.
     bind (raise_if (inv_accepted_at x \<noteq> None \<or> inv_revoked_at x \<noteq> None) (DomainConflictError ''settled_invitation'')) (\<lambda>_.
       let token = opaque_secret ''vri'' rnd;
           f = (\<lambda>r. r\<lparr>inv_token_hash := iv_sha env token, inv_expires_at := now + iv_invitation_ttl env\<rparr>);
           d1 = set_invitation i f d
       in bind (flush d1) (\<lambda>_.
          bind (send_invitation env now ctx (f x) token d1) (\<lambda>(_, d2).
            Inr (i, record_audit ctx ''invitation.resent'' ''invitation'' (Some i) None d2)))))"

definition revoke_invitation :: "instant \<Rightarrow> request_context \<Rightarrow> uuid \<Rightarrow> db \<Rightarrow> (uuid \<times> db) result" where
  "revoke_invitation now ctx i d =
     bind (tenant_invitation ctx i d) (\<lambda>x.
     bind (raise_if (inv_accepted_at x \<noteq> None) (DomainConflictError ''accepted_invitation'')) (\<lambda>_.
       if inv_revoked_at x \<noteq> None then Inr (i, d)
       else Inr (i, record_audit ctx ''invitation.revoked'' ''invitation'' (Some i) None
                      (set_invitation i (\<lambda>r. r\<lparr>inv_revoked_at := Some now\<rparr>) d))))"

definition open_invitation_by_token :: "identity_env \<Rightarrow> instant \<Rightarrow> string \<Rightarrow> db \<Rightarrow> invitation result" where
  "open_invitation_by_token env now token d =
     bind (one_or_none (filter (\<lambda>i. inv_token_hash i = iv_sha env token) (invitations d))) (\<lambda>row.
       case row of None \<Rightarrow> Inl (DomainNotFoundError ''invitation'')
       | Some i \<Rightarrow> if open_invitation now i then Inr i else Inl (DomainNotFoundError ''invitation''))"

record invitation_preview =
  ip_organization_name :: string
  ip_email :: string
  ip_role_key :: role_key
  ip_expires_at :: instant
  ip_account_exists :: bool

definition preview_invitation :: "identity_env \<Rightarrow> instant \<Rightarrow> string \<Rightarrow> db \<Rightarrow> invitation_preview result" where
  "preview_invitation env now token d =
     bind (open_invitation_by_token env now token d) (\<lambda>i.
     bind (get_user_by_email (inv_email i) d) (\<lambda>u.
       Inr \<lparr>ip_organization_name = (case tget org_id (organizations d) (inv_organization_id i) of
               None \<Rightarrow> [] | Some x \<Rightarrow> org_name x),
            ip_email = inv_email i, ip_role_key = inv_role_key i, ip_expires_at = inv_expires_at i,
            ip_account_exists = (u \<noteq> None)\<rparr>))"

text \<open>The account an invitation is accepted for: a new one, or the existing one with that address.\<close>

definition invited_account ::
    "identity_env \<Rightarrow> instant \<Rightarrow> invitation \<Rightarrow> string option \<Rightarrow> string option \<Rightarrow> db \<Rightarrow> (uuid \<times> db) result" where
  "invited_account env now i full_name pw d =
     bind (get_user_by_email (inv_email i) d) (\<lambda>u. case u of
       None \<Rightarrow>
         (case (or_text full_name None, or_text pw None) of
            (Some n, Some p) \<Rightarrow>
              bind (check_password p) (\<lambda>_.
                let d1 = d\<lparr>users := users d @ [new_user (next_id d) (inv_email i) (iv_hash env p) n (Some now)],
                           next_id := Suc (next_id d)\<rparr>
                in bind (flush d1) (\<lambda>_. Inr (next_id d, d1)))
          | _ \<Rightarrow> Inl (ValidationFailedError ''new_account''))
     | Some x \<Rightarrow>
         bind (raise_if (already_member (u_id x) (inv_organization_id i) d) (DomainConflictError ''already_member'')) (\<lambda>_.
           Inr (u_id x, set_user (u_id x)
             (\<lambda>r. if u_email_verified_at r = None then r\<lparr>u_email_verified_at := Some now\<rparr> else r) d)))"

definition accept_invitation ::
    "identity_env \<Rightarrow> instant \<Rightarrow> request_context \<Rightarrow> string \<Rightarrow> string option \<Rightarrow> string option \<Rightarrow> db \<Rightarrow>
     ((uuid \<times> membership) \<times> db) result" where
  "accept_invitation env now ctx token full_name pw d =
     bind (open_invitation_by_token env now token d) (\<lambda>i.
     bind (enforce_user_limit now (inv_organization_id i) d) (\<lambda>_.
     bind (invited_account env now i full_name pw d) (\<lambda>(uid, d1).
       let d2 = set_invitation (inv_id i) (\<lambda>r. r\<lparr>inv_accepted_at := Some now\<rparr>)
                  (add_membership now uid (inv_organization_id i) (inv_role_key i) d1)
       in bind (flush d2) (\<lambda>_.
            Inr ((uid, last (memberships d2)),
                 record_audit ctx ''invitation.accepted'' ''invitation'' (Some (inv_id i))
                   (Some (inv_organization_id i)) d2)))))"

subsection \<open>The invariant of the sessions\<close>

text \<open>
  A family is the chain of sessions one login started: at most one of them is open, all belong to
  one user, and a session that was replaced is revoked and its successor is in the same family.
\<close>

definition chained :: "session list \<Rightarrow> session \<Rightarrow> bool" where
  "chained rows s \<longleftrightarrow> (case s_replaced_by_id s of None \<Rightarrow> True
     | Some i \<Rightarrow> s_revoked_at s \<noteq> None \<and>
         (case tget s_id rows i of None \<Rightarrow> False | Some t \<Rightarrow> s_family_id t = s_family_id s))"

definition one_owner :: "session list \<Rightarrow> bool" where
  "one_owner rows \<longleftrightarrow>
     list_all (\<lambda>s. list_all (\<lambda>t. s_family_id s = s_family_id t \<longrightarrow> s_user_id s = s_user_id t) rows) rows"

definition sess_ok :: "uuid \<Rightarrow> session list \<Rightarrow> bool" where
  "sess_ok n rows \<longleftrightarrow> ids_ok s_id n rows \<and> unique_on (\<lambda>s. s_revoked_at s = None) s_family_id rows \<and>
     list_all (\<lambda>s. s_family_id s < n) rows \<and> list_all (chained rows) rows \<and> one_owner rows"

definition family_dead :: "uuid \<Rightarrow> session list \<Rightarrow> bool" where
  "family_dead fam rows \<longleftrightarrow> list_all (\<lambda>s. s_family_id s = fam \<longrightarrow> s_revoked_at s \<noteq> None) rows"

definition sess_inv :: "db \<Rightarrow> bool" where
  "sess_inv d \<longleftrightarrow> sess_ok (next_id d) (sessions d)"

lemma sess_ok_mono: "sess_ok n rows \<Longrightarrow> n \<le> m \<Longrightarrow> sess_ok m rows"
  by (auto simp: sess_ok_def list_all_iff intro: ids_ok_mono)

text \<open>A change that keeps the identity of a session and may only close it.\<close>

definition closes :: "session \<Rightarrow> session \<Rightarrow> bool" where
  "closes s t \<longleftrightarrow> s_id t = s_id s \<and> s_family_id t = s_family_id s \<and> s_user_id t = s_user_id s \<and>
     s_replaced_by_id t = s_replaced_by_id s \<and> s_revoked_at t \<noteq> None"

lemma chained_iff:
  "chained rows s \<longleftrightarrow> (\<forall>i. s_replaced_by_id s = Some i \<longrightarrow> s_revoked_at s \<noteq> None \<and>
     (\<exists>t. tget s_id rows i = Some t \<and> s_family_id t = s_family_id s))"
  by (auto simp: chained_def split: option.splits)

lemma one_owner_map:
  "one_owner rows \<longleftrightarrow> (\<forall>x \<in> set (map (\<lambda>s. (s_family_id s, s_user_id s)) rows).
     \<forall>y \<in> set (map (\<lambda>s. (s_family_id s, s_user_id s)) rows). fst x = fst y \<longrightarrow> snd x = snd y)"
  by (simp add: one_owner_def list_all_iff)

lemma sess_ok_tupd:
  assumes ok: "sess_ok n rows" and k: "\<And>r. s_id (f r) = s_id r" "\<And>r. s_family_id (f r) = s_family_id r"
      "\<And>r. s_user_id (f r) = s_user_id r" "\<And>r. s_revoked_at (f r) = None \<Longrightarrow> s_revoked_at r = None"
    and c: "\<And>r. r \<in> set rows \<Longrightarrow> p r \<Longrightarrow> chained rows r \<Longrightarrow> chained rows (f r)"
  shows "sess_ok n (tupd p f rows)"
proof -
  have g: "tget s_id (tupd p f rows) i = map_option (\<lambda>r. if p r then f r else r) (tget s_id rows i)" for i
    by (rule tget_tupd) (simp add: k)
  have up: "chained rows r \<Longrightarrow> chained (tupd p f rows) r" for r
    by (cases "s_replaced_by_id r") (auto simp: chained_def g k split: option.splits)
  have "list_all (chained (tupd p f rows)) (tupd p f rows)"
    using ok c up by (auto simp: sess_ok_def list_all_iff set_tupd)
  moreover have "map (\<lambda>s. (s_family_id s, s_user_id s)) (tupd p f rows) = map (\<lambda>s. (s_family_id s, s_user_id s)) rows"
    by (rule map_tupd) (simp add: k)
  moreover have "list_all (\<lambda>s. s_family_id s < n) (tupd p f rows)"
    using ok by (auto simp: sess_ok_def k intro!: list_all_tupd)
  moreover have "unique_on (\<lambda>s. s_revoked_at s = None) s_family_id (tupd p f rows)"
    using ok k by (intro unique_on_tupd) (auto simp: sess_ok_def)
  ultimately show ?thesis
    using ok k(1) by (simp only: sess_ok_def ids_ok_tupd one_owner_map) blast
qed

lemma sess_ok_close:
  assumes "sess_ok n rows" "\<And>r. closes r (f r)"
  shows "sess_ok n (tupd p f rows)"
  using assms(1)
proof (rule sess_ok_tupd)
  fix r
  have c: "closes r (f r)"
    by (rule assms(2))
  then show "s_id (f r) = s_id r" "s_family_id (f r) = s_family_id r" "s_user_id (f r) = s_user_id r"
    "s_revoked_at (f r) = None \<Longrightarrow> s_revoked_at r = None"
    by (simp_all add: closes_def)
  show "chained rows r \<Longrightarrow> chained rows (f r)"
    using c by (simp add: closes_def chained_iff)
qed

lemma family_dead_close: "family_dead fam rows \<Longrightarrow> (\<And>r. closes r (f r)) \<Longrightarrow> family_dead fam (tupd p f rows)"
  by (auto simp: family_dead_def list_all_iff set_tupd closes_def)

lemma tget_append_Some: "tget key rs i = Some r \<Longrightarrow> tget key (rs @ ss) i = Some r"
  by (simp add: tget_append)

text \<open>Opening a session in a family without an open one.\<close>

lemma sess_ok_snoc:
  assumes ok: "sess_ok n rows" and n: "s_id r = n" "s_family_id r \<le> n" "s_replaced_by_id r = None"
    and dead: "family_dead (s_family_id r) rows"
    and own: "\<And>t. t \<in> set rows \<Longrightarrow> s_family_id t = s_family_id r \<Longrightarrow> s_user_id t = s_user_id r"
  shows "sess_ok (Suc n) (rows @ [r])"
proof -
  have up: "chained (rows @ [r]) q" if "chained rows q" for q
    using that by (cases "s_replaced_by_id q") (auto simp: chained_def tget_append_Some split: option.splits)
  have "chained (rows @ [r]) r"
    using n by (simp add: chained_def)
  moreover have "list_all (chained (rows @ [r])) rows"
    using ok up by (auto simp: sess_ok_def list_all_iff)
  ultimately have "list_all (chained (rows @ [r])) (rows @ [r])"
    by simp
  moreover have "list_all (\<lambda>s. s_family_id s < Suc n) (rows @ [r])"
    using ok n by (auto simp: sess_ok_def list_all_iff less_Suc_eq_le)
  moreover have "unique_on (\<lambda>s. s_revoked_at s = None) s_family_id (rows @ [r])"
    using ok dead by (auto simp: sess_ok_def unique_on_snoc family_dead_def list_all_iff)
  moreover have "one_owner rows"
    using ok by (simp add: sess_ok_def)
  then have old: "\<And>s t. s \<in> set rows \<Longrightarrow> t \<in> set rows \<Longrightarrow> s_family_id s = s_family_id t \<Longrightarrow> s_user_id s = s_user_id t"
    unfolding one_owner_def list_all_iff by blast
  have "one_owner (rows @ [r])"
    unfolding one_owner_def list_all_iff
  proof (intro ballI impI)
    fix s t
    assume st: "s \<in> set (rows @ [r])" "t \<in> set (rows @ [r])" "s_family_id s = s_family_id t"
    then have "s \<in> set rows \<or> s = r" "t \<in> set rows \<or> t = r"
      by auto
    then show "s_user_id s = s_user_id t"
      using st(3) own [of s] own [of t] old [of s t] by metis
  qed
  ultimately show ?thesis
    using ok n(1) by (simp only: sess_ok_def ids_ok_snoc)
qed

text \<open>Recording the successor of a closed session.\<close>

lemma sess_ok_replace:
  assumes "sess_ok n rows" and t: "tget s_id rows j = Some t"
    and s: "\<And>q. q \<in> set rows \<Longrightarrow> s_id q = i \<Longrightarrow> s_revoked_at q \<noteq> None \<and> s_family_id q = s_family_id t"
  shows "sess_ok n (tupd (\<lambda>q. s_id q = i) (\<lambda>q. q\<lparr>s_replaced_by_id := Some j\<rparr>) rows)"
  using assms(1)
proof (rule sess_ok_tupd)
  fix r assume "r \<in> set rows" "s_id r = i"
  then show "chained rows (r\<lparr>s_replaced_by_id := Some j\<rparr>)"
    using s t by (auto simp: chained_iff)
qed simp_all

lemma family_dead_replace [simp]:
  "family_dead fam (tupd p (\<lambda>q. q\<lparr>s_replaced_by_id := x\<rparr>) rows) = family_dead fam rows"
  by (induction rows) (auto simp: family_dead_def)

lemma family_dead_snoc [simp]:
  "family_dead fam (rows @ [r]) \<longleftrightarrow> family_dead fam rows \<and> (s_family_id r = fam \<longrightarrow> s_revoked_at r \<noteq> None)"
  by (simp add: family_dead_def)

text \<open>What every operation does to the sessions: it keeps the invariant, and a dead family stays dead.\<close>

definition sess_step :: "db \<Rightarrow> db \<Rightarrow> bool" where
  "sess_step d d' \<longleftrightarrow> next_id d \<le> next_id d' \<and>
     (sess_inv d \<longrightarrow> sess_inv d' \<and>
        (\<forall>fam. fam < next_id d \<longrightarrow> family_dead fam (sessions d) \<longrightarrow> family_dead fam (sessions d')))"

lemma sess_step_refl [simp]: "sess_step d d"
  by (simp add: sess_step_def)

lemma sess_step_trans: "sess_step d d1 \<Longrightarrow> sess_step d1 d2 \<Longrightarrow> sess_step d d2"
  by (auto simp: sess_step_def)

lemma sess_step_frame: "sessions d' = sessions d \<Longrightarrow> next_id d \<le> next_id d' \<Longrightarrow> sess_step d d'"
  by (auto simp: sess_step_def sess_inv_def intro: sess_ok_mono)

lemma sess_step_close:
  "sessions d' = tupd p f (sessions d) \<Longrightarrow> next_id d \<le> next_id d' \<Longrightarrow> (\<And>r. closes r (f r)) \<Longrightarrow> sess_step d d'"
  by (auto simp: sess_step_def sess_inv_def intro: sess_ok_close sess_ok_mono family_dead_close)

subsection \<open>What the operations do to the sessions\<close>

lemma flush_ok [simp]: "flush d = Inr u \<longleftrightarrow> identity_constraints d"
  by (simp add: flush_def)

lemma identity_setters [simp]:
  "sessions (set_user i f d) = sessions d" "next_id (set_user i f d) = next_id d"
  "sessions (set_invitation i g d) = sessions d" "next_id (set_invitation i g d) = next_id d"
  "sessions (set_session i h d) = tupd (\<lambda>s. s_id s = i) h (sessions d)" "next_id (set_session i h d) = next_id d"
  "users (set_session i h d) = users d" "memberships (set_session i h d) = memberships d"
  "sessions (add_membership now uid org role d) = sessions d"
  "next_id (add_membership now uid org role d) = Suc (next_id d)"
  "sessions (start_trial now org d) = sessions d" "next_id (start_trial now org d) = Suc (next_id d)"
  "sessions (add_tenant env n sl e fn pw d) = sessions d" "next_id (add_tenant env n sl e fn pw d) = next_id d + 2"
  by (simp_all add: set_user_def set_invitation_def set_session_def add_membership_def start_trial_def
      add_tenant_def Let_def)

lemma enqueue_keeps:
  "enqueue encrypt now q d = Inr (r, d') \<Longrightarrow>
   sessions d' = sessions d \<and> users d' = users d \<and> memberships d' = memberships d \<and>
   invitations d' = invitations d \<and> user_tokens d' = user_tokens d \<and>
   mfa_challenges d' = mfa_challenges d \<and> mfa_recovery_codes d' = mfa_recovery_codes d \<and> next_id d \<le> next_id d'"
  by (erule enqueue_cases) simp_all

lemma send_invitation_keeps:
  assumes "send_invitation env now ctx i token d = Inr (u, d')"
  shows "sessions d' = sessions d \<and> users d' = users d \<and> memberships d' = memberships d \<and> next_id d \<le> next_id d' \<and>
     invitations d' = tupd (\<lambda>r. inv_id r = inv_id i) (\<lambda>r. r\<lparr>inv_last_sent_at := Some now\<rparr>) (invitations d)"
  using assms
  by (auto simp: send_invitation_def Let_def bind_eq_Inr set_invitation_def dest!: enqueue_keeps split: option.splits)

lemma register_step: "register_organization env now ctx n sl e fn pw d = Inr (r, d') \<Longrightarrow> sess_step d d'"
  by (rule sess_step_frame) (auto simp: register_organization_def Let_def bind_eq_Inr)

lemma authenticate_step: "sess_step d (snd (authenticate env now ctx e pw d))"
  by (rule sess_step_frame)
    (auto simp: authenticate_def record_failed_login_def Let_def split: sum.splits option.splits)

lemma invitation_steps:
  "create_invitation env now ctx rnd e role d = Inr (i, d') \<Longrightarrow> sess_step d d'"
  "resend_invitation env now ctx rnd j d = Inr (i, d') \<Longrightarrow> sess_step d d'"
  "revoke_invitation now ctx j d = Inr (i, d') \<Longrightarrow> sess_step d d'"
  by (rule sess_step_frame;
      auto simp: create_invitation_def resend_invitation_def revoke_invitation_def Let_def bind_eq_Inr
        dest!: send_invitation_keeps split: option.splits if_splits)+

lemma accept_invitation_step: "accept_invitation env now ctx token fn pw d = Inr (r, d') \<Longrightarrow> sess_step d d'"
  by (rule sess_step_frame)
    (auto simp: accept_invitation_def invited_account_def Let_def bind_eq_Inr or_text_def split: option.splits if_splits)

lemma start_session_step:
  assumes "start_session env now ctx rnd u m d = Inr (a, d')"
  shows "sess_step d d'"
proof -
  let ?s = "\<lparr>s_id = Suc (next_id d), s_user_id = u_id u, s_organization_id = map_option m_organization_id m,
     s_family_id = next_id d, s_refresh_token_hash = iv_sha env (opaque_secret ''vrt'' rnd),
     s_user_agent = stored_agent ctx, s_ip_address = c_ip_address ctx, s_expires_at = now + iv_refresh_ttl env,
     s_revoked_at = None, s_reuse_detected_at = None, s_last_used_at = Some now, s_replaced_by_id = None\<rparr>"
  have d': "sessions d' = sessions d @ [?s]" "next_id d' = Suc (Suc (next_id d))"
    using assms by (auto simp: start_session_def Let_def bind_eq_Inr)
  have "sess_ok (Suc (Suc (next_id d))) (sessions d @ [?s])" if "sess_inv d"
  proof (rule sess_ok_snoc)
    have fam: "s_family_id t < next_id d" if "t \<in> set (sessions d)" for t
      using \<open>sess_inv d\<close> that by (simp add: sess_inv_def sess_ok_def list_all_iff)
    show "sess_ok (Suc (next_id d)) (sessions d)"
      using that by (simp add: sess_inv_def sess_ok_mono)
    show "family_dead (s_family_id ?s) (sessions d)"
      using fam by (fastforce simp: family_dead_def list_all_iff)
    show "t \<in> set (sessions d) \<Longrightarrow> s_family_id t = s_family_id ?s \<Longrightarrow> s_user_id t = s_user_id ?s" for t
      using fam by fastforce
  qed simp_all
  then show ?thesis
    by (simp add: sess_step_def sess_inv_def d')
qed

lemma revoke_family_frame [simp]:
  "sessions (revoke_family now reuse fam d) = tupd (\<lambda>s. s_family_id s = fam \<and> s_revoked_at s = None)
     (\<lambda>s. s\<lparr>s_revoked_at := Some now,
            s_reuse_detected_at := (if reuse then Some now else s_reuse_detected_at s)\<rparr>) (sessions d)"
  "next_id (revoke_family now reuse fam d) = next_id d"
  by (simp_all add: revoke_family_def)

lemma revoke_family_step: "sess_step d (record_audit ctx a rt ri oid (revoke_family now reuse fam d))"
  by (rule sess_step_close) (auto simp: closes_def)

lemma logout_step: "logout env now ctx token d = Inr (u, d') \<Longrightarrow> sess_step d d'"
  by (auto simp: logout_def bind_eq_Inr revoke_family_step split: option.splits)

lemma report_reuse_step: "sess_step d (report_reuse now ctx s d)"
  by (simp add: report_reuse_def revoke_family_step)

text \<open>After a reuse the family is dead.\<close>

lemma report_reuse_dead: "family_dead (s_family_id s) (sessions (report_reuse now ctx s d))"
  by (auto simp: report_reuse_def family_dead_def list_all_iff set_tupd)

lemma transact_cases: "transact f d = (r, d') \<Longrightarrow> (\<exists>e. r = Inl e \<and> d' = d) \<or> (\<exists>a. r = Inr a \<and> f d = Inr (a, d'))"
  by (auto simp: transact_def split: sum.splits prod.splits)

text \<open>A rotation: refused, refused as a reuse, or done.\<close>

lemma rotate_session_cases:
  assumes "rotate_session env now ctx rnd s d = (r, d')"
  obtains (refused) e where "r = Inl e" "d' = d"
  | (reuse) "s_revoked_at s \<noteq> None" "unused_successor env now ctx s d = None"
      "r = Inl InvalidCredentialsError" "d' = report_reuse now ctx s d"
  | (fresh) u a where "s_revoked_at s = None" "tget u_id (users d) (s_user_id s) = Some u" "u_status u = UserActive"
      "now < s_expires_at s" "r = Inr a" "open_successor env now ctx rnd u s d = Inr (a, d')"
  | (retried) u a x where "s_revoked_at s \<noteq> None" "unused_successor env now ctx s d = Some x"
      "tget u_id (users d) (s_user_id s) = Some u" "u_status u = UserActive" "now < s_expires_at s" "r = Inr a"
      "open_successor env now ctx rnd u s (supersede now ctx s (Some x) d) = Inr (a, d')"
proof (cases "s_revoked_at s \<noteq> None \<and> unused_successor env now ctx s d = None")
  case True
  then show ?thesis
    using assms reuse by (auto simp: rotate_session_def Let_def)
next
  case False
  let ?succ = "if s_revoked_at s = None then None else unused_successor env now ctx s d"
  show ?thesis
  proof (cases "now < s_expires_at s \<and> (\<exists>u. tget u_id (users d) (s_user_id s) = Some u \<and> u_status u = UserActive)")
    case True
    then obtain u where u: "now < s_expires_at s" "tget u_id (users d) (s_user_id s) = Some u" "u_status u = UserActive"
      by blast
    then have "transact (\<lambda>d. open_successor env now ctx rnd u s (supersede now ctx s ?succ d)) d = (r, d')"
      using assms False by (auto simp: rotate_session_def Let_def)
    from transact_cases [OF this] show ?thesis
    proof
      assume "\<exists>a. r = Inr a \<and> open_successor env now ctx rnd u s (supersede now ctx s ?succ d) = Inr (a, d')"
      then show ?thesis
        using fresh retried u False by (cases "s_revoked_at s") (auto simp: supersede_def split: option.splits)
    qed (use refused in blast)
  next
    case nope: False
    have "\<exists>e. r = Inl e \<and> d' = d"
      using assms False nope by (auto simp: rotate_session_def Let_def split: option.splits if_splits)
    then show ?thesis
      using refused by blast
  qed
qed

text \<open>Opening a successor of \<open>s\<close> in a database where the whole family of \<open>s\<close> is closed but for \<open>s\<close>.\<close>

lemma open_successor_sessions:
  assumes "open_successor env now ctx rnd u s d = Inr (a, d')"
  obtains n where "n = rotated env now ctx (opaque_secret ''vrt'' rnd) (next_id d) (u_id u) s"
    "sessions d' = tupd (\<lambda>q. s_id q = s_id s) (\<lambda>q. q\<lparr>s_replaced_by_id := Some (s_id n)\<rparr>)
       ((if s_revoked_at s = None then tupd (\<lambda>q. s_id q = s_id s) (revoke_session now) (sessions d) else sessions d) @ [n])"
    "next_id d' = Suc (next_id d)" "au_refresh_token a = opaque_secret ''vrt'' rnd" "au_session_id a = s_id n"
proof -
  let ?n = "rotated env now ctx (opaque_secret ''vrt'' rnd) (next_id d) (u_id u) s"
  let ?d = "if s_revoked_at s = None then set_session (s_id s) (revoke_session now) d else d"
  have "d' = set_session (s_id s) (\<lambda>r. r\<lparr>s_replaced_by_id := Some (s_id ?n)\<rparr>)
          (?d\<lparr>sessions := sessions ?d @ [?n], next_id := Suc (next_id d)\<rparr>)"
    "au_refresh_token a = opaque_secret ''vrt'' rnd" "au_session_id a = s_id ?n"
    using assms by (auto simp only: open_successor_def Let_def bind_eq_Inr sum.inject prod.inject authenticated.simps)
  then show ?thesis
    by (intro that [of ?n]) (simp_all add: set_session_def)
qed

lemma open_successor_step:
  assumes "open_successor env now ctx rnd u s d = Inr (a, d')" and inv: "sess_inv d"
    and q: "q \<in> set (sessions d)" "s_id q = s_id s" "s_family_id q = s_family_id s" "s_user_id q = u_id u"
    and closed: "\<And>t. t \<in> set (sessions d) \<Longrightarrow> s_family_id t = s_family_id s \<Longrightarrow> t \<noteq> q \<Longrightarrow> s_revoked_at t \<noteq> None"
    and s: "s_revoked_at s = s_revoked_at q"
  shows "sess_inv d'" "fam \<noteq> s_family_id s \<Longrightarrow> family_dead fam (sessions d) \<Longrightarrow> family_dead fam (sessions d')"
proof -
  from assms(1) obtain n where n: "n = rotated env now ctx (opaque_secret ''vrt'' rnd) (next_id d) (u_id u) s"
    and d': "sessions d' = tupd (\<lambda>q. s_id q = s_id s) (\<lambda>q. q\<lparr>s_replaced_by_id := Some (s_id n)\<rparr>)
       ((if s_revoked_at s = None then tupd (\<lambda>q. s_id q = s_id s) (revoke_session now) (sessions d) else sessions d) @ [n])"
    and i: "next_id d' = Suc (next_id d)"
    by (rule open_successor_sessions)
  define rows where "rows = (if s_revoked_at s = None then tupd (\<lambda>q. s_id q = s_id s) (revoke_session now) (sessions d) else sessions d)"
  have ok: "sess_ok (next_id d) (sessions d)"
    using inv by (simp add: sess_inv_def)
  have ids: "ids_ok s_id (next_id d) (sessions d)"
    using ok by (simp add: sess_ok_def)
  then have "tget s_id (sessions d) (s_id s) = Some q"
    using tget_SomeI [of s_id "sessions d" q] q by (simp add: ids_ok_def)
  then have only: "t = q" if "t \<in> set (sessions d)" "s_id t = s_id s" for t
    using ids_ok_get [OF ids] that by blast
  have rows_ok: "sess_ok (next_id d) rows"
    using ok by (auto simp: rows_def closes_def revoke_session_def intro: sess_ok_close)
  have "s_revoked_at t \<noteq> None" if t: "t \<in> set rows" "s_family_id t = s_family_id s" for t
  proof (cases "s_revoked_at s = None")
    case True
    then obtain t0 where "t0 \<in> set (sessions d)" "t = (if s_id t0 = s_id s then revoke_session now t0 else t0)"
      using t(1) by (auto simp: rows_def set_tupd)
    then show ?thesis
      using closed [of t0] q(2) t(2) by (cases "s_id t0 = s_id s") (auto simp: revoke_session_def)
  next
    case False
    then show ?thesis
      using t closed [of t] s by (cases "t = q") (auto simp: rows_def)
  qed
  then have dead: "family_dead (s_family_id s) rows"
    by (simp add: family_dead_def list_all_iff)
  have fields: "\<exists>t0 \<in> set (sessions d). s_id t0 = s_id t \<and> s_family_id t0 = s_family_id t \<and> s_user_id t0 = s_user_id t" if "t \<in> set rows" for t
    using that by (auto simp: rows_def set_tupd revoke_session_def split: if_splits)
  have own: "s_user_id t = u_id u" if "t \<in> set rows" "s_family_id t = s_family_id s" for t
    using fields [OF that(1)] ok q that(2) unfolding sess_ok_def one_owner_def list_all_iff by metis
  have lt: "s_family_id s < next_id d" "s_id s < next_id d"
    using ok q by (auto simp: sess_ok_def ids_ok_def list_all_iff)
  have nf: "s_id n = next_id d" "s_family_id n = s_family_id s" "s_user_id n = u_id u" "s_replaced_by_id n = None"
    using n by (simp_all add: rotated_def)
  have app: "sess_ok (Suc (next_id d)) (rows @ [n])"
    using rows_ok dead own lt nf by (intro sess_ok_snoc) auto
  have c: "s_revoked_at t \<noteq> None \<and> s_family_id t = s_family_id n" if "t \<in> set (rows @ [n])" "s_id t = s_id s" for t
  proof -
    have t: "t \<in> set rows"
      using that lt nf by auto
    then have "s_family_id t = s_family_id s"
      using fields [OF t] only q(3) that(2) by metis
    then show ?thesis
      using dead t nf by (simp add: family_dead_def list_all_iff)
  qed
  have g: "tget s_id (rows @ [n]) (s_id n) = Some n"
    using app by (intro tget_SomeI) (auto simp: sess_ok_def ids_ok_def)
  show "sess_inv d'"
    unfolding sess_inv_def i d' rows_def [symmetric] by (rule sess_ok_replace [OF app g c])
  show "fam \<noteq> s_family_id s \<Longrightarrow> family_dead fam (sessions d) \<Longrightarrow> family_dead fam (sessions d')"
    using nf by (auto simp: d' rows_def [symmetric]) (auto simp: rows_def family_dead_def list_all_iff set_tupd revoke_session_def)
qed

lemma session_by_token_some:
  "session_by_token env token d = Inr (Some s) \<Longrightarrow> s \<in> set (sessions d) \<and> s_refresh_token_hash s = iv_sha env token"
  by (auto simp: session_by_token_def dest: one_or_none_filterD)

lemma unused_successor_some:
  assumes "unused_successor env now ctx s d = Some x"
  shows "s_replaced_by_id s = Some (s_id x)" "tget s_id (sessions d) (s_id x) = Some x" "s_revoked_at x = None"
    "s_revoked_at s \<noteq> None" "s_reuse_detected_at s = None" "s_user_agent s = c_user_agent ctx"
proof -
  obtain i t where i: "s_replaced_by_id s = Some i" "s_revoked_at s = Some t"
    using assms by (auto simp: unused_successor_def split: option.splits)
  then have x: "tget s_id (sessions d) i = Some x" "s_revoked_at x = None" "s_reuse_detected_at s = None"
    "s_user_agent s = c_user_agent ctx"
    using assms by (auto simp: unused_successor_def split: option.splits if_splits)
  moreover have "s_id x = i"
    using tget_SomeD [OF x(1)] by blast
  ultimately show "s_replaced_by_id s = Some (s_id x)" "tget s_id (sessions d) (s_id x) = Some x" "s_revoked_at x = None"
    "s_revoked_at s \<noteq> None" "s_reuse_detected_at s = None" "s_user_agent s = c_user_agent ctx"
    using i by simp_all
qed

lemma sess_inv_open_unique:
  assumes "sess_inv d" "s \<in> set (sessions d)" "t \<in> set (sessions d)" "s_family_id s = s_family_id t"
    "s_revoked_at s = None" "s_revoked_at t = None"
  shows "s = t"
  using assms unique_on_memb [of "\<lambda>s. s_revoked_at s = None" s_family_id "sessions d" s t]
  by (auto simp: sess_inv_def sess_ok_def)

lemma sess_inv_chain:
  "sess_inv d \<Longrightarrow> s \<in> set (sessions d) \<Longrightarrow> s_replaced_by_id s = Some i \<Longrightarrow> tget s_id (sessions d) i = Some x \<Longrightarrow>
   s_family_id x = s_family_id s"
  by (fastforce simp: sess_inv_def sess_ok_def list_all_iff chained_iff)

lemma supersede_sessions [simp]:
  "sessions (supersede now ctx s (Some x) d) = tupd (\<lambda>q. s_id q = s_id x) (revoke_session now) (sessions d)"
  "next_id (supersede now ctx s y d) = next_id d"
  by (simp_all add: supersede_def split: option.split)

lemma rotate_session_step:
  assumes s: "s \<in> set (sessions d)" and r: "rotate_session env now ctx rnd s d = (r, d')"
  shows "sess_step d d'"
  using r
proof (cases rule: rotate_session_cases)
  case (fresh u a)
  have uid: "u_id u = s_user_id s"
    using tget_SomeD [OF fresh(2)] by simp
  have "sess_inv d' \<and> (\<forall>fam < next_id d. family_dead fam (sessions d) \<longrightarrow> family_dead fam (sessions d'))" if inv: "sess_inv d"
  proof -
    have closed: "s_revoked_at t \<noteq> None" if "t \<in> set (sessions d)" "s_family_id t = s_family_id s" "t \<noteq> s" for t
      using sess_inv_open_unique [OF inv that(1) s that(2)] fresh(1) that(3) by auto
    have "fam \<noteq> s_family_id s" if "family_dead fam (sessions d)" for fam
      using that s fresh(1) by (auto simp: family_dead_def list_all_iff)
    then show ?thesis
      using open_successor_step [OF fresh(6) inv s refl refl uid [symmetric] closed refl] by blast
  qed
  then show ?thesis
    using fresh(6) by (auto simp: sess_step_def elim: open_successor_sessions)
next
  case (retried u a x)
  note x = unused_successor_some [OF retried(2)]
  let ?d = "supersede now ctx s (Some x) d"
  have uid: "u_id u = s_user_id s"
    using tget_SomeD [OF retried(3)] by simp
  have xs: "x \<in> set (sessions d)"
    using tget_SomeD [OF x(2)] by simp
  have "sess_inv d' \<and> (\<forall>fam < next_id d. family_dead fam (sessions d) \<longrightarrow> family_dead fam (sessions d'))" if inv: "sess_inv d"
  proof -
    have fam: "s_family_id x = s_family_id s"
      by (rule sess_inv_chain [OF inv s x(1,2)])
    have ids: "ids_ok s_id (next_id d) (sessions d)"
      using inv by (simp add: sess_inv_def sess_ok_def)
    have "s_id s \<noteq> s_id x"
      using ids_ok_get [OF ids x(2) s] x(3,4) by auto
    then have sd: "s \<in> set (sessions ?d)"
      using s by (auto simp: set_tupd intro!: bexI [of _ s])
    have inv1: "sess_inv ?d"
      using inv by (auto simp: sess_inv_def closes_def revoke_session_def intro!: sess_ok_close)
    have closed: "s_revoked_at t \<noteq> None" if t: "t \<in> set (sessions ?d)" "s_family_id t = s_family_id s" for t
    proof
      assume o': "s_revoked_at t = None"
      obtain q where q: "q \<in> set (sessions d)" "t = (if s_id q = s_id x then revoke_session now q else q)"
        using t(1) by (auto simp: set_tupd)
      then have td: "t \<in> set (sessions d)" "s_id t \<noteq> s_id x"
        using o' by (auto simp: revoke_session_def split: if_splits)
      then show False
        using sess_inv_open_unique [OF inv td(1) xs] t(2) fam o' x(3) by auto
    qed
    have "fam \<noteq> s_family_id s" "family_dead fam (sessions ?d)" if "family_dead fam (sessions d)" for fam
      using that xs fam x(3)
      by (auto simp: family_dead_def list_all_iff set_tupd revoke_session_def)
    then show ?thesis
      using open_successor_step [OF retried(7) inv1 sd refl refl uid [symmetric] closed refl] by blast
  qed
  then show ?thesis
    using retried(7) by (auto simp: sess_step_def elim: open_successor_sessions)
qed (simp_all add: report_reuse_step)

lemma rotate_step: "sess_step d (snd (rotate_refresh_token env id now ctx rnd token d))"
proof (cases "session_by_token env token d")
  case (Inr row)
  then show ?thesis
    using rotate_session_step [of _ d env now ctx rnd] session_by_token_some [of env token d]
    by (cases row) (auto simp: rotate_refresh_token_def split: prod.splits intro: prod.collapse [symmetric])
qed (simp add: rotate_refresh_token_def)

subsection \<open>The life of an invitation\<close>

datatype invitation_state = InvPending | InvAccepted | InvRevoked

definition invitation_state :: "invitation \<Rightarrow> invitation_state" where
  "invitation_state i =
     (if inv_accepted_at i \<noteq> None then InvAccepted else if inv_revoked_at i \<noteq> None then InvRevoked else InvPending)"

definition invitation_arrow :: "invitation_state \<Rightarrow> invitation_state \<Rightarrow> bool" where
  "invitation_arrow a b \<longleftrightarrow> a = InvPending \<and> b \<noteq> InvPending"

definition invitation_settled :: "invitation_state \<Rightarrow> bool" where
  "invitation_settled a \<longleftrightarrow> a \<noteq> InvPending"

definition get_invitation :: "db \<Rightarrow> uuid \<Rightarrow> invitation option" where
  "get_invitation d i = tget inv_id (invitations d) i"

definition invit_inv :: "db \<Rightarrow> bool" where
  "invit_inv d \<longleftrightarrow> ids_ok inv_id (next_id d) (invitations d) \<and>
     unique_on (\<lambda>_. True) inv_token_hash (invitations d) \<and>
     list_all (\<lambda>i. inv_role_key i \<noteq> ROwner) (invitations d)"

definition same_terms :: "invitation \<Rightarrow> invitation \<Rightarrow> bool" where
  "same_terms a b \<longleftrightarrow> inv_id b = inv_id a \<and> inv_organization_id b = inv_organization_id a \<and>
     inv_email b = inv_email a \<and> inv_role_key b = inv_role_key a"

definition invit_step :: "db \<Rightarrow> db \<Rightarrow> bool" where
  "invit_step d d' \<longleftrightarrow> (invit_inv d \<longrightarrow> invit_inv d' \<and>
     (\<forall>i r. get_invitation d i = Some r \<longrightarrow> (\<exists>r'. get_invitation d' i = Some r' \<and> same_terms r r' \<and>
        (invitation_state r' = invitation_state r \<or> invitation_arrow (invitation_state r) (invitation_state r')) \<and>
        (invitation_settled (invitation_state r) \<longrightarrow> r' = r))))"

lemma invit_step_frame: "invitations d' = invitations d \<Longrightarrow> next_id d \<le> next_id d' \<Longrightarrow> invit_step d d'"
  by (auto simp: invit_step_def invit_inv_def get_invitation_def same_terms_def intro: ids_ok_mono)

lemma same_terms_refl [simp]: "same_terms r r"
  by (simp add: same_terms_def)

text \<open>Changing the pending invitation \<open>j\<close>.\<close>

lemma invit_step_set:
  assumes d': "invitations d' = tupd (\<lambda>r. inv_id r = j) f (invitations d)" "next_id d \<le> next_id d'"
    and f: "\<And>r. same_terms r (f r)"
    and x: "get_invitation d j = Some x" "inv_accepted_at x = None" "inv_revoked_at x = None"
    and uniq: "unique_on (\<lambda>_. True) inv_token_hash (invitations d')"
  shows "invit_step d d'"
  unfolding invit_step_def
proof
  assume inv: "invit_inv d"
  have k: "inv_id (f r) = inv_id r" "inv_role_key (f r) = inv_role_key r" for r
    using f [of r] by (simp_all add: same_terms_def)
  have "invit_inv d'"
    using inv uniq k d'(2) unfolding invit_inv_def d'(1)
    by (auto simp: ids_ok_tupd list_all_iff set_tupd split: if_splits intro: ids_ok_mono)
  moreover have "get_invitation d' i = map_option (\<lambda>r. if inv_id r = j then f r else r) (get_invitation d i)" for i
    unfolding get_invitation_def d'(1) by (rule tget_tupd) (simp add: k)
  moreover have "invitation_state r = InvPending"
    if "get_invitation d i = Some r" "inv_id r = j" for i r
  proof -
    have "r = x"
      using that x(1) tget_SomeD [of inv_id "invitations d" i r] by (simp add: get_invitation_def)
    then show ?thesis
      using x by (simp add: invitation_state_def)
  qed
  ultimately show "invit_inv d' \<and> (\<forall>i r. get_invitation d i = Some r \<longrightarrow> (\<exists>r'. get_invitation d' i = Some r' \<and> same_terms r r' \<and>
        (invitation_state r' = invitation_state r \<or> invitation_arrow (invitation_state r) (invitation_state r')) \<and>
        (invitation_settled (invitation_state r) \<longrightarrow> r' = r)))"
    using f by (auto simp: invitation_settled_def invitation_arrow_def)
qed

lemma invit_step_refl [simp]: "invit_step d d"
  by (rule invit_step_frame) simp_all

lemma invit_stepD:
  assumes "invit_step d d'" "invit_inv d" "get_invitation d i = Some r"
  obtains r' where "get_invitation d' i = Some r'" "same_terms r r'"
    "invitation_state r' = invitation_state r \<or> invitation_arrow (invitation_state r) (invitation_state r')"
    "invitation_settled (invitation_state r) \<Longrightarrow> r' = r"
  using assms by (auto simp: invit_step_def)

lemma invit_step_trans:
  assumes "invit_step d d1" "invit_step d1 d2"
  shows "invit_step d d2"
  unfolding invit_step_def
proof (intro impI conjI allI)
  assume inv: "invit_inv d"
  then have inv1: "invit_inv d1"
    using assms(1) by (simp add: invit_step_def)
  then show "invit_inv d2"
    using assms(2) by (simp add: invit_step_def)
  fix i r
  assume r: "get_invitation d i = Some r"
  from invit_stepD [OF assms(1) inv r] obtain r1 where r1: "get_invitation d1 i = Some r1" "same_terms r r1"
    "invitation_state r1 = invitation_state r \<or> invitation_arrow (invitation_state r) (invitation_state r1)"
    "invitation_settled (invitation_state r) \<Longrightarrow> r1 = r"
    by blast
  from invit_stepD [OF assms(2) inv1 r1(1)] obtain r2 where r2: "get_invitation d2 i = Some r2" "same_terms r1 r2"
    "invitation_state r2 = invitation_state r1 \<or> invitation_arrow (invitation_state r1) (invitation_state r2)"
    "invitation_settled (invitation_state r1) \<Longrightarrow> r2 = r1"
    by blast
  show "\<exists>r'. get_invitation d2 i = Some r' \<and> same_terms r r' \<and>
      (invitation_state r' = invitation_state r \<or> invitation_arrow (invitation_state r) (invitation_state r')) \<and>
      (invitation_settled (invitation_state r) \<longrightarrow> r' = r)"
    using r1 r2 by (auto simp: invitation_arrow_def invitation_settled_def same_terms_def)
qed

lemma identity_constraints_tokens: "identity_constraints d \<Longrightarrow> unique_on (\<lambda>_. True) inv_token_hash (invitations d)"
  by (simp add: identity_constraints_def)

lemma unique_tokens_mail:
  "unique_on (\<lambda>_. True) inv_token_hash (tupd p (\<lambda>r. r\<lparr>inv_last_sent_at := x\<rparr>) rows) = unique_on (\<lambda>_. True) inv_token_hash rows"
  by (simp add: unique_on_def map_tupd)

lemma send_invitation_step:
  assumes "send_invitation env now ctx i token d = Inr (u, d')" "get_invitation d (inv_id i) = Some x"
    "inv_accepted_at x = None" "inv_revoked_at x = None" "unique_on (\<lambda>_. True) inv_token_hash (invitations d)"
  shows "invit_step d d'"
  using send_invitation_keeps [OF assms(1)] assms(2-5)
  by (intro invit_step_set [of d' "inv_id i" "\<lambda>r. r\<lparr>inv_last_sent_at := Some now\<rparr>"])
    (simp_all add: same_terms_def unique_tokens_mail)

lemma get_invitation_tupd:
  "(\<And>r. inv_id (f r) = inv_id r) \<Longrightarrow> invitations d' = tupd (\<lambda>r. inv_id r = j) f (invitations d) \<Longrightarrow>
   get_invitation d j = Some x \<Longrightarrow> get_invitation d' j = Some (f x)"
  using tget_SomeD [of inv_id "invitations d" j x] by (simp add: get_invitation_def tget_tupd)

lemma tenant_invitation_ok:
  "tenant_invitation ctx i d = Inr x \<longleftrightarrow> get_invitation d i = Some x \<and> c_organization_id ctx = Some (inv_organization_id x)"
  by (auto simp: tenant_invitation_def get_invitation_def split: option.splits)

lemma create_invitation_inv:
  assumes "create_invitation env now ctx rnd email role d = Inr (i, d')"
  obtains org x d1 d2 where "c_organization_id ctx = Some org" "role \<noteq> ROwner" "enforce_user_limit now org d = Inr ()"
    "x = \<lparr>inv_id = next_id d, inv_organization_id = org, inv_email = lower (strip email), inv_role_key = role,
      inv_token_hash = iv_sha env (opaque_secret ''vri'' rnd), inv_invited_by_user_id = c_user_id ctx,
      inv_expires_at = now + iv_invitation_ttl env, inv_accepted_at = None, inv_revoked_at = None, inv_last_sent_at = None\<rparr>"
    "d1 = d\<lparr>invitations := invitations d @ [x], next_id := Suc (next_id d)\<rparr>" "identity_constraints d1"
    "send_invitation env now ctx x (opaque_secret ''vri'' rnd) d1 = Inr ((), d2)"
    "invitations d' = invitations d2" "next_id d' = Suc (next_id d2)" "i = next_id d"
proof -
  obtain org where org: "c_organization_id ctx = Some org"
    using assms by (cases "c_organization_id ctx") (auto simp: create_invitation_def)
  define x where "x = \<lparr>inv_id = next_id d, inv_organization_id = org, inv_email = lower (strip email), inv_role_key = role,
      inv_token_hash = iv_sha env (opaque_secret ''vri'' rnd), inv_invited_by_user_id = c_user_id ctx,
      inv_expires_at = now + iv_invitation_ttl env, inv_accepted_at = None, inv_revoked_at = None, inv_last_sent_at = None\<rparr>"
  define d1 where "d1 = d\<lparr>invitations := invitations d @ [x], next_id := Suc (next_id d)\<rparr>"
  have "bind (flush d1) (\<lambda>_. bind (send_invitation env now ctx x (opaque_secret ''vri'' rnd) d1) (\<lambda>(_, d2).
       Inr (inv_id x, publish_event now (OtherEvent ''invitation.created'')
         (record_audit ctx ''invitation.created'' ''invitation'' (Some (inv_id x)) None d2)))) = Inr (i, d')"
    and ok: "role \<noteq> ROwner" "enforce_user_limit now org d = Inr ()"
    using assms by (auto simp: create_invitation_def org Let_def bind_eq_Inr x_def d1_def)
  then obtain d2 where d2: "identity_constraints d1" "send_invitation env now ctx x (opaque_secret ''vri'' rnd) d1 = Inr ((), d2)"
    "invitations d' = invitations d2" "next_id d' = Suc (next_id d2)" "i = next_id d"
    by (auto simp: bind_eq_Inr x_def)
  show ?thesis
    by (rule that [OF org ok x_def d1_def d2])
qed

lemma create_invitation_step: "create_invitation env now ctx rnd email role d = Inr (i, d') \<Longrightarrow> invit_step d d'"
proof (erule create_invitation_inv)
  fix org x d1 d2
  assume h: "role \<noteq> ROwner" and x: "x = \<lparr>inv_id = next_id d, inv_organization_id = org, inv_email = lower (strip email),
      inv_role_key = role, inv_token_hash = iv_sha env (opaque_secret ''vri'' rnd), inv_invited_by_user_id = c_user_id ctx,
      inv_expires_at = now + iv_invitation_ttl env, inv_accepted_at = None, inv_revoked_at = None, inv_last_sent_at = None\<rparr>"
    and d1: "d1 = d\<lparr>invitations := invitations d @ [x], next_id := Suc (next_id d)\<rparr>" "identity_constraints d1"
    and send: "send_invitation env now ctx x (opaque_secret ''vri'' rnd) d1 = Inr ((), d2)"
    and d': "invitations d' = invitations d2" "next_id d' = Suc (next_id d2)"
  have i1: "invitations d1 = invitations d @ [x]" "next_id d1 = Suc (next_id d)" "inv_id x = next_id d" "inv_role_key x = role"
    by (simp_all add: d1(1) x)
  have u1: "unique_on (\<lambda>_. True) inv_token_hash (invitations d @ [x])"
    using identity_constraints_tokens [OF d1(2)] by (simp add: i1)
  have first: "invit_step d d1"
    unfolding invit_step_def
  proof
    assume inv: "invit_inv d"
    then have "invit_inv d1"
      using h u1 i1 by (simp add: invit_inv_def ids_ok_snoc)
    then show "invit_inv d1 \<and> (\<forall>i r. get_invitation d i = Some r \<longrightarrow> (\<exists>r'. get_invitation d1 i = Some r' \<and> same_terms r r' \<and>
        (invitation_state r' = invitation_state r \<or> invitation_arrow (invitation_state r) (invitation_state r')) \<and>
        (invitation_settled (invitation_state r) \<longrightarrow> r' = r)))"
      by (simp add: get_invitation_def i1 tget_append_Some)
  qed
  have "invit_step d1 d2" if "invit_inv d"
  proof (rule send_invitation_step [OF send])
    show "get_invitation d1 (inv_id x) = Some x"
      using that ids_ok_fresh [of inv_id "next_id d" "invitations d"]
      by (simp add: get_invitation_def i1 tget_append invit_inv_def)
    show "unique_on (\<lambda>_. True) inv_token_hash (invitations d1)"
      using u1 by (simp add: i1)
  qed (simp_all add: x)
  moreover have "invit_step d2 d'"
    by (rule invit_step_frame) (simp_all add: d')
  ultimately show "invit_step d d'"
    using first invit_step_trans by (meson invit_step_def)
qed

lemma resend_invitation_step:
  assumes "resend_invitation env now ctx rnd j d = Inr (i, d')"
  shows "invit_step d d'"
proof -
  let ?token = "opaque_secret ''vri'' rnd"
  let ?f = "\<lambda>r. r\<lparr>inv_token_hash := iv_sha env ?token, inv_expires_at := now + iv_invitation_ttl env\<rparr>"
  obtain x d2 where x: "get_invitation d j = Some x" "inv_accepted_at x = None" "inv_revoked_at x = None"
    and c: "identity_constraints (set_invitation j ?f d)"
    and send: "send_invitation env now ctx (?f x) ?token (set_invitation j ?f d) = Inr ((), d2)"
    and d': "d' = record_audit ctx ''invitation.resent'' ''invitation'' (Some j) None d2"
    using assms by (auto simp: resend_invitation_def Let_def bind_eq_Inr tenant_invitation_ok)
  have i: "invitations (set_invitation j ?f d) = tupd (\<lambda>r. inv_id r = j) ?f (invitations d)"
    by (simp add: set_invitation_def)
  have "inv_id x = j"
    using tget_SomeD x(1) by (fastforce simp: get_invitation_def)
  have "invit_step d (set_invitation j ?f d)"
    using identity_constraints_tokens [OF c] x by (intro invit_step_set [OF i]) (auto simp: same_terms_def)
  moreover have "invit_step (set_invitation j ?f d) d2"
    using x \<open>inv_id x = j\<close> get_invitation_tupd [OF _ i x(1)] identity_constraints_tokens [OF c]
    by (intro send_invitation_step [OF send, where x = "?f x"]) simp_all
  moreover have "invit_step d2 d'"
    by (rule invit_step_frame) (simp_all add: d')
  ultimately show ?thesis
    using invit_step_trans by blast
qed

lemma revoke_invitation_step:
  assumes "revoke_invitation now ctx j d = Inr (i, d')"
  shows "invit_step d d'"
proof -
  obtain x where x: "get_invitation d j = Some x" "inv_accepted_at x = None"
    and d': "d' = (if inv_revoked_at x \<noteq> None then d
       else record_audit ctx ''invitation.revoked'' ''invitation'' (Some j) None
              (set_invitation j (\<lambda>r. r\<lparr>inv_revoked_at := Some now\<rparr>) d))"
    using assms by (cases "tenant_invitation ctx j d")
      (auto simp: revoke_invitation_def tenant_invitation_ok raise_if_def split: if_splits)
  have "unique_on (\<lambda>_. True) inv_token_hash (tupd (\<lambda>r. inv_id r = j) (\<lambda>r. r\<lparr>inv_revoked_at := Some now\<rparr>) (invitations d))"
    if "invit_inv d"
    using that by (simp add: invit_inv_def unique_on_def map_tupd)
  then have "invit_step d (record_audit ctx ''invitation.revoked'' ''invitation'' (Some j) None
              (set_invitation j (\<lambda>r. r\<lparr>inv_revoked_at := Some now\<rparr>) d))" if "inv_revoked_at x = None" "invit_inv d"
    using x that by (intro invit_step_set [of _ j "\<lambda>r. r\<lparr>inv_revoked_at := Some now\<rparr>"])
      (simp_all add: set_invitation_def same_terms_def)
  then show ?thesis
    using d' by (cases "inv_revoked_at x") (simp_all add: invit_step_def)
qed

lemma open_invitation_by_token_ok:
  "open_invitation_by_token env now token d = Inr i \<Longrightarrow>
   i \<in> set (invitations d) \<and> inv_token_hash i = iv_sha env token \<and> open_invitation now i"
  by (auto simp: open_invitation_by_token_def bind_eq_Inr split: option.splits if_splits dest: one_or_none_filterD)

lemma invited_account_keeps:
  assumes "invited_account env now i full_name pw d = Inr (uid, d1)"
  shows "memberships d1 = memberships d" "invitations d1 = invitations d" "next_id d \<le> next_id d1"
    "\<not> already_member uid (inv_organization_id i) d \<or> uid = next_id d"
    "subscriptions d1 = subscriptions d" "plans d1 = plans d"
  using assms
  by (auto simp: invited_account_def bind_eq_Inr Let_def set_user_def split: option.splits if_splits)

lemma accept_invitation_inv:
  assumes "accept_invitation env now ctx token full_name pw d = Inr ((uid, m), d')"
  obtains i d1 where "i \<in> set (invitations d)" "inv_token_hash i = iv_sha env token" "open_invitation now i"
    "enforce_user_limit now (inv_organization_id i) d = Inr ()"
    "invited_account env now i full_name pw d = Inr (uid, d1)"
    "m = new_membership now (next_id d1) uid (inv_organization_id i) (inv_role_key i)"
    "memberships d' = memberships d @ [m]"
    "invitations d' = tupd (\<lambda>r. inv_id r = inv_id i) (\<lambda>r. r\<lparr>inv_accepted_at := Some now\<rparr>) (invitations d)"
    "next_id d \<le> next_id d'" "unique_on (\<lambda>_. True) inv_token_hash (invitations d')"
    "unique_on (\<lambda>_. True) (\<lambda>m. (m_user_id m, m_organization_id m)) (memberships d')"
proof -
  obtain i d1 where i: "open_invitation_by_token env now token d = Inr i"
    "enforce_user_limit now (inv_organization_id i) d = Inr ()" "invited_account env now i full_name pw d = Inr (uid, d1)"
    "bind (flush (set_invitation (inv_id i) (\<lambda>r. r\<lparr>inv_accepted_at := Some now\<rparr>)
        (add_membership now uid (inv_organization_id i) (inv_role_key i) d1))) (\<lambda>_.
       Inr ((uid, last (memberships (set_invitation (inv_id i) (\<lambda>r. r\<lparr>inv_accepted_at := Some now\<rparr>)
            (add_membership now uid (inv_organization_id i) (inv_role_key i) d1)))),
         record_audit ctx ''invitation.accepted'' ''invitation'' (Some (inv_id i)) (Some (inv_organization_id i))
           (set_invitation (inv_id i) (\<lambda>r. r\<lparr>inv_accepted_at := Some now\<rparr>)
              (add_membership now uid (inv_organization_id i) (inv_role_key i) d1)))) = Inr ((uid, m), d')"
    using assms by (auto simp: accept_invitation_def bind_eq_Inr Let_def)
  have m: "m = new_membership now (next_id d1) uid (inv_organization_id i) (inv_role_key i)"
    "memberships d' = memberships d @ [m]"
    "invitations d' = tupd (\<lambda>r. inv_id r = inv_id i) (\<lambda>r. r\<lparr>inv_accepted_at := Some now\<rparr>) (invitations d)"
    "next_id d \<le> next_id d'" "unique_on (\<lambda>_. True) inv_token_hash (invitations d')"
    "unique_on (\<lambda>_. True) (\<lambda>m. (m_user_id m, m_organization_id m)) (memberships d')"
    using i(4) invited_account_keeps [OF i(3)]
    by (auto simp: bind_eq_Inr set_invitation_def add_membership_def identity_constraints_def)
  show ?thesis
    using open_invitation_by_token_ok [OF i(1)] by (intro that [OF _ _ _ i(2,3) m]) simp_all
qed

lemma accept_invitation_invit_step:
  assumes "accept_invitation env now ctx token full_name pw d = Inr (r, d')"
  shows "invit_step d d'"
proof -
  obtain uid m where r: "r = (uid, m)"
    by (cases r)
  show ?thesis
    using assms unfolding r
  proof (rule accept_invitation_inv)
    fix i
    assume i: "i \<in> set (invitations d)" "open_invitation now i" "next_id d \<le> next_id d'"
      "invitations d' = tupd (\<lambda>r. inv_id r = inv_id i) (\<lambda>r. r\<lparr>inv_accepted_at := Some now\<rparr>) (invitations d)"
      "unique_on (\<lambda>_. True) inv_token_hash (invitations d')"
    have "get_invitation d (inv_id i) = Some i" if "invit_inv d"
      using that i(1) tget_SomeI [of inv_id "invitations d" i] by (simp add: get_invitation_def invit_inv_def ids_ok_def)
    then have "invit_step d d'" if "invit_inv d"
      using that i(2,5) by (intro invit_step_set [OF i(4,3), where x = i]) (simp_all add: same_terms_def open_invitation_def)
    then show ?thesis
      by (auto simp: invit_step_def)
  qed
qed

text \<open>Once an invitation with the hash of a token is settled, the token opens nothing.\<close>

lemma settled_token_dead:
  assumes inv: "invit_inv d" and r: "get_invitation d i = Some r" "invitation_settled (invitation_state r)"
    and tok: "inv_token_hash r = iv_sha env token"
  shows "open_invitation_by_token env now token d = Inl (DomainNotFoundError ''invitation'')"
proof -
  have r_in: "r \<in> set (invitations d)"
    using tget_SomeD [of inv_id "invitations d" i r] r(1) by (simp add: get_invitation_def)
  have "length (filter (\<lambda>x. True \<and> inv_token_hash x = iv_sha env token) (invitations d)) \<le> 1"
    using inv by (intro unique_on_filter_length) (simp add: invit_inv_def)
  moreover have "r \<in> set (filter (\<lambda>x. inv_token_hash x = iv_sha env token) (invitations d))"
    using r_in tok by simp
  ultimately have "filter (\<lambda>x. inv_token_hash x = iv_sha env token) (invitations d) = [r]"
    by (cases "filter (\<lambda>x. inv_token_hash x = iv_sha env token) (invitations d)") auto
  moreover have "\<not> open_invitation now r"
    using r(2) by (auto simp: open_invitation_def invitation_settled_def invitation_state_def split: if_splits)
  ultimately show ?thesis
    by (simp add: open_invitation_by_token_def)
qed

subsection \<open>The lockout\<close>

text \<open>
  \<open>password_checked\<close> tells whether a login attempt at \<open>now\<close> gets as far as comparing the password.
\<close>

definition password_checked :: "instant \<Rightarrow> string \<Rightarrow> db \<Rightarrow> bool" where
  "password_checked now email d \<longleftrightarrow>
     (case get_user_by_email email d of
        Inr (Some u) \<Rightarrow> u_status u = UserActive \<and> \<not> locked_out now u | _ \<Rightarrow> False)"

lemma get_user_by_email_set:
  assumes "get_user_by_email email d = Inr (Some u)" "\<And>r. u_email (f r) = u_email r"
    and "users d' = tupd (\<lambda>r. u_id r = u_id u) f (users d)"
  shows "get_user_by_email email d' = Inr (Some (f u))"
proof -
  have "filter (\<lambda>r. lower (u_email r) = lower (strip email)) (users d) = [u]"
    using assms(1) by (simp add: get_user_by_email_def one_or_none_Some)
  moreover have "filter (\<lambda>r. lower (u_email r) = lower (strip email)) (users d') =
      tupd (\<lambda>r. u_id r = u_id u) f (filter (\<lambda>r. lower (u_email r) = lower (strip email)) (users d))"
    unfolding assms(3) by (rule filter_tupd_same) (simp add: assms(2))
  ultimately show ?thesis
    by (simp add: get_user_by_email_def)
qed

lemma fail_login_fields [simp]:
  "u_email (fail_login now u) = u_email u" "u_password_hash (fail_login now u) = u_password_hash u"
  "u_status (fail_login now u) = u_status u"
  by (simp_all add: fail_login_def)

lemma record_failed_login_users:
  "users (record_failed_login now ctx u d) = tupd (\<lambda>r. u_id r = u_id u) (fail_login now) (users d)"
  by (simp add: record_failed_login_def Let_def set_user_def)

end
