(* ===== verification/AccountSecurity.thy ===== *)
theory AccountSecurity
  imports Identity
begin

section \<open>Account security: recovery, e-mail verification, two factors\<close>

text \<open>
  \<^verbatim>\<open>infrastructure/security/totp.py\<close> and \<^verbatim>\<open>application/identity/account_security.py\<close>. The
  field cipher, the TOTP code of a secret at a time step (\<^verbatim>\<open>pyotp\<close>), the enrolment URI and the
  settings are the fields of \<open>account_env\<close>; new secrets and codes are arguments. \<^verbatim>\<open>FOR UPDATE\<close> locks
  serialise the operations on one row, so operations are atomic here. Only the verification of a
  challenge commits before it raises.
\<close>

subsection \<open>Codes\<close>

definition totp_step_seconds :: int where "totp_step_seconds = 30"

definition squeeze :: "string \<Rightarrow> string" where
  "squeeze s = filter (\<lambda>c. \<not> is_space c) s"

definition looks_like_totp :: "string \<Rightarrow> bool" where
  "looks_like_totp code \<longleftrightarrow> length (squeeze code) = 6 \<and> isdigit (squeeze code)"

definition current_step :: "instant \<Rightarrow> int" where
  "current_step now = trunc (total_seconds now) div totp_step_seconds"

definition matching_time_step :: "(string \<Rightarrow> int \<Rightarrow> string) \<Rightarrow> string \<Rightarrow> string \<Rightarrow> instant \<Rightarrow> int option" where
  "matching_time_step totp_at secret code now =
     (if \<not> looks_like_totp code then None
      else find (\<lambda>step. totp_at secret step = squeeze code)
             [current_step now - 1, current_step now, current_step now + 1])"

definition upper_char :: "char \<Rightarrow> char" where
  "upper_char c = (if is_lower c then char_of (of_char c - 32 :: nat) else c)"

definition normalize_recovery_code :: "string \<Rightarrow> string" where
  "normalize_recovery_code code = filter (\<lambda>c. is_alpha c \<or> is_digit c) (map upper_char code)"

subsection \<open>Environment, constraints and small steps\<close>

definition mfa_challenge_ttl :: duration where "mfa_challenge_ttl = minutes 5"
definition mfa_max_attempts :: int where "mfa_max_attempts = 5"

record account_env =
  av_identity :: identity_env
  av_mail :: "(pydict \<Rightarrow> string) option"
  av_cipher :: "((string \<Rightarrow> string) \<times> (string \<Rightarrow> string option)) option"
  av_totp_at :: "string \<Rightarrow> int \<Rightarrow> string"
  av_uri :: "string \<Rightarrow> string \<Rightarrow> string"
  av_reset_ttl_minutes :: int
  av_verification_ttl_hours :: int

definition sha :: "account_env \<Rightarrow> string \<Rightarrow> string" where
  "sha env = iv_sha (av_identity env)"

definition hash_recovery_code :: "account_env \<Rightarrow> string \<Rightarrow> string" where
  "hash_recovery_code env code = sha env (normalize_recovery_code code)"

definition account_constraints :: "db \<Rightarrow> bool" where
  "account_constraints d \<longleftrightarrow>
     unique_on (\<lambda>_. True) ut_token_hash (user_tokens d) \<and>
     unique_on (\<lambda>_. True) (\<lambda>c. (rc_user_id c, rc_code_hash c)) (mfa_recovery_codes d) \<and>
     unique_on (\<lambda>_. True) mc_token_hash (mfa_challenges d)"

definition flush_account :: "db \<Rightarrow> unit result" where
  "flush_account d = raise_if (\<not> account_constraints d) IntegrityError"

definition require_user :: "uuid \<Rightarrow> db \<Rightarrow> user result" where
  "require_user i d =
     (case tget u_id (users d) i of
        None \<Rightarrow> Inl (DomainNotFoundError ''user'')
      | Some u \<Rightarrow> if u_status u \<noteq> UserActive then Inl (DomainNotFoundError ''user'') else Inr u)"

definition reauthenticate :: "account_env \<Rightarrow> user \<Rightarrow> string \<Rightarrow> unit result" where
  "reauthenticate env u pw = raise_if (\<not> iv_verify (av_identity env) (u_password_hash u) pw) ReauthenticationFailedError"

definition decrypt_field :: "account_env \<Rightarrow> string \<Rightarrow> string result" where
  "decrypt_field env v =
     (case av_cipher env of
        None \<Rightarrow> Inl (ServiceNotConfiguredError ''mfa_cipher'')
      | Some (enc, dec) \<Rightarrow> (case dec v of None \<Rightarrow> Inl (ServiceNotConfiguredError ''mfa_secret'') | Some s \<Rightarrow> Inr s))"

definition encrypt_field :: "account_env \<Rightarrow> string \<Rightarrow> string result" where
  "encrypt_field env v =
     (case av_cipher env of None \<Rightarrow> Inl (ServiceNotConfiguredError ''mfa_cipher'') | Some (enc, dec) \<Rightarrow> Inr (enc v))"

definition account_mail ::
    "account_env \<Rightarrow> instant \<Rightarrow> string \<Rightarrow> user \<Rightarrow> pydict \<Rightarrow> pydict option \<Rightarrow> db \<Rightarrow> (unit \<times> db) result" where
  "account_mail env now template u context secret d =
     bind (enqueue (av_mail env) now
        \<lparr>mr_template = template, mr_recipient = u_email u, mr_context = (''full_name'', PStr (u_full_name u)) # context,
         mr_secret_context = secret, mr_organization_id = None, mr_related = Some (''user'', u_id u),
         mr_idempotency_key = None, mr_max_attempts = 8\<rparr> d) (\<lambda>(_, d1). Inr ((), d1))"

definition notify_owner :: "account_env \<Rightarrow> instant \<Rightarrow> user \<Rightarrow> string \<Rightarrow> db \<Rightarrow> (unit \<times> db) result" where
  "notify_owner env now u event d =
     account_mail env now ''security_notice'' u [(''event'', PStr event), (''occurred_at'', PInt now)] None d"

definition audit_user :: "request_context \<Rightarrow> string \<Rightarrow> uuid \<Rightarrow> db \<Rightarrow> db" where
  "audit_user ctx action uid d = record_audit ctx action ''user'' (Some uid) None d"

subsection \<open>Account tokens\<close>

definition unused_token :: "uuid \<Rightarrow> token_purpose \<Rightarrow> user_token \<Rightarrow> bool" where
  "unused_token uid purpose t \<longleftrightarrow> ut_user_id t = uid \<and> ut_purpose t = purpose \<and> ut_used_at t = None"

definition use_token :: "instant \<Rightarrow> user_token \<Rightarrow> user_token" where
  "use_token now t = t\<lparr>ut_used_at := Some now\<rparr>"

definition invalidate_tokens :: "instant \<Rightarrow> uuid \<Rightarrow> token_purpose \<Rightarrow> db \<Rightarrow> db" where
  "invalidate_tokens now uid purpose d =
     d\<lparr>user_tokens := tupd (unused_token uid purpose) (use_token now) (user_tokens d)\<rparr>"

definition issue_token ::
    "account_env \<Rightarrow> instant \<Rightarrow> request_context \<Rightarrow> string \<Rightarrow> user \<Rightarrow> token_purpose \<Rightarrow> duration \<Rightarrow> db \<Rightarrow>
     (string \<times> db) result" where
  "issue_token env now ctx rnd u purpose ttl d =
     (let d1 = invalidate_tokens now (u_id u) purpose d;
          token = opaque_secret ''vra'' rnd;
          d2 = d1\<lparr>user_tokens := user_tokens d1 @
                 [\<lparr>ut_id = next_id d1, ut_user_id = u_id u, ut_purpose = purpose, ut_token_hash = sha env token,
                   ut_expires_at = now + ttl, ut_used_at = None, ut_requested_ip = c_ip_address ctx\<rparr>],
                 next_id := Suc (next_id d1)\<rparr>
      in bind (flush_account d2) (\<lambda>_. Inr (token, d2)))"

definition consume_token ::
    "account_env \<Rightarrow> instant \<Rightarrow> string \<Rightarrow> token_purpose \<Rightarrow> db \<Rightarrow> (user_token \<times> db) result" where
  "consume_token env now token purpose d =
     bind (one_or_none (filter (\<lambda>t. ut_token_hash t = sha env token \<and> ut_purpose t = purpose) (user_tokens d))) (\<lambda>row.
       case row of None \<Rightarrow> Inl InvalidAccountTokenError
       | Some t \<Rightarrow>
           if ut_used_at t \<noteq> None \<or> ut_expires_at t \<le> now then Inl InvalidAccountTokenError
           else Inr (t, d\<lparr>user_tokens := tupd (\<lambda>x. ut_id x = ut_id t) (use_token now) (user_tokens d)\<rparr>))"

definition revoke_all_sessions :: "instant \<Rightarrow> uuid \<Rightarrow> db \<Rightarrow> db" where
  "revoke_all_sessions now uid d =
     set_user uid (\<lambda>u. u\<lparr>u_sessions_revoked_at := Some now\<rparr>)
       (d\<lparr>sessions := tupd (\<lambda>s. s_user_id s = uid \<and> s_revoked_at s = None) (revoke_session now) (sessions d)\<rparr>)"

subsection \<open>Password reset\<close>

definition request_password_reset ::
    "account_env \<Rightarrow> instant \<Rightarrow> request_context \<Rightarrow> string \<Rightarrow> string \<Rightarrow> db \<Rightarrow> (unit \<times> db) result" where
  "request_password_reset env now ctx rnd email d =
     bind (get_user_by_email email d) (\<lambda>row. case row of
       None \<Rightarrow> Inr ((), d)
     | Some u \<Rightarrow>
         if u_status u \<noteq> UserActive then Inr ((), d)
         else bind (issue_token env now ctx rnd u PasswordReset (minutes (av_reset_ttl_minutes env)) d) (\<lambda>(token, d1).
              bind (account_mail env now ''password_reset'' u [(''ttl_minutes'', PInt (av_reset_ttl_minutes env))]
                      (Some [(''token'', PStr token)]) d1) (\<lambda>(_, d2).
                Inr ((), audit_user ctx ''auth.password_reset_requested'' (u_id u) d2))))"

definition new_password :: "account_env \<Rightarrow> instant \<Rightarrow> string \<Rightarrow> user \<Rightarrow> user" where
  "new_password env now pw u =
     u\<lparr>u_password_hash := iv_hash (av_identity env) pw, u_password_changed_at := Some now,
       u_failed_login_count := 0, u_locked_until := None\<rparr>"

definition reset_password ::
    "account_env \<Rightarrow> instant \<Rightarrow> request_context \<Rightarrow> string \<Rightarrow> string \<Rightarrow> db \<Rightarrow> (uuid \<times> db) result" where
  "reset_password env now ctx token pw d =
     bind (check_password pw) (\<lambda>_.
     bind (consume_token env now token PasswordReset d) (\<lambda>(t, d1).
       case tget u_id (users d1) (ut_user_id t) of
         None \<Rightarrow> Inl InvalidAccountTokenError
       | Some u \<Rightarrow>
           if u_status u \<noteq> UserActive then Inl InvalidAccountTokenError
           else (let d2 = invalidate_tokens now (u_id u) PasswordReset (set_user (u_id u) (new_password env now pw) d1);
                     d3 = audit_user ctx ''auth.password_reset_completed'' (u_id u) (revoke_all_sessions now (u_id u) d2)
                 in bind (notify_owner env now u ''password_changed'' d3) (\<lambda>(_, d4). Inr (u_id u, d4)))))"

subsection \<open>E-mail verification\<close>

definition send_email_verification ::
    "account_env \<Rightarrow> instant \<Rightarrow> request_context \<Rightarrow> string \<Rightarrow> user \<Rightarrow> db \<Rightarrow> (bool \<times> db) result" where
  "send_email_verification env now ctx rnd u d =
     (if u_email_verified_at u \<noteq> None then Inr (False, d)
      else bind (issue_token env now ctx rnd u EmailVerification (hours (av_verification_ttl_hours env)) d) (\<lambda>(token, d1).
           bind (account_mail env now ''email_verification'' u [(''ttl_hours'', PInt (av_verification_ttl_hours env))]
                   (Some [(''token'', PStr token)]) d1) (\<lambda>(_, d2). Inr (True, d2))))"

definition resend_email_verification ::
    "account_env \<Rightarrow> instant \<Rightarrow> request_context \<Rightarrow> string \<Rightarrow> uuid \<Rightarrow> db \<Rightarrow> (bool \<times> db) result" where
  "resend_email_verification env now ctx rnd uid d =
     bind (require_user uid d) (\<lambda>u. send_email_verification env now ctx rnd u d)"

definition verify_email ::
    "account_env \<Rightarrow> instant \<Rightarrow> request_context \<Rightarrow> string \<Rightarrow> db \<Rightarrow> (uuid \<times> db) result" where
  "verify_email env now ctx token d =
     bind (consume_token env now token EmailVerification d) (\<lambda>(t, d1).
       case tget u_id (users d1) (ut_user_id t) of
         None \<Rightarrow> Inl InvalidAccountTokenError
       | Some u \<Rightarrow>
           if u_email_verified_at u \<noteq> None then Inr (u_id u, d1)
           else Inr (u_id u, audit_user ctx ''auth.email_verified'' (u_id u)
                  (set_user (u_id u) (\<lambda>r. r\<lparr>u_email_verified_at := Some now\<rparr>) d1)))"

subsection \<open>Two-factor enrolment\<close>

datatype factor = Totp | Recovery

definition use_code :: "instant \<Rightarrow> mfa_recovery_code \<Rightarrow> mfa_recovery_code" where
  "use_code now c = c\<lparr>rc_used_at := Some now\<rparr>"

definition verify_totp :: "account_env \<Rightarrow> instant \<Rightarrow> user \<Rightarrow> string \<Rightarrow> db \<Rightarrow> (factor \<times> db) result" where
  "verify_totp env now u submitted d =
     (case u_mfa_totp_secret_enc u of
        None \<Rightarrow> Inl InvalidMfaCodeError
      | Some v \<Rightarrow>
          bind (decrypt_field env v) (\<lambda>secret.
            case matching_time_step (av_totp_at env) secret submitted now of
              None \<Rightarrow> Inl InvalidMfaCodeError
            | Some step \<Rightarrow>
                if (case u_mfa_last_used_step u of None \<Rightarrow> False | Some k \<Rightarrow> step \<le> k) then Inl InvalidMfaCodeError
                else Inr (Totp, set_user (u_id u) (\<lambda>r. r\<lparr>u_mfa_last_used_step := Some step\<rparr>) d)))"

definition verify_recovery ::
    "account_env \<Rightarrow> instant \<Rightarrow> request_context \<Rightarrow> user \<Rightarrow> string \<Rightarrow> db \<Rightarrow> (factor \<times> db) result" where
  "verify_recovery env now ctx u submitted d =
     bind (one_or_none (filter (\<lambda>c. rc_user_id c = u_id u \<and> rc_code_hash c = hash_recovery_code env submitted \<and>
             rc_used_at c = None) (mfa_recovery_codes d))) (\<lambda>row.
       case row of None \<Rightarrow> Inl InvalidMfaCodeError
       | Some c \<Rightarrow>
           (let d1 = d\<lparr>mfa_recovery_codes := tupd (\<lambda>x. rc_id x = rc_id c) (use_code now) (mfa_recovery_codes d)\<rparr>;
                d2 = audit_user ctx ''auth.mfa_recovery_code_used'' (u_id u) d1
            in bind (notify_owner env now u ''mfa_recovery_code_used'' d2) (\<lambda>(_, d3). Inr (Recovery, d3))))"

definition verify_second_factor ::
    "account_env \<Rightarrow> instant \<Rightarrow> request_context \<Rightarrow> user \<Rightarrow> string \<Rightarrow> db \<Rightarrow> (factor \<times> db) result" where
  "verify_second_factor env now ctx u submitted d =
     (if submitted = [] then Inl InvalidMfaCodeError
      else if looks_like_totp submitted then verify_totp env now u submitted d
      else verify_recovery env now ctx u submitted d)"

fun code_rows :: "account_env \<Rightarrow> uuid \<Rightarrow> uuid \<Rightarrow> string list \<Rightarrow> mfa_recovery_code list" where
  "code_rows env uid i [] = []"
| "code_rows env uid i (c # cs) =
     \<lparr>rc_id = i, rc_user_id = uid, rc_code_hash = hash_recovery_code env c, rc_used_at = None\<rparr> # code_rows env uid (Suc i) cs"

definition delete_codes :: "uuid \<Rightarrow> db \<Rightarrow> db" where
  "delete_codes uid d = d\<lparr>mfa_recovery_codes := filter (\<lambda>c. rc_user_id c \<noteq> uid) (mfa_recovery_codes d)\<rparr>"

definition replace_recovery_codes :: "account_env \<Rightarrow> uuid \<Rightarrow> string list \<Rightarrow> db \<Rightarrow> (string list \<times> db) result" where
  "replace_recovery_codes env uid codes d =
     (let d1 = delete_codes uid d;
          d2 = d1\<lparr>mfa_recovery_codes := mfa_recovery_codes d1 @ code_rows env uid (next_id d) codes,
                  next_id := next_id d + length codes\<rparr>
      in bind (flush_account d2) (\<lambda>_. Inr (codes, d2)))"

definition clear_mfa :: "user \<Rightarrow> user" where
  "clear_mfa u = u\<lparr>u_mfa_totp_secret_enc := None, u_mfa_pending_secret_enc := None, u_mfa_enabled_at := None,
                  u_mfa_last_used_step := None\<rparr>"

definition begin_mfa_setup ::
    "account_env \<Rightarrow> request_context \<Rightarrow> string \<Rightarrow> uuid \<Rightarrow> string \<Rightarrow> db \<Rightarrow> ((string \<times> string) \<times> db) result" where
  "begin_mfa_setup env ctx secret uid pw d =
     bind (require_user uid d) (\<lambda>u.
     bind (reauthenticate env u pw) (\<lambda>_.
     bind (raise_if (u_mfa_enabled_at u \<noteq> None) (DomainConflictError ''mfa_enabled'')) (\<lambda>_.
     bind (encrypt_field env secret) (\<lambda>v.
       Inr ((secret, av_uri env secret (u_email u)),
            audit_user ctx ''auth.mfa_setup_started'' uid
              (set_user uid (\<lambda>r. r\<lparr>u_mfa_pending_secret_enc := Some v\<rparr>) d))))))"

definition enable_mfa :: "instant \<Rightarrow> int \<Rightarrow> user \<Rightarrow> user" where
  "enable_mfa now step u =
     u\<lparr>u_mfa_totp_secret_enc := u_mfa_pending_secret_enc u, u_mfa_pending_secret_enc := None,
       u_mfa_enabled_at := Some now, u_mfa_last_used_step := Some step\<rparr>"

definition confirm_mfa ::
    "account_env \<Rightarrow> instant \<Rightarrow> request_context \<Rightarrow> string list \<Rightarrow> uuid \<Rightarrow> string \<Rightarrow> db \<Rightarrow> (string list \<times> db) result" where
  "confirm_mfa env now ctx codes uid code d =
     bind (require_user uid d) (\<lambda>u.
     bind (raise_if (u_mfa_enabled_at u \<noteq> None) (DomainConflictError ''mfa_enabled'')) (\<lambda>_.
       case u_mfa_pending_secret_enc u of
         None \<Rightarrow> Inl (DomainConflictError ''mfa_setup'')
       | Some v \<Rightarrow>
           bind (decrypt_field env v) (\<lambda>secret.
             case matching_time_step (av_totp_at env) secret code now of
               None \<Rightarrow> Inl InvalidMfaCodeError
             | Some step \<Rightarrow>
                 bind (replace_recovery_codes env uid codes (set_user uid (enable_mfa now step) d)) (\<lambda>(cs, d1).
                 bind (notify_owner env now u ''mfa_enabled'' (audit_user ctx ''auth.mfa_enabled'' uid d1)) (\<lambda>(_, d2).
                   Inr (cs, d2))))))"

text \<open>Disabling and regenerating ask for the password and a second factor.\<close>

definition confirmed_user ::
    "account_env \<Rightarrow> instant \<Rightarrow> request_context \<Rightarrow> string \<Rightarrow> uuid \<Rightarrow> string \<Rightarrow> string \<Rightarrow> db \<Rightarrow> (user \<times> db) result" where
  "confirmed_user env now ctx tag uid pw code d =
     bind (require_user uid d) (\<lambda>u.
     bind (reauthenticate env u pw) (\<lambda>_.
     bind (raise_if (u_mfa_enabled_at u = None) (DomainConflictError tag)) (\<lambda>_.
     bind (verify_second_factor env now ctx u code d) (\<lambda>(_, d1). Inr (u, d1)))))"

definition disable_mfa ::
    "account_env \<Rightarrow> instant \<Rightarrow> request_context \<Rightarrow> uuid \<Rightarrow> string \<Rightarrow> string \<Rightarrow> db \<Rightarrow> (unit \<times> db) result" where
  "disable_mfa env now ctx uid pw code d =
     bind (confirmed_user env now ctx ''mfa_disabled'' uid pw code d) (\<lambda>(u, d1).
       notify_owner env now u ''mfa_disabled''
         (audit_user ctx ''auth.mfa_disabled'' uid (delete_codes uid (set_user uid clear_mfa d1))))"

definition regenerate_recovery_codes ::
    "account_env \<Rightarrow> instant \<Rightarrow> request_context \<Rightarrow> string list \<Rightarrow> uuid \<Rightarrow> string \<Rightarrow> string \<Rightarrow> db \<Rightarrow>
     (string list \<times> db) result" where
  "regenerate_recovery_codes env now ctx codes uid pw code d =
     bind (confirmed_user env now ctx ''mfa_not_enabled'' uid pw code d) (\<lambda>(u, d1).
     bind (replace_recovery_codes env uid codes d1) (\<lambda>(cs, d2).
     bind (notify_owner env now u ''recovery_codes_regenerated''
             (audit_user ctx ''auth.mfa_recovery_codes_regenerated'' uid d2)) (\<lambda>(_, d3). Inr (cs, d3))))"

subsection \<open>The login challenge\<close>

definition create_mfa_challenge ::
    "account_env \<Rightarrow> instant \<Rightarrow> request_context \<Rightarrow> string \<Rightarrow> user \<Rightarrow> db \<Rightarrow> (string \<times> db) result" where
  "create_mfa_challenge env now ctx rnd u d =
     (let token = opaque_secret ''vrm'' rnd;
          d1 = d\<lparr>mfa_challenges := mfa_challenges d @
                 [\<lparr>mc_id = next_id d, mc_user_id = u_id u, mc_token_hash = sha env token,
                   mc_expires_at = now + mfa_challenge_ttl, mc_attempts = 0, mc_consumed_at = None,
                   mc_ip_address = c_ip_address ctx\<rparr>], next_id := Suc (next_id d)\<rparr>
      in bind (flush_account d1) (\<lambda>_. Inr (token, d1)))"

definition challenge_open :: "instant \<Rightarrow> mfa_challenge \<Rightarrow> bool" where
  "challenge_open now c \<longleftrightarrow> mc_consumed_at c = None \<and> now < mc_expires_at c \<and> mc_attempts c < mfa_max_attempts"

definition set_challenge :: "uuid \<Rightarrow> (mfa_challenge \<Rightarrow> mfa_challenge) \<Rightarrow> db \<Rightarrow> db" where
  "set_challenge i f d = d\<lparr>mfa_challenges := tupd (\<lambda>c. mc_id c = i) f (mfa_challenges d)\<rparr>"

definition challenge_by_token :: "account_env \<Rightarrow> string \<Rightarrow> db \<Rightarrow> mfa_challenge option result" where
  "challenge_by_token env token d =
     one_or_none (filter (\<lambda>c. mc_token_hash c = sha env token) (mfa_challenges d))"

definition submitted_code :: "string option \<Rightarrow> string option \<Rightarrow> string" where
  "submitted_code code recovery = (case or_text code (or_text recovery None) of None \<Rightarrow> [] | Some s \<Rightarrow> s)"

definition fail_challenge :: "mfa_challenge \<Rightarrow> mfa_challenge" where
  "fail_challenge c = c\<lparr>mc_attempts := mc_attempts c + 1\<rparr>"

definition try_challenge ::
    "account_env \<Rightarrow> instant \<Rightarrow> request_context \<Rightarrow> mfa_challenge \<Rightarrow> user \<Rightarrow> string \<Rightarrow> db \<Rightarrow> user result \<times> db" where
  "try_challenge env now ctx c u submitted d =
     (case verify_second_factor env now ctx u submitted d of
        Inl InvalidMfaCodeError \<Rightarrow>
          (Inl InvalidMfaCodeError,
           audit_user ctx ''auth.mfa_challenge_failed'' (u_id u) (set_challenge (mc_id c) fail_challenge d))
      | Inl e \<Rightarrow> (Inl e, d)
      | Inr (_, d1) \<Rightarrow> (Inr u, set_challenge (mc_id c) (\<lambda>r. r\<lparr>mc_consumed_at := Some now\<rparr>) d1))"

definition verify_mfa_challenge ::
    "account_env \<Rightarrow> instant \<Rightarrow> request_context \<Rightarrow> string \<Rightarrow> string option \<Rightarrow> string option \<Rightarrow> db \<Rightarrow>
     user result \<times> db" where
  "verify_mfa_challenge env now ctx token code recovery d =
     (case challenge_by_token env token d of
        Inl e \<Rightarrow> (Inl e, d)
      | Inr None \<Rightarrow> (Inl InvalidMfaCodeError, d)
      | Inr (Some c) \<Rightarrow>
          if \<not> challenge_open now c then (Inl InvalidMfaCodeError, d)
          else (case tget u_id (users d) (mc_user_id c) of
                  None \<Rightarrow> (Inl InvalidMfaCodeError, d)
                | Some u \<Rightarrow>
                    if u_status u \<noteq> UserActive \<or> u_mfa_enabled_at u = None then (Inl InvalidMfaCodeError, d)
                    else try_challenge env now ctx c u (submitted_code code recovery) d))"

subsection \<open>Administration\<close>

definition admin_reset_mfa ::
    "account_env \<Rightarrow> instant \<Rightarrow> request_context \<Rightarrow> uuid \<Rightarrow> db \<Rightarrow> (uuid \<times> db) result" where
  "admin_reset_mfa env now ctx mid d =
     (case c_organization_id ctx of
        None \<Rightarrow> Inl (DomainNotFoundError ''organization_context'')
      | Some org \<Rightarrow>
          bind (one_or_none (filter (\<lambda>m. m_id m = mid \<and> m_organization_id m = org) (memberships d))) (\<lambda>row.
            case row of None \<Rightarrow> Inl (DomainNotFoundError ''membership'')
            | Some m \<Rightarrow>
                bind (raise_if (\<not> c_is_platform_admin ctx \<and> c_role ctx \<noteq> Some ROwner) PermissionDeniedError) (\<lambda>_.
                bind (raise_if (Some (m_user_id m) = c_user_id ctx) (DomainConflictError ''own_mfa'')) (\<lambda>_.
                bind (raise_if (0 < count_rows (\<lambda>x. m_user_id x = m_user_id m \<and> m_organization_id x \<noteq> org) (memberships d))
                       (DomainConflictError ''other_memberships'')) (\<lambda>_.
                bind (require_user (m_user_id m) d) (\<lambda>u.
                bind (raise_if (u_mfa_enabled_at u = None) (DomainConflictError ''mfa_not_enabled'')) (\<lambda>_.
                  let d1 = revoke_all_sessions now (u_id u) (delete_codes (u_id u) (set_user (u_id u) clear_mfa d));
                      d2 = record_audit ctx ''auth.mfa_reset_by_admin'' ''user'' (Some (u_id u)) (Some org) d1
                  in bind (notify_owner env now u ''mfa_reset'' d2) (\<lambda>(_, d3). Inr (u_id u, d3)))))))))"

subsection \<open>What the operations leave alone\<close>

text \<open>
  None of them touches invitations or memberships, and all but the two that revoke every session of a
  user leave the sessions alone.
\<close>

definition calm :: "db \<Rightarrow> db \<Rightarrow> bool" where
  "calm d d' \<longleftrightarrow> sessions d' = sessions d \<and> invitations d' = invitations d \<and>
     memberships d' = memberships d \<and> next_id d \<le> next_id d'"

lemma calm_refl [simp]: "calm d d"
  by (simp add: calm_def)

lemma calm_trans: "calm d d1 \<Longrightarrow> calm d1 d2 \<Longrightarrow> calm d d2"
  by (simp add: calm_def)

lemma calm_steps: "calm d d' \<Longrightarrow> sess_step d d' \<and> invit_step d d'"
  by (simp add: calm_def sess_step_frame invit_step_frame)

lemma calm_simps [simp]:
  "calm d (set_user i f d1) = calm d d1"
  "calm d (audit_user ctx a i d1) = calm d d1"
  "calm d (record_audit ctx a rt ri oid d1) = calm d d1"
  "calm d (invalidate_tokens now i purpose d1) = calm d d1"
  "calm d (delete_codes i d1) = calm d d1"
  "calm d (set_challenge i h d1) = calm d d1"
  "calm d (d1\<lparr>user_tokens := x1\<rparr>) = calm d d1"
  "calm d (d1\<lparr>mfa_recovery_codes := x2\<rparr>) = calm d d1"
  by (simp_all add: calm_def set_user_def audit_user_def invalidate_tokens_def delete_codes_def set_challenge_def)

text \<open>Two tables the mail and the audit trail leave alone, and what the setters do to them.\<close>

lemma account_setters [simp]:
  "users (audit_user ctx a i d) = users d" "user_tokens (audit_user ctx a i d) = user_tokens d"
  "mfa_challenges (audit_user ctx a i d) = mfa_challenges d"
  "mfa_recovery_codes (audit_user ctx a i d) = mfa_recovery_codes d"
  "sessions (audit_user ctx a i d) = sessions d" "next_id (audit_user ctx a i d) = next_id d"
  "invitations (audit_user ctx a i d) = invitations d" "memberships (audit_user ctx a i d) = memberships d"
  "users (set_challenge j h d) = users d" "mfa_recovery_codes (set_challenge j h d) = mfa_recovery_codes d"
  "user_tokens (set_challenge j h d) = user_tokens d"
  "mfa_challenges (set_challenge j h d) = tupd (\<lambda>c. mc_id c = j) h (mfa_challenges d)"
  "users (invalidate_tokens now i p d) = users d" "mfa_challenges (invalidate_tokens now i p d) = mfa_challenges d"
  "user_tokens (invalidate_tokens now i p d) = tupd (unused_token i p) (use_token now) (user_tokens d)"
  "sessions (invalidate_tokens now i p d) = sessions d" "next_id (invalidate_tokens now i p d) = next_id d"
  "users (set_user i f d) = tupd (\<lambda>u. u_id u = i) f (users d)"
  "invitations (set_user i f d) = invitations d" "memberships (set_user i f d) = memberships d"
  "invitations (invalidate_tokens now i p d) = invitations d" "memberships (invalidate_tokens now i p d) = memberships d"
  "mfa_recovery_codes (invalidate_tokens now i p d) = mfa_recovery_codes d"
  "mfa_recovery_codes (revoke_all_sessions now i d) = mfa_recovery_codes d"
  "invitations (delete_codes i d) = invitations d" "memberships (delete_codes i d) = memberships d"
  "user_tokens (set_user i f d) = user_tokens d" "mfa_challenges (set_user i f d) = mfa_challenges d"
  "mfa_recovery_codes (set_user i f d) = mfa_recovery_codes d"
  "user_tokens (delete_codes i d) = user_tokens d" "mfa_challenges (delete_codes i d) = mfa_challenges d"
  "users (delete_codes i d) = users d" "sessions (delete_codes i d) = sessions d"
  "next_id (delete_codes i d) = next_id d"
  "sessions (revoke_all_sessions now i d) =
     tupd (\<lambda>s. s_user_id s = i \<and> s_revoked_at s = None) (revoke_session now) (sessions d)"
  "users (revoke_all_sessions now i d) = tupd (\<lambda>u. u_id u = i) (\<lambda>u. u\<lparr>u_sessions_revoked_at := Some now\<rparr>) (users d)"
  "user_tokens (revoke_all_sessions now i d) = user_tokens d"
  "mfa_challenges (revoke_all_sessions now i d) = mfa_challenges d"
  "invitations (revoke_all_sessions now i d) = invitations d"
  "memberships (revoke_all_sessions now i d) = memberships d" "next_id (revoke_all_sessions now i d) = next_id d"
  by (simp_all add: audit_user_def set_challenge_def invalidate_tokens_def set_user_def delete_codes_def
      revoke_all_sessions_def)

lemma account_mail_keeps:
  "account_mail env now t u c s d = Inr (x, d') \<Longrightarrow> calm d d' \<and> users d' = users d \<and> user_tokens d' = user_tokens d \<and>
     mfa_challenges d' = mfa_challenges d \<and> mfa_recovery_codes d' = mfa_recovery_codes d"
  by (auto simp: account_mail_def bind_eq_Inr calm_def dest!: enqueue_keeps)

lemma notify_owner_keeps:
  "notify_owner env now u e d = Inr (x, d') \<Longrightarrow> calm d d' \<and> users d' = users d \<and> user_tokens d' = user_tokens d \<and>
     mfa_challenges d' = mfa_challenges d \<and> mfa_recovery_codes d' = mfa_recovery_codes d"
  unfolding notify_owner_def by (rule account_mail_keeps)

lemma consume_token_ok:
  assumes "consume_token env now token purpose d = Inr (t, d')"
  shows "t \<in> set (user_tokens d)" "ut_token_hash t = sha env token" "ut_purpose t = purpose" "ut_used_at t = None"
    "now < ut_expires_at t" "d' = d\<lparr>user_tokens := tupd (\<lambda>x. ut_id x = ut_id t) (use_token now) (user_tokens d)\<rparr>"
  using assms
  by (auto simp: consume_token_def bind_eq_Inr not_le split: option.splits if_splits dest: one_or_none_filterD)

lemma issue_token_ok:
  assumes "issue_token env now ctx rnd u purpose ttl d = Inr (token, d')"
  shows "token = opaque_secret ''vra'' rnd" "calm d d'" "users d' = users d"
    "user_tokens d' = tupd (unused_token (u_id u) purpose) (use_token now) (user_tokens d) @
       [\<lparr>ut_id = next_id d, ut_user_id = u_id u, ut_purpose = purpose, ut_token_hash = sha env token,
         ut_expires_at = now + ttl, ut_used_at = None, ut_requested_ip = c_ip_address ctx\<rparr>]"
    "next_id d' = Suc (next_id d)" "account_constraints d'"
  using assms by (auto simp: issue_token_def Let_def bind_eq_Inr flush_account_def invalidate_tokens_def calm_def)

lemma verify_totp_ok:
  assumes "verify_totp env now u submitted d = Inr (k, d')"
  obtains v secret step where "k = Totp" "u_mfa_totp_secret_enc u = Some v" "decrypt_field env v = Inr secret"
    "matching_time_step (av_totp_at env) secret submitted now = Some step"
    "case u_mfa_last_used_step u of None \<Rightarrow> True | Some j \<Rightarrow> j < step"
    "d' = set_user (u_id u) (\<lambda>r. r\<lparr>u_mfa_last_used_step := Some step\<rparr>) d"
proof -
  obtain v where v: "u_mfa_totp_secret_enc u = Some v"
    using assms by (cases "u_mfa_totp_secret_enc u") (auto simp: verify_totp_def)
  obtain secret where s: "decrypt_field env v = Inr secret"
    using assms by (auto simp: verify_totp_def v bind_eq_Inr)
  obtain step where m: "matching_time_step (av_totp_at env) secret submitted now = Some step"
    using assms by (cases "matching_time_step (av_totp_at env) secret submitted now") (auto simp: verify_totp_def v s)
  show ?thesis
    using assms by (intro that [OF _ v s m]) (auto simp: verify_totp_def v s m split: option.splits if_splits)
qed

lemma verify_recovery_ok:
  assumes "verify_recovery env now ctx u submitted d = Inr (k, d')"
  obtains c where "k = Recovery" "c \<in> set (mfa_recovery_codes d)" "rc_user_id c = u_id u" "rc_used_at c = None"
    "rc_code_hash c = hash_recovery_code env submitted" "calm d d'" "users d' = users d" "user_tokens d' = user_tokens d"
    "mfa_challenges d' = mfa_challenges d"
    "mfa_recovery_codes d' = tupd (\<lambda>x. rc_id x = rc_id c) (use_code now) (mfa_recovery_codes d)"
proof -
  obtain row where row: "one_or_none (filter (\<lambda>c. rc_user_id c = u_id u \<and> rc_code_hash c = hash_recovery_code env submitted \<and>
             rc_used_at c = None) (mfa_recovery_codes d)) = Inr row"
    using assms by (auto simp: verify_recovery_def bind_eq_Inr)
  then obtain c where c: "row = Some c"
    using assms by (cases row) (auto simp: verify_recovery_def)
  let ?d1 = "d\<lparr>mfa_recovery_codes := tupd (\<lambda>x. rc_id x = rc_id c) (use_code now) (mfa_recovery_codes d)\<rparr>"
  obtain x where n: "notify_owner env now u ''mfa_recovery_code_used'' (audit_user ctx ''auth.mfa_recovery_code_used'' (u_id u) ?d1) = Inr (x, d')"
    and k: "k = Recovery"
    using assms row c by (auto simp: verify_recovery_def Let_def bind_eq_Inr)
  from notify_owner_keeps [OF n]
  have "calm d d'" "users d' = users d" "user_tokens d' = user_tokens d" "mfa_challenges d' = mfa_challenges d"
    "mfa_recovery_codes d' = tupd (\<lambda>x. rc_id x = rc_id c) (use_code now) (mfa_recovery_codes d)"
    by (auto simp: calm_def)
  moreover have "c \<in> set (mfa_recovery_codes d)" "rc_user_id c = u_id u" "rc_used_at c = None"
    "rc_code_hash c = hash_recovery_code env submitted"
    using one_or_none_filterD [OF row [unfolded c]] by simp_all
  ultimately show ?thesis
    using that [of c] k by blast
qed

lemma verify_second_factor_calm:
  assumes "verify_second_factor env now ctx u submitted d = Inr (k, d')"
  shows "calm d d'" "user_tokens d' = user_tokens d" "mfa_challenges d' = mfa_challenges d"
  using assms
  by (auto simp: verify_second_factor_def split: if_splits elim!: verify_totp_ok verify_recovery_ok)

lemma replace_recovery_codes_calm:
  "replace_recovery_codes env uid codes d = Inr (cs, d') \<Longrightarrow> calm d d' \<and> users d' = users d \<and> user_tokens d' = user_tokens d"
  by (auto simp: replace_recovery_codes_def Let_def bind_eq_Inr calm_def delete_codes_def)

lemma confirmed_user_calm:
  "confirmed_user env now ctx tag uid pw code d = Inr (u, d') \<Longrightarrow> calm d d' \<and> user_tokens d' = user_tokens d"
  by (auto simp: confirmed_user_def bind_eq_Inr dest: verify_second_factor_calm)

lemma send_email_verification_calm:
  "send_email_verification env now ctx rnd u d = Inr (b, d') \<Longrightarrow> calm d d'"
  by (auto simp: send_email_verification_def bind_eq_Inr split: if_splits dest!: issue_token_ok(2) account_mail_keeps
      intro: calm_trans)

lemma account_calm:
  "request_password_reset env now ctx rnd email d = Inr (x1, d') \<Longrightarrow> calm d d'"
  "resend_email_verification env now ctx rnd uid d = Inr (x2, d') \<Longrightarrow> calm d d'"
  "verify_email env now ctx token d = Inr (x3, d') \<Longrightarrow> calm d d'"
  "begin_mfa_setup env ctx secret uid pw d = Inr (x4, d') \<Longrightarrow> calm d d'"
  "create_mfa_challenge env now ctx rnd u d = Inr (x5, d') \<Longrightarrow> calm d d'"
proof -
  show "calm d d'" if h: "request_password_reset env now ctx rnd email d = Inr (x1, d')"
  proof -
    obtain row where "get_user_by_email email d = Inr row"
      using h by (auto simp: request_password_reset_def bind_eq_Inr)
    with h show ?thesis
      by (cases row) (auto simp: request_password_reset_def bind_eq_Inr split: if_splits
          dest!: issue_token_ok(2) account_mail_keeps intro: calm_trans)
  qed
  show "resend_email_verification env now ctx rnd uid d = Inr (x2, d') \<Longrightarrow> calm d d'"
    by (auto simp: resend_email_verification_def bind_eq_Inr dest: send_email_verification_calm)
  show "calm d d'" if h: "verify_email env now ctx token d = Inr (x3, d')"
  proof -
    obtain t d1 where c: "consume_token env now token EmailVerification d = Inr (t, d1)"
      using h by (auto simp: verify_email_def bind_eq_Inr)
    show ?thesis
      using h consume_token_ok(6) [OF c] by (auto simp: verify_email_def c split: option.splits if_splits)
  qed
  show "begin_mfa_setup env ctx secret uid pw d = Inr (x4, d') \<Longrightarrow> calm d d'"
    by (auto simp: begin_mfa_setup_def bind_eq_Inr)
  show "create_mfa_challenge env now ctx rnd u d = Inr (x5, d') \<Longrightarrow> calm d d'"
    by (auto simp: create_mfa_challenge_def Let_def bind_eq_Inr calm_def)
qed

lemma mfa_calm:
  "confirm_mfa env now ctx codes uid code d = Inr (x1, d') \<Longrightarrow> calm d d'"
  "disable_mfa env now ctx uid pw code d = Inr (x2, d') \<Longrightarrow> calm d d'"
  "regenerate_recovery_codes env now ctx codes uid pw code d = Inr (x3, d') \<Longrightarrow> calm d d'"
proof -
  show "confirm_mfa env now ctx codes uid code d = Inr (x1, d') \<Longrightarrow> calm d d'"
    by (auto simp: confirm_mfa_def bind_eq_Inr split: option.splits
        dest!: replace_recovery_codes_calm notify_owner_keeps) (auto simp: calm_def)
  show "disable_mfa env now ctx uid pw code d = Inr (x2, d') \<Longrightarrow> calm d d'"
    by (auto simp: disable_mfa_def bind_eq_Inr dest!: confirmed_user_calm notify_owner_keeps) (auto simp: calm_def)
  show "regenerate_recovery_codes env now ctx codes uid pw code d = Inr (x3, d') \<Longrightarrow> calm d d'"
    by (auto simp: regenerate_recovery_codes_def bind_eq_Inr
        dest!: confirmed_user_calm replace_recovery_codes_calm notify_owner_keeps) (auto simp: calm_def)
qed

subsection \<open>The two operations that close sessions\<close>

lemma reset_password_ok:
  assumes "reset_password env now ctx token pw d = Inr (uid, d')"
  obtains t u where "t \<in> set (user_tokens d)" "ut_token_hash t = sha env token" "ut_purpose t = PasswordReset"
    "ut_used_at t = None" "now < ut_expires_at t" "ut_user_id t = uid" "tget u_id (users d) uid = Some u"
    "u_status u = UserActive" "password_problems pw = []"
    "users d' = tupd (\<lambda>u. u_id u = uid) (\<lambda>u. u\<lparr>u_sessions_revoked_at := Some now\<rparr>)
       (tupd (\<lambda>u. u_id u = uid) (new_password env now pw) (users d))"
    "user_tokens d' = tupd (unused_token uid PasswordReset) (use_token now)
       (tupd (\<lambda>x. ut_id x = ut_id t) (use_token now) (user_tokens d))"
    "sessions d' = tupd (\<lambda>s. s_user_id s = uid \<and> s_revoked_at s = None) (revoke_session now) (sessions d)"
    "mfa_challenges d' = mfa_challenges d" "mfa_recovery_codes d' = mfa_recovery_codes d"
    "invitations d' = invitations d" "next_id d \<le> next_id d'"
proof -
  obtain t d1 where pw: "password_problems pw = []" and c: "consume_token env now token PasswordReset d = Inr (t, d1)"
    using assms by (auto simp: reset_password_def check_password_def bind_eq_Inr)
  note t = consume_token_ok [OF c]
  obtain u where u: "tget u_id (users d) (ut_user_id t) = Some u" "u_status u = UserActive"
    using assms by (auto simp: reset_password_def check_password_def pw c t(6) split: option.splits if_splits)
  have i: "u_id u = ut_user_id t"
    using tget_SomeD [OF u(1)] by simp
  define d2 where "d2 = audit_user ctx ''auth.password_reset_completed'' (u_id u) (revoke_all_sessions now (u_id u)
         (invalidate_tokens now (u_id u) PasswordReset (set_user (u_id u) (new_password env now pw) d1)))"
  have u1: "tget u_id (users d1) (ut_user_id t) = Some u"
    using u(1) t(6) by simp
  have "bind (notify_owner env now u ''password_changed'' d2) (\<lambda>(_, d4). Inr (u_id u, d4)) = Inr (uid, d')"
    using assms u u1 by (simp add: reset_password_def check_password_def pw c Let_def d2_def)
  then have uid: "uid = u_id u" and "\<exists>x. notify_owner env now u ''password_changed'' d2 = Inr (x, d')"
    by (auto simp: bind_eq_Inr)
  then obtain x where "notify_owner env now u ''password_changed'' d2 = Inr (x, d')"
    by blast
  note n = notify_owner_keeps [OF this, unfolded d2_def]
  have uid': "uid = ut_user_id t"
    by (simp add: uid i)
  show ?thesis
    using n u t(1-5) by (intro that [of t u, OF _ _ _ _ _ uid' [symmetric] _ _ pw]) (simp_all add: t(6) uid' i calm_def)
qed

lemma reset_password_steps:
  assumes "reset_password env now ctx token pw d = Inr (uid, d')"
  shows "sess_step d d' \<and> invit_step d d'"
  using assms
  by (rule reset_password_ok)
    (auto intro!: sess_step_close invit_step_frame simp: closes_def revoke_session_def)

lemma admin_reset_mfa_ok:
  assumes "admin_reset_mfa env now ctx mid d = Inr (uid, d')"
  obtains m org where "c_organization_id ctx = Some org" "m \<in> set (memberships d)" "m_id m = mid" "m_organization_id m = org"
    "m_user_id m = uid" "c_is_platform_admin ctx \<or> c_role ctx = Some ROwner" "Some uid \<noteq> c_user_id ctx"
    "count_rows (\<lambda>x. m_user_id x = uid \<and> m_organization_id x \<noteq> org) (memberships d) = 0"
    "sessions d' = tupd (\<lambda>s. s_user_id s = uid \<and> s_revoked_at s = None) (revoke_session now) (sessions d)"
    "invitations d' = invitations d" "next_id d \<le> next_id d'"
proof -
  obtain org where org: "c_organization_id ctx = Some org"
    using assms by (cases "c_organization_id ctx") (auto simp: admin_reset_mfa_def)
  obtain m where m: "one_or_none (filter (\<lambda>m. m_id m = mid \<and> m_organization_id m = org) (memberships d)) = Inr (Some m)"
    using assms by (auto simp: admin_reset_mfa_def org bind_eq_Inr split: option.splits)
  have g: "c_is_platform_admin ctx \<or> c_role ctx = Some ROwner" "Some (m_user_id m) \<noteq> c_user_id ctx"
    "count_rows (\<lambda>x. m_user_id x = m_user_id m \<and> m_organization_id x \<noteq> org) (memberships d) = 0"
    using assms by (auto simp: admin_reset_mfa_def org m bind_eq_Inr)
  obtain u where u: "require_user (m_user_id m) d = Inr u"
    using assms by (auto simp: admin_reset_mfa_def org m bind_eq_Inr)
  have i: "u_id u = m_user_id m"
    using u tget_SomeD [of u_id "users d" "m_user_id m" u] by (auto simp: require_user_def split: option.splits if_splits)
  define d2 where "d2 = record_audit ctx ''auth.mfa_reset_by_admin'' ''user'' (Some (u_id u)) (Some org)
        (revoke_all_sessions now (u_id u) (delete_codes (u_id u) (set_user (u_id u) clear_mfa d)))"
  have "bind (notify_owner env now u ''mfa_reset'' d2) (\<lambda>(_, d3). Inr (u_id u, d3)) = Inr (uid, d')"
    using assms by (auto simp: admin_reset_mfa_def org m u bind_eq_Inr Let_def d2_def)
  then have uid: "uid = u_id u" and "\<exists>x. notify_owner env now u ''mfa_reset'' d2 = Inr (x, d')"
    by (auto simp: bind_eq_Inr)
  then obtain x where "notify_owner env now u ''mfa_reset'' d2 = Inr (x, d')"
    by blast
  note n = notify_owner_keeps [OF this, unfolded d2_def]
  have uid': "m_user_id m = uid"
    by (simp add: uid i)
  show ?thesis
    using n g one_or_none_filterD [OF m] by (intro that [OF org, of m]) (simp_all add: uid' uid [symmetric] calm_def)
qed

lemma admin_reset_mfa_steps:
  assumes "admin_reset_mfa env now ctx mid d = Inr (uid, d')"
  shows "sess_step d d' \<and> invit_step d d'"
  using assms
  by (rule admin_reset_mfa_ok)
    (auto intro!: sess_step_close invit_step_frame simp: closes_def revoke_session_def)

subsection \<open>The answer to a challenge\<close>

lemma verify_mfa_challenge_cases:
  assumes "verify_mfa_challenge env now ctx token code recovery d = (r, d')"
  obtains (refused) e where "r = Inl e" "d' = d"
  | (wrong) c and u :: user where "challenge_by_token env token d = Inr (Some c)" "challenge_open now c"
      "r = Inl InvalidMfaCodeError"
      "d' = audit_user ctx ''auth.mfa_challenge_failed'' (u_id u) (set_challenge (mc_id c) fail_challenge d)"
  | (right) c u k d1 where "challenge_by_token env token d = Inr (Some c)" "challenge_open now c"
      "tget u_id (users d) (mc_user_id c) = Some u" "u_status u = UserActive" "u_mfa_enabled_at u \<noteq> None"
      "verify_second_factor env now ctx u (submitted_code code recovery) d = Inr (k, d1)"
      "r = Inr u" "d' = set_challenge (mc_id c) (\<lambda>r. r\<lparr>mc_consumed_at := Some now\<rparr>) d1"
proof (cases "\<exists>e. r = Inl e \<and> d' = d")
  case True
  then show ?thesis
    using refused by blast
next
  case False
  then obtain c where c: "challenge_by_token env token d = Inr (Some c)" "challenge_open now c"
    using assms by (auto simp: verify_mfa_challenge_def split: sum.splits option.splits if_splits)
  then obtain u where u: "tget u_id (users d) (mc_user_id c) = Some u" "u_status u = UserActive" "u_mfa_enabled_at u \<noteq> None"
    using assms False by (auto simp: verify_mfa_challenge_def split: option.splits if_splits)
  have tried: "try_challenge env now ctx c u (submitted_code code recovery) d = (r, d')"
    using assms c u by (simp add: verify_mfa_challenge_def)
  show ?thesis
  proof (cases "verify_second_factor env now ctx u (submitted_code code recovery) d")
    case (Inl e)
    then show ?thesis
      using tried wrong [OF c, of u] False by (cases e) (auto simp: try_challenge_def)
  next
    case (Inr p)
    then show ?thesis
      using tried right [OF c u] by (cases p) (auto simp: try_challenge_def)
  qed
qed

lemma verify_mfa_challenge_calm:
  "verify_mfa_challenge env now ctx token code recovery d = (r, d') \<Longrightarrow> calm d d'"
  by (erule verify_mfa_challenge_cases) (auto dest: verify_second_factor_calm)

end
