(* ===== verification/Accounts.thy ===== *)
theory Accounts
  imports AccountSecurity
begin

section \<open>Accounts over time\<close>

text \<open>
  The authentication endpoints of \<^verbatim>\<open>api/routers/v1/auth.py\<close>, which compose the two services
  in one transaction, and what holds along any sequence of requests: the families of sessions, the
  invitations, the lockout, the second factor. Rate limits and cookies are left out here.
\<close>

subsection \<open>Endpoints\<close>

datatype login_answer = ChallengeAnswer string | SessionAnswer authenticated

definition login ::
    "account_env \<Rightarrow> instant \<Rightarrow> request_context \<Rightarrow> string \<Rightarrow> string \<Rightarrow> string \<Rightarrow> db \<Rightarrow> login_answer result \<times> db" where
  "login env now ctx rnd email pw d =
     (case authenticate (av_identity env) now ctx email pw d of
        (Inl e, d1) \<Rightarrow> (Inl e, d1)
      | (Inr (u, m), d1) \<Rightarrow>
          if u_mfa_enabled_at u \<noteq> None
          then (case create_mfa_challenge env now ctx rnd u d1 of
                  Inl e \<Rightarrow> (Inl e, d) | Inr (token, d2) \<Rightarrow> (Inr (ChallengeAnswer token), d2))
          else (case start_session (av_identity env) now ctx rnd u m d1 of
                  Inl e \<Rightarrow> (Inl e, d) | Inr (a, d2) \<Rightarrow> (Inr (SessionAnswer a), d2)))"

definition verify_mfa ::
    "account_env \<Rightarrow> instant \<Rightarrow> request_context \<Rightarrow> string \<Rightarrow> string \<Rightarrow> string option \<Rightarrow> string option \<Rightarrow> db \<Rightarrow>
     authenticated result \<times> db" where
  "verify_mfa env now ctx rnd token code recovery d =
     (case verify_mfa_challenge env now ctx token code recovery d of
        (Inl e, d1) \<Rightarrow> (Inl e, d1)
      | (Inr u, d1) \<Rightarrow>
          (case start_session (av_identity env) now ctx rnd u (get_active_membership (u_id u) d1) d1 of
             Inl e \<Rightarrow> (Inl e, d) | Inr (a, d2) \<Rightarrow> (Inr a, d2)))"

definition register ::
    "account_env \<Rightarrow> instant \<Rightarrow> request_context \<Rightarrow> string \<Rightarrow> string \<Rightarrow> string \<Rightarrow> string \<Rightarrow> string \<Rightarrow> string \<Rightarrow> string \<Rightarrow>
     db \<Rightarrow> (authenticated \<times> db) result" where
  "register env now ctx rnd1 rnd2 name slug email full_name pw d =
     bind (register_organization (av_identity env) now ctx name slug email full_name pw d) (\<lambda>((org, u, m), d1).
     bind (send_email_verification env now ctx rnd1 u d1) (\<lambda>(_, d2).
       start_session (av_identity env) now ctx rnd2 u (Some m) d2))"

subsection \<open>Steps\<close>

text \<open>One committed request, successful or not.\<close>

inductive auth_step :: "account_env \<Rightarrow> db \<Rightarrow> db \<Rightarrow> bool" for env where
  register: "auth_step env d (committed (register env now ctx r1 r2 n sl e fn pw) d)"
| login: "auth_step env d (snd (login env now ctx rnd e pw d))"
| verify_mfa: "auth_step env d (snd (verify_mfa env now ctx rnd token code rc d))"
| refresh: "auth_step env d (snd (rotate_refresh_token (av_identity env) id now ctx rnd token d))"
| logout: "auth_step env d (committed (logout (av_identity env) now ctx token) d)"
| invite: "auth_step env d (committed (create_invitation (av_identity env) now ctx rnd e role) d)"
| resend: "auth_step env d (committed (resend_invitation (av_identity env) now ctx rnd i) d)"
| revoke: "auth_step env d (committed (revoke_invitation now ctx i) d)"
| accept: "auth_step env d (committed (accept_invitation (av_identity env) now ctx token fno pwo) d)"
| forgot: "auth_step env d (committed (request_password_reset env now ctx rnd e) d)"
| reset: "auth_step env d (committed (reset_password env now ctx token pw) d)"
| resend_verification: "auth_step env d (committed (resend_email_verification env now ctx rnd i) d)"
| verify_email: "auth_step env d (committed (verify_email env now ctx token) d)"
| mfa_setup: "auth_step env d (committed (begin_mfa_setup env ctx secret i pw) d)"
| mfa_confirm: "auth_step env d (committed (confirm_mfa env now ctx codes i c) d)"
| mfa_disable: "auth_step env d (committed (disable_mfa env now ctx i pw c) d)"
| mfa_codes: "auth_step env d (committed (regenerate_recovery_codes env now ctx codes i pw c) d)"
| mfa_reset: "auth_step env d (committed (admin_reset_mfa env now ctx i) d)"

lemma committed_rel:
  "(\<And>r d'. f d = Inr (r, d') \<Longrightarrow> R d d') \<Longrightarrow> R d d \<Longrightarrow> R d (committed f d)"
  by (cases "f d") auto

lemma authenticate_invit: "invit_step d (snd (authenticate env now ctx e pw d))"
  by (rule invit_step_frame)
    (auto simp: authenticate_def record_failed_login_def Let_def split: sum.splits option.splits)

lemma start_session_invit: "start_session env now ctx rnd u m d = Inr (a, d') \<Longrightarrow> invit_step d d'"
  by (rule invit_step_frame) (auto simp: start_session_def Let_def bind_eq_Inr)

lemma session_ops_invit:
  "logout env now ctx token d = Inr (u, d') \<Longrightarrow> invit_step d d'"
  "register_organization env now ctx n sl e fn pw d = Inr (r, d') \<Longrightarrow> invit_step d d'"
  by (rule invit_step_frame;
      auto simp: logout_def revoke_family_def register_organization_def add_tenant_def add_membership_def start_trial_def
        Let_def bind_eq_Inr split: option.splits)+

lemma open_successor_invit:
  "open_successor env now ctx rnd u s d = Inr (a, d') \<Longrightarrow> invitations d' = invitations d \<and> next_id d \<le> next_id d'"
  by (auto simp: open_successor_def Let_def bind_eq_Inr set_session_def)

lemma rotate_invit: "invit_step d (snd (rotate_refresh_token env id now ctx rnd token d))"
proof -
  have "invit_step d d'" if "rotate_session env now ctx rnd s d = (r, d')" for s r d'
    using that
  proof (cases rule: rotate_session_cases)
    case reuse
    then show ?thesis
      by (auto intro!: invit_step_frame simp: report_reuse_def revoke_family_def)
  next
    case (fresh u a)
    then show ?thesis
      using open_successor_invit by (blast intro: invit_step_frame)
  next
    case (retried u a x)
    then show ?thesis
      using open_successor_invit [OF retried(7)]
      by (intro invit_step_frame) (simp_all add: supersede_def set_session_def)
  qed simp_all
  then show ?thesis
    by (auto simp: rotate_refresh_token_def split: sum.splits option.splits intro: prod.collapse [symmetric])
qed

text \<open>Each request keeps what the sessions and what the invitations owe.\<close>

definition both :: "db \<Rightarrow> db \<Rightarrow> bool" where
  "both d d' \<longleftrightarrow> sess_step d d' \<and> invit_step d d'"

lemma both_refl [simp]: "both d d"
  by (simp add: both_def)

lemma both_trans: "both d d1 \<Longrightarrow> both d1 d2 \<Longrightarrow> both d d2"
  by (auto simp: both_def intro: sess_step_trans invit_step_trans)

lemma calm_both: "calm d d' \<Longrightarrow> both d d'"
  by (simp add: both_def calm_steps)

lemma start_session_both: "start_session env now ctx rnd u m d = Inr (a, d') \<Longrightarrow> both d d'"
  by (simp add: both_def start_session_step start_session_invit)

lemma authenticate_both: "authenticate env now ctx e pw d = (r, d') \<Longrightarrow> both d d'"
  using authenticate_step [of d env now ctx e pw] authenticate_invit [of d env now ctx e pw] by (simp add: both_def)

lemma login_both: "both d (snd (login env now ctx rnd e pw d))"
  by (auto simp: login_def split: sum.splits prod.splits if_splits
      dest!: authenticate_both start_session_both account_calm(5) intro: both_trans calm_both)

lemma verify_mfa_both: "both d (snd (verify_mfa env now ctx rnd token code rc d))"
  by (auto simp: verify_mfa_def split: sum.splits prod.splits
      dest!: verify_mfa_challenge_calm start_session_both intro: both_trans calm_both)

lemma register_organization_both: "register_organization env now ctx n sl e fn pw d = Inr (r, d') \<Longrightarrow> both d d'"
  by (simp add: both_def register_step session_ops_invit(2))

lemma register_both: "register env now ctx r1 r2 n sl e fn pw d = Inr (a, d') \<Longrightarrow> both d d'"
  by (auto simp: register_def bind_eq_Inr
      dest!: register_organization_both send_email_verification_calm start_session_both
      intro: both_trans [OF _ both_trans [OF calm_both]])

lemma auth_step_both: "auth_step env d d' \<Longrightarrow> both d d'"
proof (induction rule: auth_step.induct)
  case (login d now ctx rnd e pw)
  then show ?case
    by (rule login_both)
next
  case (verify_mfa d now ctx rnd token code rc)
  then show ?case
    by (rule verify_mfa_both)
next
  case (refresh d now ctx rnd token)
  then show ?case
    by (simp add: both_def rotate_step rotate_invit)
qed (rule committed_rel;
     auto simp: both_def dest: register_both [unfolded both_def] logout_step session_ops_invit invitation_steps accept_invitation_step
       create_invitation_step resend_invitation_step revoke_invitation_step accept_invitation_invit_step
       account_calm mfa_calm reset_password_steps admin_reset_mfa_steps dest!: calm_steps)+

lemma auth_run_both: "(auth_step env)\<^sup>*\<^sup>* d d' \<Longrightarrow> both d d'"
  by (induction rule: rtranclp_induct) (auto intro: both_trans auth_step_both)

interpretation invitation_life: lifecycle get_invitation invit_inv "auth_step env" invitation_state
    invitation_arrow invitation_settled
proof
  show "auth_step env d d' \<Longrightarrow> invit_inv d \<Longrightarrow> invit_inv d'" for d d'
    using auth_step_both [of env d d'] by (simp add: both_def invit_step_def)
  show "auth_step env d d' \<Longrightarrow> invit_inv d \<Longrightarrow> get_invitation d i = Some r \<Longrightarrow> \<exists>r'. get_invitation d' i = Some r' \<and>
      (invitation_state r' = invitation_state r \<or> invitation_arrow (invitation_state r) (invitation_state r'))" for d d' i r
    using auth_step_both [of env d d'] unfolding both_def by (blast elim: invit_stepD)
  show "auth_step env d d' \<Longrightarrow> invit_inv d \<Longrightarrow> get_invitation d i = Some r \<Longrightarrow>
      invitation_settled (invitation_state r) \<Longrightarrow> get_invitation d' i = Some r" for d d' i r
    using auth_step_both [of env d d'] unfolding both_def by (blast elim: invit_stepD)
qed

subsection \<open>Dead families\<close>

lemma no_successor_in_dead_family:
  assumes "sess_inv d" "s \<in> set (sessions d)" "family_dead (s_family_id s) (sessions d)"
  shows "unused_successor env now ctx s d = None"
proof (rule ccontr)
  assume "unused_successor env now ctx s d \<noteq> None"
  then obtain x where x: "unused_successor env now ctx s d = Some x"
    by blast
  note u = unused_successor_some [OF x]
  have "s_family_id x = s_family_id s" "x \<in> set (sessions d)"
    using sess_inv_chain [OF assms(1,2) u(1,2)] tget_SomeD [OF u(2)] by simp_all
  then show False
    using assms(3) u(3) by (auto simp: family_dead_def list_all_iff)
qed

lemma rotate_dead_family:
  assumes "sess_inv d" "session_by_token env token d = Inr (Some s)" "family_dead (s_family_id s) (sessions d)"
  shows "fst (rotate_refresh_token env id now ctx rnd token d) = Inl InvalidCredentialsError"
proof -
  have s: "s \<in> set (sessions d)"
    using session_by_token_some [OF assms(2)] by simp
  then have "s_revoked_at s \<noteq> None"
    using assms(3) by (auto simp: family_dead_def list_all_iff)
  then show ?thesis
    using no_successor_in_dead_family [OF assms(1) s assms(3)] assms(2)
    by (simp add: rotate_refresh_token_def rotate_session_def)
qed

subsection \<open>Overlapping refreshes\<close>

lemma tupd_keeps: "x \<in> set rows \<Longrightarrow> \<not> p x \<Longrightarrow> x \<in> set (tupd p f rows)"
  by (induction rows) auto

lemma open_successor_succeeds':
  assumes s: "s_revoked_at s = None" "\<exists>x \<in> set (sessions d). s_id x = s_id s" and c: "identity_constraints d"
    and ids: "list_all (\<lambda>x. s_id x < next_id d) (sessions d)"
    and fresh: "distinct (iv_sha env (opaque_secret ''vrt'' rnd) # map s_refresh_token_hash (sessions d))"
  shows "\<exists>a d' n. open_successor env now ctx rnd u s d = Inr (a, d') \<and> identity_constraints d' \<and>
    list_all (\<lambda>x. s_id x < next_id d') (sessions d') \<and> users d' = users d \<and> next_id d' = Suc (next_id d) \<and>
    n \<in> set (sessions d') \<and> s_id n = next_id d \<and> s_family_id n = s_family_id s \<and> s_revoked_at n = None \<and>
    set (map s_refresh_token_hash (sessions d')) =
      insert (iv_sha env (opaque_secret ''vrt'' rnd)) (set (map s_refresh_token_hash (sessions d))) \<and>
    (\<exists>x \<in> set (sessions d'). s_id x = s_id s) \<and> (\<forall>x \<in> set (sessions d). s_id x \<noteq> s_id s \<longrightarrow> x \<in> set (sessions d'))"
proof -
  let ?tok = "opaque_secret ''vrt'' rnd"
  let ?n = "rotated env now ctx ?tok (next_id d) (u_id u) s"
  let ?ss = "tupd (\<lambda>q. s_id q = s_id s) (revoke_session now) (sessions d)"
  let ?d2 = "d\<lparr>sessions := ?ss @ [?n], next_id := Suc (next_id d)\<rparr>"
  let ?d' = "d\<lparr>sessions := tupd (\<lambda>q. s_id q = s_id s) (\<lambda>r. r\<lparr>s_replaced_by_id := Some (next_id d)\<rparr>) (?ss @ [?n]),
     next_id := Suc (next_id d)\<rparr>"
  have n: "s_id ?n = next_id d" "s_family_id ?n = s_family_id s" "s_revoked_at ?n = None"
    "s_refresh_token_hash ?n = iv_sha env ?tok"
    by (simp_all add: rotated_def)
  have lt: "s_id s < next_id d"
    using s(2) ids by (auto simp: list_all_iff)
  have h: "map s_refresh_token_hash ?ss = map s_refresh_token_hash (sessions d)"
    by (rule map_tupd) (simp add: revoke_session_def)
  have h': "map s_refresh_token_hash (sessions ?d') = map s_refresh_token_hash (sessions d) @ [iv_sha env ?tok]"
    using h n lt by (simp add: map_tupd)
  have c2: "identity_constraints ?d2" "identity_constraints ?d'"
    using c fresh h h' n by (auto simp: identity_constraints_def unique_on_def)
  have f1: "open_successor env now ctx rnd u s d =
      Inr (\<lparr>au_user = u, au_membership = get_active_membership (u_id u) d, au_refresh_token = ?tok, au_session_id = next_id d\<rparr>, ?d')"
    using s(1) c2(1) n(1) lt by (simp add: open_successor_def Let_def set_session_def flush_def)
  have f2: "list_all (\<lambda>x. s_id x < next_id ?d') (sessions ?d')"
    using ids n lt by (simp add: list_all_tupd_iff) (auto simp: list_all_iff revoke_session_def)
  have f3: "?n \<in> set (sessions ?d')"
    using n(1) lt by simp
  have f4: "\<exists>x \<in> set (sessions ?d'). s_id x = s_id s"
  proof -
    have "map s_id (sessions ?d') = map s_id (sessions d) @ [next_id d]"
      using n(1) lt by (simp add: map_tupd revoke_session_def)
    then have "s_id ` set (sessions ?d') = insert (next_id d) (s_id ` set (sessions d))"
      by (metis list.set_map set_append list.simps(15) Un_insert_right sup_bot.right_neutral empty_set)
    moreover have "s_id s \<in> s_id ` set (sessions d)"
      using s(2) by (metis image_eqI)
    ultimately have "s_id s \<in> s_id ` set (sessions ?d')"
      by (simp only: insert_iff simp_thms)
    then obtain x where "x \<in> set (sessions ?d')" "s_id s = s_id x"
      by (rule imageE) (rule that)
    then show ?thesis
      by (intro bexI [of _ x]) (simp_all only:)
  qed
  have f5: "\<forall>x \<in> set (sessions d). s_id x \<noteq> s_id s \<longrightarrow> x \<in> set (sessions ?d')"
    by (simp add: tupd_keeps)
  have f6: "set (map s_refresh_token_hash (sessions ?d')) = insert (iv_sha env ?tok) (set (map s_refresh_token_hash (sessions d)))"
    using h' by simp
  show ?thesis
    by (rule exI [of _ "\<lparr>au_user = u, au_membership = get_active_membership (u_id u) d, au_refresh_token = ?tok,
          au_session_id = next_id d\<rparr>"], rule exI [of _ ?d'], rule exI [of _ ?n])
      (intro conjI f1 c2(2) f2 f3 n(1-3) f6 f4 f5; simp)
qed

lemma open_successor_succeeds:
  assumes "s_revoked_at s = None" "s \<in> set (sessions d)" "identity_constraints d"
    "list_all (\<lambda>x. s_id x < next_id d) (sessions d)"
    "distinct (iv_sha env (opaque_secret ''vrt'' rnd) # map s_refresh_token_hash (sessions d))"
  shows "\<exists>a d' n. open_successor env now ctx rnd u s d = Inr (a, d') \<and> identity_constraints d' \<and>
    list_all (\<lambda>x. s_id x < next_id d') (sessions d') \<and> users d' = users d \<and> next_id d' = Suc (next_id d) \<and>
    n \<in> set (sessions d') \<and> s_id n = next_id d \<and> s_family_id n = s_family_id s \<and> s_revoked_at n = None \<and>
    set (map s_refresh_token_hash (sessions d')) =
      insert (iv_sha env (opaque_secret ''vrt'' rnd)) (set (map s_refresh_token_hash (sessions d))) \<and>
    (\<exists>x \<in> set (sessions d'). s_id x = s_id s)"
  using open_successor_succeeds' [OF assms(1) _ assms(3-5)] assms(2) by blast

subsection \<open>The second factor\<close>

lemma matching_needs_totp: "matching_time_step f secret code now = Some step \<Longrightarrow> looks_like_totp code"
  by (simp add: matching_time_step_def split: if_splits)

lemma spent_code:
  assumes "verify_recovery env now ctx u code d = Inr (k, d1)" "account_constraints d" "x \<in> set (mfa_recovery_codes d1)"
    "rc_user_id x = u_id u" "rc_code_hash x = hash_recovery_code env code"
  shows "rc_used_at x \<noteq> None"
  using assms(1)
proof (rule verify_recovery_ok)
  fix c
  assume c: "c \<in> set (mfa_recovery_codes d)" "rc_user_id c = u_id u" "rc_code_hash c = hash_recovery_code env code"
    "mfa_recovery_codes d1 = tupd (\<lambda>x. rc_id x = rc_id c) (use_code now) (mfa_recovery_codes d)"
  have only: "x = c" if "x \<in> set (mfa_recovery_codes d)" "rc_user_id x = u_id u" "rc_code_hash x = hash_recovery_code env code" for x
    using assms(2) that c by (intro unique_on_memb [where p = "\<lambda>_. True" and key = "\<lambda>c. (rc_user_id c, rc_code_hash c)"])
      (auto simp: account_constraints_def)
  obtain q where "q \<in> set (mfa_recovery_codes d)" "x = (if rc_id q = rc_id c then use_code now q else q)"
    using assms(3) unfolding c(4) set_tupd by blast
  then show ?thesis
    using only [of q] assms(4,5) by (cases "rc_id q = rc_id c") (auto simp: use_code_def)
qed

lemma verify_recovery_refused:
  assumes "\<forall>x \<in> set (mfa_recovery_codes d). rc_user_id x = u_id u \<and> rc_code_hash x = hash_recovery_code env code \<longrightarrow> rc_used_at x \<noteq> None"
  shows "verify_recovery env now ctx u code d = Inl InvalidMfaCodeError"
proof -
  have "filter (\<lambda>c. rc_user_id c = u_id u \<and> rc_code_hash c = hash_recovery_code env code \<and> rc_used_at c = None)
      (mfa_recovery_codes d) = []"
    using assms by (auto simp: filter_empty_conv)
  then show ?thesis
    by (simp add: verify_recovery_def)
qed

lemma verify_totp_older:
  assumes "u_mfa_last_used_step u = Some k" "u_mfa_totp_secret_enc u = Some v" "decrypt_field env v = Inr secret"
    and "\<And>step. matching_time_step (av_totp_at env) secret code now = Some step \<Longrightarrow> step \<le> k"
  shows "verify_totp env now u code d = Inl InvalidMfaCodeError"
  using assms by (auto simp: verify_totp_def split: option.splits)

subsection \<open>Answers to one challenge\<close>

text \<open>
  A run of answers to the challenge of a token; \<open>wrong_answers\<close> counts those that were compared with
  the second factor and refused.
\<close>

definition answer_checked :: "account_env \<Rightarrow> instant \<Rightarrow> string \<Rightarrow> db \<Rightarrow> bool" where
  "answer_checked env now token d \<longleftrightarrow>
     (case challenge_by_token env token d of
        Inr (Some c) \<Rightarrow> challenge_open now c \<and>
          (case tget u_id (users d) (mc_user_id c) of None \<Rightarrow> False
           | Some u \<Rightarrow> u_status u = UserActive \<and> u_mfa_enabled_at u \<noteq> None)
      | _ \<Rightarrow> False)"

fun wrong_answers ::
    "account_env \<Rightarrow> request_context \<Rightarrow> string \<Rightarrow> (instant \<times> string option \<times> string option) list \<Rightarrow> db \<Rightarrow> nat" where
  "wrong_answers env ctx token [] d = 0"
| "wrong_answers env ctx token ((now, code, recovery) # rest) d =
     (case verify_mfa_challenge env now ctx token code recovery d of
        (r, d1) \<Rightarrow> (if answer_checked env now token d \<and> r = Inl InvalidMfaCodeError then 1 else 0) +
                   wrong_answers env ctx token rest d1)"

lemma challenge_by_token_set:
  assumes "challenge_by_token env token d = Inr (Some c)" "\<And>r. mc_token_hash (f r) = mc_token_hash r"
    and "mfa_challenges d' = tupd (\<lambda>r. mc_id r = mc_id c) f (mfa_challenges d)"
  shows "challenge_by_token env token d' = Inr (Some (f c))"
proof -
  have "filter (\<lambda>r. mc_token_hash r = sha env token) (mfa_challenges d') =
      tupd (\<lambda>r. mc_id r = mc_id c) f (filter (\<lambda>r. mc_token_hash r = sha env token) (mfa_challenges d))"
    unfolding assms(3) by (rule filter_tupd_same) (simp add: assms(2))
  then show ?thesis
    using assms(1) by (simp add: challenge_by_token_def one_or_none_Some)
qed

lemma fail_challenge_hash [simp]: "mc_token_hash (fail_challenge c) = mc_token_hash c"
  by (simp add: fail_challenge_def)

lemma wrong_answers_closed:
  assumes "challenge_by_token env token d = Inr (Some c)" "\<And>now. \<not> challenge_open now c"
  shows "wrong_answers env ctx token as d = 0"
proof (induction as)
  case (Cons a as)
  then show ?case
    using assms by (cases a) (simp add: answer_checked_def verify_mfa_challenge_def)
qed simp

lemma tried_challenge_changes: "try_challenge env now ctx c u code d \<noteq> (Inl InvalidMfaCodeError, d)"
proof
  assume "try_challenge env now ctx c u code d = (Inl InvalidMfaCodeError, d)"
  then have "d = audit_user ctx ''auth.mfa_challenge_failed'' (u_id u) (set_challenge (mc_id c) fail_challenge d)"
    by (auto simp: try_challenge_def split: sum.splits exn.splits prod.splits)
  then have "length (audit_logs d) =
      length (audit_logs (audit_user ctx ''auth.mfa_challenge_failed'' (u_id u) (set_challenge (mc_id c) fail_challenge d)))"
    by simp
  then show False
    by (simp add: audit_user_def set_challenge_def)
qed

lemma wrong_answers_bound:
  assumes "challenge_by_token env token d = Inr (Some c)" "mc_attempts c \<le> mfa_max_attempts"
  shows "wrong_answers env ctx token as d \<le> nat (mfa_max_attempts - mc_attempts c)"
  using assms
proof (induction as arbitrary: d c)
  case (Cons a as)
  obtain now code rc where a: "a = (now, code, rc)"
    by (cases a) auto
  obtain r d1 where v: "verify_mfa_challenge env now ctx token code rc d = (r, d1)"
    by fastforce
  from v show ?case
  proof (cases rule: verify_mfa_challenge_cases)
    case (wrong c' u)
    then have c: "c' = c" "mc_attempts c < mfa_max_attempts"
      using Cons.prems by (auto simp: challenge_open_def)
    have "challenge_by_token env token d1 = Inr (Some (fail_challenge c))"
      using Cons.prems(1) by (rule challenge_by_token_set) (simp_all add: wrong(4) c(1))
    from Cons.IH [OF this] c have "wrong_answers env ctx token as d1 \<le> nat (mfa_max_attempts - (mc_attempts c + 1))"
      by (simp add: fail_challenge_def)
    moreover have "nat (mfa_max_attempts - mc_attempts c) = Suc (nat (mfa_max_attempts - (mc_attempts c + 1)))"
      using c(2) by simp
    ultimately show ?thesis
      using v by (simp add: a)
  next
    case (right c' u k d2)
    let ?f = "\<lambda>r. r\<lparr>mc_consumed_at := Some now\<rparr>"
    have c: "c' = c"
      using Cons.prems right by simp
    have "challenge_by_token env token d1 = Inr (Some (?f c))"
      using Cons.prems(1) by (rule challenge_by_token_set)
        (simp_all add: right(8) c verify_second_factor_calm(3) [OF right(6)])
    then have "wrong_answers env ctx token as d1 = 0"
      by (rule wrong_answers_closed) (simp add: challenge_open_def)
    then show ?thesis
      using v right(7) by (simp add: a)
  next
    case (refused e)
    show ?thesis
    proof (cases "answer_checked env now token d \<and> r = Inl InvalidMfaCodeError")
      case False
      then show ?thesis
        using Cons.IH [OF Cons.prems] v refused by (auto simp: a)
    next
      case True
      then show ?thesis
        using Cons.prems v refused tried_challenge_changes
        by (auto simp: answer_checked_def verify_mfa_challenge_def split: sum.splits option.splits)
    qed
  qed
qed simp

text \<open>A link that was consumed cannot be consumed again.\<close>

lemma consumed_link:
  assumes c: "consume_token env now token purpose d = Inr (t, d1)"
    and d2: "user_tokens d2 = tupd p (use_token now2) (user_tokens d1)"
  shows "consume_token env now' token purpose d2 = Inl InvalidAccountTokenError"
proof -
  let ?p = "\<lambda>t. ut_token_hash t = sha env token \<and> ut_purpose t = purpose"
  have f: "filter ?p (user_tokens d) = [t]"
    using c by (auto simp: consume_token_def bind_eq_Inr one_or_none_Some split: option.splits if_splits)
  have "filter ?p (user_tokens d2) = tupd p (use_token now2) (tupd (\<lambda>x. ut_id x = ut_id t) (use_token now) (filter ?p (user_tokens d)))"
    unfolding d2 consume_token_ok(6) [OF c] by (simp add: filter_tupd_same use_token_def)
  then show ?thesis
    by (simp add: f consume_token_def use_token_def)
qed

lemma spent_link:
  assumes "reset_password env now ctx token pw d = Inr (uid, d1)"
  shows "consume_token env now' token PasswordReset d1 = Inl InvalidAccountTokenError"
proof -
  obtain t d0 where c: "consume_token env now token PasswordReset d = Inr (t, d0)"
    using assms by (auto simp: reset_password_def bind_eq_Inr)
  have "user_tokens d1 = tupd (unused_token uid PasswordReset) (use_token now) (user_tokens d0)"
    using assms
  proof (rule reset_password_ok)
    fix t'
    assume "t' \<in> set (user_tokens d)" "ut_token_hash t' = sha env token" "ut_purpose t' = PasswordReset"
      and d1: "user_tokens d1 = tupd (unused_token uid PasswordReset) (use_token now)
       (tupd (\<lambda>x. ut_id x = ut_id t') (use_token now) (user_tokens d))"
    then have "t' \<in> set (filter (\<lambda>t. ut_token_hash t = sha env token \<and> ut_purpose t = PasswordReset) (user_tokens d))"
      by simp
    moreover have "filter (\<lambda>t. ut_token_hash t = sha env token \<and> ut_purpose t = PasswordReset) (user_tokens d) = [t]"
      using c by (auto simp: consume_token_def bind_eq_Inr one_or_none_Some split: option.splits if_splits)
    ultimately have "t' = t"
      by simp
    then show ?thesis
      using d1 consume_token_ok(6) [OF c] by simp
  qed
  then show ?thesis
    by (rule consumed_link [OF c])
qed

subsection \<open>Properties\<close>

text \<open>
  A small world for the witnesses: one tenant with a user without and a user with a second factor, an
  open invitation, a reset link, a recovery code and a login challenge. The hash is the identity.
\<close>

definition demo_env :: account_env where
  "demo_env = \<lparr>av_identity = \<lparr>iv_sha = (\<lambda>s. s), iv_hash = (\<lambda>s. s), iv_verify = (=), iv_refresh_ttl = days 30,
       iv_reuse_grace = seconds 30, iv_invitation_ttl = days 7, iv_mail = Some (Some (\<lambda>_. ''sealed''))\<rparr>,
     av_mail = Some (\<lambda>_. ''sealed''), av_cipher = Some (\<lambda>s. s, Some), av_totp_at = (\<lambda>_ _. ''123456''),
     av_uri = (\<lambda>a b. a), av_reset_ttl_minutes = 30, av_verification_ttl_hours = 24\<rparr>"

definition demo_db :: db where
  "demo_db = empty_db\<lparr>organizations := [\<lparr>org_id = 1, org_name = ''Demo'', org_slug = ''demo'', org_status = OrgActive\<rparr>],
     users := [new_user 2 ''ann@x.tr'' ''correct horse 1'' ''Ann'' None,
       (new_user 3 ''bob@x.tr'' ''correct horse 2'' ''Bob'' None)\<lparr>u_mfa_totp_secret_enc := Some ''k'', u_mfa_enabled_at := Some 0\<rparr>],
     memberships := [new_membership 0 4 2 1 ROwner, new_membership 0 5 3 1 RCoach],
     invitations := [\<lparr>inv_id = 6, inv_organization_id = 1, inv_email = ''eve@x.tr'', inv_role_key = RAnalyst,
       inv_token_hash = ''vri_1'', inv_invited_by_user_id = Some 2, inv_expires_at = days 7, inv_accepted_at = None,
       inv_revoked_at = None, inv_last_sent_at = None\<rparr>],
     user_tokens := [\<lparr>ut_id = 7, ut_user_id = 2, ut_purpose = PasswordReset, ut_token_hash = ''vra_1'',
       ut_expires_at = minutes 30, ut_used_at = None, ut_requested_ip = None\<rparr>],
     mfa_recovery_codes := [\<lparr>rc_id = 8, rc_user_id = 3, rc_code_hash = ''ABCD2345'', rc_used_at = None\<rparr>],
     mfa_challenges := [\<lparr>mc_id = 9, mc_user_id = 3, mc_token_hash = ''vrm_1'', mc_expires_at = minutes 5,
       mc_attempts = 0, mc_consumed_at = None, mc_ip_address = None\<rparr>],
     plans := plan_catalog, next_id := 10\<rparr>"

definition demo_login :: db where
  "demo_login = snd (login demo_env 0 system_context ''a'' ''ann@x.tr'' ''correct horse 1'' demo_db)"

definition demo_refresh :: db where
  "demo_refresh = snd (rotate_refresh_token (av_identity demo_env) id (minutes 10) system_context ''b'' ''vrt_a'' demo_login)"

text \<open>
  C3: along any sequence of authentication requests from a database without sessions, a family of
  sessions has at most one open member, never changes hands, and every session that was rotated is
  closed and points to its successor in the same family.
\<close>

theorem sessions_one_open_per_family:
  assumes "(auth_step env)\<^sup>*\<^sup>* d d'" "sessions d = []"
  shows "unique_on (\<lambda>s. s_revoked_at s = None) s_family_id (sessions d') \<and> one_owner (sessions d') \<and>
    list_all (chained (sessions d')) (sessions d')"
proof -
  have "sess_inv d"
    by (simp add: sess_inv_def sess_ok_def assms(2) one_owner_def)
  then have "sess_inv d'"
    using auth_run_both [OF assms(1)] by (simp add: both_def sess_step_def)
  then show ?thesis
    by (simp add: sess_inv_def sess_ok_def)
qed

theorem sessions_one_open_per_family_witness:
  "unique_on (\<lambda>s. s_revoked_at s = None) s_family_id (sessions demo_refresh) \<and> one_owner (sessions demo_refresh) \<and>
    list_all (chained (sessions demo_refresh)) (sessions demo_refresh) \<and> length (sessions demo_refresh) = 2"
proof -
  have "(auth_step demo_env)\<^sup>*\<^sup>* demo_db demo_refresh"
    unfolding demo_refresh_def demo_login_def
    by (rule rtranclp_trans; rule r_into_rtranclp) (rule auth_step.login, rule auth_step.refresh)
  moreover have "sessions demo_db = []" "length (sessions demo_refresh) = 2"
    by code_simp+
  ultimately show ?thesis
    using sessions_one_open_per_family [of demo_env demo_db demo_refresh] by simp
qed

text \<open>
  C4: presenting a refresh token whose session was already rotated or revoked is answered with an error,
  and although the request fails the whole family is closed for good: whatever requests follow, every token
  of the family is refused. The exception is a retry of the last rotation (\<open>unused_successor\<close>): by the same
  client, within the grace period, while the successor is still open; it gets a new successor instead.
\<close>

theorem stolen_token_kills_family:
  assumes "sess_inv d" "session_by_token (av_identity env) token d = Inr (Some s)" "s_revoked_at s \<noteq> None"
    and "unused_successor (av_identity env) now ctx s d = None"
    and "rotate_refresh_token (av_identity env) id now ctx rnd token d = (r, d1)" "(auth_step env)\<^sup>*\<^sup>* d1 d2"
  shows "r = Inl InvalidCredentialsError \<and> family_dead (s_family_id s) (sessions d2) \<and>
    (\<forall>now' ctx' rnd' token' t.
       session_by_token (av_identity env) token' d2 = Inr (Some t) \<and> s_family_id t = s_family_id s \<longrightarrow>
       fst (rotate_refresh_token (av_identity env) id now' ctx' rnd' token' d2) = Inl InvalidCredentialsError)"
proof -
  have r: "r = Inl InvalidCredentialsError" "d1 = report_reuse now ctx s d"
    using assms(2-5) by (auto simp: rotate_refresh_token_def rotate_session_def)
  have s: "s_family_id s < next_id d"
    using session_by_token_some [OF assms(2)] assms(1) by (simp add: sess_inv_def sess_ok_def list_all_iff)
  have d1: "sess_inv d1" "next_id d \<le> next_id d1"
    using assms(1) report_reuse_step [of d now ctx s] by (simp_all add: r sess_step_def)
  have d2: "sess_inv d2" "family_dead (s_family_id s) (sessions d2)"
    using auth_run_both [OF assms(6)] d1 s report_reuse_dead [of s now ctx d]
    by (simp_all add: both_def sess_step_def r(2) [symmetric])
  then show ?thesis
    using r(1) by (auto intro: rotate_dead_family)
qed

theorem stolen_token_kills_family_witness:
  "fst (rotate_refresh_token (av_identity demo_env) id (days 1) system_context ''c'' ''vrt_a'' demo_refresh) =
     Inl InvalidCredentialsError \<and>
   family_dead 10 (sessions (snd (rotate_refresh_token (av_identity demo_env) id (days 1) system_context ''c'' ''vrt_a'' demo_refresh)))"
proof -
  let ?s = "hd (sessions demo_refresh)"
  have "sess_inv demo_refresh" "session_by_token (av_identity demo_env) ''vrt_a'' demo_refresh = Inr (Some ?s)"
    "s_revoked_at ?s \<noteq> None" "unused_successor (av_identity demo_env) (days 1) system_context ?s demo_refresh = None"
    "s_family_id ?s = 10"
    by code_simp+
  then show ?thesis
    using stolen_token_kills_family [of demo_refresh demo_env "''vrt_a''" ?s "days 1" system_context "''c''" _ _ _]
    by (metis prod.collapse rtranclp.rtrancl_refl)
qed

text \<open>
  The guarantees above are those of requests that do not overlap. The row of the session is
  read without a lock, so when a second request presents the same token after the first one has read
  it and before the first one commits, both succeed and the family has two open sessions.
\<close>

theorem concurrent_refresh_forks_family:
  assumes "session_by_token env token d = Inr (Some s)" "s_revoked_at s = None" "now < s_expires_at s"
    and "tget u_id (users d) (s_user_id s) = Some u" "u_status u = UserActive" "identity_constraints d"
    and "list_all (\<lambda>x. s_id x < next_id d) (sessions d)"
    and "distinct (iv_sha env (opaque_secret ''vrt'' r1) # iv_sha env (opaque_secret ''vrt'' r2) # map s_refresh_token_hash (sessions d))"
  shows "\<exists>a d2. rotate_refresh_token env (\<lambda>d. snd (rotate_refresh_token env id now ctx1 r1 token d)) now ctx2 r2 token d =
      (Inr a, d2) \<and>
    (\<exists>x \<in> set (sessions d2). \<exists>y \<in> set (sessions d2). s_id x \<noteq> s_id y \<and> s_family_id x = s_family_id y \<and>
       s_revoked_at x = None \<and> s_revoked_at y = None)"
proof -
  have s: "s \<in> set (sessions d)"
    using session_by_token_some [OF assms(1)] by simp
  let ?h = "\<lambda>r. iv_sha env (opaque_secret ''vrt'' r)"
  have "distinct (?h r1 # map s_refresh_token_hash (sessions d))"
    using assms(8) by simp
  from open_successor_succeeds [OF assms(2) s assms(6,7) this]
  obtain a1 d1 n1 where o1: "open_successor env now ctx1 r1 u s d = Inr (a1, d1)" "identity_constraints d1"
    "list_all (\<lambda>x. s_id x < next_id d1) (sessions d1)" "users d1 = users d" "next_id d1 = Suc (next_id d)"
    "n1 \<in> set (sessions d1)" "s_id n1 = next_id d" "s_family_id n1 = s_family_id s" "s_revoked_at n1 = None"
    "set (map s_refresh_token_hash (sessions d1)) = insert (?h r1) (set (map s_refresh_token_hash (sessions d)))"
    "\<exists>x \<in> set (sessions d1). s_id x = s_id s"
    by blast
  have r: "rotate_session env now ctx r s d' = transact (open_successor env now ctx r u s) d'"
    if "users d' = users d" for ctx r d'
    using assms(2-5) that by (simp add: rotate_session_def supersede_def)
  have d1: "snd (rotate_refresh_token env id now ctx1 r1 token d) = d1"
    using assms(1) r [of d ctx1 r1] o1(1) by (simp add: rotate_refresh_token_def)
  have "s_id s < next_id d"
    using assms(7) s by (simp add: list_all_iff)
  moreover have "unique_on (\<lambda>_. True) s_refresh_token_hash (sessions d1)" "?h r2 \<notin> set (map s_refresh_token_hash (sessions d1))"
    using o1(2,10) assms(8) by (auto simp: identity_constraints_def)
  then have "distinct (?h r2 # map s_refresh_token_hash (sessions d1))"
    by (simp add: unique_on_def)
  ultimately obtain a2 d2 n2 where o2: "open_successor env now ctx2 r2 u s d1 = Inr (a2, d2)"
    "n2 \<in> set (sessions d2)" "s_id n2 = next_id d1" "s_family_id n2 = s_family_id s" "s_revoked_at n2 = None"
    "\<forall>x \<in> set (sessions d1). s_id x \<noteq> s_id s \<longrightarrow> x \<in> set (sessions d2)"
    using open_successor_succeeds' [OF assms(2) o1(11,2,3)] by blast
  have "rotate_refresh_token env (\<lambda>d. snd (rotate_refresh_token env id now ctx1 r1 token d)) now ctx2 r2 token d = (Inr a2, d2)"
    using r [OF o1(4), of ctx2 r2] o2(1) d1 assms(1) by (simp add: rotate_refresh_token_def)
  moreover have "n1 \<in> set (sessions d2)"
    using o2(6) o1(6,7) \<open>s_id s < next_id d\<close> by simp
  ultimately show ?thesis
    using o1(5,7-9) o2(2-5) by (intro exI [of _ a2] exI [of _ d2] conjI bexI [of _ n1] bexI [of _ n2]) simp_all
qed

theorem concurrent_refresh_forks_family_witness:
  "\<exists>a d2. rotate_refresh_token (av_identity demo_env)
      (\<lambda>d. snd (rotate_refresh_token (av_identity demo_env) id 5 system_context ''b'' ''vrt_a'' d)) 5 system_context ''c'' ''vrt_a''
      demo_login = (Inr a, d2) \<and>
    (\<exists>x \<in> set (sessions d2). \<exists>y \<in> set (sessions d2). s_id x \<noteq> s_id y \<and> s_family_id x = s_family_id y \<and>
       s_revoked_at x = None \<and> s_revoked_at y = None)"
proof (rule concurrent_refresh_forks_family)
  let ?s = "hd (sessions demo_login)"
  let ?u = "new_user 2 ''ann@x.tr'' ''correct horse 1'' ''Ann'' None"
  show "session_by_token (av_identity demo_env) ''vrt_a'' demo_login = Inr (Some ?s)" "s_revoked_at ?s = None"
    "5 < s_expires_at ?s" "tget u_id (users demo_login) (s_user_id ?s) = Some ?u" "u_status ?u = UserActive"
    "identity_constraints demo_login" "list_all (\<lambda>x. s_id x < next_id demo_login) (sessions demo_login)"
    "distinct (iv_sha (av_identity demo_env) (opaque_secret ''vrt'' ''b'') #
       iv_sha (av_identity demo_env) (opaque_secret ''vrt'' ''c'') # map s_refresh_token_hash (sessions demo_login))"
    by code_simp+
qed

text \<open>
  C12: an accepted invitation adds one membership, never as owner, in a tenant whose subscription is
  in force and within its user limit, and its token opens nothing afterwards, whatever requests
  follow and however long one waits.
\<close>

theorem invitation_single_use:
  assumes "invit_inv d" "accept_invitation (av_identity env) now ctx token full_name pw d = Inr ((uid, m), d1)"
    and "(auth_step env)\<^sup>*\<^sup>* d1 d2"
  shows "memberships d1 = memberships d @ [m] \<and> m_user_id m = uid \<and> m_role_key m \<noteq> ROwner \<and>
    (\<exists>e. get_entitlements now (m_organization_id m) d = Inr e \<and> \<not> en_growth_blocked e \<and>
       (en_user_limit e < 0 \<or>
        int (count_rows (\<lambda>x. m_organization_id x = m_organization_id m) (memberships d1)) \<le> en_user_limit e)) \<and>
    (\<forall>t. open_invitation_by_token (av_identity env) t token d2 = Inl (DomainNotFoundError ''invitation''))"
  using assms(2)
proof (rule accept_invitation_inv)
  fix i dm
  assume i: "i \<in> set (invitations d)" "inv_token_hash i = iv_sha (av_identity env) token" "open_invitation now i"
    and lim: "enforce_user_limit now (inv_organization_id i) d = Inr ()"
    and m: "m = new_membership now (next_id dm) uid (inv_organization_id i) (inv_role_key i)" "memberships d1 = memberships d @ [m]"
    and d1: "invitations d1 = tupd (\<lambda>r. inv_id r = inv_id i) (\<lambda>r. r\<lparr>inv_accepted_at := Some now\<rparr>) (invitations d)"
  let ?i = "i\<lparr>inv_accepted_at := Some now\<rparr>"
  have "get_invitation d (inv_id i) = Some i"
    using assms(1) i(1) by (simp add: get_invitation_def invit_inv_def ids_ok_def tget_SomeI)
  then have gi: "get_invitation d1 (inv_id i) = Some ?i"
    using get_invitation_tupd [OF _ d1] by simp
  have inv1: "invit_inv d1"
    using accept_invitation_invit_step [OF assms(2)] assms(1) by (simp add: invit_step_def)
  have st: "invitation_settled (invitation_state ?i)"
    by (simp add: invitation_state_def invitation_settled_def)
  have "get_invitation d2 (inv_id i) = Some ?i"
    by (rule invitation_life.run_final [OF assms(3) inv1 gi st])
  then have dead: "open_invitation_by_token (av_identity env) t token d2 = Inl (DomainNotFoundError ''invitation'')" for t
    using settled_token_dead [OF invitation_life.run_inv [OF assms(3) inv1] _ st] i(2) by simp
  have role: "inv_role_key i \<noteq> ROwner"
    using assms(1) i(1) by (simp add: invit_inv_def list_all_iff)
  from lim obtain e where "get_entitlements now (inv_organization_id i) d = Inr e" "\<not> en_growth_blocked e"
    "en_user_limit e < 0 \<or> int (count_rows (\<lambda>m. m_organization_id m = inv_organization_id i) (memberships d)) < en_user_limit e"
    by (rule enforce_user_limit_ok)
  then show ?thesis
    using role dead m by (auto simp: new_membership_def)
qed

theorem invitation_single_use_witness:
  "\<exists>uid m d1. accept_invitation (av_identity demo_env) 5 system_context ''vri_1'' (Some ''Eve'') (Some ''long password 9'') demo_db =
      Inr ((uid, m), d1) \<and> memberships d1 = memberships demo_db @ [m] \<and>
      open_invitation_by_token (av_identity demo_env) 6 ''vri_1'' d1 = Inl (DomainNotFoundError ''invitation'')"
proof -
  let ?r = "accept_invitation (av_identity demo_env) 5 system_context ''vri_1'' (Some ''Eve'') (Some ''long password 9'') demo_db"
  have "\<not> isl ?r" "invit_inv demo_db"
    by code_simp+
  then obtain uid m d1 where "?r = Inr ((uid, m), d1)"
    by (metis not_isl_projr prod.collapse)
  then show ?thesis
    using invitation_single_use [OF \<open>invit_inv demo_db\<close> _ rtranclp.rtrancl_refl] by blast
qed

text \<open>
  Resetting a password closes every session of the account, moves the watermark that rejects
  its access tokens, stores the new hash, lifts a lockout, and spends the link together with every
  other outstanding reset link; a pending two-factor challenge is left as it was.
\<close>

theorem reset_password_closes_account:
  assumes "reset_password env now ctx token pw d = Inr (uid, d1)"
  shows "list_all (\<lambda>s. s_user_id s = uid \<longrightarrow> s_revoked_at s \<noteq> None) (sessions d1) \<and>
    (\<exists>u. tget u_id (users d1) uid = Some u \<and> u_password_hash u = iv_hash (av_identity env) pw \<and>
       u_sessions_revoked_at u = Some now \<and> u_locked_until u = None) \<and>
    list_all (\<lambda>t. \<not> unused_token uid PasswordReset t) (user_tokens d1) \<and>
    (\<forall>t. consume_token env t token PasswordReset d1 = Inl InvalidAccountTokenError) \<and>
    mfa_challenges d1 = mfa_challenges d"
  using assms
proof (rule reset_password_ok)
  fix t u
  assume t: "t \<in> set (user_tokens d)" "ut_token_hash t = sha env token" "ut_purpose t = PasswordReset"
    and u: "tget u_id (users d) uid = Some u"
    and d1: "users d1 = tupd (\<lambda>u. u_id u = uid) (\<lambda>u. u\<lparr>u_sessions_revoked_at := Some now\<rparr>)
       (tupd (\<lambda>u. u_id u = uid) (new_password env now pw) (users d))"
    "user_tokens d1 = tupd (unused_token uid PasswordReset) (use_token now)
       (tupd (\<lambda>x. ut_id x = ut_id t) (use_token now) (user_tokens d))"
    "sessions d1 = tupd (\<lambda>s. s_user_id s = uid \<and> s_revoked_at s = None) (revoke_session now) (sessions d)"
    "mfa_challenges d1 = mfa_challenges d"
  have i: "u_id u = uid"
    using tget_SomeD [OF u] by simp
  have "tget u_id (tupd (\<lambda>u. u_id u = uid) (new_password env now pw) (users d)) uid = Some (new_password env now pw u)"
    using u i by (subst tget_tupd) (simp_all add: new_password_def)
  then have "tget u_id (users d1) uid = Some ((new_password env now pw u)\<lparr>u_sessions_revoked_at := Some now\<rparr>)"
    unfolding d1 using i by (subst tget_tupd) (simp_all add: new_password_def)
  moreover have "list_all (\<lambda>s. s_user_id s = uid \<longrightarrow> s_revoked_at s \<noteq> None) (sessions d1)"
    unfolding d1 list_all_tupd_iff by (auto simp: list_all_iff revoke_session_def)
  moreover have "list_all (\<lambda>t. \<not> unused_token uid PasswordReset t) (user_tokens d1)"
    unfolding d1(2) list_all_tupd_iff by (auto simp: list_all_iff unused_token_def use_token_def)
  moreover have "consume_token env now' token PasswordReset d1 = Inl InvalidAccountTokenError" for now'
    by (rule spent_link [OF assms])
  ultimately show ?thesis
    by (auto simp: new_password_def d1(4))
qed

theorem reset_password_closes_account_witness:
  "\<exists>d1. reset_password demo_env 5 system_context ''vra_1'' ''long password 9'' demo_login = Inr (2, d1) \<and>
     list_all (\<lambda>s. s_user_id s = 2 \<longrightarrow> s_revoked_at s \<noteq> None) (sessions d1) \<and> length (sessions d1) = 1"
proof -
  let ?r = "reset_password demo_env 5 system_context ''vra_1'' ''long password 9'' demo_login"
  have "\<not> isl ?r" "fst (projr ?r) = 2" "length (sessions (snd (projr ?r))) = 1"
    by code_simp+
  then have "?r = Inr (2, snd (projr ?r))"
    by (metis not_isl_projr prod.collapse)
  then show ?thesis
    using reset_password_closes_account \<open>length (sessions (snd (projr ?r))) = 1\<close> by blast
qed

text \<open>
  However many answers are sent to one login challenge, at most five wrong ones are compared
  with the second factor, although each of them ends its request with an error.
\<close>

theorem challenge_attempts_bounded:
  assumes "challenge_by_token env token d = Inr (Some c)" "mc_attempts c = 0"
  shows "wrong_answers env ctx token answers d \<le> 5"
  using wrong_answers_bound [OF assms(1), of ctx answers] assms(2) by (simp add: mfa_max_attempts_def)

theorem challenge_attempts_bounded_witness:
  "wrong_answers demo_env system_context ''vrm_1'' (replicate 7 (5, Some ''654321'', None)) demo_db \<le> 5 \<and>
   wrong_answers demo_env system_context ''vrm_1'' (replicate 7 (5, Some ''654321'', None)) demo_db = 5"
proof -
  have "challenge_by_token demo_env ''vrm_1'' demo_db = Inr (Some (hd (mfa_challenges demo_db)))"
    "mc_attempts (hd (mfa_challenges demo_db)) = 0"
    "wrong_answers demo_env system_context ''vrm_1'' (replicate 7 (5, Some ''654321'', None)) demo_db = 5"
    by code_simp+
  then show ?thesis
    using challenge_attempts_bounded [of demo_env "''vrm_1''" demo_db] by blast
qed

text \<open>
  C13: for an account with two factors the password alone opens no session: a login leaves the
  sessions alone and at most hands out a challenge. A session opened by a challenge belongs to the
  account of the challenge, took a second factor, and the challenge is spent.
\<close>

theorem password_alone_opens_nothing:
  "(\<forall>u. get_user_by_email email d = Inr (Some u) \<and> u_mfa_enabled_at u \<noteq> None \<longrightarrow>
      sessions (snd (login env now ctx rnd email pw d)) = sessions d \<and>
      (\<forall>a. fst (login env now ctx rnd email pw d) \<noteq> Inr (SessionAnswer a))) \<and>
   (\<forall>a d1. verify_mfa env now ctx rnd token code recovery d = (Inr a, d1) \<longrightarrow>
      (\<exists>c u k dm. challenge_by_token env token d = Inr (Some c) \<and> tget u_id (users d) (mc_user_id c) = Some u \<and>
         verify_second_factor env now ctx u (submitted_code code recovery) d = Inr (k, dm) \<and>
         au_user a = u \<and> length (sessions d1) = Suc (length (sessions d)) \<and>
         s_user_id (last (sessions d1)) = mc_user_id c \<and>
         (\<forall>t ctx' code' recovery'. fst (verify_mfa_challenge env t ctx' token code' recovery' d1) = Inl InvalidMfaCodeError)))"
proof (intro conjI allI impI)
  fix u
  assume u: "get_user_by_email email d = Inr (Some u) \<and> u_mfa_enabled_at u \<noteq> None"
  obtain r d1 where a: "authenticate (av_identity env) now ctx email pw d = (r, d1)"
    by fastforce
  have s: "sessions d1 = sessions d" "\<And>u' m. r = Inr (u', m) \<Longrightarrow> u_mfa_enabled_at u' \<noteq> None"
    using a u by (auto simp: authenticate_def record_failed_login_def Let_def clear_failures_def split: if_splits)
  show "sessions (snd (login env now ctx rnd email pw d)) = sessions d"
    using s by (auto simp: login_def a calm_def split: sum.splits prod.splits if_splits dest!: account_calm(5))
  show "fst (login env now ctx rnd email pw d) \<noteq> Inr (SessionAnswer x)" for x
    using s by (auto simp: login_def a split: sum.splits prod.splits if_splits)
next
  fix a d1
  assume v: "verify_mfa env now ctx rnd token code recovery d = (Inr a, d1)"
  obtain r dv where m: "verify_mfa_challenge env now ctx token code recovery d = (r, dv)"
    by fastforce
  from m show "\<exists>c u k dm. challenge_by_token env token d = Inr (Some c) \<and> tget u_id (users d) (mc_user_id c) = Some u \<and>
         verify_second_factor env now ctx u (submitted_code code recovery) d = Inr (k, dm) \<and>
         au_user a = u \<and> length (sessions d1) = Suc (length (sessions d)) \<and>
         s_user_id (last (sessions d1)) = mc_user_id c \<and>
         (\<forall>t ctx' code' recovery'. fst (verify_mfa_challenge env t ctx' token code' recovery' d1) = Inl InvalidMfaCodeError)"
  proof (cases rule: verify_mfa_challenge_cases)
    case (right c u k d2)
    have st: "start_session (av_identity env) now ctx rnd u (get_active_membership (u_id u) dv) dv = Inr (a, d1)"
      using v right(7) by (auto simp: verify_mfa_def m split: sum.splits)
    then have d1: "sessions d1 = sessions dv @ [last (sessions d1)]" "au_user a = u" "s_user_id (last (sessions d1)) = u_id u"
      "mfa_challenges d1 = mfa_challenges dv"
      by (auto simp: start_session_def Let_def bind_eq_Inr)
    have dv: "sessions dv = sessions d" "u_id u = mc_user_id c"
      using verify_mfa_challenge_calm [OF m] tget_SomeD [OF right(3)] by (simp_all add: calm_def)
    have "challenge_by_token env token d1 = Inr (Some (c\<lparr>mc_consumed_at := Some now\<rparr>))"
      using right(1) by (rule challenge_by_token_set)
        (simp_all add: d1(4) right(8) verify_second_factor_calm(3) [OF right(6)])
    then have "fst (verify_mfa_challenge env t ctx' token code' recovery' d1) = Inl InvalidMfaCodeError" for t ctx' code' recovery'
      by (simp add: verify_mfa_challenge_def challenge_open_def)
    moreover have "length (sessions d1) = Suc (length (sessions d))"
      using arg_cong [OF d1(1), of length] dv(1) by simp
    ultimately show ?thesis
      using right(1,3,6) d1(2,3) dv by auto
  qed (use v m in \<open>auto simp: verify_mfa_def\<close>)
qed

theorem password_alone_opens_nothing_witness:
  "sessions (snd (login demo_env 5 system_context ''q'' ''bob@x.tr'' ''correct horse 2'' demo_db)) = [] \<and>
   (\<exists>a d1. verify_mfa demo_env 5 system_context ''q'' ''vrm_1'' (Some ''123456'') None demo_db = (Inr a, d1) \<and>
      u_id (au_user a) = 3 \<and> length (sessions d1) = 1)"
proof -
  let ?v = "verify_mfa demo_env 5 system_context ''q'' ''vrm_1'' (Some ''123456'') None demo_db"
  have "get_user_by_email ''bob@x.tr'' demo_db = Inr (Some (users demo_db ! 1))" "u_mfa_enabled_at (users demo_db ! 1) \<noteq> None"
    "sessions demo_db = []" "\<not> isl (fst ?v)" "u_id (au_user (projr (fst ?v))) = 3"
    by code_simp+
  moreover from this have "?v = (Inr (projr (fst ?v)), snd ?v)"
    by (metis not_isl_projr prod.collapse)
  ultimately show ?thesis
    using password_alone_opens_nothing [of "''bob@x.tr''" demo_db demo_env 5 system_context "''q''" "''correct horse 2''"
        "''vrm_1''" "Some ''123456''" None]
    by (metis list.size(3) One_nat_def)
qed

end
