(* ===== verification/Guessing.thy ===== *)
theory Guessing
  imports Accounts
begin

section \<open>Guessing passwords and codes\<close>

text \<open>
  What the lockout and the second factor promise along any sequence of the requests of \<open>auth_step\<close>: a
  code that was accepted stays worthless, and the wrong passwords that are compared with the password of
  an account between two changes of its counter are bounded.
\<close>

subsection \<open>Recovery codes and enrolments over time\<close>

text \<open>
  No request makes a used code usable again: every row is either newer than the request or was there
  before, with the same owner and hash, and a use is never forgotten.
\<close>

definition codes_kept :: "db \<Rightarrow> db \<Rightarrow> bool" where
  "codes_kept d d' \<longleftrightarrow> next_id d \<le> next_id d' \<and>
     (\<forall>x \<in> set (mfa_recovery_codes d'). next_id d \<le> rc_id x \<or>
        (\<exists>q \<in> set (mfa_recovery_codes d). rc_id q = rc_id x \<and> rc_user_id q = rc_user_id x \<and> rc_code_hash q = rc_code_hash x \<and>
           (rc_used_at q \<noteq> None \<longrightarrow> rc_used_at x \<noteq> None)))"

definition mfa_keeps :: "user \<Rightarrow> user \<Rightarrow> bool" where
  "mfa_keeps u u' \<longleftrightarrow> u_mfa_enabled_at u' = u_mfa_enabled_at u \<and> u_mfa_totp_secret_enc u' = u_mfa_totp_secret_enc u \<and>
     (\<forall>k. u_mfa_last_used_step u = Some k \<longrightarrow> (\<exists>k'. u_mfa_last_used_step u' = Some k' \<and> k \<le> k'))"

definition mfa_moves :: "user \<Rightarrow> user \<Rightarrow> bool" where
  "mfa_moves u u' \<longleftrightarrow> mfa_keeps u u' \<or> u_mfa_enabled_at u = None \<or> u_mfa_enabled_at u' = None"

definition users_related :: "(user \<Rightarrow> user \<Rightarrow> bool) \<Rightarrow> db \<Rightarrow> db \<Rightarrow> bool" where
  "users_related R d d' \<longleftrightarrow> (\<forall>i u. tget u_id (users d) i = Some u \<longrightarrow> (\<exists>u'. tget u_id (users d') i = Some u' \<and> R u u'))"

text \<open>The enrolments are as before (\<open>factor_calm\<close>), or some were switched on or off (\<open>factor_step\<close>).\<close>

definition factor_calm :: "db \<Rightarrow> db \<Rightarrow> bool" where
  "factor_calm d d' \<longleftrightarrow> codes_kept d d' \<and> users_related mfa_keeps d d'"

definition factor_step :: "db \<Rightarrow> db \<Rightarrow> bool" where
  "factor_step d d' \<longleftrightarrow> codes_kept d d' \<and> users_related mfa_moves d d'"

lemma users_relatedI:
  "(\<And>i u. tget u_id (users d) i = Some u \<Longrightarrow> \<exists>u'. tget u_id (users d') i = Some u' \<and> R u u') \<Longrightarrow> users_related R d d'"
  by (simp add: users_related_def)

lemma users_relatedD:
  assumes "users_related R d d'" "tget u_id (users d) i = Some u"
  obtains u' where "tget u_id (users d') i = Some u'" "R u u'"
  using assms unfolding users_related_def by blast

lemma users_related_trans:
  assumes "users_related R d d1" "users_related S d1 d2" "\<forall>a b c. R a b \<longrightarrow> S b c \<longrightarrow> T a c"
  shows "users_related T d d2"
proof (rule users_relatedI)
  fix i u
  assume "tget u_id (users d) i = Some u"
  with assms(1) obtain u1 where u1: "tget u_id (users d1) i = Some u1" "R u u1"
    by (rule users_relatedD)
  from assms(2) u1(1) obtain u2 where "tget u_id (users d2) i = Some u2" "S u1 u2"
    by (rule users_relatedD)
  then show "\<exists>u'. tget u_id (users d2) i = Some u' \<and> T u u'"
    using assms(3) u1(2) by blast
qed

lemma users_related_tupd:
  assumes "users d' = tupd p f (users d)" "\<And>u. u_id (f u) = u_id u"
    "\<And>u. tget u_id (users d) (u_id u) = Some u \<Longrightarrow> R u (if p u then f u else u)"
  shows "users_related R d d'"
proof (rule users_relatedI)
  fix i u
  assume u: "tget u_id (users d) i = Some u"
  then have "u_id u = i"
    using tget_SomeD by fast
  then show "\<exists>u'. tget u_id (users d') i = Some u' \<and> R u u'"
    using u assms(3) [of u] by (simp add: assms(1,2) tget_tupd)
qed

lemma codes_kept_same: "mfa_recovery_codes d' = mfa_recovery_codes d \<Longrightarrow> next_id d \<le> next_id d' \<Longrightarrow> codes_kept d d'"
  by (auto simp: codes_kept_def)

lemma codes_kept_trans:
  assumes "codes_kept d d1" "codes_kept d1 d2"
  shows "codes_kept d d2"
  unfolding codes_kept_def
proof (intro conjI ballI)
  show "next_id d \<le> next_id d2"
    using assms by (simp add: codes_kept_def)
  fix x
  assume "x \<in> set (mfa_recovery_codes d2)"
  then have "next_id d1 \<le> rc_id x \<or> (\<exists>q \<in> set (mfa_recovery_codes d1). rc_id q = rc_id x \<and> rc_user_id q = rc_user_id x \<and>
      rc_code_hash q = rc_code_hash x \<and> (rc_used_at q \<noteq> None \<longrightarrow> rc_used_at x \<noteq> None))"
    using assms(2) by (simp add: codes_kept_def)
  then show "next_id d \<le> rc_id x \<or> (\<exists>q \<in> set (mfa_recovery_codes d). rc_id q = rc_id x \<and> rc_user_id q = rc_user_id x \<and>
      rc_code_hash q = rc_code_hash x \<and> (rc_used_at q \<noteq> None \<longrightarrow> rc_used_at x \<noteq> None))"
  proof
    assume "next_id d1 \<le> rc_id x"
    then show ?thesis
      using assms(1) by (simp add: codes_kept_def)
  next
    assume "\<exists>q \<in> set (mfa_recovery_codes d1). rc_id q = rc_id x \<and> rc_user_id q = rc_user_id x \<and>
      rc_code_hash q = rc_code_hash x \<and> (rc_used_at q \<noteq> None \<longrightarrow> rc_used_at x \<noteq> None)"
    then obtain q where q: "q \<in> set (mfa_recovery_codes d1)" "rc_id q = rc_id x" "rc_user_id q = rc_user_id x"
      "rc_code_hash q = rc_code_hash x" "rc_used_at q \<noteq> None \<longrightarrow> rc_used_at x \<noteq> None"
      by blast
    then show ?thesis
      using assms(1) unfolding codes_kept_def by (metis (no_types, lifting))
  qed
qed

lemma mfa_keeps_refl [simp]: "mfa_keeps u u"
  by (simp add: mfa_keeps_def)

lemma mfa_keeps_trans: "mfa_keeps u u1 \<Longrightarrow> mfa_keeps u1 u2 \<Longrightarrow> mfa_keeps u u2"
  by (fastforce simp: mfa_keeps_def)

lemma mfa_keeps_moves:
  assumes "mfa_keeps u u1" "mfa_moves u1 u2"
  shows "mfa_moves u u2"
  using assms(2) mfa_keeps_trans [OF assms(1), of u2] conjunct1 [OF assms(1) [unfolded mfa_keeps_def]]
  unfolding mfa_moves_def by auto

lemma mfa_moves_keeps:
  assumes "mfa_moves u u1" "mfa_keeps u1 u2"
  shows "mfa_moves u u2"
  using assms(1) mfa_keeps_trans [OF _ assms(2), of u] conjunct1 [OF assms(2) [unfolded mfa_keeps_def]]
  unfolding mfa_moves_def by auto

lemma factor_calm_step: "factor_calm d d' \<Longrightarrow> factor_step d d'"
  unfolding factor_calm_def factor_step_def users_related_def mfa_moves_def by blast

lemma factor_calm_trans: "factor_calm d d1 \<Longrightarrow> factor_calm d1 d2 \<Longrightarrow> factor_calm d d2"
  using codes_kept_trans [of d d1 d2] users_related_trans [of mfa_keeps d d1 mfa_keeps d2 mfa_keeps] mfa_keeps_trans unfolding factor_calm_def by blast

lemma factor_calm_then: "factor_calm d d1 \<Longrightarrow> factor_step d1 d2 \<Longrightarrow> factor_step d d2"
  using codes_kept_trans [of d d1 d2] users_related_trans [of mfa_keeps d d1 mfa_moves d2 mfa_moves] mfa_keeps_moves
  unfolding factor_calm_def factor_step_def by blast

lemma factor_then_calm: "factor_step d d1 \<Longrightarrow> factor_calm d1 d2 \<Longrightarrow> factor_step d d2"
  using codes_kept_trans [of d d1 d2] users_related_trans [of mfa_moves d d1 mfa_keeps d2 mfa_moves] mfa_moves_keeps
  unfolding factor_calm_def factor_step_def by blast

lemma factor_calm_users:
  assumes "users d' = users d" "mfa_recovery_codes d' = mfa_recovery_codes d" "next_id d \<le> next_id d'"
  shows "factor_calm d d'"
  using assms codes_kept_same by (simp add: factor_calm_def users_related_def)

lemma factor_calm_refl [simp]: "factor_calm d d"
  by (rule factor_calm_users) simp_all

lemma factor_calm_new:
  assumes "users d' = users d @ us" "mfa_recovery_codes d' = mfa_recovery_codes d" "next_id d \<le> next_id d'"
  shows "factor_calm d d'"
  using assms codes_kept_same by (simp add: factor_calm_def users_related_def tget_append)

lemma factor_calm_tupd:
  assumes "users d' = tupd p f (users d)" "mfa_recovery_codes d' = mfa_recovery_codes d" "next_id d \<le> next_id d'"
    "\<And>u. u_id (f u) = u_id u" "\<And>u. mfa_keeps u (f u)"
  shows "factor_calm d d'"
  using assms codes_kept_same by (auto simp: factor_calm_def intro: users_related_tupd)

subsection \<open>What each request does to them\<close>

lemma account_mail_factor: "account_mail env now t u c s d = Inr (x, d') \<Longrightarrow> factor_calm d d'"
  by (drule account_mail_keeps) (simp add: factor_calm_users calm_def)

lemma notify_owner_factor: "notify_owner env now u e d = Inr (x, d') \<Longrightarrow> factor_calm d d'"
  by (drule notify_owner_keeps) (simp add: factor_calm_users calm_def)

lemma verify_second_factor_factor:
  assumes "verify_second_factor env now ctx u code d = Inr (k, d')" "tget u_id (users d) (u_id u) = Some u"
  shows "factor_calm d d'"
proof (cases "looks_like_totp code")
  case True
  then have t: "verify_totp env now u code d = Inr (k, d')"
    using assms(1) by (simp add: verify_second_factor_def split: if_splits)
  from t show ?thesis
  proof (rule verify_totp_ok)
    fix step
    assume older: "case u_mfa_last_used_step u of None \<Rightarrow> True | Some j \<Rightarrow> j < step"
      and d': "d' = set_user (u_id u) (\<lambda>r. r\<lparr>u_mfa_last_used_step := Some step\<rparr>) d"
    have keeps: "mfa_keeps u (u\<lparr>u_mfa_last_used_step := Some step\<rparr>)"
      using older by (auto simp: mfa_keeps_def)
    have "users_related mfa_keeps d d'"
    proof (rule users_related_tupd)
      show "users d' = tupd (\<lambda>r. u_id r = u_id u) (\<lambda>r. r\<lparr>u_mfa_last_used_step := Some step\<rparr>) (users d)"
        by (simp add: d')
      fix x :: user
      assume x: "tget u_id (users d) (u_id x) = Some x"
      show "mfa_keeps x (if u_id x = u_id u then x\<lparr>u_mfa_last_used_step := Some step\<rparr> else x)"
      proof (cases "u_id x = u_id u")
        case True
        have "Some u = Some x"
          using assms(2) x unfolding True by (rule trans [OF sym])
        then have "x = u"
          by (simp only: option.inject)
        show ?thesis
          unfolding \<open>x = u\<close> using keeps by (simp only: refl if_True)
      qed simp
    qed simp
    then show ?thesis
      using codes_kept_same by (simp add: factor_calm_def d')
  qed
next
  case False
  then have "verify_recovery env now ctx u code d = Inr (k, d')"
    using assms(1) by (simp add: verify_second_factor_def split: if_splits)
  then show ?thesis
  proof (rule verify_recovery_ok)
    fix c
    assume h: "calm d d'" "users d' = users d"
      "mfa_recovery_codes d' = tupd (\<lambda>x. rc_id x = rc_id c) (use_code now) (mfa_recovery_codes d)"
    have "\<exists>q \<in> set (mfa_recovery_codes d). rc_id q = rc_id x \<and> rc_user_id q = rc_user_id x \<and>
        rc_code_hash q = rc_code_hash x \<and> (rc_used_at q \<noteq> None \<longrightarrow> rc_used_at x \<noteq> None)"
      if used: "x \<in> set (mfa_recovery_codes d')" for x
    proof -
      obtain q where q: "q \<in> set (mfa_recovery_codes d)" "x = (if rc_id q = rc_id c then use_code now q else q)"
        using used unfolding h(3) set_tupd by blast
      then show ?thesis
        by (intro bexI [of _ q]) (simp_all add: use_code_def)
    qed
    then have "codes_kept d d'"
      using h(1) by (simp add: codes_kept_def calm_def)
    then show ?thesis
      using h(2) by (simp add: factor_calm_def users_related_def)
  qed
qed

lemma confirmed_user_factor:
  assumes "confirmed_user env now ctx tag uid pw code d = Inr (u, d')"
  shows "factor_calm d d' \<and> tget u_id (users d) uid = Some u \<and> u_id u = uid"
proof -
  have u: "require_user uid d = Inr u" and v: "\<exists>k. verify_second_factor env now ctx u code d = Inr (k, d')"
    using assms by (auto simp: confirmed_user_def bind_eq_Inr)
  have row: "tget u_id (users d) uid = Some u"
    using u by (auto simp: require_user_def split: option.splits if_splits)
  then have "u_id u = uid"
    using tget_SomeD by fast
  then show ?thesis
    using v row verify_second_factor_factor by blast
qed

text \<open>New codes get new identifiers.\<close>

lemma code_rows_new: "x \<in> set (code_rows env uid i cs) \<Longrightarrow> i \<le> rc_id x"
  by (induction cs arbitrary: i) (auto dest: Suc_leD)

lemma delete_codes_kept: "codes_kept d (delete_codes uid d)"
  by (auto simp: codes_kept_def delete_codes_def)

lemma replace_codes_kept:
  assumes "replace_recovery_codes env uid codes d = Inr (cs, d')"
  shows "codes_kept d d' \<and> users d' = users d"
proof -
  have d': "mfa_recovery_codes d' = filter (\<lambda>c. rc_user_id c \<noteq> uid) (mfa_recovery_codes d) @ code_rows env uid (next_id d) codes"
    "next_id d' = next_id d + length codes" "users d' = users d"
    using assms by (auto simp: replace_recovery_codes_def Let_def bind_eq_Inr delete_codes_def)
  then show ?thesis
    using code_rows_new by (auto simp: codes_kept_def)
qed

lemma start_session_factor: "start_session env now ctx rnd u m d = Inr (a, d') \<Longrightarrow> factor_calm d d'"
  by (rule factor_calm_users) (auto simp: start_session_def Let_def bind_eq_Inr record_audit_frame)

lemma authenticate_factor: "authenticate env now ctx e pw d = (r, d') \<Longrightarrow> factor_calm d d'"
proof -
  assume a: "authenticate env now ctx e pw d = (r, d')"
  have upd: "factor_calm d d1" if "users d1 = tupd p f (users d)" "mfa_recovery_codes d1 = mfa_recovery_codes d"
    "next_id d1 = next_id d" "f = fail_login now \<or> f = clear_failures" for d1 p f
    using that by (intro factor_calm_tupd [OF that(1,2)]) (auto simp: mfa_keeps_def fail_login_def clear_failures_def)
  consider "d' = d" | u where "d' = record_failed_login now ctx u d" | u :: user where "d' = set_user (u_id u) clear_failures d"
    using a by (auto simp: authenticate_def split: sum.splits option.splits if_splits)
  then show ?thesis
  proof cases
    case (2 u)
    show ?thesis
      unfolding 2 by (rule upd [OF record_failed_login_users]) (simp_all add: record_failed_login_def Let_def record_audit_frame)
  next
    case (3 u)
    show ?thesis
      unfolding 3 by (rule upd) auto
  qed simp
qed

lemma send_email_verification_factor: "send_email_verification env now ctx rnd u d = Inr (b, d') \<Longrightarrow> factor_calm d d'"
proof -
  assume a: "send_email_verification env now ctx rnd u d = Inr (b, d')"
  have issue: "factor_calm d d1" if "issue_token env now ctx rnd u p ttl d = Inr (t, d1)" for p ttl t d1
    using that by (intro factor_calm_users) (auto simp: issue_token_def Let_def bind_eq_Inr)
  show ?thesis
    using a by (auto simp: send_email_verification_def bind_eq_Inr split: if_splits
        dest!: issue account_mail_factor intro: factor_calm_trans)
qed

lemma register_factor: "register env now ctx r1 r2 n sl e fn pw d = Inr (a, d') \<Longrightarrow> factor_calm d d'"
proof -
  assume a: "register env now ctx r1 r2 n sl e fn pw d = Inr (a, d')"
  have org: "factor_calm d d1" if "register_organization env' now ctx n sl e fn pw d = Inr (x, d1)" for env' x d1
    using that
    by (intro factor_calm_new [of _ _ "[new_user (Suc (next_id d)) (lower (strip e)) (iv_hash env' pw) fn None]"])
      (auto simp: register_organization_def add_tenant_def add_membership_def start_trial_def Let_def bind_eq_Inr
        record_audit_frame publish_event_frame)
  show ?thesis
    using a by (auto simp: register_def bind_eq_Inr
        dest!: org send_email_verification_factor start_session_factor intro: factor_calm_trans)
qed

lemma login_factor: "factor_calm d (snd (login env now ctx rnd e pw d))"
proof -
  have challenge: "factor_calm d d'" if "create_mfa_challenge env now ctx rnd u d = Inr (t, d')" for u t d d'
    using that by (intro factor_calm_users) (auto simp: create_mfa_challenge_def Let_def bind_eq_Inr)
  show ?thesis
    by (auto simp: login_def split: sum.splits prod.splits if_splits
        dest!: authenticate_factor start_session_factor challenge intro: factor_calm_trans)
qed

lemma verify_mfa_factor: "factor_calm d (snd (verify_mfa env now ctx rnd token code rc d))"
proof -
  have "factor_calm d d'" if v: "verify_mfa_challenge env now ctx token code rc d = (r, d')" for r d'
    using v
  proof (cases rule: verify_mfa_challenge_cases)
    case (wrong c u)
    then show ?thesis
      by (intro factor_calm_users) (simp_all add: set_challenge_def)
  next
    case (right c u k d1)
    have id: "u_id u = mc_user_id c"
      using right(3) tget_SomeD by fast
    have "tget u_id (users d) (u_id u) = Some u"
      unfolding id by (rule right(3))
    then have "factor_calm d d1"
      by (rule verify_second_factor_factor [OF right(6)])
    moreover have "factor_calm d1 d'"
      by (rule factor_calm_users) (simp_all add: right(8) set_challenge_def)
    ultimately show ?thesis
      by (rule factor_calm_trans)
  qed simp
  then show ?thesis
    by (auto simp: verify_mfa_def split: sum.splits prod.splits dest!: start_session_factor intro: factor_calm_trans)
qed

lemma rotate_factor: "factor_calm d (snd (rotate_refresh_token env id now ctx rnd token d))"
proof -
  have succ: "factor_calm d1 d2" if "open_successor env now ctx rnd u s d1 = Inr (a, d2)" for u s a d1 d2
    using that by (intro factor_calm_users) (auto simp: open_successor_def Let_def bind_eq_Inr set_session_def)
  have "factor_calm d d'" if r: "rotate_session env now ctx rnd s d = (r, d')" for s r d'
    using r
  proof (cases rule: rotate_session_cases)
    case reuse
    show ?thesis
      by (rule factor_calm_users) (simp_all add: reuse(4) report_reuse_def revoke_family_def)
  next
    case (fresh u a)
    then show ?thesis
      using succ by blast
  next
    case (retried u a x)
    have "factor_calm d (supersede now ctx s (Some x) d)"
      by (rule factor_calm_users) (simp_all add: supersede_def set_session_def)
    then show ?thesis
      using succ [OF retried(7)] by (rule factor_calm_trans)
  qed simp
  then show ?thesis
    by (auto simp: rotate_refresh_token_def split: sum.splits option.splits intro: prod.collapse [symmetric])
qed

lemma session_ops_factor: "logout env now ctx token d = Inr (u, d') \<Longrightarrow> factor_calm d d'"
  by (rule factor_calm_users) (auto simp: logout_def revoke_family_def bind_eq_Inr split: option.splits)

lemma invitation_factor:
  "create_invitation env now ctx rnd e role d = Inr (x, d') \<Longrightarrow> factor_calm d d'"
  "resend_invitation env now ctx rnd i d = Inr (x, d') \<Longrightarrow> factor_calm d d'"
  "revoke_invitation now ctx i d = Inr (x, d') \<Longrightarrow> factor_calm d d'"
proof -
  have send: "users d2 = users d1 \<and> mfa_recovery_codes d2 = mfa_recovery_codes d1 \<and> next_id d1 \<le> next_id d2"
    if "send_invitation env now ctx j t d1 = Inr (u, d2)" for j t d1 u d2
    using that by (auto simp: send_invitation_def bind_eq_Inr set_invitation_def dest!: enqueue_keeps split: option.splits)
  show "create_invitation env now ctx rnd e role d = Inr (x, d') \<Longrightarrow> factor_calm d d'"
    by (rule factor_calm_users) (auto simp: create_invitation_def Let_def bind_eq_Inr dest!: send split: option.splits)
  show "resend_invitation env now ctx rnd i d = Inr (x, d') \<Longrightarrow> factor_calm d d'"
    by (rule factor_calm_users) (auto simp: resend_invitation_def Let_def bind_eq_Inr set_invitation_def dest!: send)
  show "revoke_invitation now ctx i d = Inr (x, d') \<Longrightarrow> factor_calm d d'"
    by (rule factor_calm_users) (auto simp: revoke_invitation_def bind_eq_Inr set_invitation_def split: if_splits)
qed

lemma accept_factor: "accept_invitation env now ctx token fn pw d = Inr (x, d') \<Longrightarrow> factor_calm d d'"
proof -
  assume a: "accept_invitation env now ctx token fn pw d = Inr (x, d')"
  then obtain i uid d1 where i: "invited_account env now i fn pw d = Inr (uid, d1)"
    and d': "users d' = users d1" "mfa_recovery_codes d' = mfa_recovery_codes d1" "next_id d1 \<le> next_id d'"
    by (auto simp: accept_invitation_def Let_def bind_eq_Inr add_membership_def set_invitation_def)
  have "factor_calm d d1"
  proof (cases "get_user_by_email (inv_email i) d")
    case (Inr row)
    show ?thesis
    proof (cases row)
      case None
      then obtain n p where "or_text fn None = Some n" "or_text pw None = Some p"
        using i Inr by (auto simp: invited_account_def split: option.splits)
      then show ?thesis
        using i Inr None
        by (intro factor_calm_new [of _ _ "[new_user (next_id d) (inv_email i) (iv_hash env p) n (Some now)]"])
          (auto simp: invited_account_def Let_def bind_eq_Inr)
    next
      case (Some u)
      let ?f = "\<lambda>r. if u_email_verified_at r = None then r\<lparr>u_email_verified_at := Some now\<rparr> else r"
      have "d1 = set_user (u_id u) ?f d"
        using i Inr Some by (auto simp: invited_account_def bind_eq_Inr)
      then show ?thesis
        by (intro factor_calm_tupd [of _ "\<lambda>r. u_id r = u_id u" ?f]) (simp_all add: mfa_keeps_def)
    qed
  qed (use i in \<open>simp add: invited_account_def\<close>)
  then show ?thesis
    using factor_calm_users [OF d'] by (rule factor_calm_trans)
qed

lemma issue_token_factor: "issue_token env now ctx rnd u p ttl d = Inr (t, d') \<Longrightarrow> factor_calm d d'"
  by (rule factor_calm_users) (auto simp: issue_token_def Let_def bind_eq_Inr)

lemma consume_token_factor: "consume_token env now token p d = Inr (t, d') \<Longrightarrow> factor_calm d d'"
  by (drule consume_token_ok(6), rule factor_calm_users) simp_all

lemma audit_user_factor: "factor_calm d (audit_user ctx a i d)"
  by (rule factor_calm_users) simp_all

lemma account_factor:
  "request_password_reset env now ctx rnd email d = Inr (x1, d') \<Longrightarrow> factor_calm d d'"
  "resend_email_verification env now ctx rnd uid d = Inr (x2, d') \<Longrightarrow> factor_calm d d'"
  "verify_email env now ctx token d = Inr (x3, d') \<Longrightarrow> factor_calm d d'"
  "begin_mfa_setup env ctx secret uid pw d = Inr (x4, d') \<Longrightarrow> factor_calm d d'"
  "reset_password env now ctx token pw d = Inr (x5, d') \<Longrightarrow> factor_calm d d'"
proof -
  show "factor_calm d d'" if h: "request_password_reset env now ctx rnd email d = Inr (x1, d')"
  proof -
    obtain row where "get_user_by_email email d = Inr row"
      using h by (auto simp: request_password_reset_def bind_eq_Inr)
    with h show ?thesis
      by (cases row) (auto simp: request_password_reset_def bind_eq_Inr split: if_splits
          dest!: issue_token_factor account_mail_factor intro: factor_calm_trans audit_user_factor)
  qed
  show "resend_email_verification env now ctx rnd uid d = Inr (x2, d') \<Longrightarrow> factor_calm d d'"
    by (auto simp: resend_email_verification_def bind_eq_Inr dest: send_email_verification_factor)
  show "factor_calm d d'" if h: "verify_email env now ctx token d = Inr (x3, d')"
  proof -
    obtain t d1 where c: "consume_token env now token EmailVerification d = Inr (t, d1)"
      using h by (auto simp: verify_email_def bind_eq_Inr)
    have "factor_calm d1 (audit_user ctx a i (set_user j (\<lambda>r. r\<lparr>u_email_verified_at := Some now\<rparr>) d1))" for a i j
      by (rule factor_calm_tupd [of _ "\<lambda>r. u_id r = j" "\<lambda>r. r\<lparr>u_email_verified_at := Some now\<rparr>"]) (simp_all add: mfa_keeps_def)
    then have "factor_calm d1 d'"
      using h by (auto simp: verify_email_def c split: option.splits if_splits)
    with consume_token_factor [OF c] show ?thesis
      by (rule factor_calm_trans)
  qed
  show "factor_calm d d'" if h: "begin_mfa_setup env ctx secret uid pw d = Inr (x4, d')"
  proof -
    obtain v where "d' = audit_user ctx ''auth.mfa_setup_started'' uid (set_user uid (\<lambda>r. r\<lparr>u_mfa_pending_secret_enc := Some v\<rparr>) d)"
      using h by (auto simp: begin_mfa_setup_def bind_eq_Inr)
    then show ?thesis
      by (intro factor_calm_tupd [of _ "\<lambda>r. u_id r = uid" "\<lambda>r. r\<lparr>u_mfa_pending_secret_enc := Some v\<rparr>"]) (simp_all add: mfa_keeps_def)
  qed
  show "factor_calm d d'" if h: "reset_password env now ctx token pw d = Inr (x5, d')"
    using h
  proof (rule reset_password_ok)
    assume u: "users d' = tupd (\<lambda>u. u_id u = x5) (\<lambda>u. u\<lparr>u_sessions_revoked_at := Some now\<rparr>)
       (tupd (\<lambda>u. u_id u = x5) (new_password env now pw) (users d))"
      and rest: "mfa_recovery_codes d' = mfa_recovery_codes d" "next_id d \<le> next_id d'"
    have "u_id (new_password env now pw r) = u_id r" for r
      by (simp add: new_password_def)
    then have "users d' = tupd (\<lambda>u. u_id u = x5) (\<lambda>u. (new_password env now pw u)\<lparr>u_sessions_revoked_at := Some now\<rparr>) (users d)"
      unfolding u by (simp add: tupd_def)
    then show ?thesis
      using rest by (rule factor_calm_tupd) (simp_all add: new_password_def mfa_keeps_def)
  qed
qed

text \<open>The requests that switch an enrolment on or off, or replace the codes.\<close>

lemma clear_mfa_factor:
  assumes "users d' = tupd (\<lambda>u. u_id u = uid) f (users d)" "\<And>u. u_id (f u) = u_id u \<and> u_mfa_enabled_at (f u) = None"
    "codes_kept d d'"
  shows "factor_step d d'"
  using assms users_related_tupd [OF assms(1), of mfa_moves] by (simp add: factor_step_def mfa_moves_def)

lemma confirm_mfa_factor:
  assumes "confirm_mfa env now ctx codes uid code d = Inr (x, d')"
  shows "factor_step d d'"
proof -
  obtain u where u: "require_user uid d = Inr u" "u_mfa_enabled_at u = None"
    using assms by (auto simp: confirm_mfa_def bind_eq_Inr)
  then obtain v where v: "u_mfa_pending_secret_enc u = Some v"
    using assms by (cases "u_mfa_pending_secret_enc u") (auto simp: confirm_mfa_def bind_eq_Inr)
  obtain secret where s: "decrypt_field env v = Inr secret"
    using assms u v by (auto simp: confirm_mfa_def bind_eq_Inr)
  obtain step where m: "matching_time_step (av_totp_at env) secret code now = Some step"
    using assms u v s by (cases "matching_time_step (av_totp_at env) secret code now") (auto simp: confirm_mfa_def bind_eq_Inr)
  let ?d0 = "set_user uid (enable_mfa now step) d"
  obtain cs d1 y where r: "replace_recovery_codes env uid codes ?d0 = Inr (cs, d1)"
    and n: "notify_owner env now u ''mfa_enabled'' (audit_user ctx ''auth.mfa_enabled'' uid d1) = Inr (y, d')"
    using assms u v s m by (auto simp: confirm_mfa_def bind_eq_Inr)
  have row: "tget u_id (users d) uid = Some u"
    using u(1) by (auto simp: require_user_def split: option.splits if_splits)
  have "users_related mfa_moves d ?d0"
  proof (rule users_related_tupd)
    show "users ?d0 = tupd (\<lambda>u. u_id u = uid) (enable_mfa now step) (users d)"
      by simp
    fix w :: user
    assume w: "tget u_id (users d) (u_id w) = Some w"
    show "mfa_moves w (if u_id w = uid then enable_mfa now step w else w)"
    proof (cases "u_id w = uid")
      case True
      have "Some u = Some w"
        using row w unfolding True by (rule trans [OF sym])
      then show ?thesis
        using u(2) by (simp add: mfa_moves_def)
    qed (simp add: mfa_moves_def)
  qed (simp add: enable_mfa_def)
  moreover have "codes_kept d ?d0"
    by (rule codes_kept_same) simp_all
  ultimately have "factor_step d d1"
    using replace_codes_kept [OF r] codes_kept_trans by (auto simp: factor_step_def users_related_def)
  moreover have "factor_calm d1 d'"
    using audit_user_factor notify_owner_factor [OF n] by (rule factor_calm_trans)
  ultimately show ?thesis
    by (rule factor_then_calm)
qed

lemma disable_mfa_factor:
  assumes "disable_mfa env now ctx uid pw code d = Inr (x, d')"
  shows "factor_step d d'"
proof -
  obtain u d1 where c: "confirmed_user env now ctx ''mfa_disabled'' uid pw code d = Inr (u, d1)"
    and n: "notify_owner env now u ''mfa_disabled''
         (audit_user ctx ''auth.mfa_disabled'' uid (delete_codes uid (set_user uid clear_mfa d1))) = Inr (x, d')"
    using assms by (auto simp: disable_mfa_def bind_eq_Inr)
  let ?d2 = "audit_user ctx ''auth.mfa_disabled'' uid (delete_codes uid (set_user uid clear_mfa d1))"
  have "factor_step d1 ?d2"
    by (rule clear_mfa_factor [where uid = uid and f = clear_mfa])
      (auto simp: clear_mfa_def codes_kept_def delete_codes_def audit_user_def)
  with confirmed_user_factor [OF c] have "factor_step d ?d2"
    using factor_calm_then by blast
  then show ?thesis
    using notify_owner_factor [OF n] by (rule factor_then_calm)
qed

lemma regenerate_factor:
  assumes "regenerate_recovery_codes env now ctx codes uid pw code d = Inr (x, d')"
  shows "factor_step d d'"
proof -
  obtain u d1 cs d2 y where c: "confirmed_user env now ctx ''mfa_not_enabled'' uid pw code d = Inr (u, d1)"
    and r: "replace_recovery_codes env uid codes d1 = Inr (cs, d2)"
    and n: "notify_owner env now u ''recovery_codes_regenerated''
       (audit_user ctx ''auth.mfa_recovery_codes_regenerated'' uid d2) = Inr (y, d')"
    using assms by (auto simp: regenerate_recovery_codes_def bind_eq_Inr)
  have "factor_calm d1 d2"
    using replace_codes_kept [OF r] by (simp add: factor_calm_def users_related_def)
  then have "factor_calm d1 d'"
    using audit_user_factor notify_owner_factor [OF n] factor_calm_trans by blast
  then show ?thesis
    using confirmed_user_factor [OF c] factor_calm_trans factor_calm_step by blast
qed

lemma admin_reset_factor:
  assumes "admin_reset_mfa env now ctx mid d = Inr (uid, d')"
  shows "factor_step d d'"
proof -
  obtain u x rt ri org where n: "notify_owner env now u ''mfa_reset'' (record_audit ctx ''auth.mfa_reset_by_admin'' rt ri org
      (revoke_all_sessions now (u_id u) (delete_codes (u_id u) (set_user (u_id u) clear_mfa d)))) = Inr (x, d')"
    using assms by (auto simp: admin_reset_mfa_def bind_eq_Inr Let_def split: option.splits)
  let ?d2 = "record_audit ctx ''auth.mfa_reset_by_admin'' rt ri org
      (revoke_all_sessions now (u_id u) (delete_codes (u_id u) (set_user (u_id u) clear_mfa d)))"
  have "users ?d2 = tupd (\<lambda>r. u_id r = u_id u) (\<lambda>r. (clear_mfa r)\<lparr>u_sessions_revoked_at := Some now\<rparr>) (users d)"
    by (simp add: tupd_def clear_mfa_def)
  then have "factor_step d ?d2"
    by (rule clear_mfa_factor) (auto simp: clear_mfa_def codes_kept_def delete_codes_def revoke_all_sessions_def)
  then show ?thesis
    using notify_owner_factor [OF n] by (rule factor_then_calm)
qed

lemma auth_step_factor: "auth_step env d d' \<Longrightarrow> factor_step d d'"
proof (induction rule: auth_step.induct)
  case (login d now ctx rnd e pw)
  then show ?case
    by (rule factor_calm_step [OF login_factor])
next
  case (verify_mfa d now ctx rnd token code rc)
  then show ?case
    by (rule factor_calm_step [OF verify_mfa_factor])
next
  case (refresh d now ctx rnd token)
  then show ?case
    by (rule factor_calm_step [OF rotate_factor])
qed (rule committed_rel;
     auto intro: factor_calm_step dest: register_factor session_ops_factor invitation_factor accept_factor account_factor
       confirm_mfa_factor disable_mfa_factor regenerate_factor admin_reset_factor)+

subsection \<open>A code works once\<close>

text \<open>Account \<open>i\<close> has the second factor on, with the secret \<open>v\<close>.\<close>

definition enrolled :: "uuid \<Rightarrow> string \<Rightarrow> db \<Rightarrow> bool" where
  "enrolled i v d \<longleftrightarrow> (case tget u_id (users d) i of None \<Rightarrow> False
     | Some u \<Rightarrow> u_mfa_enabled_at u \<noteq> None \<and> u_mfa_totp_secret_enc u = Some v)"

definition used_step :: "uuid \<Rightarrow> int \<Rightarrow> db \<Rightarrow> bool" where
  "used_step i step d \<longleftrightarrow> (case tget u_id (users d) i of None \<Rightarrow> False
     | Some u \<Rightarrow> (case u_mfa_last_used_step u of None \<Rightarrow> False | Some k \<Rightarrow> step \<le> k))"

lemma enrolled_keeps_step:
  assumes "auth_step env d d'" "enrolled i v d" "enrolled i v d'" "used_step i step d"
  shows "used_step i step d'"
proof -
  obtain u where u: "tget u_id (users d) i = Some u" "u_mfa_enabled_at u \<noteq> None"
    using assms(2) by (auto simp: enrolled_def split: option.splits)
  have "users_related mfa_moves d d'"
    using auth_step_factor [OF assms(1)] by (simp add: factor_step_def)
  from this u(1) obtain u' where u': "tget u_id (users d') i = Some u'" "mfa_moves u u'"
    by (rule users_relatedD)
  moreover have "u_mfa_enabled_at u' \<noteq> None"
    using assms(3) u'(1) by (simp add: enrolled_def)
  ultimately have "mfa_keeps u u'"
    using u(2) by (simp add: mfa_moves_def)
  moreover obtain k where "u_mfa_last_used_step u = Some k" "step \<le> k"
    using assms(4) u(1) by (auto simp: used_step_def split: option.splits)
  ultimately show ?thesis
    using u'(1) by (fastforce simp: used_step_def mfa_keeps_def)
qed

lemma enrolled_run_keeps_step:
  assumes "(\<lambda>a b. auth_step env a b \<and> enrolled i v b)\<^sup>*\<^sup>* d d'" "enrolled i v d" "used_step i step d"
  shows "enrolled i v d' \<and> used_step i step d'"
  using assms(1) by induction (use assms(2,3) enrolled_keeps_step in blast)+

lemma auth_run_codes: "(auth_step env)\<^sup>*\<^sup>* d d' \<Longrightarrow> codes_kept d d'"
proof (induction rule: rtranclp_induct)
  case (step d1 d2)
  then show ?case
    using auth_step_factor [OF step(2)] codes_kept_trans by (auto simp: factor_step_def)
qed (simp add: codes_kept_same)

lemma refused_step:
  assumes "enrolled i v d \<and> used_step i step d" "tget u_id (users d) i = Some u" "decrypt_field env v = Inr secret"
    "matching_time_step (av_totp_at env) secret code now = Some step'" "step' \<le> step"
  shows "verify_second_factor env now ctx u code d = Inl InvalidMfaCodeError"
proof -
  obtain k where k: "u_mfa_last_used_step u = Some k" "step \<le> k" "u_mfa_totp_secret_enc u = Some v"
    using assms(1,2) by (auto simp: used_step_def enrolled_def split: option.splits)
  then have "verify_totp env now u code d = Inl InvalidMfaCodeError"
    using assms(4,5) by (intro verify_totp_older [of u k v env secret]) (simp_all add: assms(3))
  then show ?thesis
    using matching_needs_totp [OF assms(4)] by (simp add: verify_second_factor_def)
qed

lemma refused_code:
  assumes "verify_recovery env now ctx u code d = Inr (k, d1)" "account_constraints d" "codes_kept d1 d2" "u_id u2 = u_id u"
    "\<forall>c \<in> set (mfa_recovery_codes d2). rc_user_id c = u_id u \<and> rc_code_hash c = hash_recovery_code env code \<longrightarrow> rc_id c < next_id d1"
  shows "verify_recovery env now' ctx' u2 code d2 = Inl InvalidMfaCodeError"
proof (rule verify_recovery_refused, intro ballI impI)
  fix x
  assume x: "x \<in> set (mfa_recovery_codes d2)" "rc_user_id x = u_id u2 \<and> rc_code_hash x = hash_recovery_code env code"
  then have "rc_id x < next_id d1"
    using assms(4,5) by simp
  then obtain q where "q \<in> set (mfa_recovery_codes d1)" "rc_user_id q = rc_user_id x" "rc_code_hash q = rc_code_hash x"
    "rc_used_at q \<noteq> None \<longrightarrow> rc_used_at x \<noteq> None"
    using assms(3) x(1) unfolding codes_kept_def by (meson not_le)
  then show "rc_used_at x \<noteq> None"
    using spent_code [OF assms(1,2)] x(2) assms(4) by simp
qed

text \<open>
  C14: a second factor works once. After a recovery code was accepted it is refused along any later
  sequence of requests, unless a set of codes issued later contains the same code. After a TOTP code was
  accepted, every code of its time step or an earlier one is refused along any sequence of requests
  during which the account keeps this enrolment.
\<close>

theorem second_factor_single_use:
  assumes "verify_second_factor env now ctx u code d = Inr (k, d1)" "tget u_id (users d) (u_id u) = Some u"
    and "account_constraints d" "u_mfa_enabled_at u \<noteq> None"
  shows "(k = Recovery \<longrightarrow> (\<forall>d2 now' ctx' u2. (auth_step env)\<^sup>*\<^sup>* d1 d2 \<and> u_id u2 = u_id u \<longrightarrow>
      verify_second_factor env now' ctx' u2 code d2 = Inl InvalidMfaCodeError \<or>
      (\<exists>c \<in> set (mfa_recovery_codes d2). next_id d1 \<le> rc_id c \<and> rc_user_id c = u_id u \<and>
         rc_code_hash c = hash_recovery_code env code))) \<and>
    (k = Totp \<longrightarrow> (\<exists>v secret step. u_mfa_totp_secret_enc u = Some v \<and> decrypt_field env v = Inr secret \<and>
      matching_time_step (av_totp_at env) secret code now = Some step \<and>
      (\<forall>d2 now' ctx' u2 code' step'. (\<lambda>a b. auth_step env a b \<and> enrolled (u_id u) v b)\<^sup>*\<^sup>* d1 d2 \<and>
         tget u_id (users d2) (u_id u) = Some u2 \<and>
         matching_time_step (av_totp_at env) secret code' now' = Some step' \<and> step' \<le> step \<longrightarrow>
         verify_second_factor env now' ctx' u2 code' d2 = Inl InvalidMfaCodeError)))"
proof (cases "looks_like_totp code")
  case True
  then have t: "verify_totp env now u code d = Inr (k, d1)"
    using assms(1) by (simp add: verify_second_factor_def split: if_splits)
  then show ?thesis
  proof (rule verify_totp_ok)
    fix v secret step
    assume h: "k = Totp" "u_mfa_totp_secret_enc u = Some v" "decrypt_field env v = Inr secret"
      "matching_time_step (av_totp_at env) secret code now = Some step"
      "d1 = set_user (u_id u) (\<lambda>r. r\<lparr>u_mfa_last_used_step := Some step\<rparr>) d"
    have "tget u_id (users d1) (u_id u) = Some (u\<lparr>u_mfa_last_used_step := Some step\<rparr>)"
      unfolding h(5) account_setters by (subst tget_tupd) (simp_all add: assms(2))
    then have start: "enrolled (u_id u) v d1" "used_step (u_id u) step d1"
      using assms(4) h(2) by (simp_all add: enrolled_def used_step_def)
    have "verify_second_factor env now' ctx' u2 code' d2 = Inl InvalidMfaCodeError"
      if later: "(\<lambda>a b. auth_step env a b \<and> enrolled (u_id u) v b)\<^sup>*\<^sup>* d1 d2" "tget u_id (users d2) (u_id u) = Some u2"
        "matching_time_step (av_totp_at env) secret code' now' = Some step'" "step' \<le> step" for d2 now' ctx' u2 code' step'
      using refused_step [OF enrolled_run_keeps_step [OF later(1) start] later(2) h(3) later(3,4)] .
    then show ?thesis
      using h by auto
  qed
next
  case False
  then have r: "code \<noteq> []" "verify_recovery env now ctx u code d = Inr (k, d1)"
    using assms(1) by (auto simp: verify_second_factor_def split: if_splits)
  then have "k = Recovery"
    by (auto elim: verify_recovery_ok)
  moreover have "verify_second_factor env now' ctx' u2 code d2 = Inl InvalidMfaCodeError"
    if later: "(auth_step env)\<^sup>*\<^sup>* d1 d2" "u_id u2 = u_id u" "\<not> (\<exists>c \<in> set (mfa_recovery_codes d2). next_id d1 \<le> rc_id c \<and>
      rc_user_id c = u_id u \<and> rc_code_hash c = hash_recovery_code env code)" for d2 now' ctx' u2
  proof -
    have "\<forall>c \<in> set (mfa_recovery_codes d2). rc_user_id c = u_id u \<and> rc_code_hash c = hash_recovery_code env code \<longrightarrow>
        rc_id c < next_id d1"
      using later(3) not_le by blast
    from refused_code [OF r(2) assms(3) auth_run_codes [OF later(1)] later(2) this] show ?thesis
      using r(1) False by (simp add: verify_second_factor_def)
  qed
  ultimately show ?thesis
    by blast
qed

theorem second_factor_single_use_witness:
  "\<exists>u1 d1. verify_second_factor demo_env 5 system_context (users demo_db ! 1) ''abcd-2345'' demo_db = Inr (Recovery, d1) \<and>
     verify_second_factor demo_env 6 system_context u1 ''abcd-2345'' d1 = Inl InvalidMfaCodeError \<and>
     tget u_id (users d1) 3 = Some u1"
proof -
  let ?u = "users demo_db ! 1"
  let ?r = "verify_second_factor demo_env 5 system_context ?u ''abcd-2345'' demo_db"
  let ?d = "snd (projr ?r)"
  have c: "\<not> isl ?r" "fst (projr ?r) = Recovery" "tget u_id (users demo_db) (u_id ?u) = Some ?u" "account_constraints demo_db"
    "u_mfa_enabled_at ?u \<noteq> None" "u_id ?u = 3"
    "list_all (\<lambda>c. rc_id c < next_id ?d) (mfa_recovery_codes ?d)" "map_option u_id (tget u_id (users ?d) 3) = Some 3"
    by code_simp+
  then have r: "?r = Inr (Recovery, ?d)"
    by (metis not_isl_projr prod.collapse)
  obtain u1 where u1: "tget u_id (users ?d) 3 = Some u1" "u_id u1 = 3"
    using c(8) by auto
  have "verify_second_factor demo_env 6 system_context u1 ''abcd-2345'' ?d = Inl InvalidMfaCodeError"
    using second_factor_single_use [OF r c(3-5)] c(6,7) u1(2) by (fastforce simp: list_all_iff)
  then show ?thesis
    using r u1(1) by blast
qed

subsection \<open>The lockout\<close>

text \<open>
  A run of requests from \<open>t0\<close> on, within the lockout period: login attempts on an account with wrong
  passwords, and any other request that leaves the account's status, password, counter and lock as they
  are (so no correct login of the owner and no password reset, which clear the counter). The number counts
  the attempts whose password was compared with the one of the account.
\<close>

definition lock_row :: "string \<Rightarrow> db \<Rightarrow> (user_status \<times> string \<times> int \<times> instant option) option" where
  "lock_row email d = (case get_user_by_email email d of
     Inr (Some u) \<Rightarrow> Some (u_status u, u_password_hash u, u_failed_login_count u, u_locked_until u) | _ \<Rightarrow> None)"

inductive guess_run :: "account_env \<Rightarrow> string \<Rightarrow> instant \<Rightarrow> db \<Rightarrow> nat \<Rightarrow> db \<Rightarrow> bool" for env email t0 d where
  start: "guess_run env email t0 d 0 d"
| attempt: "guess_run env email t0 d n d1 \<Longrightarrow> t0 \<le> now \<Longrightarrow> now < t0 + minutes 15 \<Longrightarrow> lower (strip e) = lower (strip email) \<Longrightarrow>
    (\<And>u. get_user_by_email email d1 = Inr (Some u) \<Longrightarrow> \<not> iv_verify (av_identity env) (u_password_hash u) pw) \<Longrightarrow>
    guess_run env email t0 d (if password_checked now email d1 then Suc n else n) (snd (login env now ctx rnd e pw d1))"
| other: "guess_run env email t0 d n d1 \<Longrightarrow> auth_step env d1 d2 \<Longrightarrow> lock_row email d2 = lock_row email d1 \<Longrightarrow>
    guess_run env email t0 d n d2"

lemma get_user_spelling: "lower (strip e) = lower (strip email) \<Longrightarrow> get_user_by_email e d = get_user_by_email email d"
  by (simp add: get_user_by_email_def)

lemma wrong_login:
  assumes "get_user_by_email email d = Inr (Some u)" "lower (strip e) = lower (strip email)"
    "\<not> iv_verify (av_identity env) (u_password_hash u) pw"
  shows "lock_row email (snd (login env now ctx rnd e pw d)) =
    (let v = (if password_checked now email d then fail_login now u else u)
     in Some (u_status v, u_password_hash v, u_failed_login_count v, u_locked_until v))"
proof -
  have e: "get_user_by_email e d = Inr (Some u)"
    using assms(1) get_user_spelling [OF assms(2)] by simp
  show ?thesis
  proof (cases "u_status u = UserActive \<and> \<not> locked_out now u")
    case True
    have "get_user_by_email email (record_failed_login now ctx u d) = Inr (Some (fail_login now u))"
      by (rule get_user_by_email_set [OF assms(1) _ record_failed_login_users]) simp
    moreover have "snd (login env now ctx rnd e pw d) = record_failed_login now ctx u d"
      using True e assms(3) by (simp add: login_def authenticate_def)
    ultimately show ?thesis
      using True assms(1) by (simp add: lock_row_def password_checked_def Let_def)
  next
    case False
    then have "snd (login env now ctx rnd e pw d) = d"
      using e by (auto simp: login_def authenticate_def)
    then show ?thesis
      using False assms(1) by (auto simp: lock_row_def password_checked_def)
  qed
qed

text \<open>Either the counter still counts all the guesses, or the account is locked beyond the period.\<close>

definition guess_inv :: "instant \<Rightarrow> nat \<Rightarrow> (user_status \<times> string \<times> int \<times> instant option) option \<Rightarrow> bool" where
  "guess_inv t0 n row \<longleftrightarrow> (\<exists>st h c l. row = Some (st, h, c, l) \<and> 0 \<le> c \<and>
     ((int n \<le> c \<and> (n = 0 \<or> c < max_failed_logins)) \<or> (n \<le> 10 \<and> (\<exists>t. l = Some t \<and> t0 + lockout \<le> t))))"

lemma guess_inv_user:
  assumes "guess_inv t0 n (lock_row email d)"
  obtains u where "get_user_by_email email d = Inr (Some u)" "0 \<le> u_failed_login_count u"
    "(int n \<le> u_failed_login_count u \<and> (n = 0 \<or> u_failed_login_count u < max_failed_logins)) \<or>
     (n \<le> 10 \<and> (\<exists>t. u_locked_until u = Some t \<and> t0 + lockout \<le> t))"
  using assms by (fastforce simp: guess_inv_def lock_row_def split: sum.splits option.splits)

lemma guess_run_inv:
  assumes "guess_run env email t0 d n d'" "get_user_by_email email d = Inr (Some u)" "0 \<le> u_failed_login_count u"
  shows "guess_inv t0 n (lock_row email d')"
  using assms(1)
proof induction
  case start
  then show ?case
    using assms(2,3) by (simp add: guess_inv_def lock_row_def)
next
  case (attempt n d1 now e pw ctx rnd)
  obtain v where v: "get_user_by_email email d1 = Inr (Some v)" "0 \<le> u_failed_login_count v"
    "(int n \<le> u_failed_login_count v \<and> (n = 0 \<or> u_failed_login_count v < max_failed_logins)) \<or>
     (n \<le> 10 \<and> (\<exists>t. u_locked_until v = Some t \<and> t0 + lockout \<le> t))"
    using guess_inv_user [OF attempt.IH] .
  have row: "lock_row email (snd (login env now ctx rnd e pw d1)) =
    (let w = (if password_checked now email d1 then fail_login now v else v)
     in Some (u_status w, u_password_hash w, u_failed_login_count w, u_locked_until w))"
    using attempt.hyps(4) attempt.hyps(5) [OF v(1)] by (intro wrong_login [OF v(1)])
  show ?case
  proof (cases "password_checked now email d1")
    case False
    then show ?thesis
      using v(2,3) by (simp add: row guess_inv_def)
  next
    case True
    then have "\<not> locked_out now v"
      by (simp add: password_checked_def v(1))
    then have "\<not> (\<exists>t. u_locked_until v = Some t \<and> t0 + lockout \<le> t)"
      using attempt.hyps(3) by (auto simp: locked_out_def lockout_def)
    then have c: "int n \<le> u_failed_login_count v" "n = 0 \<or> u_failed_login_count v < max_failed_logins"
      using v(3) by blast+
    show ?thesis
    proof (cases "max_failed_logins \<le> u_failed_login_count v + 1")
      case locks: True
      have "Suc n \<le> 10"
        using c by (auto simp: max_failed_logins_def)
      then show ?thesis
        using True locks attempt.hyps(2) by (simp add: row guess_inv_def fail_login_def)
    next
      case counts: False
      then show ?thesis
        using True c v(2) by (simp add: row guess_inv_def fail_login_def)
    qed
  qed
qed simp


text \<open>Twelve attempts of which ten are looked at.\<close>

fun wrong_logins :: "nat \<Rightarrow> db \<Rightarrow> db" where
  "wrong_logins 0 d = d"
| "wrong_logins (Suc n) d = snd (login demo_env 5 system_context ''r'' '' Ann@x.tr'' ''wrong'' (wrong_logins n d))"

lemma wrong_logins_row:
  "lock_row ''ann@x.tr'' (wrong_logins n demo_db) =
     Some (UserActive, ''correct horse 1'', if n < 10 then int n else 0, if n < 10 then None else Some (5 + lockout))"
proof (induction n)
  case 0
  have "lock_row ''ann@x.tr'' demo_db = Some (UserActive, ''correct horse 1'', 0, None)"
    by code_simp
  then show ?case
    by simp
next
  case (Suc n)
  let ?d = "wrong_logins n demo_db"
  obtain u where u: "get_user_by_email ''ann@x.tr'' ?d = Inr (Some u)" "u_status u = UserActive" "u_password_hash u = ''correct horse 1''"
    "u_failed_login_count u = (if n < 10 then int n else 0)" "u_locked_until u = (if n < 10 then None else Some (5 + lockout))"
    using Suc by (auto simp: lock_row_def split: sum.splits option.splits)
  have spelled: "lower (strip '' Ann@x.tr'') = lower (strip ''ann@x.tr'')"
    by code_simp
  have "\<not> iv_verify (av_identity demo_env) (u_password_hash u) ''wrong''"
    by (simp add: demo_env_def u(3))
  from wrong_login [OF u(1) spelled this, of 5 system_context "''r''"]
  show ?case
    using u by (auto simp: password_checked_def locked_out_def fail_login_def max_failed_logins_def lockout_def minutes_def)
qed


end
