(* ===== verification/Cipher.thy ===== *)
theory Cipher
  imports AccountSecurity "HOL-Library.Word"
begin

section \<open>Identifiers and field encryption\<close>

text \<open>
  \<^verbatim>\<open>domain/ids.py\<close> (version 7 UUIDs), \<^verbatim>\<open>infrastructure/security/crypto.py\<close> (encrypted columns
  with versioned keys) and \<^verbatim>\<open>cli/security.py\<close> (the command that re-encrypts columns after a key
  rotation). Fernet is a third-party library and the parameter \<open>fernet\<close>; the random
  initialisation vector of an encryption is an argument.
\<close>

unbundle bit_operations_syntax

subsection \<open>UUID version 7\<close>

text \<open>Python integers are unbounded; \<open>rand\<close> are the 80 random bits of \<^verbatim>\<open>os.urandom(10)\<close>.\<close>

definition uuid7 :: "int \<Rightarrow> int \<Rightarrow> int" where
  "uuid7 time_ns rand =
     (let timestamp_ms = time_ns div 1000000;
          rand_a = drop_bit 68 rand AND 0xFFF;
          rand_b = rand AND (push_bit 62 1 - 1)
      in push_bit 80 (timestamp_ms AND (push_bit 48 1 - 1)) OR push_bit 76 0x7 OR push_bit 64 rand_a
           OR push_bit 62 2 OR rand_b)"

text \<open>The fields RFC 9562 reads off the 128 bits.\<close>

definition uuid_timestamp :: "int \<Rightarrow> int" where "uuid_timestamp v = drop_bit 80 v"
definition uuid_version :: "int \<Rightarrow> int" where "uuid_version v = drop_bit 76 v AND 0xF"
definition uuid_variant :: "int \<Rightarrow> int" where "uuid_variant v = drop_bit 62 v AND 0x3"

lemma and_mask_int: "(a :: int) AND (push_bit n 1 - 1) = take_bit n a"
  by (simp add: take_bit_eq_mask mask_eq_exp_minus_1 push_bit_eq_mult)

text \<open>Fields that do not overlap are combined by addition.\<close>

lemma push_or_low: "0 \<le> b \<Longrightarrow> b < 2 ^ n \<Longrightarrow> push_bit n (a :: int) OR b = a * 2 ^ n + b"
proof -
  assume "0 \<le> b" "b < 2 ^ n"
  then have "take_bit n b = b"
    by (simp add: take_bit_int_eq_self_iff)
  then have "push_bit n a OR b = concat_bit n b a"
    by (simp add: concat_bit_def or.commute)
  then show ?thesis
    using \<open>take_bit n b = b\<close> by (simp add: concat_bit_eq push_bit_eq_mult)
qed

lemma uuid7_sum:
  "uuid7 time_ns rand =
     take_bit 48 (time_ns div 1000000) * 2 ^ 80 + 7 * 2 ^ 76 + take_bit 12 (drop_bit 68 rand) * 2 ^ 64 + 2 * 2 ^ 62
       + take_bit 62 rand"
proof -
  let ?t = "take_bit 48 (time_ns div 1000000)" and ?a = "take_bit 12 (drop_bit 68 rand)" and ?b = "take_bit 62 rand"
  have a: "drop_bit 68 rand AND 0xFFF = ?a"
    using and_mask_int [of "drop_bit 68 rand" 12] by (simp add: push_bit_eq_mult)
  have lt: "?a < 2 ^ 12" "0 \<le> ?a" "?b < 2 ^ 62" "0 \<le> ?b"
    by (rule take_bit_int_less_exp take_bit_nonnegative)+
  have 1: "push_bit 62 2 OR ?b = 2 * 2 ^ 62 + ?b"
    using lt by (intro push_or_low) simp_all
  have 2: "push_bit 64 ?a OR (2 * 2 ^ 62 + ?b) = ?a * 2 ^ 64 + (2 * 2 ^ 62 + ?b)"
    using lt by (intro push_or_low) simp_all
  have 3: "push_bit 76 7 OR (?a * 2 ^ 64 + (2 * 2 ^ 62 + ?b)) = 7 * 2 ^ 76 + (?a * 2 ^ 64 + (2 * 2 ^ 62 + ?b))"
    using lt by (intro push_or_low) simp_all
  have 4: "push_bit 80 ?t OR (7 * 2 ^ 76 + (?a * 2 ^ 64 + (2 * 2 ^ 62 + ?b))) =
           ?t * 2 ^ 80 + (7 * 2 ^ 76 + (?a * 2 ^ 64 + (2 * 2 ^ 62 + ?b)))"
    using lt by (intro push_or_low) simp_all
  show ?thesis
    unfolding uuid7_def Let_def and_mask_int a or.assoc 1 2 3 4 by (simp only: add.assoc)
qed

lemma div_low: "0 \<le> r \<Longrightarrow> r < m \<Longrightarrow> (t * m + r) div m = (t :: int)"
  by simp

lemma mod_low: "0 \<le> r \<Longrightarrow> r < m \<Longrightarrow> (t * m + r) mod m = (r :: int)"
  by simp

lemma low_bounds:
  fixes a b :: int
  assumes "0 \<le> a" "a < 2 ^ 12" "0 \<le> b" "b < 2 ^ 62"
  shows "0 \<le> a * 2 ^ 64 + (2 * 2 ^ 62 + b)" "a * 2 ^ 64 + (2 * 2 ^ 62 + b) < 2 ^ 76"
  using assms by simp_all

lemma high_bounds: "0 \<le> (r :: int) \<Longrightarrow> r < 2 ^ 76 \<Longrightarrow> 7 * 2 ^ 76 + r < 2 ^ 80"
  by simp

definition uuid7_low :: "int \<Rightarrow> int" where
  "uuid7_low rand = take_bit 12 (drop_bit 68 rand) * 2 ^ 64 + (2 * 2 ^ 62 + take_bit 62 rand)"

lemma uuid7_low_bounds: "0 \<le> uuid7_low rand" "uuid7_low rand < 2 ^ 76"
  unfolding uuid7_low_def by (rule low_bounds; rule take_bit_int_less_exp take_bit_nonnegative)+

lemma uuid7_split: "uuid7 time_ns rand =
    take_bit 48 (time_ns div 1000000) * 2 ^ 80 + (7 * 2 ^ 76 + uuid7_low rand)"
  unfolding uuid7_sum uuid7_low_def by linarith

lemma uuid7_timestamp: "uuid_timestamp (uuid7 time_ns rand) = take_bit 48 (time_ns div 1000000)"
  unfolding uuid_timestamp_def drop_bit_eq_div uuid7_split
  using uuid7_low_bounds [of rand] by (intro div_low high_bounds) simp_all

lemma and_low: "(a :: int) AND 0xF = a mod 2 ^ 4" "(a :: int) AND 0x3 = a mod 2 ^ 2"
  using and_mask_int [of a 4] and_mask_int [of a 2] by (simp_all add: push_bit_eq_mult take_bit_eq_mod)

lemma uuid7_version: "uuid_version (uuid7 time_ns rand) = 7"
proof -
  have "uuid7 time_ns rand = (take_bit 48 (time_ns div 1000000) * 2 ^ 4 + 7) * 2 ^ 76 + uuid7_low rand"
    unfolding uuid7_split by simp
  then have "uuid7 time_ns rand div 2 ^ 76 = take_bit 48 (time_ns div 1000000) * 2 ^ 4 + 7"
    using uuid7_low_bounds [of rand] by (simp only: div_low)
  then show ?thesis
    unfolding uuid_version_def drop_bit_eq_div and_low by (simp only: mod_low) (rule mod_low; simp)
qed

lemma uuid7_variant: "uuid_variant (uuid7 time_ns rand) = 2"
proof -
  let ?h = "(take_bit 48 (time_ns div 1000000) * 2 ^ 4 + 7) * 2 ^ 12 + take_bit 12 (drop_bit 68 rand)"
  have "uuid7 time_ns rand = (?h * 2 ^ 2 + 2) * 2 ^ 62 + take_bit 62 rand"
    unfolding uuid7_split uuid7_low_def by simp
  then have "uuid7 time_ns rand div 2 ^ 62 = ?h * 2 ^ 2 + 2"
    using take_bit_int_less_exp [of 62 rand] take_bit_nonnegative [of 62 rand] by (simp only: div_low)
  then show ?thesis
    unfolding uuid_variant_def drop_bit_eq_div and_low by (simp only: mod_low) (rule mod_low; simp)
qed

lemma uuid7_bounds: "0 \<le> uuid7 time_ns rand" "uuid7 time_ns rand < 2 ^ 128"
proof -
  have "take_bit 48 (time_ns div 1000000) < 2 ^ 48" "0 \<le> take_bit 48 (time_ns div 1000000)"
    by (rule take_bit_int_less_exp take_bit_nonnegative)+
  then show "0 \<le> uuid7 time_ns rand" "uuid7 time_ns rand < 2 ^ 128"
    unfolding uuid7_split using uuid7_low_bounds [of rand] by simp_all
qed

text \<open>
  Identifiers of a later millisecond are larger, whatever the random bits; version and variant
  are those of a version 7 UUID, the creation time can be read back to the millisecond, and the value
  fits 128 bits.
\<close>

theorem uuid7_ordered:
  assumes "0 \<le> t div 1000000" "t div 1000000 < t' div 1000000" "t' div 1000000 < 2 ^ 48"
  shows "uuid7 t r < uuid7 t' r' \<and> uuid_timestamp (uuid7 t r) = t div 1000000 \<and>
         uuid_version (uuid7 t r) = 7 \<and> uuid_variant (uuid7 t r) = 2 \<and> 0 \<le> uuid7 t r \<and> uuid7 t' r' < 2 ^ 128"
proof -
  let ?m = "t div 1000000" and ?m' = "t' div 1000000"
  have tb: "take_bit 48 ?m = ?m" "take_bit 48 ?m' = ?m'"
    using assms by (simp_all add: take_bit_int_eq_self_iff)
  have "(?m + 1) * 2 ^ 80 \<le> ?m' * 2 ^ 80"
    using assms(2) by simp
  then have "uuid7 t r < uuid7 t' r'"
    unfolding uuid7_split tb using uuid7_low_bounds [of r] uuid7_low_bounds [of r'] by simp
  then show ?thesis
    using uuid7_bounds [of t r] uuid7_bounds [of t' r'] uuid7_timestamp [of t r] tb(1)
    by (simp add: uuid7_version uuid7_variant)
qed

theorem uuid7_ordered_witness:
  "uuid7 1700000000000000000 7 < uuid7 1700000000001000000 3"
  using uuid7_ordered [of 1700000000000000000 1700000000001000000 7 3] by simp

subsection \<open>The field cipher\<close>

text \<open>
  \<open>fn_valid\<close> says whether a text is a Fernet key, \<open>fn_encrypt key iv plaintext\<close> is a token and
  \<open>fn_decrypt\<close> is \<open>None\<close> for \<^verbatim>\<open>InvalidToken\<close>. The documented behaviour: a token decrypts under its key
  to the text that was encrypted, and a token is never empty.
\<close>

record fernet =
  fn_valid :: "string \<Rightarrow> bool"
  fn_encrypt :: "string \<Rightarrow> string \<Rightarrow> string \<Rightarrow> string"
  fn_decrypt :: "string \<Rightarrow> string \<Rightarrow> string option"

definition fernet_ok :: "fernet \<Rightarrow> bool" where
  "fernet_ok F \<longleftrightarrow> (\<forall>k iv p. fn_valid F k \<longrightarrow> fn_decrypt F k (fn_encrypt F k iv p) = Some p \<and> fn_encrypt F k iv p \<noteq> [])"

record field_cipher =
  fc_fernets :: "(string \<times> string) list"
  fc_primary :: string

definition enc_prefix :: string where "enc_prefix = ''enc1''"

definition valid_key_id :: "string \<Rightarrow> bool" where
  "valid_key_id s \<longleftrightarrow> 1 \<le> length s \<and> length s \<le> 32 \<and>
     list_all (\<lambda>c. is_alpha c \<or> is_digit c \<or> c = CHR ''_'' \<or> c = CHR ''-'') s"

fun load_keys :: "fernet \<Rightarrow> (string \<times> string) list \<Rightarrow> (string \<times> string) list result" where
  "load_keys F [] = Inr []"
| "load_keys F ((i, k) # rest) =
     (if \<not> valid_key_id i then Inl (FieldEncryptionError ''key_id'')
      else if \<not> fn_valid F k then Inl (FieldEncryptionError ''key'')
      else bind (load_keys F rest) (\<lambda>ks. Inr ((i, k) # ks)))"

definition field_cipher_new :: "fernet \<Rightarrow> (string \<times> string) list \<Rightarrow> string \<Rightarrow> field_cipher result" where
  "field_cipher_new F keys primary_key_id =
     (if keys = [] then Inl (FieldEncryptionError ''no_keys'')
      else if primary_key_id \<notin> fst ` set keys then Inl (FieldEncryptionError ''primary_not_listed'')
      else bind (load_keys F keys) (\<lambda>ks. Inr \<lparr>fc_fernets = ks, fc_primary = primary_key_id\<rparr>))"

definition cipher_encrypt :: "fernet \<Rightarrow> field_cipher \<Rightarrow> string \<Rightarrow> string \<Rightarrow> string" where
  "cipher_encrypt F c iv plaintext =
     (case map_of (fc_fernets c) (fc_primary c) of
        None \<Rightarrow> []
      | Some k \<Rightarrow> enc_prefix @ '':'' @ fc_primary c @ '':'' @ fn_encrypt F k iv plaintext)"

text \<open>\<^verbatim>\<open>value.split(":", 2)\<close> when it has three parts.\<close>

definition cut_colon :: "string \<Rightarrow> (string \<times> string) option" where
  "cut_colon s = (case dropWhile (\<lambda>c. c \<noteq> CHR '':'') s of [] \<Rightarrow> None
                  | _ # rest \<Rightarrow> Some (takeWhile (\<lambda>c. c \<noteq> CHR '':'') s, rest))"

definition split_value :: "string \<Rightarrow> (string \<times> string) result" where
  "split_value v =
     (case cut_colon v of
        None \<Rightarrow> Inl (FieldEncryptionError ''format'')
      | Some (a, r) \<Rightarrow>
          (case cut_colon r of
             None \<Rightarrow> Inl (FieldEncryptionError ''format'')
           | Some (b, t) \<Rightarrow>
               if a \<noteq> enc_prefix \<or> b = [] \<or> t = [] then Inl (FieldEncryptionError ''format'') else Inr (b, t)))"

definition cipher_decrypt :: "fernet \<Rightarrow> field_cipher \<Rightarrow> string \<Rightarrow> string result" where
  "cipher_decrypt F c v =
     bind (split_value v) (\<lambda>(key_id, token).
       case map_of (fc_fernets c) key_id of
         None \<Rightarrow> Inl (FieldEncryptionError ''unknown_key'')
       | Some k \<Rightarrow> (case fn_decrypt F k token of None \<Rightarrow> Inl (FieldEncryptionError ''invalid_token'') | Some p \<Rightarrow> Inr p))"

definition key_id_of :: "string \<Rightarrow> string result" where
  "key_id_of v = bind (split_value v) (\<lambda>(key_id, _). Inr key_id)"

definition needs_rotation :: "field_cipher \<Rightarrow> string \<Rightarrow> bool result" where
  "needs_rotation c v = bind (key_id_of v) (\<lambda>i. Inr (i \<noteq> fc_primary c))"

definition rotate_value :: "fernet \<Rightarrow> field_cipher \<Rightarrow> string \<Rightarrow> string \<Rightarrow> string result" where
  "rotate_value F c iv v =
     bind (needs_rotation c v) (\<lambda>b.
       if \<not> b then Inr v else bind (cipher_decrypt F c v) (\<lambda>p. Inr (cipher_encrypt F c iv p)))"

text \<open>The settings name a primary key, or there is only one.\<close>

definition resolved_primary_key_id :: "(string \<times> string) list \<Rightarrow> string option \<Rightarrow> string option" where
  "resolved_primary_key_id keys primary =
     (case primary of
        Some p \<Rightarrow> if p \<noteq> [] then Some p else (case keys of [(i, _)] \<Rightarrow> Some i | _ \<Rightarrow> None)
      | None \<Rightarrow> (case keys of [(i, _)] \<Rightarrow> Some i | _ \<Rightarrow> None))"

definition build_field_cipher ::
    "fernet \<Rightarrow> (string \<times> string) list \<Rightarrow> string option \<Rightarrow> field_cipher option result" where
  "build_field_cipher F keys primary =
     (if keys = [] then Inr None
      else (case resolved_primary_key_id keys primary of
              None \<Rightarrow> Inl (FieldEncryptionError ''ambiguous_primary'')
            | Some p \<Rightarrow> bind (field_cipher_new F keys p) (\<lambda>c. Inr (Some c))))"

subsection \<open>Re-encryption after a key rotation\<close>

text \<open>The command rewrites the secrets of the webhook endpoints; \<open>iv i\<close> is drawn for row \<open>i\<close>.\<close>

fun reencrypt_rows ::
    "fernet \<Rightarrow> field_cipher \<Rightarrow> (uuid \<Rightarrow> string) \<Rightarrow> webhook_endpoint list \<Rightarrow> (webhook_endpoint list \<times> nat) result" where
  "reencrypt_rows F c iv [] = Inr ([], 0)"
| "reencrypt_rows F c iv (e # es) =
     bind (needs_rotation c (we_secret_enc e)) (\<lambda>b.
     bind (if b then bind (rotate_value F c (iv (we_id e)) (we_secret_enc e)) (\<lambda>v. Inr (e\<lparr>we_secret_enc := v\<rparr>, 1))
           else Inr (e, 0)) (\<lambda>(e', n).
     bind (reencrypt_rows F c iv es) (\<lambda>(es', m). Inr (e' # es', n + m))))"

definition reencrypt_all ::
    "fernet \<Rightarrow> (uuid \<Rightarrow> string) \<Rightarrow> (string \<times> string) list \<Rightarrow> string option \<Rightarrow> db \<Rightarrow> (nat \<times> db) result" where
  "reencrypt_all F iv keys primary d =
     bind (build_field_cipher F keys primary) (\<lambda>oc. case oc of
       None \<Rightarrow> Inl (FieldEncryptionError ''not_configured'')
     | Some c \<Rightarrow> bind (reencrypt_rows F c iv (webhook_endpoints d)) (\<lambda>(rows, n).
         Inr (n, d\<lparr>webhook_endpoints := rows\<rparr>)))"

subsection \<open>Facts\<close>

definition cipher_ok :: "fernet \<Rightarrow> field_cipher \<Rightarrow> bool" where
  "cipher_ok F c \<longleftrightarrow> fc_primary c \<in> fst ` set (fc_fernets c) \<and>
     list_all (\<lambda>(i, k). valid_key_id i \<and> fn_valid F k) (fc_fernets c)"

lemma load_keys_Inr: "load_keys F keys = Inr ks \<longleftrightarrow> ks = keys \<and> list_all (\<lambda>(i, k). valid_key_id i \<and> fn_valid F k) keys"
proof (induction keys arbitrary: ks)
  case (Cons a keys)
  then show ?case
    by (cases a) (auto simp: bind_eq_Inr)
qed auto

lemma field_cipher_new_Inr:
  "field_cipher_new F keys p = Inr c \<longleftrightarrow> c = \<lparr>fc_fernets = keys, fc_primary = p\<rparr> \<and> cipher_ok F c"
proof (cases "keys = [] \<or> p \<notin> fst ` set keys")
  case True
  then have "keys = [] \<or> (\<forall>k. (p, k) \<notin> set keys)"
    by force
  then show ?thesis
    using True by (auto simp: field_cipher_new_def cipher_ok_def)
next
  case False
  then have "p \<in> fst ` set keys" "keys \<noteq> []"
    by blast+
  then show ?thesis
    by (cases c) (simp add: field_cipher_new_def cipher_ok_def bind_eq_Inr load_keys_Inr, metis)
qed

lemma build_field_cipher_Some:
  "build_field_cipher F keys primary = Inr (Some c) \<Longrightarrow>
   cipher_ok F c \<and> fc_fernets c = keys \<and> resolved_primary_key_id keys primary = Some (fc_primary c)"
  by (auto simp: build_field_cipher_def bind_eq_Inr field_cipher_new_Inr split: if_splits option.splits)

lemma valid_key_id_no_colon: "valid_key_id s \<Longrightarrow> CHR '':'' \<notin> set s \<and> s \<noteq> []"
  by (auto simp: valid_key_id_def list_all_iff is_alpha_def is_upper_def is_lower_def is_digit_def)

lemma cut_colon_append: "CHR '':'' \<notin> set a \<Longrightarrow> cut_colon (a @ CHR '':'' # r) = Some (a, r)"
proof -
  assume a: "CHR '':'' \<notin> set a"
  then have "\<And>c. c \<in> set a \<Longrightarrow> c \<noteq> CHR '':''"
    by auto
  then show ?thesis
    by (simp add: cut_colon_def takeWhile_append2 dropWhile_append2)
qed

lemma split_value_encrypted:
  "valid_key_id i \<Longrightarrow> t \<noteq> [] \<Longrightarrow> split_value (enc_prefix @ '':'' @ i @ '':'' @ t) = Inr (i, t)"
proof -
  assume i: "valid_key_id i" and t: "t \<noteq> []"
  have "cut_colon (enc_prefix @ '':'' @ i @ '':'' @ t) = Some (enc_prefix, i @ '':'' @ t)"
    using cut_colon_append [of enc_prefix "i @ '':'' @ t"] by (simp add: enc_prefix_def)
  moreover have "cut_colon (i @ '':'' @ t) = Some (i, t)"
    using cut_colon_append [of i t] valid_key_id_no_colon [OF i] by simp
  ultimately show ?thesis
    using t valid_key_id_no_colon [OF i] by (simp add: split_value_def)
qed

lemma cipher_ok_primary:
  assumes "cipher_ok F c"
  obtains k where "map_of (fc_fernets c) (fc_primary c) = Some k" "valid_key_id (fc_primary c)" "fn_valid F k"
proof -
  obtain k where k: "map_of (fc_fernets c) (fc_primary c) = Some k"
    using assms by (cases "map_of (fc_fernets c) (fc_primary c)") (auto simp: cipher_ok_def map_of_eq_None_iff)
  then have "(fc_primary c, k) \<in> set (fc_fernets c)"
    by (rule map_of_SomeD)
  then show ?thesis
    using assms k that by (auto simp: cipher_ok_def list_all_iff)
qed

text \<open>A value names its key and decrypts under every later ring that still holds that key.\<close>

lemma split_encrypt:
  assumes "fernet_ok F" "cipher_ok F c" "map_of (fc_fernets c) (fc_primary c) = Some k"
  shows "split_value (cipher_encrypt F c iv p) = Inr (fc_primary c, fn_encrypt F k iv p)"
proof -
  obtain "valid_key_id (fc_primary c)" "fn_valid F k"
    using cipher_ok_primary [OF assms(2)] assms(3) by (metis option.inject)
  then show ?thesis
    using assms(1,3) split_value_encrypted [of "fc_primary c" "fn_encrypt F k iv p"]
    by (auto simp: cipher_encrypt_def fernet_ok_def)
qed

lemma decrypt_encrypt:
  assumes "fernet_ok F" "cipher_ok F c" "map_of (fc_fernets c') (fc_primary c) = map_of (fc_fernets c) (fc_primary c)"
  shows "cipher_decrypt F c' (cipher_encrypt F c iv p) = Inr p"
proof -
  obtain k where k: "map_of (fc_fernets c) (fc_primary c) = Some k" "fn_valid F k"
    using cipher_ok_primary [OF assms(2)] by metis
  then show ?thesis
    using assms(1,3) by (simp add: cipher_decrypt_def split_encrypt [OF assms(1,2) k(1)] fernet_ok_def)
qed

lemma decrypt_unknown_key:
  assumes "fernet_ok F" "cipher_ok F c" "fc_primary c \<notin> fst ` set (fc_fernets c')"
  shows "cipher_decrypt F c' (cipher_encrypt F c iv p) = Inl (FieldEncryptionError ''unknown_key'')"
proof -
  obtain k where k: "map_of (fc_fernets c) (fc_primary c) = Some k"
    using cipher_ok_primary [OF assms(2)] by metis
  moreover have "map_of (fc_fernets c') (fc_primary c) = None"
    using assms(3) by (simp add: map_of_eq_None_iff)
  ultimately show ?thesis
    by (simp add: cipher_decrypt_def split_encrypt [OF assms(1,2) k])
qed

text \<open>What a value under the primary key decrypts to depends on that key alone.\<close>

lemma decrypt_same_key:
  assumes "needs_rotation c v = Inr False" "map_of (fc_fernets c') (fc_primary c) = map_of (fc_fernets c) (fc_primary c)"
  shows "cipher_decrypt F c' v = cipher_decrypt F c v"
  using assms by (auto simp: needs_rotation_def key_id_of_def bind_eq_Inr cipher_decrypt_def)

lemma rotate_value_decrypts:
  assumes "fernet_ok F" "cipher_ok F c" "rotate_value F c iv v = Inr v'"
    "map_of (fc_fernets c') (fc_primary c) = map_of (fc_fernets c) (fc_primary c)"
  shows "cipher_decrypt F c' v' = cipher_decrypt F c v \<and> needs_rotation c v' = Inr False"
proof -
  obtain b where b: "needs_rotation c v = Inr b"
    "(if \<not> b then Inr v else bind (cipher_decrypt F c v) (\<lambda>p. Inr (cipher_encrypt F c iv p))) = Inr v'"
    using assms(3) by (auto simp: rotate_value_def bind_eq_Inr)
  obtain k where k: "map_of (fc_fernets c) (fc_primary c) = Some k"
    using cipher_ok_primary [OF assms(2)] by metis
  show ?thesis
  proof (cases b)
    case True
    then obtain p where "cipher_decrypt F c v = Inr p" "v' = cipher_encrypt F c iv p"
      using b(2) by (auto simp: bind_eq_Inr)
    then show ?thesis
      using decrypt_encrypt [OF assms(1,2,4)]
      by (simp add: needs_rotation_def key_id_of_def split_encrypt [OF assms(1,2) k])
  next
    case False
    then show ?thesis
      using b decrypt_same_key [OF _ assms(4)] by simp
  qed
qed

lemma reencrypt_rows_all:
  assumes "fernet_ok F" "cipher_ok F c"
    "map_of (fc_fernets c') (fc_primary c) = map_of (fc_fernets c) (fc_primary c)"
    "reencrypt_rows F c iv es = Inr (es', n)"
  shows "list_all2 (\<lambda>e e'. e' = e\<lparr>we_secret_enc := we_secret_enc e'\<rparr> \<and>
           needs_rotation c (we_secret_enc e') = Inr False \<and>
           cipher_decrypt F c' (we_secret_enc e') = cipher_decrypt F c (we_secret_enc e)) es es'"
  using assms(4)
proof (induction es arbitrary: es' n)
  case (Cons e es)
  obtain b where b: "needs_rotation c (we_secret_enc e) = Inr b"
    using Cons.prems by (auto simp: bind_eq_Inr)
  obtain e1 k es1 m where s: "es' = e1 # es1" "reencrypt_rows F c iv es = Inr (es1, m)"
    and e1: "(if b then bind (rotate_value F c (iv (we_id e)) (we_secret_enc e)) (\<lambda>v. Inr (e\<lparr>we_secret_enc := v\<rparr>, 1))
           else Inr (e, 0)) = Inr (e1, k :: nat)"
    using Cons.prems b by (auto simp: bind_eq_Inr)
  have "e1 = e\<lparr>we_secret_enc := we_secret_enc e1\<rparr> \<and> needs_rotation c (we_secret_enc e1) = Inr False \<and>
        cipher_decrypt F c' (we_secret_enc e1) = cipher_decrypt F c (we_secret_enc e)"
  proof (cases b)
    case True
    then obtain v where "rotate_value F c (iv (we_id e)) (we_secret_enc e) = Inr v" "e1 = e\<lparr>we_secret_enc := v\<rparr>"
      using e1 by (auto simp: bind_eq_Inr)
    then show ?thesis
      using rotate_value_decrypts [OF assms(1,2) _ assms(3)] by simp
  next
    case False
    then show ?thesis
      using e1 b decrypt_same_key [OF _ assms(3)] by simp
  qed
  then show ?case
    using Cons.IH [OF s(2)] s(1) by simp
qed simp

subsection \<open>What a key rotation keeps and what it strands\<close>

text \<open>
  The documented rotation: add a key, make it primary, re-encrypt, remove the old keys. \<open>keys\<close> is the
  ring during the re-encryption and \<open>keys'\<close> the ring afterwards, which still holds the primary key.
\<close>

text \<open>
  C26: after the re-encryption command every webhook secret decrypts, under any later ring that holds
  the primary key, to the same secret as before (also when the old keys are gone); nothing else of an
  endpoint and no other table changes.
\<close>

theorem webhook_secrets_survive_rotation:
  assumes "fernet_ok F" "reencrypt_all F iv keys primary d = Inr (n, d')"
    "build_field_cipher F keys primary = Inr (Some c)" "build_field_cipher F keys' primary' = Inr (Some c')"
    "map_of keys' (fc_primary c) = map_of keys (fc_primary c)"
  shows "d' = d\<lparr>webhook_endpoints := webhook_endpoints d'\<rparr> \<and>
    list_all2 (\<lambda>e e'. e' = e\<lparr>we_secret_enc := we_secret_enc e'\<rparr> \<and>
      cipher_decrypt F c' (we_secret_enc e') = cipher_decrypt F c (we_secret_enc e))
      (webhook_endpoints d) (webhook_endpoints d')"
proof -
  obtain rows where r: "reencrypt_rows F c iv (webhook_endpoints d) = Inr (rows, n)" "d' = d\<lparr>webhook_endpoints := rows\<rparr>"
    using assms(2,3) by (auto simp: reencrypt_all_def bind_eq_Inr)
  have "cipher_ok F c" "map_of (fc_fernets c') (fc_primary c) = map_of (fc_fernets c) (fc_primary c)"
    using assms(3-5) build_field_cipher_Some by metis+
  then have "list_all2 (\<lambda>e e'. e' = e\<lparr>we_secret_enc := we_secret_enc e'\<rparr> \<and>
      needs_rotation c (we_secret_enc e') = Inr False \<and>
      cipher_decrypt F c' (we_secret_enc e') = cipher_decrypt F c (we_secret_enc e)) (webhook_endpoints d) rows"
    by (rule reencrypt_rows_all [OF assms(1) _ _ r(1)])
  then show ?thesis
    using r(2) by (auto elim: list_all2_mono)
qed

text \<open>The account environment whose field cipher is \<open>c\<close>.\<close>

definition with_cipher :: "fernet \<Rightarrow> field_cipher \<Rightarrow> string \<Rightarrow> account_env \<Rightarrow> account_env" where
  "with_cipher F c iv env = env\<lparr>av_cipher := Some (cipher_encrypt F c iv,
     \<lambda>v. case cipher_decrypt F c v of Inl _ \<Rightarrow> None | Inr p \<Rightarrow> Some p)\<rparr>"

text \<open>
  The command leaves the two-factor secrets alone, so the documented rotation locks out the
  accounts that use them: once the old key is removed, no authenticator code of an account whose secret was
  encrypted under it is ever accepted; the request fails because the secret cannot be decrypted.
\<close>

theorem rotation_strands_second_factor:
  assumes "fernet_ok F" "cipher_ok F old" "reencrypt_all F iv keys primary d = Inr (n, d')"
    "build_field_cipher F keys' primary' = Inr (Some c')" "fc_primary old \<notin> fst ` set keys'"
    "u \<in> set (users d)" "u_mfa_totp_secret_enc u = Some (cipher_encrypt F old iv0 secret)"
    "submitted \<noteq> []" "looks_like_totp submitted"
  shows "u \<in> set (users d') \<and>
    verify_second_factor (with_cipher F c' iv1 env) now ctx u submitted d' = Inl (ServiceNotConfiguredError ''mfa_secret'')"
proof -
  have "users d' = users d"
    using assms(3) by (auto simp: reencrypt_all_def bind_eq_Inr split: option.splits)
  moreover have "cipher_decrypt F c' (cipher_encrypt F old iv0 secret) = Inl (FieldEncryptionError ''unknown_key'')"
    using decrypt_unknown_key [OF assms(1,2)] build_field_cipher_Some [OF assms(4)] assms(5) by simp
  ultimately show ?thesis
    using assms(6-) by (simp add: verify_second_factor_def verify_totp_def decrypt_field_def with_cipher_def)
qed

subsection \<open>Examples\<close>

text \<open>A Fernet that writes the plaintext behind a tag, for evaluation only.\<close>

definition plain_fernet :: fernet where
  "plain_fernet = \<lparr>fn_valid = (\<lambda>k. k \<noteq> []), fn_encrypt = (\<lambda>k iv p. k @ ''.'' @ p),
     fn_decrypt = (\<lambda>k t. if take (length k + 1) t = k @ ''.'' then Some (drop (length k + 1) t) else None)\<rparr>"

lemma plain_fernet_ok: "fernet_ok plain_fernet"
  by (simp add: fernet_ok_def plain_fernet_def)

definition rotation_db :: db where
  "rotation_db = empty_db\<lparr>webhook_endpoints :=
     [\<lparr>we_id = 1, we_organization_id = 7, we_url = ''https://a'', we_description = None, we_secret_enc = ''enc1:k1:K1.s'', we_active = True,
       we_last_success_at = None, we_last_failure_at = None\<rparr>],
     users := [\<lparr>u_id = 2, u_email = ''a@b'', u_password_hash = ''h'', u_full_name = ''A'', u_locale = ''tr'', u_status = UserActive,
       u_platform_role = None, u_email_verified_at = None, u_failed_login_count = 0, u_locked_until = None,
       u_mfa_totp_secret_enc = Some (cipher_encrypt plain_fernet \<lparr>fc_fernets = [(''k1'', ''K1'')], fc_primary = ''k1''\<rparr> [] ''S''),
       u_mfa_pending_secret_enc = None, u_mfa_enabled_at = Some 0, u_mfa_last_used_step = None,
       u_password_changed_at = None, u_sessions_revoked_at = None\<rparr>]\<rparr>"

definition both_keys :: "(string \<times> string) list" where "both_keys = [(''k1'', ''K1''), (''k2'', ''K2'')]"

definition rotated_db :: db where
  "rotated_db = rotation_db\<lparr>webhook_endpoints := map (\<lambda>e. e\<lparr>we_secret_enc := ''enc1:k2:K2.s''\<rparr>) (webhook_endpoints rotation_db)\<rparr>"

lemma rotation_runs:
  "reencrypt_all plain_fernet (\<lambda>_. []) both_keys (Some ''k2'') rotation_db = Inr (1, rotated_db)"
  "build_field_cipher plain_fernet both_keys (Some ''k2'') = Inr (Some \<lparr>fc_fernets = both_keys, fc_primary = ''k2''\<rparr>)"
  "build_field_cipher plain_fernet [(''k2'', ''K2'')] None = Inr (Some \<lparr>fc_fernets = [(''k2'', ''K2'')], fc_primary = ''k2''\<rparr>)"
  "map_of [(''k2'', ''K2'')] ''k2'' = map_of both_keys ''k2''"
  by code_simp+

theorem webhook_secrets_survive_rotation_witness:
  "cipher_decrypt plain_fernet \<lparr>fc_fernets = [(''k2'', ''K2'')], fc_primary = ''k2''\<rparr>
     (we_secret_enc (hd (webhook_endpoints rotated_db))) = Inr ''s''"
proof -
  have "cipher_decrypt plain_fernet \<lparr>fc_fernets = [(''k2'', ''K2'')], fc_primary = ''k2''\<rparr>
      (we_secret_enc (hd (webhook_endpoints rotated_db))) =
    cipher_decrypt plain_fernet \<lparr>fc_fernets = both_keys, fc_primary = ''k2''\<rparr>
      (we_secret_enc (hd (webhook_endpoints rotation_db)))"
    using webhook_secrets_survive_rotation [OF plain_fernet_ok rotation_runs(1-3)] rotation_runs(4)
    by (simp add: rotation_db_def rotated_db_def empty_db_def)
  also have "\<dots> = Inr ''s''"
    by code_simp
  finally show ?thesis .
qed

theorem rotation_strands_second_factor_witness:
  "\<forall>env now ctx. verify_second_factor
     (with_cipher plain_fernet \<lparr>fc_fernets = [(''k2'', ''K2'')], fc_primary = ''k2''\<rparr> [] env) now ctx (hd (users rotation_db))
       ''123456'' rotated_db = Inl (ServiceNotConfiguredError ''mfa_secret'')"
proof -
  have "cipher_ok plain_fernet \<lparr>fc_fernets = [(''k1'', ''K1'')], fc_primary = ''k1''\<rparr>"
    "looks_like_totp ''123456''"
    by code_simp+
  then show ?thesis
    using rotation_strands_second_factor [OF plain_fernet_ok _ rotation_runs(1,3),
        of "\<lparr>fc_fernets = [(''k1'', ''K1'')], fc_primary = ''k1''\<rparr>" "hd (users rotation_db)" "[]" "''S''" "''123456''" "[]"]
    by (simp add: rotation_db_def)
qed

end
