(* ===== verification/Storage.thy ===== *)
theory Storage
  imports Prelude "HOL-Library.AList"
begin

section \<open>Object storage\<close>

text \<open>
  \<^verbatim>\<open>domain/storage.py\<close> (object keys, media types, download names), the port \<open>ObjectStorage\<close> of
  \<^verbatim>\<open>application/ports.py\<close>, the local backend \<^verbatim>\<open>infrastructure/storage/local.py\<close> with its signed
  links, and the endpoints of \<^verbatim>\<open>api/routers/v1/storage_local.py\<close> that honour them. HMAC-SHA256 and
  JSON are parameters. A byte is a character; a path is the list of its segments.
\<close>

subsection \<open>Identifiers as text\<close>

definition hex_digit :: "nat \<Rightarrow> char" where
  "hex_digit n = (if n < 10 then char_of (48 + n) else char_of (87 + n))"

fun hex_of :: "nat \<Rightarrow> nat \<Rightarrow> string" where
  "hex_of 0 i = []"
| "hex_of (Suc k) i = hex_of k (i div 16) @ [hex_digit (i mod 16)]"

definition uuid_hex :: "uuid \<Rightarrow> string" where
  "uuid_hex i = hex_of 32 i"

definition uuid_text :: "uuid \<Rightarrow> string" where
  "uuid_text i = (let h = uuid_hex i in
     take 8 h @ ''-'' @ take 4 (drop 8 h) @ ''-'' @ take 4 (drop 12 h) @ ''-'' @ take 4 (drop 16 h) @ ''-'' @ drop 20 h)"

subsection \<open>Keys, media types and download names\<close>

definition key_char :: "char \<Rightarrow> bool" where
  "key_char c \<longleftrightarrow> is_alpha c \<or> is_digit c \<or> c \<in> {CHR ''/'', CHR ''_'', CHR ''.'', CHR ''-''}"

fun split_slash :: "string \<Rightarrow> string list" where
  "split_slash [] = [[]]"
| "split_slash (c # cs) =
     (if c = CHR ''/'' then [] # split_slash cs
      else (case split_slash cs of s # ss \<Rightarrow> (c # s) # ss | [] \<Rightarrow> [[c]]))"

fun join_slash :: "string list \<Rightarrow> string" where
  "join_slash [] = []"
| "join_slash [s] = s"
| "join_slash (s # ss) = s @ CHR ''/'' # join_slash ss"

definition is_valid_object_key :: "string \<Rightarrow> bool" where
  "is_valid_object_key key \<longleftrightarrow>
     (case key of [] \<Rightarrow> False | c # cs \<Rightarrow> (is_alpha c \<or> is_digit c) \<and> length cs \<le> 511 \<and> list_all key_char cs) \<and>
     ''..'' \<notin> set (split_slash key)"

definition evidence_object_key :: "uuid \<Rightarrow> uuid \<Rightarrow> string" where
  "evidence_object_key organization_id evidence_id =
     ''orgs/'' @ uuid_text organization_id @ ''/evidence/'' @ uuid_text evidence_id"

definition export_object_key :: "uuid \<Rightarrow> uuid \<Rightarrow> string" where
  "export_object_key organization_id request_id =
     ''orgs/'' @ uuid_text organization_id @ ''/privacy-exports/'' @ uuid_text request_id @ ''.zip''"

definition report_object_key :: "uuid \<Rightarrow> uuid \<Rightarrow> string \<Rightarrow> string" where
  "report_object_key organization_id artifact_id extension =
     ''orgs/'' @ uuid_text organization_id @ ''/reports/'' @ uuid_text artifact_id @ ''.'' @ extension"

definition bytes_of :: "nat list \<Rightarrow> string" where
  "bytes_of = map char_of"

definition sniff_media_type :: "string \<Rightarrow> string option" where
  "sniff_media_type head =
     (if prefix (bytes_of [0xff, 0xd8, 0xff]) head then Some ''image/jpeg''
      else if prefix (bytes_of [0x89, 80, 78, 71, 13, 10, 26, 10]) head then Some ''image/png''
      else if 12 \<le> length head \<and> take 4 (drop 4 head) = ''ftyp'' then Some ''video/mp4''
      else None)"

definition name_char :: "char \<Rightarrow> bool" where
  "name_char c \<longleftrightarrow> is_alpha c \<or> is_digit c \<or> c \<in> {CHR ''.'', CHR ''_'', CHR ''-''}"

text \<open>\<^verbatim>\<open>re.sub(r"[^A-Za-z0-9._-]+", "-", s)\<close>: a run of other characters becomes one hyphen.\<close>

fun squeeze_name :: "string \<Rightarrow> string" where
  "squeeze_name [] = []"
| "squeeze_name (c # cs) =
     (if name_char c then c # squeeze_name cs
      else (case cs of d # _ \<Rightarrow> if name_char d then CHR ''-'' # squeeze_name cs else squeeze_name cs | [] \<Rightarrow> ''-''))"

definition strip_hyphen_dot :: "string \<Rightarrow> string" where
  "strip_hyphen_dot s =
     (let q = (\<lambda>c. c = CHR ''-'' \<or> c = CHR ''.'') in rev (dropWhile q (rev (dropWhile q s))))"

text \<open>On ASCII the normalisation is the identity, other characters are dropped.\<close>

definition safe_download_filename :: "string \<Rightarrow> string \<Rightarrow> string" where
  "safe_download_filename name fallback =
     (let normalized = filter (\<lambda>c. of_char c < (128 :: nat)) name;
          cleaned = strip_hyphen_dot (squeeze_name (last (split_slash normalized)))
      in take 100 (if cleaned = [] then fallback else cleaned))"

subsection \<open>The port\<close>

record object_info =
  oi_key :: string
  oi_size_bytes :: int
  oi_content_type :: "string option"

record presigned_upload =
  pu_url :: string
  pu_method :: string
  pu_expires_at :: instant
  pu_content_type :: string

text \<open>
  An operation on the backend returns or raises, and leaves a state in both cases; links are signed at
  an instant, the lifetime is in seconds.
\<close>

record 's object_storage =
  os_put_bytes :: "string \<Rightarrow> string \<Rightarrow> string \<Rightarrow> 's \<Rightarrow> unit result \<times> 's"
  os_get_bytes :: "string \<Rightarrow> int option \<Rightarrow> 's \<Rightarrow> string result"
  os_head :: "string \<Rightarrow> 's \<Rightarrow> object_info option result"
  os_delete :: "string \<Rightarrow> 's \<Rightarrow> unit result \<times> 's"
  os_presign_download :: "instant \<Rightarrow> string \<Rightarrow> int \<Rightarrow> string \<Rightarrow> string \<Rightarrow> string result"
  os_presign_upload :: "instant \<Rightarrow> string \<Rightarrow> int \<Rightarrow> string \<Rightarrow> int \<Rightarrow> presigned_upload result"

subsection \<open>Files of the local backend\<close>

record fs =
  fs_files :: "(string list \<times> string) list"
  fs_dirs :: "string list list"

definition empty_fs :: fs where
  "empty_fs = \<lparr>fs_files = [], fs_dirs = []\<rparr>"

record storage_env =
  sv_key :: string
  sv_api_url :: string
  sv_hmac :: "string \<Rightarrow> string \<Rightarrow> string"
  sv_dumps :: "pydict \<Rightarrow> string"
  sv_loads :: "string \<Rightarrow> pydict option"

definition meta_suffix :: string where "meta_suffix = ''.meta.json''"

text \<open>\<^verbatim>\<open>Path\<close> drops empty segments and dots; a valid key has no segment that leads upwards.\<close>

definition path_of :: "string \<Rightarrow> string list" where
  "path_of key = filter (\<lambda>s. s \<noteq> [] \<and> s \<noteq> ''.'') (split_slash key)"

definition local_path :: "string \<Rightarrow> string list result" where
  "local_path key = (if is_valid_object_key key then Inr (path_of key) else Inl StorageError)"

definition with_suffix :: "string list \<Rightarrow> string \<Rightarrow> string list" where
  "with_suffix p ext = butlast p @ [last p @ ext]"

definition parents :: "string list \<Rightarrow> string list list" where
  "parents p = filter (\<lambda>q. q \<noteq> [] \<and> q \<noteq> p) (prefixes p)"

definition file_at :: "string list \<Rightarrow> fs \<Rightarrow> string option" where
  "file_at p s = map_of (fs_files s) p"

definition is_dir :: "string list \<Rightarrow> fs \<Rightarrow> bool" where
  "is_dir p s \<longleftrightarrow> p = [] \<or> p \<in> set (fs_dirs s)"

definition local_put_bytes :: "storage_env \<Rightarrow> string \<Rightarrow> string \<Rightarrow> string \<Rightarrow> fs \<Rightarrow> unit result \<times> fs" where
  "local_put_bytes env key data content_type s =
     (case local_path key of
        Inl e \<Rightarrow> (Inl e, s)
      | Inr p \<Rightarrow>
          if \<exists>q \<in> set (parents p). file_at q s \<noteq> None then (Inl FileSystemError, s)
          else
            (let s1 = s\<lparr>fs_dirs := parents p @ fs_dirs s\<rparr>;
                 tmp = with_suffix p ''.tmp''; meta = with_suffix p meta_suffix
             in if is_dir tmp s1 \<or> is_dir p s1 then (Inl FileSystemError, s1)
                else
                  (let s2 = s1\<lparr>fs_files := AList.update p data (AList.delete tmp (fs_files s1))\<rparr>
                   in if is_dir meta s2 then (Inl FileSystemError, s2)
                      else (Inr (), s2\<lparr>fs_files := AList.update meta (sv_dumps env [(''content_type'', PStr content_type)])
                              (fs_files s2)\<rparr>))))"

definition local_get_bytes :: "string \<Rightarrow> int option \<Rightarrow> fs \<Rightarrow> string result" where
  "local_get_bytes key max_bytes s =
     bind (local_path key) (\<lambda>p.
       if is_dir p s then Inl FileSystemError
       else (case file_at p s of
               None \<Rightarrow> Inl StorageError
             | Some data \<Rightarrow> Inr (case max_bytes of Some n \<Rightarrow> if 0 \<le> n then take (nat n) data else data | None \<Rightarrow> data)))"

definition local_head :: "storage_env \<Rightarrow> string \<Rightarrow> fs \<Rightarrow> object_info option result" where
  "local_head env key s =
     bind (local_path key) (\<lambda>p.
       case file_at p s of
         None \<Rightarrow> Inr None
       | Some data \<Rightarrow>
           bind (case file_at (with_suffix p meta_suffix) s of
                   None \<Rightarrow> Inr None
                 | Some m \<Rightarrow> (case sv_loads env m of
                     None \<Rightarrow> Inl (PyValueError ''JSONDecodeError'')
                   | Some kv \<Rightarrow> Inr (case dget kv ''content_type'' of Some (PStr ct) \<Rightarrow> Some ct | _ \<Rightarrow> None))) (\<lambda>ct.
           Inr (Some \<lparr>oi_key = key, oi_size_bytes = int (length data), oi_content_type = ct\<rparr>)))"

definition local_delete :: "string \<Rightarrow> fs \<Rightarrow> unit result \<times> fs" where
  "local_delete key s =
     (case local_path key of
        Inl e \<Rightarrow> (Inl e, s)
      | Inr p \<Rightarrow>
          if is_dir p s then (Inl FileSystemError, s)
          else
            (let meta = with_suffix p meta_suffix; s1 = s\<lparr>fs_files := AList.delete p (fs_files s)\<rparr>
             in if is_dir meta s then (Inl FileSystemError, s1)
                else (Inr (), s1\<lparr>fs_files := AList.delete meta (fs_files s1)\<rparr>)))"

definition local_delete_prefix :: "string \<Rightarrow> fs \<Rightarrow> nat result \<times> fs" where
  "local_delete_prefix key_prefix s =
     (case local_path (rev (dropWhile (\<lambda>c. c = CHR ''/'') (rev key_prefix))) of
        Inl e \<Rightarrow> (Inl e, s)
      | Inr p \<Rightarrow>
          if \<not> is_dir p s then (Inr 0, s)
          else (Inr (length (filter (\<lambda>(q, _). prefix p q \<and> \<not> suffix meta_suffix (last q)) (fs_files s))),
                s\<lparr>fs_files := filter (\<lambda>(q, _). \<not> prefix p q) (fs_files s),
                  fs_dirs := filter (\<lambda>q. \<not> prefix p q) (fs_dirs s)\<rparr>))"

subsection \<open>Signed links of the local backend\<close>

text \<open>URL-safe base64 without the trailing padding.\<close>

definition b64_char :: "nat \<Rightarrow> char" where
  "b64_char n =
     (if n < 26 then char_of (65 + n) else if n < 52 then char_of (71 + n)
      else if n < 62 then char_of (n - 4) else if n = 62 then CHR ''-'' else CHR ''_'')"

definition b64_value :: "char \<Rightarrow> nat option" where
  "b64_value c =
     (if is_upper c then Some (of_char c - 65) else if is_lower c then Some (of_char c - 71)
      else if is_digit c then Some (of_char c + 4) else if c = CHR ''-'' then Some 62
      else if c = CHR ''_'' then Some 63 else None)"

fun b64 :: "string \<Rightarrow> string" where
  "b64 [] = []"
| "b64 [a] = (let x = of_char a in [b64_char (x div 4), b64_char (x mod 4 * 16)])"
| "b64 [a, b] = (let x = of_char a; y = of_char b in
     [b64_char (x div 4), b64_char (x mod 4 * 16 + y div 16), b64_char (y mod 16 * 4)])"
| "b64 (a # b # c # rest) = (let x = of_char a; y = of_char b; z = of_char c in
     b64_char (x div 4) # b64_char (x mod 4 * 16 + y div 16) # b64_char (y mod 16 * 4 + z div 64) #
     b64_char (z mod 64) # b64 rest)"

text \<open>
  The decoder pads its input again. A single left-over character is an error; foreign characters,
  which Python would skip, never occur in a text that was signed here and are errors too.
\<close>

fun unb64 :: "string \<Rightarrow> string option" where
  "unb64 [] = Some []"
| "unb64 [_] = None"
| "unb64 [a, b] = (case (b64_value a, b64_value b) of
     (Some x, Some y) \<Rightarrow> Some [char_of (x * 4 + y div 16)] | _ \<Rightarrow> None)"
| "unb64 [a, b, c] = (case (b64_value a, b64_value b, b64_value c) of
     (Some x, Some y, Some z) \<Rightarrow> Some [char_of (x * 4 + y div 16), char_of (y mod 16 * 16 + z div 4)] | _ \<Rightarrow> None)"
| "unb64 (a # b # c # d # rest) = (case (b64_value a, b64_value b, b64_value c, b64_value d, unb64 rest) of
     (Some x, Some y, Some z, Some w, Some r) \<Rightarrow>
       Some (char_of (x * 4 + y div 16) # char_of (y mod 16 * 16 + z div 4) # char_of (z mod 4 * 64 + w) # r)
   | _ \<Rightarrow> None)"

record local_grant =
  lg_op :: string
  lg_key :: string
  lg_content_type :: string
  lg_filename :: "string option"
  lg_max_bytes :: "int option"

definition unix_time :: "instant \<Rightarrow> int" where
  "unix_time now = now div 1000000"

definition sign_claims :: "storage_env \<Rightarrow> pydict \<Rightarrow> string" where
  "sign_claims env claims =
     (let payload = b64 (sv_dumps env claims)
      in payload @ ''.'' @ b64 (sv_hmac env (sv_key env) payload))"

definition cut_dot :: "string \<Rightarrow> (string \<times> string) option" where
  "cut_dot s = (case dropWhile (\<lambda>c. c \<noteq> CHR ''.'') s of [] \<Rightarrow> None
                | _ # rest \<Rightarrow> Some (takeWhile (\<lambda>c. c \<noteq> CHR ''.'') s, rest))"

text \<open>
  Claims are signed by this class, so the values have the types it writes; another type is a Python
  error (\<^verbatim>\<open>int("x")\<close>, a missing key).
\<close>

definition claim_int :: "pydict \<Rightarrow> string \<Rightarrow> int \<Rightarrow> int result" where
  "claim_int kv k dflt = (case dget kv k of None \<Rightarrow> Inr dflt | Some (PInt n) \<Rightarrow> Inr n | _ \<Rightarrow> Inl (PyValueError k))"

definition claim_str :: "pydict \<Rightarrow> string \<Rightarrow> string result" where
  "claim_str kv k = (case dget kv k of Some (PStr v) \<Rightarrow> Inr v | _ \<Rightarrow> Inl (PyValueError k))"

definition grant_of_claims :: "storage_env \<Rightarrow> instant \<Rightarrow> string \<Rightarrow> pydict \<Rightarrow> local_grant result" where
  "grant_of_claims env now op claims =
     (if dget claims ''op'' \<noteq> Some (PStr op) then Inl StorageError
      else bind (claim_int claims ''exp'' 0) (\<lambda>exp_at.
        if exp_at < unix_time now then Inl StorageError
        else bind (claim_str claims ''key'') (\<lambda>key.
          bind (local_path key) (\<lambda>_.
          bind (case dget claims ''max'' of None \<Rightarrow> Inr None | Some PNone \<Rightarrow> Inr None
                | Some (PInt n) \<Rightarrow> Inr (Some n) | _ \<Rightarrow> Inl (PyValueError ''max'')) (\<lambda>mx.
            Inr \<lparr>lg_op = op, lg_key = key,
              lg_content_type = (case dget claims ''ct'' of
                  Some (PStr ct) \<Rightarrow> if ct = [] then ''application/octet-stream'' else ct
                | _ \<Rightarrow> ''application/octet-stream''),
              lg_filename = (case dget claims ''fn'' of Some (PStr f) \<Rightarrow> Some f | _ \<Rightarrow> None),
              lg_max_bytes = mx\<rparr>)))))"

definition verify_token :: "storage_env \<Rightarrow> instant \<Rightarrow> string \<Rightarrow> string \<Rightarrow> local_grant result" where
  "verify_token env now token op =
     (case cut_dot token of
        None \<Rightarrow> Inl StorageError
      | Some (payload, signature) \<Rightarrow>
          if b64 (sv_hmac env (sv_key env) payload) \<noteq> signature then Inl StorageError
          else (case unb64 payload of
                  None \<Rightarrow> Inl StorageError
                | Some data \<Rightarrow> (case sv_loads env data of
                    None \<Rightarrow> Inl StorageError
                  | Some claims \<Rightarrow> grant_of_claims env now op claims)))"

text \<open>A token consists of unreserved characters, so that quoting it in the link changes nothing.\<close>

definition link_of :: "storage_env \<Rightarrow> string \<Rightarrow> string" where
  "link_of env token = sv_api_url env @ ''/api/v1/storage/local/objects?token='' @ token"

definition download_claims :: "instant \<Rightarrow> string \<Rightarrow> int \<Rightarrow> string \<Rightarrow> string \<Rightarrow> pydict" where
  "download_claims now key ttl_seconds filename content_type =
     [(''ct'', PStr content_type), (''exp'', PInt (unix_time now + ttl_seconds)),
      (''fn'', PStr (safe_download_filename filename ''dosya'')), (''key'', PStr key), (''op'', PStr ''get'')]"

definition upload_claims :: "instant \<Rightarrow> string \<Rightarrow> int \<Rightarrow> string \<Rightarrow> int \<Rightarrow> pydict" where
  "upload_claims now key ttl_seconds content_type max_bytes =
     [(''ct'', PStr content_type), (''exp'', PInt (unix_time now + ttl_seconds)),
      (''key'', PStr key), (''max'', PInt max_bytes), (''op'', PStr ''put'')]"

definition local_presign_download ::
    "storage_env \<Rightarrow> instant \<Rightarrow> string \<Rightarrow> int \<Rightarrow> string \<Rightarrow> string \<Rightarrow> string result" where
  "local_presign_download env now key ttl_seconds filename content_type =
     bind (local_path key) (\<lambda>_.
       Inr (link_of env (sign_claims env (download_claims now key ttl_seconds filename content_type))))"

definition local_presign_upload ::
    "storage_env \<Rightarrow> instant \<Rightarrow> string \<Rightarrow> int \<Rightarrow> string \<Rightarrow> int \<Rightarrow> presigned_upload result" where
  "local_presign_upload env now key ttl_seconds content_type max_bytes =
     bind (local_path key) (\<lambda>_.
       Inr \<lparr>pu_url = link_of env (sign_claims env (upload_claims now key ttl_seconds content_type max_bytes)),
            pu_method = ''PUT'', pu_expires_at = now + seconds ttl_seconds, pu_content_type = content_type\<rparr>)"

definition local_storage :: "storage_env \<Rightarrow> fs object_storage" where
  "local_storage env =
     \<lparr>os_put_bytes = local_put_bytes env, os_get_bytes = local_get_bytes, os_head = local_head env,
      os_delete = local_delete, os_presign_download = local_presign_download env,
      os_presign_upload = local_presign_upload env\<rparr>"

subsection \<open>The endpoints behind the links\<close>

datatype link_error = SignedUrlInvalid | ContentTypeMismatch | PayloadTooLarge | EmptyUpload | ObjectNotFound | LinkExn exn

text \<open>The body of the request, and the content type it declares before any parameter.\<close>

definition upload_object ::
    "storage_env \<Rightarrow> instant \<Rightarrow> string \<Rightarrow> string \<Rightarrow> string \<Rightarrow> fs \<Rightarrow> (link_error + unit) \<times> fs" where
  "upload_object env now token declared body s =
     (case verify_token env now token ''put'' of
        Inl StorageError \<Rightarrow> (Inl SignedUrlInvalid, s)
      | Inl e \<Rightarrow> (Inl (LinkExn e), s)
      | Inr g \<Rightarrow>
          if strip (takeWhile (\<lambda>c. c \<noteq> CHR '';'') declared) \<noteq> lg_content_type g then (Inl ContentTypeMismatch, s)
          else if body \<noteq> [] \<and> (case lg_max_bytes g of None \<Rightarrow> 0 | Some n \<Rightarrow> n) < int (length body) then (Inl PayloadTooLarge, s)
          else if body = [] then (Inl EmptyUpload, s)
          else (case local_put_bytes env (lg_key g) body (lg_content_type g) s of
                  (Inl e, s') \<Rightarrow> (Inl (LinkExn e), s')
                | (Inr _, s') \<Rightarrow> (Inr (), s')))"

definition download_object ::
    "storage_env \<Rightarrow> instant \<Rightarrow> string \<Rightarrow> fs \<Rightarrow> link_error + (string \<times> string \<times> string)" where
  "download_object env now token s =
     (case verify_token env now token ''get'' of
        Inl StorageError \<Rightarrow> Inl SignedUrlInvalid
      | Inl e \<Rightarrow> Inl (LinkExn e)
      | Inr g \<Rightarrow>
          (case local_path (lg_key g) of
             Inl e \<Rightarrow> Inl (LinkExn e)
           | Inr p \<Rightarrow> (case file_at p s of
               None \<Rightarrow> Inl ObjectNotFound
             | Some data \<Rightarrow> Inr (data, lg_content_type g, case lg_filename g of Some f \<Rightarrow> if f = [] then ''dosya'' else f | None \<Rightarrow> ''dosya''))))"

subsection \<open>Base64 and links: round trips\<close>

lemma b64_value_char:
  assumes "n < 64"
  shows "b64_value (b64_char n) = Some n"
  using assms by (auto simp: b64_char_def b64_value_def is_upper_def is_lower_def is_digit_def)

lemma of_char_less: "(of_char c :: nat) < 256"
  by simp

lemma char_of_eqI: "n = of_char c \<Longrightarrow> char_of (n :: nat) = c"
  by simp

lemma digit_div: "v < m \<Longrightarrow> (u * m + v) div m = (u :: nat)"
  using div_mult_self3 [of m u v] by auto

lemma digit_mod: "v < m \<Longrightarrow> (u * m + v) mod m = (v :: nat)"
  using mod_mult_self3 [of u m v] by auto

lemma digit_less: "u < n \<Longrightarrow> v < m \<Longrightarrow> u * m + v < n * (m :: nat)"
proof -
  assume "u < n" "v < m"
  then have "u * m + v < Suc u * m"
    by simp
  also have "\<dots> \<le> n * m"
    using \<open>u < n\<close> by (intro mult_right_mono) simp_all
  finally show ?thesis .
qed

lemma b64_parts:
  fixes x :: nat
  shows "x < 256 \<Longrightarrow> x div 4 < 64" "x mod 4 < 4" "x < 256 \<Longrightarrow> x div 16 < 16" "x mod 16 < 16" "x < 256 \<Longrightarrow> x div 64 < 4"
    "x mod 64 < 64"
  by (simp_all add: div_less_iff_less_mult)

lemma b64_pair:
  fixes x y z :: nat
  shows "x mod 4 * 16 < 64" "y < 256 \<Longrightarrow> x mod 4 * 16 + y div 16 < 64"
    "y mod 16 * 4 < 64" "z < 256 \<Longrightarrow> y mod 16 * 4 + z div 64 < 64"
  using digit_less [OF b64_parts(2) [of x], of 0 16] digit_less [OF b64_parts(2) [of x] b64_parts(3) [of y]]
    digit_less [OF b64_parts(4) [of y], of 0 4] digit_less [OF b64_parts(4) [of y] b64_parts(5) [of z]]
  by simp_all

lemma b64_sums:
  fixes x y z :: nat
  shows "x div 4 * 4 + x mod 4 * 16 div 16 = x"
    "y < 256 \<Longrightarrow> x div 4 * 4 + (x mod 4 * 16 + y div 16) div 16 = x"
    "y < 256 \<Longrightarrow> (x mod 4 * 16 + y div 16) mod 16 * 16 + y mod 16 * 4 div 4 = y"
    "y < 256 \<Longrightarrow> z < 256 \<Longrightarrow> (x mod 4 * 16 + y div 16) mod 16 * 16 + (y mod 16 * 4 + z div 64) div 4 = y"
    "z < 256 \<Longrightarrow> (y mod 16 * 4 + z div 64) mod 4 * 64 + z mod 64 = z"
  using digit_div [of 0 16 "x mod 4"] digit_div [of 0 4 "y mod 16"]
  by (simp_all only: digit_div digit_mod b64_parts div_mult_mod_eq add_0_right zero_less_numeral simp_thms)

lemmas b64_step = b64.simps unb64.simps Let_def prod.case option.case b64_value_char b64_parts b64_pair b64_sums
  of_char_less char_of_char

lemma unb64_b64: "unb64 (b64 s) = Some s"
proof (induction s rule: b64.induct)
  case (4 a b c rest)
  then show ?case
    by (simp only: b64_step)
qed (simp_all only: b64_step)

lemma b64_char_no_dot: "n < 64 \<Longrightarrow> b64_char n \<noteq> CHR ''.''"
  using b64_value_char [of n] by (auto simp: b64_value_def is_upper_def is_lower_def is_digit_def)

lemma b64_no_dot: "CHR ''.'' \<notin> set (b64 s)"
  by (induction s rule: b64.induct)
    (simp_all add: Let_def b64_parts b64_pair b64_char_no_dot [THEN not_sym])

text \<open>
  The documented behaviour of \<^verbatim>\<open>json\<close>: a flat dictionary of texts and numbers is read back as the same
  dictionary.
\<close>

definition flat_dict :: "pydict \<Rightarrow> bool" where
  "flat_dict kv \<longleftrightarrow> distinct (map fst kv) \<and> list_all (\<lambda>(_, v). case v of PStr _ \<Rightarrow> True | PInt _ \<Rightarrow> True | _ \<Rightarrow> False) kv"

definition json_ok :: "storage_env \<Rightarrow> bool" where
  "json_ok env \<longleftrightarrow> (\<forall>kv. flat_dict kv \<longrightarrow> (\<exists>kv'. sv_loads env (sv_dumps env kv) = Some kv' \<and> dget kv' = dget kv))"

lemma cut_dot_append: "CHR ''.'' \<notin> set a \<Longrightarrow> cut_dot (a @ CHR ''.'' # r) = Some (a, r)"
proof -
  assume "CHR ''.'' \<notin> set a"
  then have "\<And>c. c \<in> set a \<Longrightarrow> c \<noteq> CHR ''.''"
    by auto
  then show ?thesis
    by (simp add: cut_dot_def takeWhile_append2 dropWhile_append2)
qed

lemma grant_of_claims_cong:
  assumes "dget kv' = dget kv"
  shows "grant_of_claims env now op kv' = grant_of_claims env now op kv"
  unfolding grant_of_claims_def claim_int_def claim_str_def assms ..

lemma verify_signed:
  assumes "json_ok env" "flat_dict claims"
  shows "verify_token env now (sign_claims env claims) op = grant_of_claims env now op claims"
proof -
  obtain kv where kv: "sv_loads env (sv_dumps env claims) = Some kv" "dget kv = dget claims"
    using assms by (auto simp: json_ok_def)
  have "cut_dot (sign_claims env claims) =
      Some (b64 (sv_dumps env claims), b64 (sv_hmac env (sv_key env) (b64 (sv_dumps env claims))))"
    using cut_dot_append [OF b64_no_dot] unfolding sign_claims_def Let_def by simp
  then show ?thesis
    using kv grant_of_claims_cong [OF kv(2)] unfolding verify_token_def by (simp add: unb64_b64)
qed

text \<open>
  C25: a signed link grants exactly what it was issued for: its operation on its key, with its content
  type, file name and size limit, until its expiry in whole seconds, and nothing for the other operation.
\<close>

theorem signed_link_grants_exactly:
  assumes "json_ok env" "is_valid_object_key key"
  shows "local_presign_download env now key ttl filename ct =
           Inr (link_of env (sign_claims env (download_claims now key ttl filename ct))) \<and>
    verify_token env t (sign_claims env (download_claims now key ttl filename ct)) op =
      (if op = ''get'' \<and> unix_time t \<le> unix_time now + ttl
       then Inr \<lparr>lg_op = ''get'', lg_key = key, lg_content_type = (if ct = [] then ''application/octet-stream'' else ct),
              lg_filename = Some (safe_download_filename filename ''dosya''), lg_max_bytes = None\<rparr>
       else Inl StorageError) \<and>
    map_option pu_url (case local_presign_upload env now key ttl ct n of Inl _ \<Rightarrow> None | Inr p \<Rightarrow> Some p) =
      Some (link_of env (sign_claims env (upload_claims now key ttl ct n))) \<and>
    verify_token env t (sign_claims env (upload_claims now key ttl ct n)) op =
      (if op = ''put'' \<and> unix_time t \<le> unix_time now + ttl
       then Inr \<lparr>lg_op = ''put'', lg_key = key, lg_content_type = (if ct = [] then ''application/octet-stream'' else ct),
              lg_filename = None, lg_max_bytes = Some n\<rparr>
       else Inl StorageError)"
proof -
  have flat: "flat_dict (download_claims now key ttl filename ct)" "flat_dict (upload_claims now key ttl ct n)"
    by (simp_all add: flat_dict_def download_claims_def upload_claims_def)
  have p: "local_path key = Inr (path_of key)"
    using assms(2) by (simp add: local_path_def)
  show ?thesis
    unfolding verify_signed [OF assms(1) flat(1)] verify_signed [OF assms(1) flat(2)]
    by (auto simp: grant_of_claims_def claim_int_def claim_str_def dget_def p download_claims_def upload_claims_def
        local_presign_download_def local_presign_upload_def)
qed

subsection \<open>The contract of the port\<close>

text \<open>
  What the services rely on: on keys the application makes (\<open>ok\<close>), a backend in a state that satisfies
  its invariant behaves as a map from keys to the bytes and content type stored last.
\<close>

type_synonym objects = "string \<Rightarrow> (string \<times> string option) option"

locale object_store =
  fixes st :: "'s object_storage"
    and ok :: "string \<Rightarrow> bool"
    and inv :: "'s \<Rightarrow> bool"
    and view :: "'s \<Rightarrow> objects"
  assumes put: "inv s \<Longrightarrow> ok k \<Longrightarrow>
      \<exists>s'. os_put_bytes st k b ct s = (Inr (), s') \<and> inv s' \<and> (\<forall>k'. ok k' \<longrightarrow> view s' k' = ((view s)(k \<mapsto> (b, Some ct))) k')"
    and delete: "inv s \<Longrightarrow> ok k \<Longrightarrow>
      \<exists>s'. os_delete st k s = (Inr (), s') \<and> inv s' \<and> (\<forall>k'. ok k' \<longrightarrow> view s' k' = ((view s)(k := None)) k')"
    and get: "inv s \<Longrightarrow> ok k \<Longrightarrow> os_get_bytes st k n s =
      (case view s k of None \<Rightarrow> Inl StorageError
       | Some (b, _) \<Rightarrow> Inr (case n of Some m \<Rightarrow> if 0 \<le> m then take (nat m) b else b | None \<Rightarrow> b))"
    and head: "inv s \<Longrightarrow> ok k \<Longrightarrow> os_head st k s =
      Inr (map_option (\<lambda>(b, ct). \<lparr>oi_key = k, oi_size_bytes = int (length b), oi_content_type = ct\<rparr>) (view s k))"
begin

text \<open>What was put is what is read, until it is deleted.\<close>

lemma put_get:
  assumes "inv s" "ok k" "os_put_bytes st k b ct s = (r, s')"
  shows "r = Inr () \<and> inv s' \<and> os_get_bytes st k None s' = Inr b"
  using put [OF assms(1,2), of b ct] assms(2,3) get [of s' k None] by auto

lemma delete_get:
  assumes "inv s" "ok k" "os_delete st k s = (r, s')"
  shows "r = Inr () \<and> inv s' \<and> os_get_bytes st k n s' = Inl StorageError \<and> os_head st k s' = Inr None"
  using delete [OF assms(1,2)] assms(2,3) get [of s' k n] head [of s' k] by auto

lemma other_key:
  assumes "inv s" "ok k" "ok k'" "k' \<noteq> k"
    "os_put_bytes st k b ct s = (r, s') \<or> os_delete st k s = (r, s')"
  shows "os_get_bytes st k' n s' = os_get_bytes st k' n s"
  using put [OF assms(1,2), of b ct] delete [OF assms(1,2)] assms get [of s' k' n] get [of s k' n] by auto

end

subsection \<open>The local backend keeps the contract\<close>

text \<open>Keys in canonical form, four segments deep, that are not the name of a side file.\<close>

definition local_key_ok :: "string \<Rightarrow> bool" where
  "local_key_ok k \<longleftrightarrow> is_valid_object_key k \<and> join_slash (path_of k) = k \<and> length (path_of k) = 4 \<and>
     \<not> suffix ''.tmp'' (last (path_of k)) \<and> \<not> suffix meta_suffix (last (path_of k))"

definition local_inv :: "storage_env \<Rightarrow> fs \<Rightarrow> bool" where
  "local_inv env s \<longleftrightarrow> json_ok env \<and> (\<forall>p b. file_at p s = Some b \<longrightarrow> length p = 4) \<and>
     (\<forall>p \<in> set (fs_dirs s). length p < 4) \<and>
     (\<forall>p b. file_at p s = Some b \<and> suffix meta_suffix (last p) \<longrightarrow> sv_loads env b \<noteq> None)"

definition meta_content_type :: "storage_env \<Rightarrow> string list \<Rightarrow> fs \<Rightarrow> string option" where
  "meta_content_type env p s =
     (case file_at (with_suffix p meta_suffix) s of
        None \<Rightarrow> None
      | Some m \<Rightarrow> (case sv_loads env m of
          None \<Rightarrow> None
        | Some kv \<Rightarrow> (case dget kv ''content_type'' of Some (PStr ct) \<Rightarrow> Some ct | _ \<Rightarrow> None)))"

definition local_view :: "storage_env \<Rightarrow> fs \<Rightarrow> objects" where
  "local_view env s k = map_option (\<lambda>b. (b, meta_content_type env (path_of k) s)) (file_at (path_of k) s)"

lemma length_with_suffix [simp]: "p \<noteq> [] \<Longrightarrow> length (with_suffix p x) = length p"
  by (simp add: with_suffix_def)

lemma last_with_suffix [simp]: "last (with_suffix p x) = last p @ x"
  by (simp add: with_suffix_def)

lemma with_suffix_inject: "p \<noteq> [] \<Longrightarrow> q \<noteq> [] \<Longrightarrow> with_suffix p x = with_suffix q x \<longleftrightarrow> p = q"
  by (metis append_butlast_last_id append_same_eq butlast_snoc last_snoc with_suffix_def)

lemma with_suffix_neq: "\<not> suffix x (last q) \<Longrightarrow> with_suffix p x \<noteq> q"
  by (metis last_with_suffix suffixI)

lemma parents_shorter: "q \<in> set (parents p) \<Longrightarrow> length q < length p"
  by (auto simp: parents_def) (metis prefix_length_less prefix_order.le_neq_trans)

lemma local_key_ok_path:
  assumes "local_key_ok k"
  shows "local_path k = Inr (path_of k)" "path_of k \<noteq> []" "length (path_of k) = 4"
    "path_of k \<noteq> with_suffix p ''.tmp''" "path_of k \<noteq> with_suffix p meta_suffix"
    "with_suffix (path_of k) meta_suffix \<noteq> with_suffix p ''.tmp''"
proof -
  have "last (last (path_of k) @ meta_suffix) \<noteq> last (last p @ ''.tmp'')"
    by (simp add: meta_suffix_def)
  then show "with_suffix (path_of k) meta_suffix \<noteq> with_suffix p ''.tmp''"
    by (metis last_with_suffix)
  show "path_of k \<noteq> []"
    using assms by (auto simp: local_key_ok_def)
qed (use assms with_suffix_neq [of "''.tmp''" "path_of k" p] with_suffix_neq [of meta_suffix "path_of k" p] in
    \<open>auto simp: local_key_ok_def local_path_def\<close>)

lemma local_key_ok_inject: "local_key_ok k \<Longrightarrow> local_key_ok k' \<Longrightarrow> path_of k = path_of k' \<longleftrightarrow> k = k'"
  by (metis local_key_ok_def)

lemma local_inv_no_dir: "local_inv env s \<Longrightarrow> length p = 4 \<Longrightarrow> \<not> is_dir p s"
  by (auto simp: local_inv_def is_dir_def)

lemma meta_loads:
  assumes "json_ok env"
  obtains kv where "sv_loads env (sv_dumps env [(''content_type'', PStr ct)]) = Some kv" "dget kv ''content_type'' = Some (PStr ct)"
proof -
  have "flat_dict [(''content_type'', PStr ct)]"
    by (simp add: flat_dict_def)
  then obtain kv where "sv_loads env (sv_dumps env [(''content_type'', PStr ct)]) = Some kv"
    "dget kv = dget [(''content_type'', PStr ct)]"
    using assms unfolding json_ok_def by blast
  moreover have "dget [(''content_type'', PStr ct)] ''content_type'' = Some (PStr ct)"
    by (simp add: dget_def)
  ultimately show ?thesis
    using that by metis
qed

lemma local_put_ok:
  fixes b ct :: string
  assumes inv: "local_inv env s" and k: "local_key_ok k"
  defines "p \<equiv> path_of k"
  defines "s' \<equiv> s\<lparr>fs_dirs := parents p @ fs_dirs s,
      fs_files := AList.update (with_suffix p meta_suffix) (sv_dumps env [(''content_type'', PStr ct)])
        (AList.update p b (AList.delete (with_suffix p ''.tmp'') (fs_files s)))\<rparr>"
  shows "local_put_bytes env k b ct s = (Inr (), s')"
proof -
  have p: "local_path k = Inr p" "p \<noteq> []" "length p = 4"
    using local_key_ok_path [OF k] by (simp_all add: p_def)
  have par: "\<not> (\<exists>q \<in> set (parents p). file_at q s \<noteq> None)"
    using inv p(3) parents_shorter [of _ p] by (force simp: local_inv_def)
  have dirs: "\<not> is_dir q (s\<lparr>fs_dirs := parents p @ fs_dirs s, fs_files := fl\<rparr>)"
      "\<not> is_dir q (s\<lparr>fs_dirs := parents p @ fs_dirs s\<rparr>)" if "length q = 4" for q fl
    using that inv p(3) parents_shorter [of q p] by (auto simp: local_inv_def is_dir_def)
  show ?thesis
    using p par dirs by (simp add: local_put_bytes_def Let_def s'_def)
qed

lemma local_put_files:
  assumes "local_key_ok k"
  shows "file_at q (s\<lparr>fs_dirs := ds, fs_files := AList.update (with_suffix (path_of k) meta_suffix) m
        (AList.update (path_of k) b (AList.delete (with_suffix (path_of k) ''.tmp'') (fs_files s)))\<rparr>) =
      (if q = with_suffix (path_of k) meta_suffix then Some m else if q = path_of k then Some b
       else if q = with_suffix (path_of k) ''.tmp'' then None else file_at q s)"
  by (simp add: file_at_def update_conv' delete_conv')

lemma local_put:
  assumes inv: "local_inv env s" and k: "local_key_ok k"
  shows "\<exists>s'. local_put_bytes env k b ct s = (Inr (), s') \<and> local_inv env s' \<and>
    (\<forall>k'. local_key_ok k' \<longrightarrow> local_view env s' k' = ((local_view env s)(k \<mapsto> (b, Some ct))) k')"
proof -
  let ?p = "path_of k" and ?m = "sv_dumps env [(''content_type'', PStr ct)]"
  let ?s' = "s\<lparr>fs_dirs := parents ?p @ fs_dirs s, fs_files := AList.update (with_suffix ?p meta_suffix) ?m
      (AList.update ?p b (AList.delete (with_suffix ?p ''.tmp'') (fs_files s)))\<rparr>"
  note path = local_key_ok_path [OF k] and files = local_put_files [OF k]
  have json: "json_ok env"
    using inv by (simp add: local_inv_def)
  obtain kv where kv: "sv_loads env ?m = Some kv" "dget kv ''content_type'' = Some (PStr ct)"
    using meta_loads [OF json] .
  have nosuf: "\<not> suffix meta_suffix (last ?p)"
    using k by (simp add: local_key_ok_def)
  have "local_inv env ?s'"
    using inv json kv(1) path(2,3) nosuf parents_shorter [of _ ?p]
    by (auto simp: local_inv_def files split: if_splits)
  moreover have "local_view env ?s' k' = ((local_view env s)(k \<mapsto> (b, Some ct))) k'" if k': "local_key_ok k'" for k'
  proof -
    note path' = local_key_ok_path [OF k'] and eq = local_key_ok_inject [OF k' k]
    show ?thesis
      using path path' path(5) [symmetric] eq kv with_suffix_inject [of "path_of k'" ?p meta_suffix]
      by (auto simp: local_view_def meta_content_type_def files)
  qed
  ultimately show ?thesis
    using local_put_ok [OF inv k] by blast
qed

lemma local_delete_files:
  "file_at q (s\<lparr>fs_files := AList.delete m (AList.delete p (fs_files s))\<rparr>) =
      (if q = m \<or> q = p then None else file_at q s)"
  by (simp add: file_at_def delete_conv')

lemma local_delete:
  assumes inv: "local_inv env s" and k: "local_key_ok k"
  shows "\<exists>s'. local_delete k s = (Inr (), s') \<and> local_inv env s' \<and>
    (\<forall>k'. local_key_ok k' \<longrightarrow> local_view env s' k' = ((local_view env s)(k := None)) k')"
proof -
  let ?p = "path_of k"
  let ?s' = "s\<lparr>fs_files := AList.delete (with_suffix ?p meta_suffix) (AList.delete ?p (fs_files s))\<rparr>"
  note path = local_key_ok_path [OF k]
  have "local_delete k s = (Inr (), ?s')"
    using path local_inv_no_dir [OF inv] by (simp add: local_delete_def Let_def)
  moreover have "local_inv env ?s'"
    using inv by (auto simp: local_inv_def local_delete_files split: if_splits)
  moreover have "local_view env ?s' k' = ((local_view env s)(k := None)) k'" if k': "local_key_ok k'" for k'
  proof -
    note path' = local_key_ok_path [OF k'] and eq = local_key_ok_inject [OF k' k]
    show ?thesis
      using path path' path(5) [symmetric] eq with_suffix_inject [of "path_of k'" ?p meta_suffix]
      by (auto simp: local_view_def meta_content_type_def local_delete_files)
  qed
  ultimately show ?thesis
    by blast
qed

interpretation local_files: object_store "local_storage env" local_key_ok "local_inv env" "local_view env"
  for env :: storage_env
proof
  fix s k n
  assume inv: "local_inv env s" and k: "local_key_ok k"
  note path = local_key_ok_path [OF k]
  show "\<exists>s'. os_put_bytes (local_storage env) k b ct s = (Inr (), s') \<and> local_inv env s' \<and>
      (\<forall>k'. local_key_ok k' \<longrightarrow> local_view env s' k' = ((local_view env s)(k \<mapsto> (b, Some ct))) k')" for b ct
    using local_put [OF inv k] by (simp add: local_storage_def)
  show "\<exists>s'. os_delete (local_storage env) k s = (Inr (), s') \<and> local_inv env s' \<and>
      (\<forall>k'. local_key_ok k' \<longrightarrow> local_view env s' k' = ((local_view env s)(k := None)) k')"
    using local_delete [OF inv k] by (simp add: local_storage_def)
  show "os_get_bytes (local_storage env) k n s = (case local_view env s k of None \<Rightarrow> Inl StorageError
       | Some (b, _) \<Rightarrow> Inr (case n of Some m \<Rightarrow> if 0 \<le> m then take (nat m) b else b | None \<Rightarrow> b))"
    using path local_inv_no_dir [OF inv] by (simp add: local_storage_def local_get_bytes_def local_view_def split: option.splits)
  show "os_head (local_storage env) k s = Inr (map_option (\<lambda>(b, ct).
      \<lparr>oi_key = k, oi_size_bytes = int (length b), oi_content_type = ct\<rparr>) (local_view env s k))"
  proof (cases "file_at (with_suffix (path_of k) meta_suffix) s")
    case (Some m)
    moreover have "suffix meta_suffix (last (with_suffix (path_of k) meta_suffix))"
      by (simp add: suffix_def)
    ultimately have "sv_loads env m \<noteq> None"
      using inv unfolding local_inv_def by blast
    then show ?thesis
      using Some path by (auto simp: local_storage_def local_head_def local_view_def meta_content_type_def split: option.splits)
  qed (use path in \<open>simp add: local_storage_def local_head_def local_view_def meta_content_type_def split: option.splits\<close>)
qed

subsection \<open>The keys of the application are such keys\<close>

lemma hex_digit_char: "n < 16 \<Longrightarrow> is_digit (hex_digit n) \<or> is_lower (hex_digit n)"
  by (auto simp: hex_digit_def is_digit_def is_lower_def)

lemma hex_of_chars: "c \<in> set (hex_of k i) \<Longrightarrow> is_digit c \<or> is_lower c"
proof (induction k arbitrary: i)
  case (Suc k)
  then show ?case
    using hex_digit_char [of "i mod 16"] by auto
qed simp

lemma length_hex_of [simp]: "length (hex_of k i) = k"
  by (induction k arbitrary: i) simp_all

lemma hex_digit_inject: "m < 16 \<Longrightarrow> n < 16 \<Longrightarrow> hex_digit m = hex_digit n \<longleftrightarrow> m = n"
  by (auto simp: hex_digit_def dest: arg_cong [where f = "of_char :: char \<Rightarrow> nat"] split: if_splits)

lemma digits16: "r < 16 \<Longrightarrow> s < 16 \<Longrightarrow> 16 * a + r = 16 * b + s \<longleftrightarrow> a = b \<and> r = (s :: nat)"
  by presburger

lemma hex_of_inject: "hex_of k i = hex_of k j \<longleftrightarrow> i mod 16 ^ k = j mod (16 :: nat) ^ k"
proof (induction k arbitrary: i j)
  case (Suc k)
  have split: "n mod 16 ^ Suc k = 16 * (n div 16 mod 16 ^ k) + n mod 16" for n :: nat
    by (simp add: mod_mult2_eq)
  have "i mod 16 ^ Suc k = j mod 16 ^ Suc k \<longleftrightarrow> i div 16 mod 16 ^ k = j div 16 mod 16 ^ k \<and> i mod 16 = j mod 16"
    unfolding split by (rule digits16) simp_all
  then show ?case
    by (simp add: Suc.IH hex_digit_inject del: power_Suc)
qed simp

lemma uuid_hex_inject:
  assumes "i < 2 ^ 128" "j < 2 ^ 128"
  shows "uuid_hex i = uuid_hex j \<longleftrightarrow> i = j"
proof -
  have "(16 :: nat) ^ 32 = 2 ^ 128"
    using power_mult [of "2 :: nat" 4 32] by simp
  then show ?thesis
    unfolding uuid_hex_def hex_of_inject by (simp only: mod_less [OF assms(1)] mod_less [OF assms(2)])
qed

lemma length_uuid_text [simp]: "length (uuid_text i) = 36"
  by (simp add: uuid_text_def uuid_hex_def Let_def)

lemma take_drop_join: "k = m + n \<Longrightarrow> take n (drop m xs) @ drop k xs = drop m xs"
  by (metis add.commute append_take_drop_id drop_drop)

lemma uuid_text_hex: "filter (\<lambda>c. c \<noteq> CHR ''-'') (uuid_text i) = uuid_hex i"
proof -
  let ?h = "uuid_hex i" and ?P = "\<lambda>c. c \<noteq> CHR ''-''"
  have no: "?P c" if "c \<in> set ?h" for c
    using hex_of_chars [of c 32 i] that by (auto simp: uuid_hex_def is_digit_def is_lower_def)
  have t: "filter ?P (take n (drop m ?h)) = take n (drop m ?h)" for n m
    by (intro filter_True ballI no) (erule in_set_takeD [THEN in_set_dropD])
  have t0: "filter ?P (take n ?h) = take n ?h" "filter ?P (drop n ?h) = drop n ?h" for n
    by (intro filter_True ballI no, erule in_set_takeD in_set_dropD)+
  have hy: "filter ?P ''-'' = []"
    by simp
  have j: "take 4 (drop 16 ?h) @ drop 20 ?h = drop 16 ?h" "take 4 (drop 12 ?h) @ drop 16 ?h = drop 12 ?h"
    "take 4 (drop 8 ?h) @ drop 12 ?h = drop 8 ?h"
    by (rule take_drop_join, simp)+
  show ?thesis
    unfolding uuid_text_def Let_def filter_append t t0 hy append_Nil j append_take_drop_id ..
qed

lemma uuid_text_inject: "i < 2 ^ 128 \<Longrightarrow> j < 2 ^ 128 \<Longrightarrow> uuid_text i = uuid_text j \<longleftrightarrow> i = j"
  by (metis uuid_hex_inject uuid_text_hex)

lemma uuid_text_chars: "c \<in> set (uuid_text i) \<Longrightarrow> is_digit c \<or> is_lower c \<or> c = CHR ''-''"
  using hex_of_chars [of c 32 i]
  by (auto simp: uuid_text_def uuid_hex_def Let_def dest!: in_set_takeD in_set_dropD)

lemma split_slash_append: "CHR ''/'' \<notin> set a \<Longrightarrow> split_slash (a @ CHR ''/'' # b) = a # split_slash b"
  by (induction a) auto

lemma split_slash_none: "CHR ''/'' \<notin> set a \<Longrightarrow> split_slash a = [a]"
  by (induction a) auto

lemma uuid_text_facts:
  "CHR ''/'' \<notin> set (uuid_text i)" "CHR ''.'' \<notin> set (uuid_text i)" "uuid_text i \<noteq> []" "uuid_text i \<noteq> ''.''"
  "uuid_text i \<noteq> ''..''" "list_all key_char (uuid_text i)"
  using uuid_text_chars [of "CHR ''/''" i] uuid_text_chars [of "CHR ''.''" i] uuid_text_chars [of _ i]
    length_uuid_text [of i]
  by (auto simp: is_digit_def is_lower_def list_all_iff key_char_def is_alpha_def simp del: length_uuid_text)

lemma split_app_key:
  assumes "CHR ''/'' \<notin> set folder" "CHR ''/'' \<notin> set name"
  shows "split_slash (''orgs/'' @ uuid_text t @ CHR ''/'' # folder @ CHR ''/'' # name) = [''orgs'', uuid_text t, folder, name]"
  using split_slash_append [of "''orgs''"] split_slash_append [OF uuid_text_facts(1)] split_slash_append [OF assms(1)]
    split_slash_none [OF assms(2)] by simp

lemma app_key_ok:
  assumes "CHR ''/'' \<notin> set folder" "CHR ''/'' \<notin> set name" "list_all key_char folder" "list_all key_char name"
    "length folder + length name \<le> 400" "folder \<notin> {[], ''.'', ''..''}" "name \<notin> {[], ''.'', ''..''}"
    "\<not> suffix ''.tmp'' name" "\<not> suffix meta_suffix name"
  shows "local_key_ok (''orgs/'' @ uuid_text t @ CHR ''/'' # folder @ CHR ''/'' # name)"
proof -
  let ?k = "''orgs/'' @ uuid_text t @ CHR ''/'' # folder @ CHR ''/'' # name"
  have path: "path_of ?k = [''orgs'', uuid_text t, folder, name]"
    using split_app_key [OF assms(1,2), of t] uuid_text_facts [of t] assms(6,7) by (simp add: path_of_def)
  have "is_valid_object_key ?k"
    using split_app_key [OF assms(1,2), of t] uuid_text_facts [of t] assms
    by (simp add: is_valid_object_key_def key_char_def is_alpha_def is_lower_def is_digit_def is_upper_def) metis
  then show ?thesis
    using path assms(8,9) by (simp add: local_key_ok_def)
qed

lemma evidence_key_ok: "local_key_ok (evidence_object_key t e)"
proof -
  have "\<not> suffix x (uuid_text e)" if "CHR ''.'' \<in> set x" for x
    using that uuid_text_facts(2) [of e] by (auto simp: suffix_def)
  then show ?thesis
    using app_key_ok [of "''evidence''" "uuid_text e" t] uuid_text_facts [of e]
    by (simp add: evidence_object_key_def meta_suffix_def key_char_def is_alpha_def is_lower_def is_digit_def is_upper_def)
qed

lemma export_key_ok: "local_key_ok (export_object_key t r)"
proof -
  have "\<not> suffix ''.tmp'' (uuid_text r @ ''.zip'')"
    by (simp add: suffix_def append_eq_append_conv)
  moreover have "\<not> suffix meta_suffix (uuid_text r @ ''.zip'')"
    by (auto simp: suffix_def meta_suffix_def dest!: arg_cong [where f = last])
  ultimately show ?thesis
    using app_key_ok [of "''privacy-exports''" "uuid_text r @ ''.zip''" t] uuid_text_facts [of r]
    by (simp add: export_object_key_def key_char_def is_alpha_def is_lower_def is_digit_def is_upper_def)
qed

lemma evidence_object_key_inject:
  assumes "t < 2 ^ 128" "t' < 2 ^ 128" "e < 2 ^ 128" "e' < 2 ^ 128"
  shows "evidence_object_key t e = evidence_object_key t' e' \<longleftrightarrow> t = t' \<and> e = e'"
  using assms by (auto simp: evidence_object_key_def uuid_text_inject append_eq_append_conv)

subsection \<open>Examples\<close>

text \<open>A serialisation of flat dictionaries with lengths in unary, for evaluation only.\<close>

fun unary :: "string \<Rightarrow> nat \<times> string" where
  "unary [] = (0, [])"
| "unary (c # cs) = (if c = CHR ''1'' then (let (n, r) = unary cs in (Suc n, r)) else (0, cs))"

definition toy_str :: "string \<Rightarrow> string" where
  "toy_str s = replicate (length s) (CHR ''1'') @ ''0'' @ s"

definition toy_val :: "pyval \<Rightarrow> string" where
  "toy_val v = (case v of PStr s \<Rightarrow> ''s'' @ toy_str s
     | PInt n \<Rightarrow> (if 0 \<le> n then ''p'' else ''m'') @ replicate (nat \<bar>n\<bar>) (CHR ''1'') @ ''0'' | _ \<Rightarrow> ''s0'')"

fun toy_dumps :: "pydict \<Rightarrow> string" where
  "toy_dumps [] = ''.''"
| "toy_dumps ((k, v) # r) = toy_str k @ toy_val v @ toy_dumps r"

definition toy_read :: "string \<Rightarrow> string \<times> string" where
  "toy_read s = (let (n, r) = unary s in (take n r, drop n r))"

fun toy_parse :: "nat \<Rightarrow> string \<Rightarrow> pydict option" where
  "toy_parse 0 s = None"
| "toy_parse (Suc n) s =
     (if s = ''.'' then Some []
      else (let (k, r) = toy_read s in
        case r of [] \<Rightarrow> None
        | c # r1 \<Rightarrow>
            if c = CHR ''s'' then (let (v, r2) = toy_read r1 in map_option (\<lambda>kv. (k, PStr v) # kv) (toy_parse n r2))
            else (let (m, r2) = unary r1 in
              map_option (\<lambda>kv. (k, PInt (if c = CHR ''m'' then - int m else int m)) # kv) (toy_parse n r2))))"

lemma unary_replicate: "unary (replicate n (CHR ''1'') @ CHR ''0'' # r) = (n, r)"
  by (induction n) simp_all

lemma toy_read_str: "toy_read (toy_str s @ r) = (s, r)"
  by (simp add: toy_read_def toy_str_def unary_replicate)

lemma toy_str_not_end: "toy_str k @ r \<noteq> ''.''"
  by (cases k) (simp_all add: toy_str_def)

lemma toy_parse_dumps:
  "list_all (\<lambda>(_, v). case v of PStr _ \<Rightarrow> True | PInt _ \<Rightarrow> True | _ \<Rightarrow> False) kv \<Longrightarrow> length kv < n \<Longrightarrow>
   toy_parse n (toy_dumps kv) = Some kv"
proof (induction kv arbitrary: n rule: toy_dumps.induct)
  case 1
  then show ?case
    by (cases n) simp_all
next
  case (2 k v r)
  then obtain m where n: "n = Suc m" "length r < m"
    by (cases n) auto
  show ?case
    using 2 n by (cases v) (auto simp: toy_val_def toy_str_not_end toy_read_str unary_replicate)
qed

lemma length_toy_dumps: "length kv < length (toy_dumps kv)"
  by (induction kv rule: toy_dumps.induct) (auto simp: toy_str_def)

definition toy_env :: storage_env where
  "toy_env = \<lparr>sv_key = ''k'', sv_api_url = ''https://api'', sv_hmac = (\<lambda>k m. k @ take 4 m), sv_dumps = toy_dumps,
     sv_loads = (\<lambda>s. toy_parse (length s) s)\<rparr>"

lemma toy_json_ok: "json_ok toy_env"
  using toy_parse_dumps length_toy_dumps by (auto simp: json_ok_def toy_env_def flat_dict_def)

theorem signed_link_grants_exactly_witness:
  "verify_token toy_env (seconds 60) (sign_claims toy_env (upload_claims 0 (evidence_object_key 7 1) 60 ''image/png'' 9)) ''put'' =
     Inr \<lparr>lg_op = ''put'', lg_key = evidence_object_key 7 1, lg_content_type = ''image/png'', lg_filename = None,
          lg_max_bytes = Some 9\<rparr>"
  using signed_link_grants_exactly [OF toy_json_ok, of "evidence_object_key 7 1" 0 60 "''f''" "''image/png''" "seconds 60" "''put''" 9]
    evidence_key_ok [of 7 1]
  by (simp add: local_key_ok_def unix_time_def seconds_def)

end
