(* ===== verification/Privacy.thy ===== *)
theory Privacy
  imports Subscriptions Storage "HOL-Library.AList"
begin

section \<open>Requests of data subjects and retention: the API side\<close>

text \<open>
  \<^verbatim>\<open>domain/privacy.py\<close>, \<^verbatim>\<open>application/privacy/service.py\<close> and the endpoints of
  \<^verbatim>\<open>api/routers/v1/privacy.py\<close>: a request is created, listed, canceled and its export downloaded;
  retention periods are read and shortened. The partial unique index on active requests is the
  predicate \<open>privacy_constraints\<close>. The labels are left out.
\<close>

subsection \<open>Rules\<close>

definition export_available_for :: duration where "export_available_for = days 7"
definition processing_lease :: duration where "processing_lease = minutes 15"
definition max_privacy_attempts :: int where "max_privacy_attempts = 5"
definition export_telemetry_row_limit :: nat where "export_telemetry_row_limit = 200000"
definition min_retention_days :: int where "min_retention_days = 30"

definition active_request :: "privacy_request \<Rightarrow> bool" where
  "active_request r \<longleftrightarrow> pr_status r \<in> {PrPending, PrProcessing}"

definition retry_delay :: "int \<Rightarrow> duration" where
  "retry_delay attempts = minutes (min 60 (2 ^ nat (max 0 (attempts - 1))))"

record retention_policy =
  rp_telemetry_days :: int
  rp_evidence_media_days :: int

definition pick_days :: "int \<Rightarrow> pydict \<Rightarrow> string \<Rightarrow> int" where
  "pick_days plan_days overrides key =
     (case dget overrides key of
        Some (PInt v) \<Rightarrow> if 0 < v then max min_retention_days (min v plan_days) else plan_days
      | _ \<Rightarrow> plan_days)"

definition resolve_retention :: "int \<Rightarrow> pydict \<Rightarrow> retention_policy" where
  "resolve_retention plan_days overrides =
     \<lparr>rp_telemetry_days = pick_days plan_days overrides ''telemetry_days'',
      rp_evidence_media_days = pick_days plan_days overrides ''evidence_media_days''\<rparr>"

definition retention_categories :: "string list" where
  "retention_categories = [''telemetry_days'', ''evidence_media_days'']"

definition validate_retention_overrides :: "(string \<times> int option) list \<Rightarrow> int \<Rightarrow> string list" where
  "validate_retention_overrides values plan_days =
     concat (map (\<lambda>(key, value).
       if key \<notin> set retention_categories then [''unknown_category'']
       else (case value of None \<Rightarrow> []
             | Some v \<Rightarrow> if min_retention_days \<le> v \<and> v \<le> plan_days then [] else [''out_of_range''])) values)"

text \<open>The pseudonyms, in ASCII.\<close>

definition last_chars :: "nat \<Rightarrow> string \<Rightarrow> string" where
  "last_chars n s = drop (length s - n) s"

definition driver_pseudonym :: "uuid \<Rightarrow> string \<times> string" where
  "driver_pseudonym driver_id =
     (let short = last_chars 8 (uuid_hex driver_id) in (''Silinmis surucu '' @ short, ''silindi-'' @ short))"

definition user_pseudonym :: "uuid \<Rightarrow> string \<times> string" where
  "user_pseudonym user_id =
     (let short = last_chars 12 (uuid_hex user_id)
      in (''Silinmis kullanici '' @ last_chars 8 short, ''silindi-'' @ short @ ''@silinmis.invalid''))"

subsection \<open>Requests\<close>

definition request_key :: "privacy_request \<Rightarrow> uuid \<times> privacy_kind \<times> privacy_subject \<times> uuid" where
  "request_key r = (pr_organization_id r, pr_kind r, pr_subject_type r, pr_subject_id r)"

definition privacy_constraints :: "db \<Rightarrow> bool" where
  "privacy_constraints d \<longleftrightarrow> unique_on active_request request_key (privacy_requests d)"

definition kind_value :: "privacy_kind \<Rightarrow> string" where
  "kind_value k = (case k of PrivExport \<Rightarrow> ''export'' | PrivErasure \<Rightarrow> ''erasure'')"

definition set_request :: "uuid \<Rightarrow> (privacy_request \<Rightarrow> privacy_request) \<Rightarrow> db \<Rightarrow> db" where
  "set_request i f d = d\<lparr>privacy_requests := tupd (\<lambda>r. pr_id r = i) f (privacy_requests d)\<rparr>"

definition audit_privacy :: "request_context \<Rightarrow> string \<Rightarrow> uuid \<Rightarrow> db \<Rightarrow> db" where
  "audit_privacy ctx action i = record_audit ctx action ''privacy_request'' (Some i) None"

definition check_subject ::
    "request_context \<Rightarrow> uuid \<Rightarrow> privacy_kind \<Rightarrow> privacy_subject \<Rightarrow> uuid \<Rightarrow> db \<Rightarrow> unit result" where
  "check_subject ctx tenant kind subject_type subject_id d =
     (case subject_type of
        SubjDriver \<Rightarrow>
          (case tget d_id (drivers d) subject_id of
             None \<Rightarrow> Inl (DomainNotFoundError ''driver'')
           | Some dr \<Rightarrow>
               if d_organization_id dr \<noteq> tenant then Inl (DomainNotFoundError ''driver'')
               else raise_if (kind = PrivErasure \<and> d_erased_at dr \<noteq> None) (DomainConflictError ''driver_erased''))
      | SubjUser \<Rightarrow>
          bind (one_or_none (filter (\<lambda>m. m_organization_id m = tenant \<and> m_user_id m = subject_id) (memberships d))) (\<lambda>row.
          case row of
            None \<Rightarrow> Inl (DomainNotFoundError ''member'')
          | Some m \<Rightarrow>
              if kind \<noteq> PrivErasure then Inr ()
              else bind (raise_if (Some subject_id = c_user_id ctx) (DomainConflictError ''own_account'')) (\<lambda>_.
                raise_if (m_role_key m = ROwner) (DomainConflictError ''owner''))))"

definition new_request ::
    "instant \<Rightarrow> request_context \<Rightarrow> uuid \<Rightarrow> privacy_kind \<Rightarrow> privacy_subject \<Rightarrow> uuid \<Rightarrow> string option \<Rightarrow> uuid \<Rightarrow> privacy_request" where
  "new_request now ctx tenant kind subject_type subject_id reason i =
     \<lparr>pr_id = i, pr_organization_id = tenant, pr_kind = kind, pr_subject_type = subject_type,
      pr_subject_id = subject_id, pr_requested_by_user_id = c_user_id ctx,
      pr_reason = (case reason of None \<Rightarrow> None | Some t \<Rightarrow> if t = [] then None else Some (strip t)),
      pr_status = PrPending, pr_attempts = 0, pr_next_attempt_at = now, pr_artifact_key = None,
      pr_artifact_size_bytes = None, pr_artifact_expires_at = None, pr_result = [], pr_error_code = None,
      pr_completed_at = None, pr_created_at = now\<rparr>"

definition create_request ::
    "instant \<Rightarrow> request_context \<Rightarrow> uuid \<Rightarrow> privacy_kind \<Rightarrow> privacy_subject \<Rightarrow> uuid \<Rightarrow> string option \<Rightarrow> db \<Rightarrow>
     (uuid \<times> db) result" where
  "create_request now ctx tenant kind subject_type subject_id reason d =
     bind (check_subject ctx tenant kind subject_type subject_id d) (\<lambda>_.
     bind (raise_if (kind = PrivErasure \<and> (case reason of None \<Rightarrow> True | Some t \<Rightarrow> length (strip t) < 10))
            (ValidationFailedError ''reason_required'')) (\<lambda>_.
       let i = next_id d;
           d1 = d\<lparr>privacy_requests := privacy_requests d @ [new_request now ctx tenant kind subject_type subject_id reason i],
                  next_id := Suc (next_id d)\<rparr>
       in bind (raise_if (\<not> privacy_constraints d1) (DomainConflictError ''active_request'')) (\<lambda>_.
            Inr (i, audit_privacy ctx (''privacy.'' @ kind_value kind @ ''_requested'') i d1))))"

definition load_request :: "uuid \<Rightarrow> uuid \<Rightarrow> db \<Rightarrow> privacy_request result" where
  "load_request tenant i d =
     (case tget pr_id (privacy_requests d) i of
        None \<Rightarrow> Inl (DomainNotFoundError ''request'')
      | Some r \<Rightarrow> if pr_organization_id r \<noteq> tenant then Inl (DomainNotFoundError ''request'') else Inr r)"

definition list_requests :: "uuid \<Rightarrow> uuid option \<Rightarrow> nat \<Rightarrow> db \<Rightarrow> privacy_request list" where
  "list_requests tenant subject_user_id limit d =
     take limit (order_by (\<lambda>r. - pr_created_at r) (filter (\<lambda>r. pr_organization_id r = tenant \<and>
       (case subject_user_id of None \<Rightarrow> True
        | Some u \<Rightarrow> pr_subject_type r = SubjUser \<and> pr_subject_id r = u)) (privacy_requests d)))"

text \<open>The names of the subjects of the listed requests: the last one of an identifier wins.\<close>

definition subject_names :: "privacy_request list \<Rightarrow> db \<Rightarrow> (uuid \<times> string) list" where
  "subject_names reqs d =
     (let ds = map pr_subject_id (filter (\<lambda>r. pr_subject_type r = SubjDriver) reqs);
          us = map pr_subject_id (filter (\<lambda>r. pr_subject_type r = SubjUser) reqs)
      in map (\<lambda>x. (d_id x, d_full_name x)) (filter (\<lambda>x. d_id x \<in> set ds) (drivers d)) @
         map (\<lambda>x. (u_id x, u_full_name x)) (filter (\<lambda>x. u_id x \<in> set us) (users d)))"

definition cancel_request :: "instant \<Rightarrow> request_context \<Rightarrow> uuid \<Rightarrow> uuid \<Rightarrow> db \<Rightarrow> (uuid \<times> db) result" where
  "cancel_request now ctx tenant i d =
     bind (load_request tenant i d) (\<lambda>r.
     bind (raise_if (pr_status r \<noteq> PrPending) (DomainConflictError ''request_state'')) (\<lambda>_.
       Inr (pr_id r, audit_privacy ctx ''privacy.request_canceled'' (pr_id r)
              (set_request (pr_id r) (\<lambda>q. q\<lparr>pr_status := PrCanceled, pr_completed_at := Some now\<rparr>) d))))"

definition downloadable :: "instant \<Rightarrow> privacy_request \<Rightarrow> bool" where
  "downloadable now r \<longleftrightarrow> pr_kind r = PrivExport \<and> pr_status r = PrCompleted \<and> pr_artifact_key r \<noteq> None \<and>
     (case pr_artifact_expires_at r of None \<Rightarrow> False | Some t \<Rightarrow> now < t)"

text \<open>\<open>date_stamp\<close> is the day of an instant as the eight digits of a file name.\<close>

definition export_download_url ::
    "'s object_storage \<Rightarrow> (instant \<Rightarrow> string) \<Rightarrow> int \<Rightarrow> instant \<Rightarrow> request_context \<Rightarrow> uuid \<Rightarrow> uuid \<Rightarrow> uuid option \<Rightarrow> db \<Rightarrow>
     ((string \<times> int) \<times> db) result" where
  "export_download_url st date_stamp ttl now ctx tenant i subject_user_id d =
     bind (load_request tenant i d) (\<lambda>r.
     bind (raise_if (case subject_user_id of None \<Rightarrow> False
              | Some u \<Rightarrow> pr_subject_type r \<noteq> SubjUser \<or> pr_subject_id r \<noteq> u) (DomainNotFoundError ''request'')) (\<lambda>_.
     bind (raise_if (\<not> downloadable now r) (DomainConflictError ''no_download'')) (\<lambda>_.
       case os_presign_download st now (case pr_artifact_key r of None \<Rightarrow> [] | Some k \<Rightarrow> k) ttl
              (''kvkk-veri-disa-aktarim-'' @ date_stamp (pr_created_at r) @ ''.zip'') ''application/zip'' of
         Inl StorageError \<Rightarrow> Inl (ServiceNotConfiguredError ''storage'')
       | Inl e \<Rightarrow> Inl e
       | Inr url \<Rightarrow> Inr ((url, ttl), audit_privacy ctx ''privacy.export_downloaded'' (pr_id r) d))))"

subsection \<open>Retention settings\<close>

record retention_view =
  rv_plan_days :: int
  rv_overrides :: "(string \<times> int option) list"
  rv_effective :: retention_policy

definition org_settings_of :: "uuid \<Rightarrow> db \<Rightarrow> organization_settings option" where
  "org_settings_of tenant d = tget os_organization_id (organization_settings_rows d) tenant"

definition raw_retention :: "uuid \<Rightarrow> db \<Rightarrow> pydict" where
  "raw_retention tenant d = (case org_settings_of tenant d of None \<Rightarrow> [] | Some s \<Rightarrow> os_retention s)"

definition get_retention :: "instant \<Rightarrow> uuid \<Rightarrow> db \<Rightarrow> retention_view result" where
  "get_retention now tenant d =
     bind (get_entitlements now tenant d) (\<lambda>e.
       let raw = raw_retention tenant d in
       Inr \<lparr>rv_plan_days = en_retention_days e,
         rv_overrides = map (\<lambda>(k, v). (k, case v of PInt n \<Rightarrow> Some n | _ \<Rightarrow> None))
            (filter (\<lambda>(k, _). k \<in> set retention_categories) raw),
         rv_effective = resolve_retention (en_retention_days e) raw\<rparr>)"

definition merge_overrides :: "(string \<times> int option) list \<Rightarrow> pydict \<Rightarrow> pydict" where
  "merge_overrides values kv =
     foldl (\<lambda>m (k, v). case v of None \<Rightarrow> AList.delete k m | Some n \<Rightarrow> AList.update k (PInt n) m) kv values"

definition update_retention ::
    "instant \<Rightarrow> request_context \<Rightarrow> uuid \<Rightarrow> (string \<times> int option) list \<Rightarrow> db \<Rightarrow> (retention_view \<times> db) result" where
  "update_retention now ctx tenant values d =
     bind (get_entitlements now tenant d) (\<lambda>e.
     bind (raise_if (validate_retention_overrides values (en_retention_days e) \<noteq> []) (ValidationFailedError ''retention'')) (\<lambda>_.
       case org_settings_of tenant d of
         None \<Rightarrow> Inl (DomainNotFoundError ''organization_settings'')
       | Some s \<Rightarrow>
           (let d1 = record_audit ctx ''organization.retention_updated'' ''organization'' (Some tenant) None
                  (d\<lparr>organization_settings_rows := tupd (\<lambda>r. os_organization_id r = tenant)
                      (\<lambda>r. r\<lparr>os_retention := merge_overrides values (os_retention r)\<rparr>) (organization_settings_rows d)\<rparr>)
            in bind (get_retention now tenant d1) (\<lambda>v. Inr (v, d1)))))"

subsection \<open>Endpoints\<close>

text \<open>Administrators need the retention permission; members may request and download their own export.\<close>

definition retention_manager :: "request_context \<Rightarrow> uuid result" where
  "retention_manager ctx =
     bind (raise_if (\<not> has_permission ctx OrgRetentionManage) PermissionDeniedError) (\<lambda>_.
       case c_organization_id ctx of None \<Rightarrow> Inl PermissionDeniedError | Some t \<Rightarrow> Inr t)"

definition own_subject :: "request_context \<Rightarrow> (uuid \<times> uuid) result" where
  "own_subject ctx =
     (case (c_organization_id ctx, c_user_id ctx) of
        (None, _) \<Rightarrow> Inl PermissionDeniedError
      | (_, None) \<Rightarrow> Inl InvalidCredentialsError
      | (Some t, Some u) \<Rightarrow> Inr (t, u))"

definition post_privacy_request ::
    "instant \<Rightarrow> request_context \<Rightarrow> privacy_kind \<Rightarrow> privacy_subject \<Rightarrow> uuid \<Rightarrow> string option \<Rightarrow> db \<Rightarrow> (uuid \<times> db) result" where
  "post_privacy_request now ctx kind subject_type subject_id reason d =
     bind (retention_manager ctx) (\<lambda>t. create_request now ctx t kind subject_type subject_id reason d)"

definition post_cancel_request :: "instant \<Rightarrow> request_context \<Rightarrow> uuid \<Rightarrow> db \<Rightarrow> (uuid \<times> db) result" where
  "post_cancel_request now ctx i d = bind (retention_manager ctx) (\<lambda>t. cancel_request now ctx t i d)"

definition post_my_export :: "instant \<Rightarrow> request_context \<Rightarrow> db \<Rightarrow> (uuid \<times> db) result" where
  "post_my_export now ctx d =
     bind (own_subject ctx) (\<lambda>(t, u). create_request now ctx t PrivExport SubjUser u None d)"

definition download_my_export ::
    "'s object_storage \<Rightarrow> (instant \<Rightarrow> string) \<Rightarrow> int \<Rightarrow> instant \<Rightarrow> request_context \<Rightarrow> uuid \<Rightarrow> db \<Rightarrow> ((string \<times> int) \<times> db) result" where
  "download_my_export st date_stamp ttl now ctx i d =
     bind (own_subject ctx) (\<lambda>(t, u). export_download_url st date_stamp ttl now ctx t i (Some u) d)"

definition put_retention ::
    "instant \<Rightarrow> request_context \<Rightarrow> int option \<Rightarrow> int option \<Rightarrow> db \<Rightarrow> (retention_view \<times> db) result" where
  "put_retention now ctx telemetry_days evidence_media_days d =
     bind (retention_manager ctx) (\<lambda>t.
       update_retention now ctx t [(''telemetry_days'', telemetry_days), (''evidence_media_days'', evidence_media_days)] d)"

end
