(* ===== verification/Evidence.thy ===== *)
theory Evidence
  imports Outbox Storage Lifecycle
begin

section \<open>Evidence media\<close>

text \<open>
  \<^verbatim>\<open>application/evidence/service.py\<close> and the guards of \<^verbatim>\<open>api/routers/v1/evidence.py\<close>: an upload slot with
  a signed link, the inspection of the uploaded object, signed access, deletion. The object storage is a
  parameter \<open>st\<close> with its state \<open>s\<close>; that state is not part of the database transaction, so an operation
  returns both. The settings are a record.
\<close>

subsection \<open>Operations\<close>

record evidence_settings =
  es_max_bytes :: int
  es_upload_ttl_seconds :: int
  es_signed_url_ttl_seconds :: int

definition evidence_media_types :: "(string \<times> evidence_kind) list" where
  "evidence_media_types = [(''image/jpeg'', Snapshot), (''image/png'', Snapshot), (''video/mp4'', Clip)]"

fun evidence_kind_value :: "evidence_kind \<Rightarrow> string" where
  "evidence_kind_value TelemetryWindow = ''telemetry_window''"
| "evidence_kind_value Snapshot = ''snapshot''"
| "evidence_kind_value Clip = ''clip''"
| "evidence_kind_value Note = ''note''"

record upload_slot =
  sl_evidence :: event_evidence
  sl_upload :: presigned_upload
  sl_max_bytes :: int

definition set_evidence :: "uuid \<Rightarrow> (event_evidence \<Rightarrow> event_evidence) \<Rightarrow> db \<Rightarrow> db" where
  "set_evidence i f d = d\<lparr>event_evidence_rows := tupd (\<lambda>r. ev_id r = i) f (event_evidence_rows d)\<rparr>"

definition audit_evidence :: "request_context \<Rightarrow> string \<Rightarrow> uuid \<Rightarrow> db \<Rightarrow> db" where
  "audit_evidence ctx action i = record_audit ctx action ''event_evidence'' (Some i) None"

definition new_upload ::
    "evidence_settings \<Rightarrow> instant \<Rightarrow> request_context \<Rightarrow> uuid \<Rightarrow> uuid \<Rightarrow> evidence_kind \<Rightarrow> string \<Rightarrow> int \<Rightarrow>
     string option \<Rightarrow> uuid option \<Rightarrow> uuid \<Rightarrow> event_evidence" where
  "new_upload cfg now ctx tenant event_id kind content_type nbytes filename api_client i =
     \<lparr>ev_id = i, ev_organization_id = tenant, ev_safety_event_id = event_id, ev_kind = kind,
      ev_telemetry_window = None, ev_storage_key = Some (evidence_object_key tenant i),
      ev_content_type = Some content_type, ev_captured_at = Some now, ev_status = EvPendingUpload,
      ev_size_bytes = Some nbytes,
      ev_original_filename = (case filename of None \<Rightarrow> None
         | Some f \<Rightarrow> if f = [] then None else Some (safe_download_filename f (evidence_kind_value kind))),
      ev_uploaded_by_user_id = c_user_id ctx, ev_uploaded_by_api_client_id = api_client,
      ev_redaction_status = ''not_processed'', ev_deleted_at = None, ev_created_at = now\<rparr>"

definition create_upload ::
    "'s object_storage \<Rightarrow> evidence_settings \<Rightarrow> instant \<Rightarrow> request_context \<Rightarrow> uuid \<Rightarrow> uuid \<Rightarrow> string \<Rightarrow> int \<Rightarrow>
     string option \<Rightarrow> uuid option \<Rightarrow> db \<Rightarrow> (upload_slot \<times> db) result" where
  "create_upload st cfg now ctx tenant event_id content_type nbytes filename api_client d =
     (case map_of evidence_media_types content_type of
        None \<Rightarrow> Inl (ValidationFailedError ''media_type'')
      | Some kind \<Rightarrow>
          if nbytes \<le> 0 \<or> es_max_bytes cfg < nbytes then Inl (ValidationFailedError ''media_size'')
          else (case tget se_id (safety_events d) event_id of
                  None \<Rightarrow> Inl (DomainNotFoundError ''safety_event'')
                | Some e \<Rightarrow>
                    if se_organization_id e \<noteq> tenant then Inl (DomainNotFoundError ''safety_event'')
                    else
                      (let ev = new_upload cfg now ctx tenant event_id kind content_type nbytes filename api_client (next_id d);
                           d1 = d\<lparr>event_evidence_rows := event_evidence_rows d @ [ev], next_id := Suc (next_id d)\<rparr>
                       in case os_presign_upload st now (evidence_object_key tenant (next_id d))
                                (es_upload_ttl_seconds cfg) content_type nbytes of
                            Inl StorageError \<Rightarrow> Inl (ServiceNotConfiguredError ''storage'')
                          | Inl e \<Rightarrow> Inl e
                          | Inr up \<Rightarrow> Inr (\<lparr>sl_evidence = ev, sl_upload = up, sl_max_bytes = nbytes\<rparr>,
                                          audit_evidence ctx ''evidence.upload_started'' (ev_id ev) d1))))"

definition load_evidence :: "uuid \<Rightarrow> uuid \<Rightarrow> db \<Rightarrow> event_evidence result" where
  "load_evidence tenant i d =
     (case tget ev_id (event_evidence_rows d) i of
        None \<Rightarrow> Inl (DomainNotFoundError ''evidence'')
      | Some e \<Rightarrow> if ev_organization_id e \<noteq> tenant then Inl (DomainNotFoundError ''evidence'') else Inr e)"

definition sniff_bytes :: int where "sniff_bytes = 16"

text \<open>The problem with an uploaded object, if any.\<close>

definition upload_problem ::
    "'s object_storage \<Rightarrow> evidence_settings \<Rightarrow> event_evidence \<Rightarrow> string \<Rightarrow> object_info \<Rightarrow> 's \<Rightarrow> string option result" where
  "upload_problem st cfg ev key info s =
     (if Some (oi_size_bytes info) \<noteq> ev_size_bytes ev \<or> es_max_bytes cfg < oi_size_bytes info then Inr (Some ''media_size'')
      else bind (os_get_bytes st key (Some sniff_bytes) s) (\<lambda>head.
        Inr (if sniff_media_type head \<noteq> ev_content_type ev then Some ''media_content'' else None)))"

text \<open>A rejection is committed before it is raised.\<close>

definition reject_upload ::
    "'s object_storage \<Rightarrow> request_context \<Rightarrow> event_evidence \<Rightarrow> string \<Rightarrow> string \<Rightarrow> db \<Rightarrow> 's \<Rightarrow>
     event_evidence result \<times> db \<times> 's" where
  "reject_upload st ctx ev key problem d s =
     (case os_delete st key s of
        (Inl e, s1) \<Rightarrow> (Inl e, d, s1)
      | (Inr _, s1) \<Rightarrow>
          (Inl (ValidationFailedError problem),
           audit_evidence ctx ''evidence.upload_rejected'' (ev_id ev)
             (set_evidence (ev_id ev) (\<lambda>r. r\<lparr>ev_status := EvRejected\<rparr>) d), s1))"

definition complete_upload ::
    "'s object_storage \<Rightarrow> evidence_settings \<Rightarrow> request_context \<Rightarrow> uuid \<Rightarrow> uuid \<Rightarrow> db \<Rightarrow> 's \<Rightarrow>
     event_evidence result \<times> db \<times> 's" where
  "complete_upload st cfg ctx tenant i d s =
     (case load_evidence tenant i d of
        Inl e \<Rightarrow> (Inl e, d, s)
      | Inr ev \<Rightarrow>
          if ev_status ev = EvAvailable then (Inr ev, d, s)
          else (case ev_storage_key ev of
            None \<Rightarrow> (Inl (DomainConflictError ''upload_state''), d, s)
          | Some key \<Rightarrow>
              if ev_status ev \<noteq> EvPendingUpload then (Inl (DomainConflictError ''upload_state''), d, s)
              else (case os_head st key s of
                Inl StorageError \<Rightarrow> (Inl (ServiceNotConfiguredError ''storage''), d, s)
              | Inl e \<Rightarrow> (Inl e, d, s)
              | Inr None \<Rightarrow> (Inl (DomainConflictError ''not_uploaded''), d, s)
              | Inr (Some info) \<Rightarrow>
                  (case upload_problem st cfg ev key info s of
                     Inl e \<Rightarrow> (Inl e, d, s)
                   | Inr (Some problem) \<Rightarrow> reject_upload st ctx ev key problem d s
                   | Inr None \<Rightarrow>
                       (let f = (\<lambda>r. r\<lparr>ev_status := EvAvailable\<rparr>) in
                        (Inr (f ev), audit_evidence ctx ''evidence.uploaded'' (ev_id ev) (set_evidence (ev_id ev) f d), s))))))"

definition media_extension :: "string option \<Rightarrow> string" where
  "media_extension content_type =
     (case map_of [(''image/jpeg'', ''jpg''), (''image/png'', ''png''), (''video/mp4'', ''mp4'')]
        (case content_type of None \<Rightarrow> [] | Some ct \<Rightarrow> ct) of None \<Rightarrow> ''bin'' | Some x \<Rightarrow> x)"

definition access_url ::
    "'s object_storage \<Rightarrow> evidence_settings \<Rightarrow> instant \<Rightarrow> request_context \<Rightarrow> uuid \<Rightarrow> uuid \<Rightarrow> uuid \<Rightarrow> db \<Rightarrow>
     ((string \<times> int) \<times> db) result" where
  "access_url st cfg now ctx tenant event_id i d =
     bind (load_evidence tenant i d) (\<lambda>ev.
       if ev_safety_event_id ev \<noteq> event_id then Inl (DomainNotFoundError ''evidence'')
       else if ev_status ev \<noteq> EvAvailable then Inl (DomainConflictError ''media_state'')
       else (case ev_storage_key ev of
               None \<Rightarrow> Inl (DomainConflictError ''media_state'')
             | Some key \<Rightarrow>
                 (case os_presign_download st now key (es_signed_url_ttl_seconds cfg)
                         (''kanit-'' @ uuid_text (ev_id ev) @ ''.'' @ media_extension (ev_content_type ev))
                         (case ev_content_type ev of Some ct \<Rightarrow> if ct = [] then ''application/octet-stream'' else ct
                          | None \<Rightarrow> ''application/octet-stream'') of
                    Inl StorageError \<Rightarrow> Inl (ServiceNotConfiguredError ''storage'')
                  | Inl e \<Rightarrow> Inl e
                  | Inr url \<Rightarrow> Inr ((url, es_signed_url_ttl_seconds cfg),
                                    audit_evidence ctx ''evidence.media_accessed'' (ev_id ev) d))))"

definition mark_deleted :: "instant \<Rightarrow> event_evidence \<Rightarrow> event_evidence" where
  "mark_deleted now r = r\<lparr>ev_status := EvDeleted, ev_deleted_at := Some now, ev_storage_key := None\<rparr>"

definition remove_media :: "'s object_storage \<Rightarrow> instant \<Rightarrow> event_evidence \<Rightarrow> db \<Rightarrow> 's \<Rightarrow> (unit \<times> db) result \<times> 's" where
  "remove_media st now ev d s =
     (case ev_storage_key ev of
        None \<Rightarrow> (Inr ((), set_evidence (ev_id ev) (mark_deleted now) d), s)
      | Some key \<Rightarrow>
          (case os_delete st key s of
             (Inl StorageError, s1) \<Rightarrow> (Inl (ServiceNotConfiguredError ''storage''), s1)
           | (Inl e, s1) \<Rightarrow> (Inl e, s1)
           | (Inr _, s1) \<Rightarrow> (Inr ((), set_evidence (ev_id ev) (mark_deleted now) d), s1)))"

definition delete_evidence ::
    "'s object_storage \<Rightarrow> instant \<Rightarrow> request_context \<Rightarrow> uuid \<Rightarrow> uuid \<Rightarrow> uuid \<Rightarrow> db \<Rightarrow> 's \<Rightarrow>
     (event_evidence \<times> db) result \<times> 's" where
  "delete_evidence st now ctx tenant event_id i d s =
     (case load_evidence tenant i d of
        Inl e \<Rightarrow> (Inl e, s)
      | Inr ev \<Rightarrow>
          if ev_safety_event_id ev \<noteq> event_id then (Inl (DomainNotFoundError ''evidence''), s)
          else if ev_kind ev = TelemetryWindow then (Inl (DomainConflictError ''telemetry_evidence''), s)
          else (case remove_media st now ev d s of
                  (Inl e, s1) \<Rightarrow> (Inl e, s1)
                | (Inr (_, d1), s1) \<Rightarrow>
                    (Inr (mark_deleted now ev, audit_evidence ctx ''evidence.deleted'' (ev_id ev) d1), s1)))"

subsection \<open>The guards of the endpoints\<close>

text \<open>Media is managed by roles that review events and see raw media; the tenant is the one of the token.\<close>

definition media_manager :: "request_context \<Rightarrow> uuid result" where
  "media_manager ctx =
     bind (raise_if (\<not> has_permission ctx EvidenceRawMedia) PermissionDeniedError) (\<lambda>_.
     bind (raise_if (\<not> (has_permission ctx EventsReview \<and> has_permission ctx EvidenceRawMedia)) PermissionDeniedError) (\<lambda>_.
     case c_organization_id ctx of None \<Rightarrow> Inl PermissionDeniedError | Some t \<Rightarrow> Inr t))"

definition media_viewer :: "request_context \<Rightarrow> uuid result" where
  "media_viewer ctx =
     bind (raise_if (\<not> has_permission ctx EvidenceRawMedia) PermissionDeniedError) (\<lambda>_.
     case c_organization_id ctx of None \<Rightarrow> Inl PermissionDeniedError | Some t \<Rightarrow> Inr t)"

definition post_evidence_upload ::
    "'s object_storage \<Rightarrow> evidence_settings \<Rightarrow> instant \<Rightarrow> request_context \<Rightarrow> uuid \<Rightarrow> string \<Rightarrow> int \<Rightarrow> string option \<Rightarrow>
     db \<Rightarrow> (upload_slot \<times> db) result" where
  "post_evidence_upload st cfg now ctx event_id content_type nbytes filename d =
     bind (media_manager ctx) (\<lambda>t. create_upload st cfg now ctx t event_id content_type nbytes filename None d)"

definition post_evidence_complete ::
    "'s object_storage \<Rightarrow> evidence_settings \<Rightarrow> request_context \<Rightarrow> uuid \<Rightarrow> db \<Rightarrow> 's \<Rightarrow> event_evidence result \<times> db \<times> 's" where
  "post_evidence_complete st cfg ctx i d s =
     (case media_manager ctx of Inl e \<Rightarrow> (Inl e, d, s) | Inr t \<Rightarrow> complete_upload st cfg ctx t i d s)"

definition get_evidence_access ::
    "'s object_storage \<Rightarrow> evidence_settings \<Rightarrow> instant \<Rightarrow> request_context \<Rightarrow> uuid \<Rightarrow> uuid \<Rightarrow> db \<Rightarrow>
     ((string \<times> int) \<times> db) result" where
  "get_evidence_access st cfg now ctx event_id i d =
     bind (media_viewer ctx) (\<lambda>t. access_url st cfg now ctx t event_id i d)"

definition delete_evidence_request ::
    "'s object_storage \<Rightarrow> instant \<Rightarrow> request_context \<Rightarrow> uuid \<Rightarrow> uuid \<Rightarrow> db \<Rightarrow> 's \<Rightarrow> (event_evidence \<times> db) result \<times> 's" where
  "delete_evidence_request st now ctx event_id i d s =
     (case media_manager ctx of Inl e \<Rightarrow> (Inl e, s) | Inr t \<Rightarrow> delete_evidence st now ctx t event_id i d s)"

subsection \<open>What the operations do to the rows and the objects\<close>

lemmas evidence_svc = load_evidence_def set_evidence_def audit_evidence_def

lemma load_evidence_Inr:
  "load_evidence t i d = Inr ev \<longleftrightarrow> tget ev_id (event_evidence_rows d) i = Some ev \<and> ev_organization_id ev = t"
  by (auto simp: load_evidence_def split: option.splits)

text \<open>An object that matches what was declared for it.\<close>

definition verified_media :: "evidence_settings \<Rightarrow> event_evidence \<Rightarrow> string \<Rightarrow> bool" where
  "verified_media cfg ev b \<longleftrightarrow> ev_size_bytes ev = Some (int (length b)) \<and> int (length b) \<le> es_max_bytes cfg \<and>
     sniff_media_type (take 16 b) = ev_content_type ev"

definition set_status :: "evidence_status \<Rightarrow> event_evidence \<Rightarrow> event_evidence" where
  "set_status q r = r\<lparr>ev_status := q\<rparr>"

context object_store
begin

lemma upload_problem_view:
  assumes "inv s" "ok key" "view s key = Some (b, ct)"
  shows "\<exists>p. upload_problem st cfg ev key \<lparr>oi_key = key, oi_size_bytes = int (length b), oi_content_type = ct\<rparr> s =
    Inr (if verified_media cfg ev b then None else Some p)"
  using get [OF assms(1,2), of "Some sniff_bytes"] assms(3)
  by (auto simp: upload_problem_def verified_media_def sniff_bytes_def)

text \<open>Completion of a pending upload: nothing uploaded, a match, or a rejection.\<close>

lemma complete_upload_missing:
  assumes "inv s" "ok key" "load_evidence t i d = Inr ev" "ev_status ev = EvPendingUpload" "ev_storage_key ev = Some key"
    "view s key = None"
  shows "complete_upload st cfg ctx t i d s = (Inl (DomainConflictError ''not_uploaded''), d, s)"
  using head [OF assms(1,2)] assms(3-) by (simp add: complete_upload_def)

lemma complete_upload_match:
  assumes "inv s" "ok key" "load_evidence t i d = Inr ev" "ev_status ev = EvPendingUpload" "ev_storage_key ev = Some key"
    "view s key = Some (b, ct)" "verified_media cfg ev b"
  shows "complete_upload st cfg ctx t i d s = (Inr (set_status EvAvailable ev),
    audit_evidence ctx ''evidence.uploaded'' i (set_evidence i (set_status EvAvailable) d), s)"
proof -
  have "ev_id ev = i"
    using assms(3) by (auto simp: load_evidence_Inr dest: tget_SomeD)
  moreover have "upload_problem st cfg ev key \<lparr>oi_key = key, oi_size_bytes = int (length b), oi_content_type = ct\<rparr> s = Inr None"
    using upload_problem_view [OF assms(1,2,6), of cfg ev] assms(7) by simp
  ultimately show ?thesis
    using head [OF assms(1,2)] assms(3-6) by (simp add: complete_upload_def Let_def set_status_def [abs_def])
qed

lemma complete_upload_mismatch:
  assumes "inv s" "ok key" "load_evidence t i d = Inr ev" "ev_status ev = EvPendingUpload" "ev_storage_key ev = Some key"
    "view s key = Some (b, ct)" "\<not> verified_media cfg ev b"
  shows "\<exists>p s'. complete_upload st cfg ctx t i d s = (Inl (ValidationFailedError p),
      audit_evidence ctx ''evidence.upload_rejected'' i (set_evidence i (set_status EvRejected) d), s') \<and>
    inv s' \<and> (\<forall>k. ok k \<longrightarrow> view s' k = ((view s)(key := None)) k)"
proof -
  have id: "ev_id ev = i"
    using assms(3) by (auto simp: load_evidence_Inr dest: tget_SomeD)
  obtain p where p: "upload_problem st cfg ev key \<lparr>oi_key = key, oi_size_bytes = int (length b), oi_content_type = ct\<rparr> s = Inr (Some p)"
    using upload_problem_view [OF assms(1,2,6), of cfg ev] assms(7) by auto
  obtain s' where s': "os_delete st key s = (Inr (), s')" "inv s'" "\<forall>k. ok k \<longrightarrow> view s' k = ((view s)(key := None)) k"
    using delete [OF assms(1,2)] by blast
  have "complete_upload st cfg ctx t i d s = (Inl (ValidationFailedError p),
      audit_evidence ctx ''evidence.upload_rejected'' i (set_evidence i (set_status EvRejected) d), s')"
    using head [OF assms(1,2)] assms(3-6) p s'(1) id
    by (simp add: complete_upload_def reject_upload_def set_status_def [abs_def])
  then show ?thesis
    using s' by blast
qed

lemma remove_media_ok:
  assumes "inv s" "\<And>key. ev_storage_key ev = Some key \<Longrightarrow> ok key"
  shows "\<exists>s'. remove_media st now ev d s = (Inr ((), set_evidence (ev_id ev) (mark_deleted now) d), s') \<and> inv s' \<and>
    (\<forall>k. ok k \<longrightarrow> view s' k = (if ev_storage_key ev = Some k then None else view s k))"
proof (cases "ev_storage_key ev")
  case (Some key)
  then show ?thesis
    using delete [OF assms(1) assms(2) [OF Some]] by (auto simp: remove_media_def)
qed (use assms(1) in \<open>simp add: remove_media_def\<close>)

end

subsection \<open>Evidence requests and uploads in any order\<close>

text \<open>
  The steps: a slot is issued, an upload is completed (its rejection is committed although it raises), media
  is deleted, and somebody uses an upload link that was issued before. Links are bound to the key of an
  evidence row; that nobody can make one without the signing key is what HMAC is for.
\<close>

inductive evidence_step :: "storage_env \<Rightarrow> evidence_settings \<Rightarrow> db \<times> fs \<Rightarrow> db \<times> fs \<Rightarrow> bool"
  for env cfg where
  slot: "create_upload (local_storage env) cfg now ctx t e ct n f c d = Inr (r, d') \<Longrightarrow>
    evidence_step env cfg (d, s) (d', s)"
| complete: "complete_upload (local_storage env) cfg ctx t i d s = (r, d', s') \<Longrightarrow> evidence_step env cfg (d, s) (d', s')"
| delete_done: "delete_evidence (local_storage env) now ctx t e i d s = (Inr (r, d'), s') \<Longrightarrow>
    evidence_step env cfg (d, s) (d', s')"
| delete_failed: "delete_evidence (local_storage env) now ctx t e i d s = (Inl x, s') \<Longrightarrow> evidence_step env cfg (d, s) (d, s')"
| link: "upload_object env now (sign_claims env (upload_claims at0 (evidence_object_key t i) ttl ct n)) declared body s = (r, s') \<Longrightarrow>
    evidence_step env cfg (d, s) (d, s')"

definition media_row_ok :: "event_evidence \<Rightarrow> bool" where
  "media_row_ok r \<longleftrightarrow>
     (ev_storage_key r = None \<or> ev_storage_key r = Some (evidence_object_key (ev_organization_id r) (ev_id r))) \<and>
     (ev_status r \<in> {EvPendingUpload, EvRejected} \<longrightarrow> ev_storage_key r \<noteq> None) \<and>
     (ev_status r = EvDeleted \<longrightarrow> ev_storage_key r = None)"

definition evidence_inv :: "storage_env \<Rightarrow> db \<times> fs \<Rightarrow> bool" where
  "evidence_inv env w \<longleftrightarrow> ids_ok ev_id (next_id (fst w)) (event_evidence_rows (fst w)) \<and>
     list_all media_row_ok (event_evidence_rows (fst w)) \<and> local_inv env (snd w)"

fun evidence_arrow :: "evidence_status \<Rightarrow> evidence_status \<Rightarrow> bool" where
  "evidence_arrow EvPendingUpload q = (q \<in> {EvAvailable, EvRejected, EvDeleted})"
| "evidence_arrow EvAvailable q = (q = EvDeleted)"
| "evidence_arrow EvRejected q = (q = EvDeleted)"
| "evidence_arrow EvDeleted q = False"

text \<open>The columns of a row that the requests may change, with those that identify its media.\<close>

definition evidence_core :: "event_evidence \<Rightarrow> evidence_status \<times> string option \<times> uuid \<times> string option \<times> int option" where
  "evidence_core r = (ev_status r, ev_storage_key r, ev_organization_id r, ev_content_type r, ev_size_bytes r)"

definition get_core :: "db \<times> fs \<Rightarrow> uuid \<Rightarrow> (evidence_status \<times> string option \<times> uuid \<times> string option \<times> int option) option" where
  "get_core w i = map_option evidence_core (tget ev_id (event_evidence_rows (fst w)) i)"

text \<open>What one step does to the rows: nothing, a new row, or a change of the status of one row.\<close>

inductive evidence_change :: "db \<Rightarrow> db \<Rightarrow> bool" where
  same: "event_evidence_rows d' = event_evidence_rows d \<Longrightarrow> next_id d' = next_id d \<Longrightarrow> evidence_change d d'"
| new: "event_evidence_rows d' = event_evidence_rows d @ [r] \<Longrightarrow> ev_id r = next_id d \<Longrightarrow> next_id d' = Suc (next_id d) \<Longrightarrow>
    media_row_ok r \<Longrightarrow> evidence_change d d'"
| status: "tget ev_id (event_evidence_rows d) i = Some ev \<Longrightarrow> ev_status ev = EvPendingUpload \<Longrightarrow> q \<in> {EvAvailable, EvRejected} \<Longrightarrow>
    event_evidence_rows d' = tupd (\<lambda>r. ev_id r = i) (set_status q) (event_evidence_rows d) \<Longrightarrow>
    next_id d' = next_id d \<Longrightarrow> evidence_change d d'"
| deleted: "event_evidence_rows d' = tupd (\<lambda>r. ev_id r = i) (mark_deleted now) (event_evidence_rows d) \<Longrightarrow>
    next_id d' = next_id d \<Longrightarrow> evidence_change d d'"

inductive_cases evidence_stepE: "evidence_step env cfg w w'"

context object_store
begin

definition keys_ok :: "db \<Rightarrow> bool" where
  "keys_ok d \<longleftrightarrow> (\<forall>r \<in> set (event_evidence_rows d). \<forall>k. ev_storage_key r = Some k \<longrightarrow> ok k)"

lemma complete_upload_step:
  assumes "inv s" "keys_ok d" "complete_upload st cfg ctx t i d s = (r, d', s')"
  shows "evidence_change d d' \<and> inv s'"
proof (cases "load_evidence t i d")
  case (Inr ev)
  then have row: "tget ev_id (event_evidence_rows d) i = Some ev"
    by (simp add: load_evidence_Inr)
  show ?thesis
  proof (cases "ev_status ev = EvPendingUpload \<and> ev_storage_key ev \<noteq> None")
    case True
    then obtain key where k: "ev_storage_key ev = Some key" "ok key"
      using assms(2) tget_SomeD [OF row] by (auto simp: keys_ok_def)
    consider "view s key = None" | b ct where "view s key = Some (b, ct)" "verified_media cfg ev b"
      | b ct where "view s key = Some (b, ct)" "\<not> verified_media cfg ev b"
      by (metis option.exhaust surj_pair)
    then show ?thesis
    proof cases
      case 1
      then show ?thesis
        using complete_upload_missing [OF assms(1) k(2) Inr _ k(1), of cfg ctx] True assms(1,3)
        by (auto intro: evidence_change.same)
    next
      case 2
      then show ?thesis
        using complete_upload_match [OF assms(1) k(2) Inr _ k(1) 2, of ctx] True assms(1,3) row
        by (auto simp: evidence_svc intro!: evidence_change.status [of d i ev EvAvailable])
    next
      case 3
      then show ?thesis
        using complete_upload_mismatch [OF assms(1) k(2) Inr _ k(1) 3, of ctx] True assms(1,3) row
        by (auto simp: evidence_svc intro!: evidence_change.status [of d i ev EvRejected])
    qed
  next
    case False
    then show ?thesis
      using assms(1,3) Inr by (auto simp: complete_upload_def split: if_splits option.splits intro: evidence_change.same)
  qed
qed (use assms(1,3) in \<open>auto simp: complete_upload_def intro: evidence_change.same\<close>)

lemma delete_evidence_step:
  assumes "inv s" "keys_ok d" "delete_evidence st now ctx t e i d s = (r, s')"
  shows "inv s' \<and> (\<forall>x d'. r = Inr (x, d') \<longrightarrow> evidence_change d d')"
proof (cases "load_evidence t i d")
  case (Inr ev)
  then have row: "tget ev_id (event_evidence_rows d) i = Some ev"
    by (simp add: load_evidence_Inr)
  obtain s1 where s1: "remove_media st now ev d s = (Inr ((), set_evidence (ev_id ev) (mark_deleted now) d), s1)" "inv s1"
    using remove_media_ok [OF assms(1), of ev now d] assms(2) tget_SomeD [OF row] by (auto simp: keys_ok_def)
  then show ?thesis
    using assms(1,3) Inr by (auto simp: delete_evidence_def evidence_svc split: if_splits
        intro: evidence_change.deleted evidence_change.same)
qed (use assms(1,3) in \<open>auto simp: delete_evidence_def\<close>)

text \<open>After a deletion the object is gone.\<close>

lemma delete_evidence_removes:
  assumes "inv s" "keys_ok d" "delete_evidence st now ctx t e i d s = (Inr (x, d'), s')"
    "tget ev_id (event_evidence_rows d) i = Some ev" "ev_storage_key ev = Some key"
  shows "ok key \<and> view s' key = None \<and> tget ev_id (event_evidence_rows d') i = Some (mark_deleted now ev)"
proof -
  obtain y where load: "load_evidence t i d = Inr y"
    using assms(3) by (cases "load_evidence t i d") (auto simp: delete_evidence_def)
  then have y: "y = ev" "ev_id ev = i" "ev \<in> set (event_evidence_rows d)"
    using assms(4) tget_SomeD [OF assms(4)] by (auto simp: load_evidence_Inr)
  have k: "ok key"
    using assms(2,5) y by (auto simp: keys_ok_def)
  obtain s1 where s1: "remove_media st now ev d s = (Inr ((), set_evidence (ev_id ev) (mark_deleted now) d), s1)"
      "\<forall>k. ok k \<longrightarrow> view s1 k = (if ev_storage_key ev = Some k then None else view s k)"
    using remove_media_ok [OF assms(1), of ev now d] assms(2) y(3) by (auto simp: keys_ok_def)
  have "s' = s1" "event_evidence_rows d' = tupd (\<lambda>r. ev_id r = i) (mark_deleted now) (event_evidence_rows d)"
    using assms(3) load s1(1) y by (auto simp: delete_evidence_def evidence_svc split: if_splits)
  then show ?thesis
    using k s1(2) assms(4,5) y(2) by (simp add: tget_tupd mark_deleted_def)
qed

end

lemma create_upload_change:
  assumes "create_upload st cfg now ctx t e ct n f c d = Inr (r, d')"
  shows "evidence_change d d'"
proof -
  obtain kind where d': "event_evidence_rows d' = event_evidence_rows d @ [new_upload cfg now ctx t e kind ct n f c (next_id d)]"
    "next_id d' = Suc (next_id d)"
    using assms by (auto simp: create_upload_def evidence_svc Let_def split: option.splits if_splits sum.splits exn.splits)
  then show ?thesis
    using evidence_change.new [OF d'(1)] by (simp add: new_upload_def media_row_ok_def)
qed

lemma media_row_key_ok: "media_row_ok r \<Longrightarrow> ev_storage_key r = Some k \<Longrightarrow> local_key_ok k"
  using evidence_key_ok by (auto simp: media_row_ok_def)

lemma evidence_inv_keys: "evidence_inv env (d, s) \<Longrightarrow> local_files.keys_ok d"
  using media_row_key_ok by (auto simp: evidence_inv_def local_files.keys_ok_def list_all_iff)

lemma change_inv:
  assumes "evidence_change d d'" "evidence_inv env (d, s)" "local_inv env s'"
  shows "evidence_inv env (d', s')"
  using assms
proof (induction rule: evidence_change.induct)
  case (new d' d r)
  then show ?case
    by (simp add: evidence_inv_def ids_ok_snoc)
next
  case (status d i ev q d')
  have ok: "list_all media_row_ok (event_evidence_rows d)" and ids: "ids_ok ev_id (next_id d) (event_evidence_rows d)"
    using status.prems(1) by (simp_all add: evidence_inv_def)
  have "list_all media_row_ok (tupd (\<lambda>r. ev_id r = i) (set_status q) (event_evidence_rows d))"
    by (rule list_all_tupd_key [OF ids status.hyps(1) ok])
      (use status.hyps(2,3) in \<open>auto simp: media_row_ok_def set_status_def\<close>)
  then show ?case
    using status ids by (simp add: evidence_inv_def ids_ok_tupd set_status_def)
next
  case (deleted d' i now d)
  have "list_all media_row_ok (tupd (\<lambda>r. ev_id r = i) (mark_deleted now) (event_evidence_rows d))"
    using deleted.prems(1) by (auto simp: evidence_inv_def media_row_ok_def mark_deleted_def intro!: list_all_tupd)
  then show ?case
    using deleted by (simp add: evidence_inv_def ids_ok_tupd mark_deleted_def)
qed (simp add: evidence_inv_def)

lemma change_core:
  assumes "evidence_change d d'" "evidence_inv env (d, s)" "get_core (d, s) i = Some c"
  shows "\<exists>c'. get_core (d', s') i = Some c' \<and> (fst c' = fst c \<or> evidence_arrow (fst c) (fst c')) \<and>
    (fst c = EvDeleted \<longrightarrow> c' = c)"
proof -
  obtain ev where ev: "tget ev_id (event_evidence_rows d) i = Some ev" "c = evidence_core ev"
    using assms(3) by (auto simp: get_core_def)
  have ok: "media_row_ok ev"
    using assms(2) tget_SomeD [OF ev(1)] by (auto simp: evidence_inv_def list_all_iff)
  show ?thesis
    using assms(1)
  proof cases
    case (new r)
    then show ?thesis
      using ev by (simp add: get_core_def tget_append)
  next
    case (status j x q)
    then have "j = i \<Longrightarrow> ev_status ev = EvPendingUpload"
      using ev(1) by simp
    then show ?thesis
      using status ev tget_SomeD [OF ev(1)] by (cases "j = i") (auto simp: get_core_def tget_tupd set_status_def evidence_core_def)
  next
    case (deleted j now)
    have "EvDeleted = ev_status ev \<or> evidence_arrow (ev_status ev) EvDeleted"
      by (cases "ev_status ev") simp_all
    moreover have "tget ev_id (event_evidence_rows d') i = Some (if ev_id ev = j then mark_deleted now ev else ev)"
      using deleted(1) ev(1) by (simp add: tget_tupd mark_deleted_def)
    ultimately show ?thesis
      using ev(2) ok by (simp add: get_core_def mark_deleted_def evidence_core_def media_row_ok_def)
  qed (use ev in \<open>simp add: get_core_def\<close>)
qed

lemma upload_object_inv:
  assumes "local_inv env s" "upload_object env now (sign_claims env (upload_claims at0 (evidence_object_key t i) ttl ct n)) declared body s = (r, s')"
  shows "local_inv env s'"
proof -
  have "json_ok env" "is_valid_object_key (evidence_object_key t i)"
    using assms(1) evidence_key_ok by (auto simp: local_inv_def local_key_ok_def)
  note v = verify_signed [OF this(1), of "upload_claims at0 (evidence_object_key t i) ttl ct n"]
  have flat: "flat_dict (upload_claims at0 (evidence_object_key t i) ttl ct n)"
    by (simp add: flat_dict_def upload_claims_def)
  have grant: "lg_key g = evidence_object_key t i"
    if "grant_of_claims env now ''put'' (upload_claims at0 (evidence_object_key t i) ttl ct n) = Inr g" for g
    using that by (auto simp: grant_of_claims_def claim_int_def claim_str_def dget_def upload_claims_def bind_eq_Inr split: if_splits)
  show ?thesis
    using assms local_put [OF assms(1) evidence_key_ok] grant
    by (auto simp: upload_object_def v flat split: sum.splits exn.splits if_splits prod.splits; metis Pair_inject)
qed

lemma evidence_step_change:
  assumes "evidence_step env cfg w w'" "evidence_inv env w"
  shows "evidence_change (fst w) (fst w') \<and> local_inv env (snd w')"
  using assms
proof (induction rule: evidence_step.induct)
  case (slot now ctx t e ct n f c d r d' s)
  then show ?case
    using create_upload_change by (auto simp: evidence_inv_def)
next
  case (complete ctx t i d s r d' s')
  then show ?case
    using local_files.complete_upload_step [OF _ evidence_inv_keys complete.hyps] by (auto simp: evidence_inv_def)
next
  case (delete_done now ctx t e i d s r d' s')
  then show ?case
    using local_files.delete_evidence_step [OF _ evidence_inv_keys delete_done.hyps] by (auto simp: evidence_inv_def)
next
  case (delete_failed now ctx t e i d s x s')
  then show ?case
    using local_files.delete_evidence_step [OF _ evidence_inv_keys delete_failed.hyps]
    by (auto simp: evidence_inv_def intro: evidence_change.same)
next
  case (link now at0 t i ttl ct n declared body s r s' d)
  then show ?case
    using upload_object_inv [OF _ link.hyps] by (auto simp: evidence_inv_def intro: evidence_change.same)
qed

lemma evidence_step_inv: "evidence_step env cfg w w' \<Longrightarrow> evidence_inv env w \<Longrightarrow> evidence_inv env w'"
  using evidence_step_change [of env cfg w w'] change_inv [of "fst w" "fst w'" env "snd w" "snd w'"] by simp

lemma evidence_step_core:
  "evidence_step env cfg w w' \<Longrightarrow> evidence_inv env w \<Longrightarrow> get_core w i = Some c \<Longrightarrow>
   \<exists>c'. get_core w' i = Some c' \<and> (fst c' = fst c \<or> evidence_arrow (fst c) (fst c')) \<and> (fst c = EvDeleted \<longrightarrow> c' = c)"
  using evidence_step_change [of env cfg w w'] change_core [of "fst w" "fst w'" env "snd w" i c "snd w'"] by simp

interpretation evidence_life: lifecycle get_core "evidence_inv env" "evidence_step env cfg" fst evidence_arrow "\<lambda>q. q = EvDeleted"
  for env cfg
  by unfold_locales (use evidence_step_inv in blast, use evidence_step_core in blast, use evidence_step_core in metis)

subsection \<open>Properties\<close>

text \<open>
  C27: completing a pending upload makes it available only when the stored object has the declared size
  (within the limit) and its leading bytes are those of the declared type; otherwise the rejection is
  committed and the object deleted although the request fails, and nothing happens while nothing is
  uploaded. No other object is touched.
\<close>

theorem complete_upload_verifies:
  assumes "evidence_inv env (d, s)" "tget ev_id (event_evidence_rows d) i = Some ev" "ev_organization_id ev = t"
    "ev_status ev = EvPendingUpload"
  shows "\<exists>key. ev_storage_key ev = Some key \<and>
    (case local_view env s key of
       None \<Rightarrow> complete_upload (local_storage env) cfg ctx t i d s = (Inl (DomainConflictError ''not_uploaded''), d, s)
     | Some (b, _) \<Rightarrow>
         if ev_size_bytes ev = Some (int (length b)) \<and> int (length b) \<le> es_max_bytes cfg \<and>
            sniff_media_type (take 16 b) = ev_content_type ev
         then \<exists>d'. complete_upload (local_storage env) cfg ctx t i d s = (Inr (ev\<lparr>ev_status := EvAvailable\<rparr>), d', s) \<and>
            tget ev_id (event_evidence_rows d') i = Some (ev\<lparr>ev_status := EvAvailable\<rparr>)
         else \<exists>p d' s'. complete_upload (local_storage env) cfg ctx t i d s = (Inl (ValidationFailedError p), d', s') \<and>
            tget ev_id (event_evidence_rows d') i = Some (ev\<lparr>ev_status := EvRejected\<rparr>) \<and>
            (\<forall>k. local_key_ok k \<longrightarrow> local_view env s' k = ((local_view env s)(key := None)) k))"
proof -
  have row: "media_row_ok ev" and load: "load_evidence t i d = Inr ev" and inv: "local_inv env s"
    using assms tget_SomeD [OF assms(2)] by (auto simp: evidence_inv_def list_all_iff load_evidence_Inr)
  then obtain key where k: "ev_storage_key ev = Some key" "local_key_ok key"
    using assms(4) media_row_key_ok [OF row] by (auto simp: media_row_ok_def)
  have upd: "tget ev_id (event_evidence_rows (audit_evidence ctx a i (set_evidence i (set_status q) d))) i =
      Some (ev\<lparr>ev_status := q\<rparr>)" for a q
    using assms(2) tget_SomeD [OF assms(2)] by (simp add: evidence_svc tget_tupd set_status_def)
  show ?thesis
  proof (cases "local_view env s key")
    case None
    then show ?thesis
      using local_files.complete_upload_missing [OF inv k(2) load assms(4) k(1)] k(1) by simp
  next
    case (Some bc)
    obtain b ct where v: "local_view env s key = Some (b, ct)"
      using Some by (cases bc) simp
    show ?thesis
    proof (cases "verified_media cfg ev b")
      case True
      then show ?thesis
        using local_files.complete_upload_match [OF inv k(2) load assms(4) k(1) v True, of ctx] k(1) v upd
        by (simp add: verified_media_def set_status_def)
    next
      case False
      then obtain p s' where m: "complete_upload (local_storage env) cfg ctx t i d s = (Inl (ValidationFailedError p),
          audit_evidence ctx ''evidence.upload_rejected'' i (set_evidence i (set_status EvRejected) d), s')"
        "\<forall>k. local_key_ok k \<longrightarrow> local_view env s' k = ((local_view env s)(key := None)) k"
        using local_files.complete_upload_mismatch [OF inv k(2) load assms(4) k(1) v False, of ctx] by blast
      have "\<exists>p d' s'. complete_upload (local_storage env) cfg ctx t i d s = (Inl (ValidationFailedError p), d', s') \<and>
            tget ev_id (event_evidence_rows d') i = Some (ev\<lparr>ev_status := EvRejected\<rparr>) \<and>
            (\<forall>k. local_key_ok k \<longrightarrow> local_view env s' k = ((local_view env s)(key := None)) k)"
        by (intro exI conjI) (rule m(1), rule upd, rule m(2))
      then show ?thesis
        using k(1) False unfolding v option.case prod.case verified_media_def
        by (intro exI [of _ key] conjI) (simp, simp only: v option.case prod.case if_False)
    qed
  qed
qed

text \<open>
  C28: the deletion of media removes its object from the storage. Whatever evidence requests and uploads
  follow, the row stays deleted and without a key, no link to it is ever
  issued again and its upload cannot be completed. (An upload link issued before the deletion can still
  store an object under the old key until it expires; no row refers to that object.)
\<close>

theorem deleted_media_stays_deleted:
  assumes "evidence_inv env (d, s)" "delete_evidence (local_storage env) now ctx t e i d s = (Inr (r, d1), s1)"
    "tget ev_id (event_evidence_rows d) i = Some ev" "ev_storage_key ev = Some key"
    "(evidence_step env cfg)\<^sup>*\<^sup>* (d1, s1) (d2, s2)"
  shows "local_view env s1 key = None \<and>
    (\<exists>ev2. tget ev_id (event_evidence_rows d2) i = Some ev2 \<and> ev_status ev2 = EvDeleted \<and> ev_storage_key ev2 = None) \<and>
    (\<exists>x. access_url (local_storage env) cfg now2 ctx2 t2 e2 i d2 = Inl x) \<and>
    (\<exists>x. complete_upload (local_storage env) cfg ctx2 t2 i d2 s2 = (Inl x, d2, s2))"
proof -
  have inv: "local_inv env s"
    using assms(1) by (simp add: evidence_inv_def)
  note del = local_files.delete_evidence_removes [OF inv evidence_inv_keys [OF assms(1)] assms(2-4)]
  have c1: "get_core (d1, s1) i = Some (evidence_core (mark_deleted now ev))"
    using del by (simp add: get_core_def)
  have "evidence_inv env (d1, s1)"
    using evidence_step_inv [OF evidence_step.delete_done [OF assms(2)] assms(1)] .
  then have "get_core (d2, s2) i = Some (evidence_core (mark_deleted now ev))"
    using evidence_life.run_final [OF assms(5) _ c1] by (simp add: evidence_core_def mark_deleted_def)
  then obtain ev2 where ev2: "tget ev_id (event_evidence_rows d2) i = Some ev2" "ev_status ev2 = EvDeleted" "ev_storage_key ev2 = None"
    by (auto simp: get_core_def evidence_core_def mark_deleted_def)
  then show ?thesis
    using del by (auto simp: access_url_def complete_upload_def load_evidence_def)
qed

text \<open>
  The check of the bytes is not the last word: the upload link stays valid until it expires, also
  after the completion, and replaces the bytes of media that is already available by anything of at most
  the declared size; the row does not change, so links to the replaced media are issued.
\<close>

theorem upload_link_replaces_verified_media:
  assumes "evidence_inv env (d, s)" "tget ev_id (event_evidence_rows d) i = Some ev" "ev_organization_id ev = t"
    "ev_status ev = EvAvailable" "ev_storage_key ev = Some (evidence_object_key t i)"
    "ct \<in> {''image/jpeg'', ''image/png'', ''video/mp4''}"
    "unix_time now \<le> unix_time at0 + ttl" "body \<noteq> []" "int (length body) \<le> n"
  shows "\<exists>s'. upload_object env now (sign_claims env (upload_claims at0 (evidence_object_key t i) ttl ct n)) ct body s = (Inr (), s') \<and>
    local_view env s' (evidence_object_key t i) = Some (body, Some ct) \<and>
    (\<exists>url d'. access_url (local_storage env) cfg now ctx t (ev_safety_event_id ev) i d = Inr (url, d'))"
proof -
  have inv: "local_inv env s" and json: "json_ok env"
    using assms(1) by (auto simp: evidence_inv_def local_inv_def)
  have key: "local_key_ok (evidence_object_key t i)" "is_valid_object_key (evidence_object_key t i)"
    using evidence_key_ok by (auto simp: local_key_ok_def)
  obtain s' where s': "local_put_bytes env (evidence_object_key t i) body ct s = (Inr (), s')"
      "local_view env s' (evidence_object_key t i) = Some (body, Some ct)"
    using local_put [OF inv key(1), of body ct] key(1) by auto
  have flat: "flat_dict (upload_claims at0 (evidence_object_key t i) ttl ct n)"
    by (simp add: flat_dict_def upload_claims_def)
  have ct: "ct \<noteq> []"
    using assms(6) by blast
  have "verify_token env now (sign_claims env (upload_claims at0 (evidence_object_key t i) ttl ct n)) ''put'' =
      Inr \<lparr>lg_op = ''put'', lg_key = evidence_object_key t i, lg_content_type = ct, lg_filename = None, lg_max_bytes = Some n\<rparr>"
    unfolding verify_signed [OF json flat] using ct assms(7) key(2)
    by (simp add: grant_of_claims_def claim_int_def claim_str_def dget_def upload_claims_def local_path_def)
  moreover have "strip (takeWhile (\<lambda>c. c \<noteq> CHR '';'') ct) = ct"
    using assms(6) by (auto simp: strip_def is_space_def)
  moreover have "\<exists>url d'. access_url (local_storage env) cfg now ctx t (ev_safety_event_id ev) i d = Inr (url, d')"
    using assms(2-5) key(2)
    by (auto simp: access_url_def load_evidence_def local_storage_def local_presign_download_def local_path_def)
  ultimately show ?thesis
    using s' assms(8,9) by (auto simp: upload_object_def)
qed

subsection \<open>Examples\<close>

definition media_settings :: evidence_settings where
  "media_settings = \<lparr>es_max_bytes = 1024, es_upload_ttl_seconds = 900, es_signed_url_ttl_seconds = 300\<rparr>"

definition slot_row :: event_evidence where
  "slot_row = new_upload media_settings 0 system_context 7 0 Snapshot ''image/png'' 12 None None 3"

definition slot_db :: db where
  "slot_db = empty_db\<lparr>event_evidence_rows := [slot_row], next_id := 4\<rparr>"

definition available_db :: db where
  "available_db = slot_db\<lparr>event_evidence_rows := [set_status EvAvailable slot_row]\<rparr>"

definition png_body :: string where
  "png_body = bytes_of [0x89, 80, 78, 71, 13, 10, 26, 10, 0, 0, 0, 0]"

lemma empty_fs_inv: "local_inv toy_env empty_fs"
  by (simp add: local_inv_def toy_json_ok empty_fs_def file_at_def)

lemma example_rows:
  "media_row_ok slot_row" "media_row_ok (set_status EvAvailable slot_row)" "ev_id slot_row = 3" "ev_organization_id slot_row = 7"
  "ev_status slot_row = EvPendingUpload" "ev_storage_key slot_row = Some (evidence_object_key 7 3)"
  "ev_size_bytes slot_row = Some 12" "ev_content_type slot_row = Some ''image/png''" "ev_safety_event_id slot_row = 0"
  "ev_kind slot_row = Snapshot"
  by (simp_all add: slot_row_def new_upload_def media_row_ok_def set_status_def)

lemma example_inv:
  assumes "local_inv toy_env s"
  shows "evidence_inv toy_env (slot_db, s)" "evidence_inv toy_env (available_db, s)"
  using assms example_rows
  by (simp_all add: evidence_inv_def slot_db_def available_db_def ids_ok_def keys_distinct_def set_status_def)

lemma example_png:
  obtains s where "local_inv toy_env s" "local_view toy_env s (evidence_object_key 7 3) = Some (png_body, Some ''image/png'')"
  using local_put [OF empty_fs_inv evidence_key_ok [of 7 3], of png_body "''image/png''"] evidence_key_ok [of 7 3] by auto

theorem complete_upload_verifies_witness:
  "\<exists>s d'. local_view toy_env s (evidence_object_key 7 3) = Some (png_body, Some ''image/png'') \<and>
     complete_upload (local_storage toy_env) media_settings system_context 7 3 slot_db s =
       (Inr (slot_row\<lparr>ev_status := EvAvailable\<rparr>), d', s)"
proof -
  obtain s where s: "local_inv toy_env s" "local_view toy_env s (evidence_object_key 7 3) = Some (png_body, Some ''image/png'')"
    using example_png .
  have "sniff_media_type (take 16 png_body) = Some ''image/png''" "length png_body = 12"
    by (simp_all add: sniff_media_type_def png_body_def bytes_of_def)
  then show ?thesis
    using complete_upload_verifies [OF example_inv(1) [OF s(1)], of 3 slot_row 7 media_settings system_context] s(2) example_rows
    by (auto simp: slot_db_def media_settings_def)
qed

theorem deleted_media_stays_deleted_witness:
  "\<exists>s r d1 s1. delete_evidence (local_storage toy_env) 5 system_context 7 0 3 available_db s = (Inr (r, d1), s1) \<and>
     local_view toy_env s (evidence_object_key 7 3) = Some (png_body, Some ''image/png'') \<and>
     local_view toy_env s1 (evidence_object_key 7 3) = None"
proof -
  obtain s where s: "local_inv toy_env s" "local_view toy_env s (evidence_object_key 7 3) = Some (png_body, Some ''image/png'')"
    using example_png .
  have row: "tget ev_id (event_evidence_rows available_db) 3 = Some (set_status EvAvailable slot_row)"
    using example_rows by (simp add: available_db_def set_status_def)
  obtain s1 where s1: "local_delete (evidence_object_key 7 3) s = (Inr (), s1)"
    using local_delete [OF s(1) evidence_key_ok] by blast
  obtain r d1 where del: "delete_evidence (local_storage toy_env) 5 system_context 7 0 3 available_db s = (Inr (r, d1), s1)"
    using s1 row example_rows
    by (auto simp: delete_evidence_def load_evidence_def remove_media_def local_storage_def set_status_def)
  have "local_view toy_env s1 (evidence_object_key 7 3) = None"
    using deleted_media_stays_deleted [OF example_inv(2) [OF s(1)] del row _ rtranclp.rtrancl_refl, of "evidence_object_key 7 3"]
      example_rows by (simp add: set_status_def)
  then show ?thesis
    using s(2) del by blast
qed

theorem upload_link_replaces_verified_media_witness:
  "\<exists>s s'. local_view toy_env s (evidence_object_key 7 3) = Some (png_body, Some ''image/png'') \<and>
     upload_object toy_env (seconds 60) (sign_claims toy_env (upload_claims 0 (evidence_object_key 7 3) 900 ''image/png'' 12))
       ''image/png'' ''<script>'' s = (Inr (), s') \<and>
     local_view toy_env s' (evidence_object_key 7 3) = Some (''<script>'', Some ''image/png'')"
proof -
  obtain s where s: "local_inv toy_env s" "local_view toy_env s (evidence_object_key 7 3) = Some (png_body, Some ''image/png'')"
    using example_png .
  have "tget ev_id (event_evidence_rows available_db) 3 = Some (set_status EvAvailable slot_row)"
    using example_rows by (simp add: available_db_def set_status_def)
  then obtain s' where "upload_object toy_env (seconds 60) (sign_claims toy_env (upload_claims 0 (evidence_object_key 7 3) 900 ''image/png'' 12))
       ''image/png'' ''<script>'' s = (Inr (), s')"
     "local_view toy_env s' (evidence_object_key 7 3) = Some (''<script>'', Some ''image/png'')"
    using upload_link_replaces_verified_media [OF example_inv(2) [OF s(1)], of 3 "set_status EvAvailable slot_row" 7 "''image/png''"
        "seconds 60" 0 900 "''<script>''" 12 media_settings system_context] example_rows
    by (auto simp: set_status_def unix_time_def seconds_def)
  then show ?thesis
    using s(2) by blast
qed

end
