(* ===== verification/PrivacyProcessor.thy ===== *)
theory PrivacyProcessor
  imports Privacy Evidence Fleet Identity
begin

section \<open>Requests of data subjects: the worker side, and the retention purge\<close>

text \<open>
  \<^verbatim>\<open>application/privacy/processor.py\<close>. A request is claimed under a lease, processed in a transaction of
  its own (an export is collected and stored, an erasure removes and pseudonymises), and a failure is
  recorded with a delay. The object storage is the parameter \<open>st\<close> with its state \<open>s\<close>, which no rollback
  undoes. The archive (JSON, CSV, ZIP), the cipher, the mail cipher, ISO dates and the unusable password
  hash are fields of \<open>privacy_env\<close>. An export is the columns of the rows it selects; creation times and
  Turkish texts are left out with their columns.
\<close>

subsection \<open>Environment\<close>

text \<open>The columns of a row that each file of the archive has, in the order of the file.\<close>

type_synonym driver_file = "uuid \<times> string \<times> string \<times> string option \<times> string option \<times> driver_status"
type_synonym assignment_file = "string \<times> instant \<times> instant option"
type_synonym trip_file = "uuid \<times> uuid \<times> trip_status \<times> instant \<times> instant option \<times> float64 \<times> float64 option"
type_synonym event_file = "uuid \<times> event_type \<times> severity \<times> instant \<times> float64 option \<times> float64 option \<times>
  review_status \<times> string option \<times> string option"
type_synonym coaching_file = "uuid \<times> string \<times> string option \<times> coaching_status \<times> instant option \<times> string option \<times>
  coaching_outcome option \<times> string option \<times> instant \<times> instant option"
type_synonym point_file = "instant \<times> uuid \<times> float64 \<times> float64 \<times> float64 option \<times> float64 option"

record driver_export =
  xd_driver :: driver_file
  xd_assignments :: "assignment_file list"
  xd_trips :: "trip_file list"
  xd_events :: "event_file list"
  xd_coaching :: "coaching_file list"
  xd_points :: "point_file list"

type_synonym account_file = "uuid \<times> string \<times> string \<times> string \<times> user_status \<times> instant option \<times> bool \<times> instant option \<times>
  (role_key \<times> membership_status \<times> instant)"
type_synonym session_file = "instant option \<times> instant option \<times> string option \<times> string option"
type_synonym audit_file = "string \<times> string \<times> string option"
type_synonym review_file = "uuid \<times> instant option \<times> review_status"
type_synonym email_file = "string \<times> email_status \<times> instant \<times> instant option"

record user_export =
  xu_account :: account_file
  xu_sessions :: "session_file list"
  xu_audit :: "audit_file list"
  xu_coaching :: "coaching_file list"
  xu_reviews :: "review_file list"
  xu_emails :: "email_file list"

datatype export = DriverExport driver_export | UserExport user_export

record privacy_env =
  pv_decrypt :: "(string \<Rightarrow> string result) option"
  pv_mail :: "(pydict \<Rightarrow> string) option"
  pv_archive :: "privacy_request \<Rightarrow> instant \<Rightarrow> export \<Rightarrow> (string \<times> string) list \<Rightarrow> string list \<Rightarrow> (string \<times> int) list \<Rightarrow> string"
  pv_isoformat :: "instant \<Rightarrow> string"
  pv_unusable_hash :: string

definition export_media_bytes_limit :: int where "export_media_bytes_limit = 100 * 1024 * 1024"
definition email_log_retention :: duration where "email_log_retention = days 90"
definition telemetry_purge_batch :: nat where "telemetry_purge_batch = 5000"
definition telemetry_purge_max_batches :: nat where "telemetry_purge_max_batches = 40"
definition evidence_purge_batch :: nat where "evidence_purge_batch = 500"

definition privacy_system_context :: "uuid \<Rightarrow> request_context" where
  "privacy_system_context org = system_context\<lparr>c_organization_id := Some org, c_actor_label := ''system:privacy''\<rparr>"

text \<open>\<^verbatim>\<open>type(exc).__name__\<close>.\<close>

fun exn_name :: "exn \<Rightarrow> string" where
  "exn_name (PermanentFailure c) = c"
| "exn_name StorageError = ''StorageError''"
| "exn_name FileSystemError = ''OSError''"
| "exn_name (FieldEncryptionError _) = ''FieldEncryptionError''"
| "exn_name IntegrityError = ''IntegrityError''"
| "exn_name MultipleResultsFound = ''MultipleResultsFound''"
| "exn_name (ServiceNotConfiguredError _) = ''ServiceNotConfiguredError''"
| "exn_name (PyRuntimeError c) = c"
| "exn_name (PyValueError _) = ''ValueError''"
| "exn_name PyZeroDivisionError = ''ZeroDivisionError''"
| "exn_name (ValidationFailedError _) = ''ValidationFailedError''"
| "exn_name (DomainConflictError _) = ''DomainConflictError''"
| "exn_name (DomainNotFoundError _) = ''DomainNotFoundError''"
| "exn_name InvalidCredentialsError = ''InvalidCredentialsError''"
| "exn_name AccountLockedError = ''AccountLockedError''"
| "exn_name PermissionDeniedError = ''PermissionDeniedError''"
| "exn_name InvalidAccountTokenError = ''InvalidAccountTokenError''"
| "exn_name InvalidMfaCodeError = ''InvalidMfaCodeError''"
| "exn_name ReauthenticationFailedError = ''ReauthenticationFailedError''"
| "exn_name (UnauthorizedError _) = ''UnauthorizedError''"
| "exn_name (ForbiddenError _) = ''ForbiddenError''"
| "exn_name (UnsafeUrlError _) = ''UnsafeUrlError''"
| "exn_name (PyTypeError _) = ''TypeError''"
| "exn_name (PyOverflowError _) = ''OverflowError''"
| "exn_name (ApiError _) = ''ApiError''"
| "exn_name (InvalidUrlError _) = ''InvalidURL''"

subsection \<open>Claiming\<close>

definition due_request :: "uuid list \<Rightarrow> instant \<Rightarrow> privacy_request \<Rightarrow> bool" where
  "due_request locked now r \<longleftrightarrow> active_request r \<and> pr_next_attempt_at r \<le> now \<and> pr_id r \<notin> set locked"

definition claim_one :: "instant \<Rightarrow> privacy_request \<Rightarrow> privacy_request" where
  "claim_one now r = r\<lparr>pr_status := PrProcessing, pr_attempts := pr_attempts r + 1,
     pr_next_attempt_at := now + processing_lease\<rparr>"

definition claim_requests :: "nat \<Rightarrow> uuid list \<Rightarrow> instant \<Rightarrow> db \<Rightarrow> uuid list \<times> db" where
  "claim_requests limit locked now d =
     (let claimed = map pr_id (take limit (order_by pr_created_at (filter (due_request locked now) (privacy_requests d))))
      in (claimed, d\<lparr>privacy_requests := tupd (\<lambda>r. pr_id r \<in> set claimed) (claim_one now) (privacy_requests d)\<rparr>))"

subsection \<open>Export\<close>

definition trip_columns :: "trip \<Rightarrow> trip_file" where
  "trip_columns t = (t_id t, t_vehicle_id t, t_status t, t_started_at t, t_ended_at t, t_distance_km t, t_max_speed_kph t)"

definition event_columns :: "safety_event \<Rightarrow> event_file" where
  "event_columns e = (se_id e, se_event_type e, se_severity e, se_occurred_at e, se_latitude e, se_longitude e,
     se_review_status e, se_resolution e, se_reviewer_notes e)"

definition coaching_columns :: "coaching_action \<Rightarrow> coaching_file" where
  "coaching_columns c = (ca_id c, ca_title c, ca_description c, ca_status c, ca_due_at c, ca_notes c, ca_outcome c,
     ca_outcome_notes c, ca_created_at c, ca_completed_at c)"

definition point_columns :: "telemetry_point \<Rightarrow> point_file" where
  "point_columns p = (tp_occurred_at p, tp_vehicle_id p, tp_latitude p, tp_longitude p, tp_speed_kph p, tp_heading_deg p)"

definition collect_driver :: "privacy_env \<Rightarrow> uuid \<Rightarrow> uuid \<Rightarrow> db \<Rightarrow> (export \<times> (string \<times> int) list \<times> string list) result" where
  "collect_driver env org driver_id d =
     (case tget d_id (drivers d) driver_id of
        None \<Rightarrow> Inl (PermanentFailure ''SUBJECT_NOT_FOUND'')
      | Some dr \<Rightarrow>
          if d_organization_id dr \<noteq> org then Inl (PermanentFailure ''SUBJECT_NOT_FOUND'')
          else
            bind (case d_license_number_enc dr of
                    None \<Rightarrow> Inr None
                  | Some v \<Rightarrow>
                      if v = [] then Inr None
                      else (case pv_decrypt env of
                              None \<Rightarrow> Inr (Some ''(sifreli; anahtar yapilandirilmamis)'')
                            | Some f \<Rightarrow> bind (f v) (\<lambda>p. Inr (Some p)))) (\<lambda>license.
            let assignments = [(v_external_id v, da_started_at a, da_ended_at a).
                  a \<leftarrow> order_by da_started_at (filter (\<lambda>a. da_organization_id a = org \<and> da_driver_id a = driver_id) (driver_assignments d)),
                  v \<leftarrow> filter (\<lambda>v. v_id v = da_vehicle_id a) (vehicles d)];
                ts = order_by t_started_at (filter (\<lambda>t. t_organization_id t = org \<and> t_driver_id t = Some driver_id) (trips d));
                es = order_by se_occurred_at (filter (\<lambda>e. se_organization_id e = org \<and> se_driver_id e = Some driver_id) (safety_events d));
                cs = order_by ca_created_at (filter (\<lambda>c. ca_organization_id c = org \<and> ca_driver_id c = Some driver_id) (coaching_actions d));
                found = take (Suc export_telemetry_row_limit) (order_by tp_occurred_at
                  (filter (\<lambda>p. tp_organization_id p = org \<and> tp_driver_id p = Some driver_id) (telemetry_points d)));
                ps = take export_telemetry_row_limit found
            in Inr (DriverExport \<lparr>xd_driver = (d_id dr, d_external_id dr, d_full_name dr, d_phone dr, license, d_status dr),
                      xd_assignments = assignments, xd_trips = map trip_columns ts, xd_events = map event_columns es,
                      xd_coaching = map coaching_columns cs, xd_points = map point_columns ps\<rparr>,
                    [(''assignments'', int (length assignments)), (''trips'', int (length ts)), (''safety_events'', int (length es)),
                     (''coaching_actions'', int (length cs)), (''telemetry_points'', int (length ps))],
                    if export_telemetry_row_limit < length found then [''telemetri.csv''] else [])))"

definition account_columns :: "user \<Rightarrow> membership \<Rightarrow> account_file" where
  "account_columns u m = (u_id u, u_email u, u_full_name u, u_locale u, u_status u, u_email_verified_at u,
     u_mfa_enabled_at u \<noteq> None, u_password_changed_at u, (m_role_key m, m_status m, m_created_at m))"

definition collect_user :: "uuid \<Rightarrow> uuid \<Rightarrow> db \<Rightarrow> (export \<times> (string \<times> int) list \<times> string list) result" where
  "collect_user org user_id d =
     bind (one_or_none (filter (\<lambda>m. m_organization_id m = org \<and> m_user_id m = user_id) (memberships d))) (\<lambda>row.
       case (tget u_id (users d) user_id, row) of
         (Some u, Some m) \<Rightarrow>
           (let ss = filter (\<lambda>s. s_user_id s = user_id \<and> s_organization_id s = Some org) (sessions d);
                al = filter (\<lambda>a. al_organization_id a = Some org \<and> al_actor_user_id a = Some user_id) (audit_logs d);
                cs = order_by ca_created_at (filter (\<lambda>c. ca_organization_id c = org \<and>
                       (ca_assignee_user_id c = Some user_id \<or> ca_created_by_user_id c = Some user_id)) (coaching_actions d));
                rs = map (\<lambda>e. (se_id e, se_reviewed_at e, se_review_status e))
                       (order_by (\<lambda>e. if se_reviewed_at e = None then 1 else (0::int)) (order_by (\<lambda>e. case se_reviewed_at e of None \<Rightarrow> 0 | Some t \<Rightarrow> t)
                         (filter (\<lambda>e. se_organization_id e = org \<and> se_reviewer_user_id e = Some user_id) (safety_events d))));
                ms = order_by em_created_at (filter (\<lambda>q. em_organization_id q = Some org \<and>
                       lower (em_recipient q) = lower (u_email u)) (email_messages d))
            in Inr (UserExport \<lparr>xu_account = account_columns u m,
                      xu_sessions = map (\<lambda>s. (s_last_used_at s, s_revoked_at s, s_ip_address s, s_user_agent s)) ss,
                      xu_audit = map (\<lambda>a. (al_action a, al_resource_type a, al_ip_address a)) al,
                      xu_coaching = map coaching_columns cs, xu_reviews = rs,
                      xu_emails = map (\<lambda>q. (em_template q, em_status q, em_created_at q, em_sent_at q)) ms\<rparr>,
                    [(''sessions'', int (length ss)), (''audit_entries'', int (length al)), (''coaching_actions'', int (length cs)),
                     (''reviews'', int (length rs)), (''emails'', int (length ms))], []))
       | _ \<Rightarrow> Inl (PermanentFailure ''SUBJECT_NOT_FOUND''))"

text \<open>The media of a driver that are still there, and whether some were left out for their size.\<close>

definition driver_media :: "uuid \<Rightarrow> uuid \<Rightarrow> db \<Rightarrow> event_evidence list" where
  "driver_media org driver_id d =
     filter (\<lambda>ev. ev_organization_id ev = org \<and>
       (\<exists>e \<in> set (safety_events d). se_id e = ev_safety_event_id ev \<and> se_driver_id e = Some driver_id)) (event_evidence_rows d)"

fun add_media ::
    "'s object_storage \<Rightarrow> event_evidence list \<Rightarrow> int \<Rightarrow> 's \<Rightarrow> ((string \<times> string) list \<times> int \<times> bool) result" where
  "add_media st [] acc s = Inr ([], acc, False)"
| "add_media st (ev # rest) acc s =
     (let nbytes = (case ev_size_bytes ev of None \<Rightarrow> 0 | Some n \<Rightarrow> n)
      in if export_media_bytes_limit < acc + nbytes
         then bind (add_media st rest acc s) (\<lambda>(media, t, _). Inr (media, t, True))
         else bind (os_get_bytes st (case ev_storage_key ev of None \<Rightarrow> [] | Some k \<Rightarrow> k) None s) (\<lambda>data.
              bind (add_media st rest (acc + int (length data)) s) (\<lambda>(media, t, cut).
                Inr ((''media/'' @ uuid_text (ev_safety_event_id ev) @ ''-'' @ uuid_text (ev_id ev) @ ''.'' @
                      media_extension (ev_content_type ev), data) # media, t, cut))))"

definition collect_media ::
    "'s object_storage \<Rightarrow> privacy_request \<Rightarrow> db \<Rightarrow> 's \<Rightarrow> ((string \<times> string) list \<times> int \<times> bool) result" where
  "collect_media st r d s =
     (case pr_subject_type r of
        SubjUser \<Rightarrow> Inr ([], 0, False)
      | SubjDriver \<Rightarrow>
          add_media st (order_by ev_created_at (filter (\<lambda>ev. ev_status ev = EvAvailable \<and> ev_storage_key ev \<noteq> None)
            (driver_media (pr_organization_id r) (pr_subject_id r) d))) 0 s)"

definition collect_export :: "privacy_env \<Rightarrow> privacy_request \<Rightarrow> db \<Rightarrow> (export \<times> (string \<times> int) list \<times> string list) result" where
  "collect_export env r d =
     (case pr_subject_type r of
        SubjDriver \<Rightarrow> collect_driver env (pr_organization_id r) (pr_subject_id r) d
      | SubjUser \<Rightarrow> collect_user (pr_organization_id r) (pr_subject_id r) d)"

definition notify_export_ready :: "privacy_env \<Rightarrow> instant \<Rightarrow> privacy_request \<Rightarrow> db \<Rightarrow> db result" where
  "notify_export_ready env now r d =
     (case (tget u_id (users d) (pr_subject_id r), tget org_id (organizations d) (pr_organization_id r)) of
        (Some u, Some o1) \<Rightarrow>
          bind (enqueue (pv_mail env) now
            \<lparr>mr_template = ''privacy_export_ready'', mr_recipient = u_email u,
             mr_context = [(''full_name'', PStr (u_full_name u)), (''organization_name'', PStr (org_name o1)),
               (''expires_at'', PStr (pv_isoformat env (now + export_available_for)))],
             mr_secret_context = None, mr_organization_id = Some (pr_organization_id r),
             mr_related = Some (''privacy_request'', pr_id r),
             mr_idempotency_key = Some (''privacy-export-ready'', pr_id r, []), mr_max_attempts = 8\<rparr> d) (\<lambda>(_, d1). Inr d1)
      | _ \<Rightarrow> Inr d)"

definition run_export ::
    "privacy_env \<Rightarrow> 's object_storage \<Rightarrow> instant \<Rightarrow> privacy_request \<Rightarrow> string \<Rightarrow> db \<Rightarrow> 's \<Rightarrow> ((string \<times> int) list \<times> db) result \<times> 's" where
  "run_export env st now r key d s =
     (case bind (collect_export env r d) (\<lambda>(ex, counts, trunc). bind (collect_media st r d s) (\<lambda>(media, acc, cut).
             let counts1 = (if pr_subject_type r = SubjDriver then counts @ [(''media_files'', int (length media))] else counts);
                 data = pv_archive env r now ex media (trunc @ (if cut then [''media/''] else [])) counts1
             in Inr (counts1 @ [(''media_bytes'', acc), (''archive_bytes'', int (length data))], data))) of
        Inl e \<Rightarrow> (Inl e, s)
      | Inr (counts, data) \<Rightarrow>
          (case os_put_bytes st key data ''application/zip'' s of
             (Inl e, s1) \<Rightarrow> (Inl e, s1)
           | (Inr _, s1) \<Rightarrow>
               (let d1 = set_request (pr_id r) (\<lambda>q. q\<lparr>pr_artifact_key := Some key,
                      pr_artifact_size_bytes := Some (int (length data)),
                      pr_artifact_expires_at := Some (now + export_available_for)\<rparr>) d
                in (bind (if pr_subject_type r = SubjUser then notify_export_ready env now r d1 else Inr d1)
                      (\<lambda>d2. Inr (counts, d2)), s1))))"

subsection \<open>Erasure\<close>

definition erase_driver_row :: "instant \<Rightarrow> driver \<Rightarrow> driver" where
  "erase_driver_row now dr = dr\<lparr>d_full_name := fst (driver_pseudonym (d_id dr)),
     d_external_id := snd (driver_pseudonym (d_id dr)), d_phone := None, d_license_number_enc := None,
     d_user_id := None, d_status := DrvErased, d_erased_at := Some now\<rparr>"

definition erase_evidence_row :: "instant \<Rightarrow> event_evidence \<Rightarrow> event_evidence" where
  "erase_evidence_row now r = r\<lparr>ev_storage_key := None, ev_telemetry_window := None, ev_status := EvDeleted,
     ev_deleted_at := Some now\<rparr>"

text \<open>The loop over the evidence rows of the driver; an object that cannot be deleted ends it.\<close>

fun erase_evidence ::
    "'s object_storage \<Rightarrow> instant \<Rightarrow> event_evidence list \<Rightarrow> db \<Rightarrow> 's \<Rightarrow> (int \<times> db) result \<times> 's" where
  "erase_evidence st now [] d s = (Inr (0, d), s)"
| "erase_evidence st now (ev # rest) d s =
     (case (case ev_storage_key ev of None \<Rightarrow> (Inr (), s) | Some k \<Rightarrow> os_delete st k s) of
        (Inl e, s1) \<Rightarrow> (Inl e, s1)
      | (Inr _, s1) \<Rightarrow>
          (case erase_evidence st now rest (set_evidence (ev_id ev) (erase_evidence_row now) d) s1 of
             (Inl e, s2) \<Rightarrow> (Inl e, s2)
           | (Inr (n, d2), s2) \<Rightarrow> (Inr ((if ev_storage_key ev = None then 0 else 1) + n, d2), s2)))"

definition driver_points :: "uuid \<Rightarrow> uuid \<Rightarrow> telemetry_point \<Rightarrow> bool" where
  "driver_points org driver_id p \<longleftrightarrow> tp_organization_id p = org \<and> tp_driver_id p = Some driver_id"

definition driver_trips :: "uuid \<Rightarrow> uuid \<Rightarrow> trip \<Rightarrow> bool" where
  "driver_trips org driver_id t \<longleftrightarrow> t_organization_id t = org \<and> t_driver_id t = Some driver_id"

definition driver_events :: "uuid \<Rightarrow> uuid \<Rightarrow> safety_event \<Rightarrow> bool" where
  "driver_events org driver_id e \<longleftrightarrow> se_organization_id e = org \<and> se_driver_id e = Some driver_id"

definition driver_coaching :: "uuid \<Rightarrow> uuid \<Rightarrow> coaching_action \<Rightarrow> bool" where
  "driver_coaching org driver_id c \<longleftrightarrow> ca_organization_id c = org \<and> ca_driver_id c = Some driver_id"

definition clear_position :: "trip \<Rightarrow> trip" where
  "clear_position t = t\<lparr>t_last_latitude := None, t_last_longitude := None\<rparr>"

definition redact_event :: "safety_event \<Rightarrow> safety_event" where
  "redact_event e = e\<lparr>se_latitude := None, se_longitude := None, se_reviewer_notes := None\<rparr>"

definition redact_coaching :: "coaching_action \<Rightarrow> coaching_action" where
  "redact_coaching c = c\<lparr>ca_description := None, ca_notes := None, ca_outcome_notes := None\<rparr>"

definition erase_driver ::
    "'s object_storage \<Rightarrow> instant \<Rightarrow> uuid \<Rightarrow> uuid \<Rightarrow> db \<Rightarrow> 's \<Rightarrow> ((string \<times> int) list \<times> db) result \<times> 's" where
  "erase_driver st now org driver_id d s =
     (case tget d_id (drivers d) driver_id of
        None \<Rightarrow> (Inl (PermanentFailure ''SUBJECT_NOT_FOUND''), s)
      | Some dr \<Rightarrow>
          if d_organization_id dr \<noteq> org then (Inl (PermanentFailure ''SUBJECT_NOT_FOUND''), s)
          else
            (let d1 = d\<lparr>drivers := tupd (\<lambda>r. d_id r = driver_id) (erase_driver_row now) (drivers d)\<rparr>
             in if \<not> driver_constraints d1 then (Inl IntegrityError, s)
                else
                  (let gone = filter (driver_points org driver_id) (telemetry_points d1);
                       d2 = d1\<lparr>telemetry_points := filter (\<lambda>p. \<not> driver_points org driver_id p) (telemetry_points d1),
                               trips := tupd (driver_trips org driver_id) clear_position (trips d1)\<rparr>
                   in case erase_evidence st now (driver_media org driver_id d2) d2 s of
                        (Inl e, s1) \<Rightarrow> (Inl e, s1)
                      | (Inr (media_removed, d3), s1) \<Rightarrow>
                          (let d4 = d3\<lparr>safety_events := tupd (driver_events org driver_id) redact_event (safety_events d3),
                                   coaching_actions := tupd (driver_coaching org driver_id) redact_coaching (coaching_actions d3)\<rparr>
                           in (Inr ([(''telemetry_points_deleted'', int (length gone)),
                                (''trips_pseudonymized'', int (count_rows (driver_trips org driver_id) (trips d1))),
                                (''safety_events_pseudonymized'', int (count_rows (driver_events org driver_id) (safety_events d3))),
                                (''evidence_media_deleted'', media_removed),
                                (''coaching_actions_redacted'', int (count_rows (driver_coaching org driver_id) (coaching_actions d3)))],
                               d4), s1)))))"

definition open_coaching_of :: "uuid \<Rightarrow> uuid \<Rightarrow> coaching_action \<Rightarrow> bool" where
  "open_coaching_of org user_id c \<longleftrightarrow> ca_organization_id c = org \<and> ca_assignee_user_id c = Some user_id \<and>
     ca_status c \<in> {CoOpen, CoInProgress}"

definition mail_to :: "uuid \<Rightarrow> string \<Rightarrow> email_message \<Rightarrow> bool" where
  "mail_to org email q \<longleftrightarrow> em_organization_id q = Some org \<and> lower (em_recipient q) = email \<and> em_status q \<noteq> MailSending"

definition invitation_to :: "uuid \<Rightarrow> string \<Rightarrow> invitation \<Rightarrow> bool" where
  "invitation_to org email i \<longleftrightarrow> inv_organization_id i = org \<and> lower (inv_email i) = email"

text \<open>What leaves with the membership of one organization.\<close>

definition leave_organization :: "instant \<Rightarrow> uuid \<Rightarrow> user \<Rightarrow> db \<Rightarrow> db" where
  "leave_organization now org u d =
     (let user_id = u_id u; email = lower (u_email u)
      in d\<lparr>memberships := filter (\<lambda>m. \<not> (m_organization_id m = org \<and> m_user_id m = user_id)) (memberships d),
           coaching_actions := tupd (open_coaching_of org user_id) (\<lambda>c. c\<lparr>ca_assignee_user_id := None\<rparr>) (coaching_actions d),
           drivers := tupd (\<lambda>r. d_organization_id r = org \<and> d_user_id r = Some user_id) (\<lambda>r. r\<lparr>d_user_id := None\<rparr>) (drivers d),
           email_messages := filter (\<lambda>q. \<not> mail_to org email q) (email_messages d),
           invitations := filter (\<lambda>i. \<not> invitation_to org email i) (invitations d),
           sessions := tupd (\<lambda>s. s_user_id s = user_id \<and> s_revoked_at s = None) (\<lambda>s. s\<lparr>s_revoked_at := Some now\<rparr>) (sessions d),
           users := tupd (\<lambda>r. u_id r = user_id) (\<lambda>r. r\<lparr>u_sessions_revoked_at := Some now\<rparr>) (users d)\<rparr>)"

definition erase_account_row :: "privacy_env \<Rightarrow> user \<Rightarrow> user" where
  "erase_account_row env r = r\<lparr>u_full_name := fst (user_pseudonym (u_id r)), u_email := snd (user_pseudonym (u_id r)),
     u_password_hash := pv_unusable_hash env, u_status := UserErased, u_email_verified_at := None,
     u_mfa_totp_secret_enc := None, u_mfa_pending_secret_enc := None, u_mfa_enabled_at := None, u_mfa_last_used_step := None\<rparr>"

definition erase_account :: "privacy_env \<Rightarrow> uuid \<Rightarrow> db \<Rightarrow> db" where
  "erase_account env user_id d =
     d\<lparr>users := tupd (\<lambda>r. u_id r = user_id) (erase_account_row env) (users d),
       user_tokens := filter (\<lambda>t. ut_user_id t \<noteq> user_id) (user_tokens d),
       mfa_recovery_codes := filter (\<lambda>c. rc_user_id c \<noteq> user_id) (mfa_recovery_codes d),
       mfa_challenges := filter (\<lambda>c. mc_user_id c \<noteq> user_id) (mfa_challenges d),
       sessions := filter (\<lambda>s. s_user_id s \<noteq> user_id) (sessions d)\<rparr>"

definition erase_user :: "privacy_env \<Rightarrow> instant \<Rightarrow> uuid \<Rightarrow> uuid \<Rightarrow> db \<Rightarrow> ((string \<times> int) list \<times> db) result" where
  "erase_user env now org user_id d =
     bind (one_or_none (filter (\<lambda>m. m_organization_id m = org \<and> m_user_id m = user_id) (memberships d))) (\<lambda>membership.
       case tget u_id (users d) user_id of
         None \<Rightarrow> Inl (PermanentFailure ''SUBJECT_NOT_FOUND'')
       | Some u \<Rightarrow>
           if (case membership of None \<Rightarrow> False | Some m \<Rightarrow> m_role_key m = ROwner) then Inl (PermanentFailure ''OWNER_CANNOT_BE_ERASED'')
           else
             (let d1 = leave_organization now org u d;
                  account_erased = (count_rows (\<lambda>m. m_user_id m = user_id) (memberships d1) = 0 \<and> u_platform_role u = None);
                  d2 = (if account_erased then erase_account env user_id d1 else d1)
              in bind (flush d2) (\<lambda>_.
                 Inr ([(''membership_removed'', if membership = None then 0 else 1),
                       (''account_erased'', if account_erased then 1 else 0),
                       (''account_retained_for_other_organizations'', if account_erased then 0 else 1),
                       (''coaching_actions_unassigned'', int (count_rows (open_coaching_of org user_id) (coaching_actions d))),
                       (''emails_deleted'', int (count_rows (mail_to org (lower (u_email u))) (email_messages d))),
                       (''invitations_deleted'', int (count_rows (invitation_to org (lower (u_email u))) (invitations d)))], d2))))"

definition run_erasure ::
    "privacy_env \<Rightarrow> 's object_storage \<Rightarrow> instant \<Rightarrow> privacy_request \<Rightarrow> db \<Rightarrow> 's \<Rightarrow> ((string \<times> int) list \<times> db) result \<times> 's" where
  "run_erasure env st now r d s =
     (case pr_subject_type r of
        SubjDriver \<Rightarrow> erase_driver st now (pr_organization_id r) (pr_subject_id r) d s
      | SubjUser \<Rightarrow> (erase_user env now (pr_organization_id r) (pr_subject_id r) d, s))"

subsection \<open>Processing one request\<close>

definition finish_request :: "instant \<Rightarrow> privacy_request \<Rightarrow> (string \<times> int) list \<Rightarrow> db \<Rightarrow> db" where
  "finish_request now r counts d =
     audit_privacy (privacy_system_context (pr_organization_id r)) (''privacy.'' @ kind_value (pr_kind r) @ ''_completed'') (pr_id r)
       (set_request (pr_id r) (\<lambda>q. q\<lparr>pr_status := PrCompleted, pr_result := counts, pr_error_code := None,
          pr_completed_at := Some now\<rparr>) d)"

definition fail_request :: "instant \<Rightarrow> exn \<Rightarrow> privacy_request \<Rightarrow> privacy_request" where
  "fail_request now e r =
     (let r1 = r\<lparr>pr_error_code := Some (exn_name e)\<rparr>
      in if (case e of PermanentFailure _ \<Rightarrow> True | _ \<Rightarrow> False) \<or> max_privacy_attempts \<le> pr_attempts r
         then r1\<lparr>pr_status := PrFailed, pr_completed_at := Some now\<rparr>
         else r1\<lparr>pr_status := PrPending, pr_next_attempt_at := now + retry_delay (pr_attempts r)\<rparr>)"

text \<open>
  The status is written without looking at it again; the index on active requests may refuse it.
\<close>

definition record_failure :: "instant \<Rightarrow> uuid \<Rightarrow> exn \<Rightarrow> db \<Rightarrow> db result" where
  "record_failure now i e d =
     (case tget pr_id (privacy_requests d) i of
        None \<Rightarrow> Inr d
      | Some r \<Rightarrow>
          (let d1 = set_request i (fail_request now e) d;
               d2 = (if pr_status (fail_request now e r) = PrFailed
                 then audit_privacy (privacy_system_context (pr_organization_id r)) (''privacy.'' @ kind_value (pr_kind r) @ ''_failed'') i d1
                 else d1)
           in bind (raise_if (\<not> privacy_constraints d2) IntegrityError) (\<lambda>_. Inr d2)))"

definition attempt_request ::
    "privacy_env \<Rightarrow> 's object_storage \<Rightarrow> instant \<Rightarrow> privacy_request \<Rightarrow> db \<Rightarrow> 's \<Rightarrow> ((string \<times> int) list \<times> db) result \<times> 's" where
  "attempt_request env st now r d s =
     (if pr_kind r = PrivExport
      then run_export env st now r (export_object_key (pr_organization_id r) (pr_id r)) d s
      else run_erasure env st now r d s)"

text \<open>
  The request as one transaction; then the failure in a transaction of its own, after the artifact was
  removed. A storage error of the clean-up is logged, any other one leaves the job.
\<close>

definition settle_failure :: "instant \<Rightarrow> uuid \<Rightarrow> exn \<Rightarrow> db \<Rightarrow> 's \<Rightarrow> unit result \<times> db \<times> 's" where
  "settle_failure now i e d s =
     (case record_failure now i e d of Inl x \<Rightarrow> (Inl x, d, s) | Inr d1 \<Rightarrow> (Inr (), d1, s))"

definition process_request ::
    "privacy_env \<Rightarrow> 's object_storage \<Rightarrow> instant \<Rightarrow> uuid \<Rightarrow> db \<Rightarrow> 's \<Rightarrow> unit result \<times> db \<times> 's" where
  "process_request env st now i d s =
     (case tget pr_id (privacy_requests d) i of
        None \<Rightarrow> (Inr (), d, s)
      | Some r \<Rightarrow>
          if pr_status r \<noteq> PrProcessing then (Inr (), d, s)
          else (case attempt_request env st now r d s of
                  (Inr (counts, d1), s1) \<Rightarrow> (Inr (), finish_request now r counts d1, s1)
                | (Inl e, s1) \<Rightarrow>
                    (case (if pr_kind r = PrivExport then os_delete st (export_object_key (pr_organization_id r) (pr_id r)) s1
                           else (Inr (), s1)) of
                       (Inr _, s2) \<Rightarrow> settle_failure now i e d s2
                     | (Inl StorageError, s2) \<Rightarrow> settle_failure now i e d s2
                     | (Inl e2, s2) \<Rightarrow> (Inl e2, d, s2))))"

fun process_each ::
    "privacy_env \<Rightarrow> 's object_storage \<Rightarrow> instant \<Rightarrow> uuid list \<Rightarrow> db \<Rightarrow> 's \<Rightarrow> nat result \<times> db \<times> 's" where
  "process_each env st now [] d s = (Inr 0, d, s)"
| "process_each env st now (i # is) d s =
     (case process_request env st now i d s of
        (Inl e, d1, s1) \<Rightarrow> (Inl e, d1, s1)
      | (Inr _, d1, s1) \<Rightarrow>
          (case process_each env st now is d1 s1 of
             (Inl e, d2, s2) \<Rightarrow> (Inl e, d2, s2)
           | (Inr n, d2, s2) \<Rightarrow> (Inr (Suc n), d2, s2)))"

definition process_due ::
    "privacy_env \<Rightarrow> 's object_storage \<Rightarrow> nat \<Rightarrow> uuid list \<Rightarrow> instant \<Rightarrow> db \<Rightarrow> 's \<Rightarrow> nat result \<times> db \<times> 's" where
  "process_due env st limit locked now d s =
     (case claim_requests limit locked now d of (claimed, d1) \<Rightarrow> process_each env st now claimed d1 s)"

subsection \<open>The retention purge\<close>

text \<open>\<^verbatim>\<open>DELETE ... WHERE id IN (SELECT ... LIMIT n)\<close>: the first \<open>n\<close> rows that satisfy \<open>p\<close> go.\<close>

fun delete_first :: "nat \<Rightarrow> ('r \<Rightarrow> bool) \<Rightarrow> 'r list \<Rightarrow> 'r list \<times> nat" where
  "delete_first n p [] = ([], 0)"
| "delete_first n p (r # rs) =
     (if p r \<and> 0 < n then (let (rest, k) = delete_first (n - 1) p rs in (rest, Suc k))
      else (let (rest, k) = delete_first n p rs in (r # rest, k)))"

text \<open>At most \<open>m\<close> batches of \<open>n\<close> rows; a batch that is not full is the last one.\<close>

fun purge_batches :: "nat \<Rightarrow> nat \<Rightarrow> ('r \<Rightarrow> bool) \<Rightarrow> 'r list \<Rightarrow> 'r list \<times> nat" where
  "purge_batches 0 n p rs = (rs, 0)"
| "purge_batches (Suc m) n p rs =
     (let (rest, k) = delete_first n p rs
      in if k < n then (rest, k) else (let (rest2, k2) = purge_batches m n p rest in (rest2, k + k2)))"

definition expired_point :: "uuid \<Rightarrow> instant \<Rightarrow> telemetry_point \<Rightarrow> bool" where
  "expired_point org cutoff p \<longleftrightarrow> tp_organization_id p = org \<and> tp_occurred_at p < cutoff"

definition expired_media :: "uuid \<Rightarrow> instant \<Rightarrow> event_evidence \<Rightarrow> bool" where
  "expired_media org cutoff ev \<longleftrightarrow> ev_organization_id ev = org \<and> ev_status ev \<in> {EvAvailable, EvRejected, EvPendingUpload} \<and>
     ev_kind ev \<in> {Snapshot, Clip} \<and> ev_created_at ev < cutoff"

fun purge_media :: "'s object_storage \<Rightarrow> instant \<Rightarrow> event_evidence list \<Rightarrow> db \<Rightarrow> 's \<Rightarrow> (nat \<times> db) result \<times> 's" where
  "purge_media st now [] d s = (Inr (0, d), s)"
| "purge_media st now (ev # rest) d s =
     (case (case ev_storage_key ev of None \<Rightarrow> (Inr (), s) | Some k \<Rightarrow> os_delete st k s) of
        (Inl e, s1) \<Rightarrow> (Inl e, s1)
      | (Inr _, s1) \<Rightarrow>
          (case purge_media st now rest (set_evidence (ev_id ev) (mark_deleted now) d) s1 of
             (Inl e, s2) \<Rightarrow> (Inl e, s2)
           | (Inr (n, d2), s2) \<Rightarrow> (Inr (Suc n, d2), s2)))"

text \<open>The telemetry batches are committed one by one, the media of the organization in one transaction.\<close>

definition purge_organization ::
    "'s object_storage \<Rightarrow> instant \<Rightarrow> uuid \<Rightarrow> db \<Rightarrow> 's \<Rightarrow> (nat \<times> nat) result \<times> db \<times> 's" where
  "purge_organization st now org d s =
     (case get_entitlements now org d of
        Inl e \<Rightarrow> (Inl e, d, s)
      | Inr en \<Rightarrow>
          (let policy = resolve_retention (en_retention_days en) (raw_retention org d);
               (points, telemetry) = purge_batches telemetry_purge_max_batches telemetry_purge_batch
                 (expired_point org (now - days (rp_telemetry_days policy))) (telemetry_points d);
               d1 = d\<lparr>telemetry_points := points\<rparr>;
               rows = take evidence_purge_batch (filter (expired_media org (now - days (rp_evidence_media_days policy)))
                 (event_evidence_rows d1))
           in case purge_media st now rows d1 s of
                (Inl e, s1) \<Rightarrow> (Inl e, d1, s1)
              | (Inr (media, d2), s1) \<Rightarrow>
                  (Inr (telemetry, media),
                   if media = 0 then d2
                   else record_audit (privacy_system_context org) ''retention.evidence_media_purged'' ''organization'' (Some org) None d2,
                   s1)))"

fun purge_organizations ::
    "'s object_storage \<Rightarrow> instant \<Rightarrow> uuid list \<Rightarrow> db \<Rightarrow> 's \<Rightarrow> (nat \<times> nat) result \<times> db \<times> 's" where
  "purge_organizations st now [] d s = (Inr (0, 0), d, s)"
| "purge_organizations st now (org # orgs) d s =
     (case purge_organization st now org d s of
        (Inl e, d1, s1) \<Rightarrow> (Inl e, d1, s1)
      | (Inr (t, m), d1, s1) \<Rightarrow>
          (case purge_organizations st now orgs d1 s1 of
             (Inl e, d2, s2) \<Rightarrow> (Inl e, d2, s2)
           | (Inr (t2, m2), d2, s2) \<Rightarrow> (Inr (t + t2, m + m2), d2, s2)))"

definition expired_artifact :: "instant \<Rightarrow> privacy_request \<Rightarrow> bool" where
  "expired_artifact now r \<longleftrightarrow> pr_artifact_key r \<noteq> None \<and> (case pr_artifact_expires_at r of None \<Rightarrow> False | Some t \<Rightarrow> t \<le> now)"

fun purge_artifacts :: "'s object_storage \<Rightarrow> privacy_request list \<Rightarrow> db \<Rightarrow> 's \<Rightarrow> (nat \<times> db) result \<times> 's" where
  "purge_artifacts st [] d s = (Inr (0, d), s)"
| "purge_artifacts st (r # rest) d s =
     (case os_delete st (case pr_artifact_key r of None \<Rightarrow> [] | Some k \<Rightarrow> k) s of
        (Inl e, s1) \<Rightarrow> (Inl e, s1)
      | (Inr _, s1) \<Rightarrow>
          (case purge_artifacts st rest (set_request (pr_id r) (\<lambda>q. q\<lparr>pr_artifact_key := None\<rparr>) d) s1 of
             (Inl e, s2) \<Rightarrow> (Inl e, s2)
           | (Inr (n, d2), s2) \<Rightarrow> (Inr (Suc n, d2), s2)))"

definition old_mail :: "instant \<Rightarrow> email_message \<Rightarrow> bool" where
  "old_mail now q \<longleftrightarrow> em_status q \<in> {MailSent, MailDeadLetter, MailCanceled} \<and> em_created_at q < now - email_log_retention"

record purge_stats =
  ps_telemetry_points :: nat
  ps_evidence_media :: nat
  ps_export_artifacts :: nat
  ps_emails :: nat
  ps_expired_tokens :: nat

definition purge_logs :: "instant \<Rightarrow> db \<Rightarrow> (nat \<times> nat) \<times> db" where
  "purge_logs now d =
     (let cutoff = now - days 7
      in ((count_rows (old_mail now) (email_messages d),
           count_rows (\<lambda>t. ut_expires_at t < cutoff) (user_tokens d) + count_rows (\<lambda>c. mc_expires_at c < cutoff) (mfa_challenges d)),
          d\<lparr>email_messages := filter (\<lambda>q. \<not> old_mail now q) (email_messages d),
            user_tokens := filter (\<lambda>t. \<not> ut_expires_at t < cutoff) (user_tokens d),
            mfa_challenges := filter (\<lambda>c. \<not> mc_expires_at c < cutoff) (mfa_challenges d)\<rparr>))"

definition purge_expired ::
    "'s object_storage \<Rightarrow> instant \<Rightarrow> uuid list option \<Rightarrow> db \<Rightarrow> 's \<Rightarrow> purge_stats result \<times> db \<times> 's" where
  "purge_expired st now organization_ids d s =
     (let orgs = filter (\<lambda>i. case organization_ids of None \<Rightarrow> True | Some is \<Rightarrow> i \<in> set is) (map org_id (organizations d))
      in case purge_organizations st now orgs d s of
           (Inl e, d1, s1) \<Rightarrow> (Inl e, d1, s1)
         | (Inr (telemetry, media), d1, s1) \<Rightarrow>
             (case purge_artifacts st (filter (expired_artifact now) (privacy_requests d1)) d1 s1 of
                (Inl e, s2) \<Rightarrow> (Inl e, d1, s2)
              | (Inr (artifacts, d2), s2) \<Rightarrow>
                  (let ((mails, tokens), d3) = (if organization_ids = None then purge_logs now d2 else ((0, 0), d2))
                   in (Inr \<lparr>ps_telemetry_points = telemetry, ps_evidence_media = media, ps_export_artifacts = artifacts,
                        ps_emails = mails, ps_expired_tokens = tokens\<rparr>, d3, s2))))"

end
