(* ===== verification/Erasure.thy ===== *)
theory Erasure
  imports PrivacyProcessor Telemetry Accounts
begin

section \<open>What an erasure removes, keeps and misses\<close>

text \<open>
  Facts on \<open>erase_driver\<close> and \<open>erase_user\<close> of \<^verbatim>\<open>application/privacy/processor.py\<close>: on a working storage an
  erasure succeeds, leaves no direct identifier of the subject in the rows of the organization, keeps the
  records the statistics are made of and touches no other tenant; and the places it does not reach.
\<close>

subsection \<open>Updating rows twice\<close>

lemma tupd_tupd_idem:
  assumes "\<And>r. f (f r) = f r" "\<And>r. q (f r) = q r"
  shows "tupd q f (tupd p f rows) = tupd (\<lambda>r. p r \<or> q r) f rows"
  using assms by (induction rows) auto

lemma tupd_cong_set: "(\<And>r. r \<in> set rows \<Longrightarrow> p r = q r) \<Longrightarrow> tupd p f rows = tupd q f rows"
  by (simp add: tupd_def)

lemma filter_tupd_untouched: "(\<And>r. p r \<Longrightarrow> \<not> q r) \<Longrightarrow> (\<And>r. q (f r) = q r) \<Longrightarrow> filter q (tupd p f rows) = filter q rows"
  by (induction rows) auto

lemma filter_tupd_self: "(\<And>r. p (f r) = p r) \<Longrightarrow> filter p (tupd p f rows) = map f (filter p rows)"
  by (induction rows) auto

lemma unique_on_rekey:
  assumes "unique_on (\<lambda>_. True) key rows" "keys_distinct i rows"
    "\<And>r. r \<in> set rows \<Longrightarrow> i r \<noteq> n \<Longrightarrow> key r \<noteq> k" "\<And>r. i r = n \<Longrightarrow> key (f r) = k"
  shows "unique_on (\<lambda>_. True) key (tupd (\<lambda>r. i r = n) f rows)"
  using assms(1-3)
proof (induction rows)
  case (Cons r rows)
  have IH: "distinct (map key (tupd (\<lambda>r. i r = n) f rows))"
    using Cons by (auto simp: unique_on_def keys_distinct_def)
  have other: "tupd (\<lambda>r. i r = n) f rows = rows" if "i r = n"
    using Cons.prems(2) that by (intro tupd_id) (auto simp: keys_distinct_def, metis image_eqI)
  have "key (if i r = n then f r else r) \<notin> key ` set (tupd (\<lambda>r. i r = n) f rows)"
  proof (cases "i r = n")
    case True
    then have "\<forall>q \<in> set rows. i q \<noteq> n"
      using Cons.prems(2) by (auto simp: keys_distinct_def, metis image_eqI)
    then show ?thesis
      using True Cons.prems(3) assms(4) by (auto simp: other)
  next
    case False
    then show ?thesis
      using Cons.prems assms(4) by (force simp: set_tupd unique_on_def)
  qed
  then show ?case
    using IH by (simp add: unique_on_def)
qed simp

subsection \<open>The media of a driver\<close>

lemma erase_evidence_row_idem [simp]: "erase_evidence_row now (erase_evidence_row now r) = erase_evidence_row now r"
  by (simp add: erase_evidence_row_def)

lemma erase_evidence_row_fields [simp]:
  "ev_id (erase_evidence_row now r) = ev_id r"
  "ev_organization_id (erase_evidence_row now r) = ev_organization_id r"
  "ev_safety_event_id (erase_evidence_row now r) = ev_safety_event_id r"
  by (simp_all add: erase_evidence_row_def)

context object_store
begin

lemma delete_key_ok:
  assumes "inv s" "\<forall>k. ev_storage_key ev = Some k \<longrightarrow> ok k"
  obtains s1 where "(case ev_storage_key ev of None \<Rightarrow> (Inr (), s) | Some k \<Rightarrow> os_delete st k s) = (Inr (), s1)" "inv s1"
    "\<forall>k. ok k \<longrightarrow> view s1 k = (if ev_storage_key ev = Some k then None else view s k)"
proof (cases "ev_storage_key ev")
  case (Some key)
  then show ?thesis
    using delete [OF assms(1), of key] assms(2) that by auto
qed (use assms(1) that in auto)

lemma erase_evidence_ok:
  assumes "inv s" "\<forall>ev \<in> set rows. \<forall>k. ev_storage_key ev = Some k \<longrightarrow> ok k"
  shows "\<exists>s'. erase_evidence st now rows d s = (Inr (int (count_rows (\<lambda>ev. ev_storage_key ev \<noteq> None) rows),
      d\<lparr>event_evidence_rows := tupd (\<lambda>r. ev_id r \<in> ev_id ` set rows) (erase_evidence_row now) (event_evidence_rows d)\<rparr>), s') \<and>
    inv s' \<and> (\<forall>k. ok k \<longrightarrow> view s' k = (if \<exists>ev \<in> set rows. ev_storage_key ev = Some k then None else view s k))"
  using assms
proof (induction rows arbitrary: d s)
  case (Cons ev rows)
  obtain s1 where s1: "(case ev_storage_key ev of None \<Rightarrow> (Inr (), s) | Some k \<Rightarrow> os_delete st k s) = (Inr (), s1)" "inv s1"
    "\<forall>k. ok k \<longrightarrow> view s1 k = (if ev_storage_key ev = Some k then None else view s k)"
    using delete_key_ok [OF Cons.prems(1), of ev] Cons.prems(2) by auto
  let ?d1 = "set_evidence (ev_id ev) (erase_evidence_row now) d"
  obtain s' where s': "erase_evidence st now rows ?d1 s1 = (Inr (int (count_rows (\<lambda>ev. ev_storage_key ev \<noteq> None) rows),
      ?d1\<lparr>event_evidence_rows := tupd (\<lambda>r. ev_id r \<in> ev_id ` set rows) (erase_evidence_row now) (event_evidence_rows ?d1)\<rparr>), s')"
    "inv s'" "\<forall>k. ok k \<longrightarrow> view s' k = (if \<exists>ev \<in> set rows. ev_storage_key ev = Some k then None else view s1 k)"
    using Cons.IH [OF s1(2)] Cons.prems(2) by fastforce
  have rows: "tupd (\<lambda>r. ev_id r \<in> ev_id ` set rows) (erase_evidence_row now) (event_evidence_rows ?d1) =
      tupd (\<lambda>r. ev_id r \<in> ev_id ` set (ev # rows)) (erase_evidence_row now) (event_evidence_rows d)"
    unfolding set_evidence_def by (simp add: tupd_tupd_idem)
  show ?case
    using s1 s' rows by (auto simp: set_evidence_def)
qed (simp add: tupd_def)

end

subsection \<open>The erasure of a driver\<close>

text \<open>The database after the erasure.\<close>

definition erased_driver_db :: "instant \<Rightarrow> uuid \<Rightarrow> uuid \<Rightarrow> db \<Rightarrow> db" where
  "erased_driver_db now org drv d =
     d\<lparr>drivers := tupd (\<lambda>r. d_id r = drv) (erase_driver_row now) (drivers d),
       telemetry_points := filter (\<lambda>p. \<not> driver_points org drv p) (telemetry_points d),
       trips := tupd (driver_trips org drv) clear_position (trips d),
       event_evidence_rows := tupd (\<lambda>r. ev_id r \<in> ev_id ` set (driver_media org drv d)) (erase_evidence_row now) (event_evidence_rows d),
       safety_events := tupd (driver_events org drv) redact_event (safety_events d),
       coaching_actions := tupd (driver_coaching org drv) redact_coaching (coaching_actions d)\<rparr>"

text \<open>The pseudonym of the driver is not the external id of another driver of the organization.\<close>

definition pseudonym_free :: "uuid \<Rightarrow> uuid \<Rightarrow> db \<Rightarrow> bool" where
  "pseudonym_free org drv d \<longleftrightarrow>
     list_all (\<lambda>r. d_organization_id r = org \<and> d_external_id r = snd (driver_pseudonym drv) \<longrightarrow> d_id r = drv) (drivers d)"

lemma erased_driver_constraints:
  assumes "driver_constraints d" "keys_distinct d_id (drivers d)" "pseudonym_free org drv d"
    "tget d_id (drivers d) drv = Some dr" "d_organization_id dr = org"
  shows "driver_constraints (d\<lparr>drivers := tupd (\<lambda>r. d_id r = drv) (erase_driver_row now) (drivers d)\<rparr>)"
proof -
  have same: "r = dr" if "r \<in> set (drivers d)" "d_id r = drv" for r
    using assms(2,4) that tget_SomeI [OF assms(2) that(1)] by simp
  have eq: "tupd (\<lambda>r. d_id r = drv) (erase_driver_row now) (drivers d) =
      tupd (\<lambda>r. d_id r = drv) (\<lambda>r. (erase_driver_row now r)\<lparr>d_organization_id := org\<rparr>) (drivers d)"
    using same assms(5) by (auto simp: tupd_def erase_driver_row_def)
  have "unique_on (\<lambda>_. True) (\<lambda>r. (d_organization_id r, d_external_id r))
      (tupd (\<lambda>r. d_id r = drv) (\<lambda>r. (erase_driver_row now r)\<lparr>d_organization_id := org\<rparr>) (drivers d))"
  proof (rule unique_on_rekey)
    show "unique_on (\<lambda>_. True) (\<lambda>r. (d_organization_id r, d_external_id r)) (drivers d)"
      using assms(1) by (simp add: driver_constraints_def)
    show "(d_organization_id r, d_external_id r) \<noteq> (org, snd (driver_pseudonym drv))"
      if "r \<in> set (drivers d)" "d_id r \<noteq> drv" for r
      using assms(3) that unfolding pseudonym_free_def list_all_iff by blast
  qed (simp_all add: assms(2) erase_driver_row_def)
  then show ?thesis
    by (simp add: driver_constraints_def eq)
qed

context object_store
begin

lemma driver_media_other [simp]:
  "driver_media org drv (d\<lparr>drivers := a\<rparr>) = driver_media org drv d"
  "driver_media org drv (d\<lparr>telemetry_points := b\<rparr>) = driver_media org drv d"
  "driver_media org drv (d\<lparr>trips := c\<rparr>) = driver_media org drv d"
  by (simp_all add: driver_media_def)

lemma erase_driver_ok:
  assumes "inv s" "keys_ok d" "driver_constraints d" "keys_distinct d_id (drivers d)" "pseudonym_free org drv d"
    "tget d_id (drivers d) drv = Some dr" "d_organization_id dr = org"
  shows "\<exists>counts s'. erase_driver st now org drv d s = (Inr (counts, erased_driver_db now org drv d), s') \<and> inv s' \<and>
    (\<forall>k. ok k \<longrightarrow> view s' k = (if \<exists>ev \<in> set (driver_media org drv d). ev_storage_key ev = Some k then None else view s k))"
proof -
  let ?d1 = "d\<lparr>drivers := tupd (\<lambda>r. d_id r = drv) (erase_driver_row now) (drivers d)\<rparr>"
  let ?d2 = "?d1\<lparr>telemetry_points := filter (\<lambda>p. \<not> driver_points org drv p) (telemetry_points ?d1),
     trips := tupd (driver_trips org drv) clear_position (trips ?d1)\<rparr>"
  have keys: "\<forall>ev \<in> set (driver_media org drv d). \<forall>k. ev_storage_key ev = Some k \<longrightarrow> ok k"
    using assms(2) by (auto simp: keys_ok_def driver_media_def)
  obtain s' where er: "erase_evidence st now (driver_media org drv d) ?d2 s =
      (Inr (int (count_rows (\<lambda>ev. ev_storage_key ev \<noteq> None) (driver_media org drv d)),
      ?d2\<lparr>event_evidence_rows := tupd (\<lambda>r. ev_id r \<in> ev_id ` set (driver_media org drv d)) (erase_evidence_row now) (event_evidence_rows ?d2)\<rparr>), s')"
    "inv s'" "\<forall>k. ok k \<longrightarrow> view s' k = (if \<exists>ev \<in> set (driver_media org drv d). ev_storage_key ev = Some k then None else view s k)"
    using erase_evidence_ok [OF assms(1) keys, of now ?d2] by blast
  have "driver_constraints ?d1"
    using erased_driver_constraints [OF assms(3-7)] .
  then have "\<exists>counts. erase_driver st now org drv d s = (Inr (counts, erased_driver_db now org drv d), s')"
    using er(1) assms(6,7) by (simp add: erase_driver_def erased_driver_db_def Let_def)
  then show ?thesis
    using er(2,3) by blast
qed

end

text \<open>No direct identifier of the driver is left in the rows of the organization.\<close>

definition driver_forgotten :: "instant \<Rightarrow> uuid \<Rightarrow> uuid \<Rightarrow> db \<Rightarrow> bool" where
  "driver_forgotten now org drv d \<longleftrightarrow>
     list_all (\<lambda>r. d_id r = drv \<longrightarrow> (d_full_name r, d_external_id r) = driver_pseudonym drv \<and> d_phone r = None \<and>
        d_license_number_enc r = None \<and> d_user_id r = None \<and> d_status r = DrvErased) (drivers d) \<and>
     list_all (\<lambda>p. \<not> driver_points org drv p) (telemetry_points d) \<and>
     list_all (\<lambda>t. driver_trips org drv t \<longrightarrow> t_last_latitude t = None \<and> t_last_longitude t = None) (trips d) \<and>
     list_all (\<lambda>e. driver_events org drv e \<longrightarrow> se_latitude e = None \<and> se_longitude e = None \<and> se_reviewer_notes e = None) (safety_events d) \<and>
     list_all (\<lambda>c. driver_coaching org drv c \<longrightarrow> ca_description c = None \<and> ca_notes c = None \<and> ca_outcome_notes c = None) (coaching_actions d) \<and>
     list_all (\<lambda>ev. ev_status ev = EvDeleted \<and> ev_storage_key ev = None \<and> ev_telemetry_window ev = None) (driver_media org drv d)"

text \<open>The rows of the other organizations.\<close>

definition same_elsewhere :: "uuid \<Rightarrow> db \<Rightarrow> db \<Rightarrow> bool" where
  "same_elsewhere org d d' \<longleftrightarrow>
     filter (\<lambda>r. d_organization_id r \<noteq> org) (drivers d') = filter (\<lambda>r. d_organization_id r \<noteq> org) (drivers d) \<and>
     filter (\<lambda>p. tp_organization_id p \<noteq> org) (telemetry_points d') = filter (\<lambda>p. tp_organization_id p \<noteq> org) (telemetry_points d) \<and>
     filter (\<lambda>t. t_organization_id t \<noteq> org) (trips d') = filter (\<lambda>t. t_organization_id t \<noteq> org) (trips d) \<and>
     filter (\<lambda>e. se_organization_id e \<noteq> org) (safety_events d') = filter (\<lambda>e. se_organization_id e \<noteq> org) (safety_events d) \<and>
     filter (\<lambda>e. ev_organization_id e \<noteq> org) (event_evidence_rows d') = filter (\<lambda>e. ev_organization_id e \<noteq> org) (event_evidence_rows d) \<and>
     filter (\<lambda>c. ca_organization_id c \<noteq> org) (coaching_actions d') = filter (\<lambda>c. ca_organization_id c \<noteq> org) (coaching_actions d) \<and>
     filter (\<lambda>m. m_organization_id m \<noteq> org) (memberships d') = filter (\<lambda>m. m_organization_id m \<noteq> org) (memberships d) \<and>
     filter (\<lambda>m. em_organization_id m \<noteq> Some org) (email_messages d') = filter (\<lambda>m. em_organization_id m \<noteq> Some org) (email_messages d) \<and>
     filter (\<lambda>i. inv_organization_id i \<noteq> org) (invitations d') = filter (\<lambda>i. inv_organization_id i \<noteq> org) (invitations d)"

lemma filter_conj_imp: "(\<And>r. q r \<Longrightarrow> p r) \<Longrightarrow> filter q (filter p rows) = filter q rows"
  by (induction rows) auto

lemma driver_media_erased:
  assumes "keys_distinct ev_id (event_evidence_rows d)"
  shows "driver_media org drv (erased_driver_db now org drv d) = map (erase_evidence_row now) (driver_media org drv d)"
proof -
  have mem: "ev_id r \<in> ev_id ` set (driver_media org drv d) \<longleftrightarrow> r \<in> set (driver_media org drv d)"
    if "r \<in> set (event_evidence_rows d)" for r
    using assms that by (auto simp: driver_media_def keys_distinct_def distinct_map inj_on_def)
  have pairs: "(\<exists>e \<in> set es. se_id e = i \<and> se_driver_id e = Some drv) \<longleftrightarrow>
      (i, Some drv) \<in> set (map (\<lambda>e. (se_id e, se_driver_id e)) es)" for i and es :: "safety_event list"
    by force
  have "map (\<lambda>e. (se_id e, se_driver_id e)) (safety_events (erased_driver_db now org drv d)) =
      map (\<lambda>e. (se_id e, se_driver_id e)) (safety_events d)"
    by (simp add: erased_driver_db_def map_tupd redact_event_def)
  then have ev: "(\<exists>e \<in> set (safety_events (erased_driver_db now org drv d)). se_id e = i \<and> se_driver_id e = Some drv) \<longleftrightarrow>
      (\<exists>e \<in> set (safety_events d). se_id e = i \<and> se_driver_id e = Some drv)" for i
    unfolding pairs by simp
  let ?Q = "\<lambda>r. ev_organization_id r = org \<and> (\<exists>e \<in> set (safety_events d). se_id e = ev_safety_event_id r \<and> se_driver_id e = Some drv)"
  have dm: "driver_media org drv d = filter ?Q (event_evidence_rows d)"
    by (simp add: driver_media_def)
  have "event_evidence_rows (erased_driver_db now org drv d) = tupd ?Q (erase_evidence_row now) (event_evidence_rows d)"
    unfolding erased_driver_db_def using mem by (simp add: dm) (rule tupd_cong_set, auto)
  then have "driver_media org drv (erased_driver_db now org drv d) = filter ?Q (tupd ?Q (erase_evidence_row now) (event_evidence_rows d))"
    unfolding driver_media_def ev by simp
  also have "\<dots> = map (erase_evidence_row now) (filter ?Q (event_evidence_rows d))"
    by (rule filter_tupd_self) simp
  finally show ?thesis
    by (simp add: dm)
qed

lemma erased_driver_forgotten:
  assumes "keys_distinct ev_id (event_evidence_rows d)"
  shows "driver_forgotten now org drv (erased_driver_db now org drv d)"
proof -
  let ?d = "erased_driver_db now org drv d"
  have "list_all (\<lambda>r. d_id r = drv \<longrightarrow> (d_full_name r, d_external_id r) = driver_pseudonym drv \<and> d_phone r = None \<and>
      d_license_number_enc r = None \<and> d_user_id r = None \<and> d_status r = DrvErased) (drivers ?d)"
    by (simp add: erased_driver_db_def list_all_tupd_iff) (simp add: list_all_iff erase_driver_row_def)
  moreover have "list_all (\<lambda>p. \<not> driver_points org drv p) (telemetry_points ?d)"
    by (simp add: erased_driver_db_def list_all_iff)
  moreover have "list_all (\<lambda>t. driver_trips org drv t \<longrightarrow> t_last_latitude t = None \<and> t_last_longitude t = None) (trips ?d)"
    by (simp add: erased_driver_db_def list_all_tupd_iff) (simp add: list_all_iff clear_position_def)
  moreover have "list_all (\<lambda>e. driver_events org drv e \<longrightarrow> se_latitude e = None \<and> se_longitude e = None \<and> se_reviewer_notes e = None) (safety_events ?d)"
    by (simp add: erased_driver_db_def list_all_tupd_iff) (simp add: list_all_iff redact_event_def)
  moreover have "list_all (\<lambda>c. driver_coaching org drv c \<longrightarrow> ca_description c = None \<and> ca_notes c = None \<and> ca_outcome_notes c = None) (coaching_actions ?d)"
    by (simp add: erased_driver_db_def list_all_tupd_iff) (simp add: list_all_iff redact_coaching_def)
  moreover have "list_all (\<lambda>ev. ev_status ev = EvDeleted \<and> ev_storage_key ev = None \<and> ev_telemetry_window ev = None) (driver_media org drv ?d)"
    using driver_media_erased [OF assms, of org drv now] by (simp add: list_all_iff erase_evidence_row_def)
  ultimately show ?thesis
    unfolding driver_forgotten_def by (intro conjI)
qed

lemma erased_driver_elsewhere:
  assumes "keys_distinct d_id (drivers d)" "tget d_id (drivers d) drv = Some dr" "d_organization_id dr = org"
    "keys_distinct ev_id (event_evidence_rows d)"
  shows "same_elsewhere org d (erased_driver_db now org drv d)"
proof -
  let ?d = "erased_driver_db now org drv d"
  have dr: "r = dr" if "r \<in> set (drivers d)" "d_id r = drv" for r
    using assms(2) that tget_SomeI [OF assms(1) that(1)] by simp
  have "tupd (\<lambda>r. d_id r = drv) (erase_driver_row now) (drivers d) =
      tupd (\<lambda>r. d_id r = drv \<and> d_organization_id r = org) (erase_driver_row now) (drivers d)"
    using dr assms(3) by (intro tupd_cong_set) auto
  then have drivers: "filter (\<lambda>r. d_organization_id r \<noteq> org) (drivers ?d) = filter (\<lambda>r. d_organization_id r \<noteq> org) (drivers d)"
    by (simp add: erased_driver_db_def) (rule filter_tupd_untouched; auto simp: erase_driver_row_def)
  have "tupd (\<lambda>r. ev_id r \<in> ev_id ` set (driver_media org drv d)) (erase_evidence_row now) (event_evidence_rows d) =
      tupd (\<lambda>r. r \<in> set (driver_media org drv d)) (erase_evidence_row now) (event_evidence_rows d)"
    using assms(4) by (intro tupd_cong_set) (auto simp: driver_media_def keys_distinct_def distinct_map inj_on_def)
  then have evidence: "filter (\<lambda>e. ev_organization_id e \<noteq> org) (event_evidence_rows ?d) =
      filter (\<lambda>e. ev_organization_id e \<noteq> org) (event_evidence_rows d)"
    by (simp add: erased_driver_db_def) (rule filter_tupd_untouched; auto simp: driver_media_def)
  show ?thesis
    unfolding same_elsewhere_def using drivers evidence
    by (simp add: erased_driver_db_def filter_conj_imp driver_points_def)
      (auto simp: driver_trips_def driver_events_def driver_coaching_def clear_position_def redact_event_def redact_coaching_def
        intro!: filter_tupd_untouched filter_cong [OF refl])
qed

text \<open>The records the statistics are made of.\<close>

definition statistics_kept :: "db \<Rightarrow> db \<Rightarrow> bool" where
  "statistics_kept d d' \<longleftrightarrow>
     map (\<lambda>t. (t_id t, t_driver_id t, t_distance_km t, t_point_count t, t_max_speed_kph t)) (trips d') =
       map (\<lambda>t. (t_id t, t_driver_id t, t_distance_km t, t_point_count t, t_max_speed_kph t)) (trips d) \<and>
     map (\<lambda>e. (se_id e, se_driver_id e, se_event_type e, se_severity e, se_occurred_at e, se_review_status e)) (safety_events d') =
       map (\<lambda>e. (se_id e, se_driver_id e, se_event_type e, se_severity e, se_occurred_at e, se_review_status e)) (safety_events d) \<and>
     map (\<lambda>c. (ca_id c, ca_driver_id c, ca_status c, ca_outcome c)) (coaching_actions d') =
       map (\<lambda>c. (ca_id c, ca_driver_id c, ca_status c, ca_outcome c)) (coaching_actions d)"

lemma erased_driver_statistics: "statistics_kept d (erased_driver_db now org drv d)"
  by (simp add: statistics_kept_def erased_driver_db_def map_tupd clear_position_def redact_event_def redact_coaching_def)

text \<open>
  C21: the erasure of a driver of the organization succeeds on a working storage (unless another driver has
  the pseudonym as external id). It clears the columns listed in \<open>driver_forgotten\<close>: name, external id, phone,
  licence and account link of the driver row, the stored positions, the last position of the trips, the
  positions and notes of the events, the texts of the coaching actions, and the telemetry windows and media
  of the events with their objects. Trips, events and coaching actions stay for the statistics, and no row
  of another organization changes. It does not reach what \<open>driver_forgotten\<close> does not list: the envelopes in
  \<^verbatim>\<open>ingest_events\<close>, the assignments to vehicles, export archives that already exist, and the reasons of
  privacy requests.
\<close>

theorem erase_driver_forgets:
  assumes "evidence_inv env (d, s)" "driver_constraints d" "keys_distinct d_id (drivers d)" "pseudonym_free org drv d"
    "tget d_id (drivers d) drv = Some dr" "d_organization_id dr = org"
  shows "\<exists>counts d' s'. erase_driver (local_storage env) now org drv d s = (Inr (counts, d'), s') \<and>
    driver_forgotten now org drv d' \<and> statistics_kept d d' \<and> same_elsewhere org d d' \<and>
    list_all (\<lambda>ev. case ev_storage_key ev of None \<Rightarrow> True | Some k \<Rightarrow> local_view env s' k = None) (driver_media org drv d)"
proof -
  have inv: "local_inv env s" and ids: "keys_distinct ev_id (event_evidence_rows d)"
    using assms(1) by (simp_all add: evidence_inv_def ids_ok_def)
  have keys: "local_files.keys_ok d"
    using evidence_inv_keys [OF assms(1)] .
  obtain counts s' where e: "erase_driver (local_storage env) now org drv d s = (Inr (counts, erased_driver_db now org drv d), s')"
    "\<forall>k. local_key_ok k \<longrightarrow> local_view env s' k =
       (if \<exists>ev \<in> set (driver_media org drv d). ev_storage_key ev = Some k then None else local_view env s k)"
    using local_files.erase_driver_ok [OF inv keys assms(2-6), of now] by blast
  have "list_all (\<lambda>ev. case ev_storage_key ev of None \<Rightarrow> True | Some k \<Rightarrow> local_view env s' k = None) (driver_media org drv d)"
    using e(2) keys by (fastforce simp: list_all_iff local_files.keys_ok_def driver_media_def split: option.splits)
  then show ?thesis
    using e(1) erased_driver_forgotten [OF ids] erased_driver_elsewhere [OF assms(3,5,6) ids] erased_driver_statistics by blast
qed

subsection \<open>What the erasure of a driver does not end\<close>

lemma erase_evidence_frame:
  "erase_evidence st now rows d s = (Inr (n, d'), s') \<Longrightarrow> \<exists>evs. d' = d\<lparr>event_evidence_rows := evs\<rparr>"
proof (induction rows arbitrary: d s n d' s')
  case Nil
  then show ?case
    by (auto intro: exI [of _ "event_evidence_rows d"])
next
  case (Cons ev rows)
  obtain s1 where s1: "(case ev_storage_key ev of None \<Rightarrow> (Inr (), s) | Some k \<Rightarrow> os_delete st k s) = (Inr (), s1)"
    using Cons.prems by (auto split: sum.splits prod.splits)
  then obtain m where "erase_evidence st now rows (set_evidence (ev_id ev) (erase_evidence_row now) d) s1 = (Inr (m, d'), s')"
    using Cons.prems by (auto split: sum.splits prod.splits)
  from Cons.IH [OF this] show ?case
    by (auto simp: set_evidence_def)
qed

lemma erase_driver_keeps:
  assumes "erase_driver st now org drv d s = (Inr (counts, d'), s')"
  shows "driver_assignments d' = driver_assignments d \<and> trips d' = tupd (driver_trips org drv) clear_position (trips d)"
proof -
  obtain dr where "tget d_id (drivers d) drv = Some dr" "d_organization_id dr = org"
    using assms by (auto simp: erase_driver_def split: option.splits if_splits)
  then show ?thesis
    using assms erase_evidence_frame
    by (fastforce simp: erase_driver_def Let_def split: if_splits sum.splits prod.splits)
qed

text \<open>
  C29: the erasure does not end the driver's assignment: when the vehicle the driver is assigned to moves
  again, its positions are stored under the erased driver, so that the rows the erasure removed come back.
\<close>

theorem erased_driver_tracked_again:
  assumes "erase_driver st now org drv d s = (Inr (counts, d1), s1)" "current_driver org (v_id v) d = Some drv"
    "active_trips org (v_id v) d = []" "ie_organization_id ev = org"
  shows "\<exists>pt \<in> set (telemetry_points (snd (process_point now2 m ev e p v d1))).
    driver_points org drv pt \<and> tp_vehicle_id pt = v_id v \<and> tp_latitude pt = p_latitude p \<and> tp_longitude pt = p_longitude p"
proof -
  have k: "driver_assignments d1 = driver_assignments d" "trips d1 = tupd (driver_trips org drv) clear_position (trips d)"
    using erase_driver_keeps [OF assms(1)] by simp_all
  have "current_driver org (v_id v) d1 = Some drv"
    using assms(2) k(1) by (simp add: current_driver_def)
  moreover have "active_trips org (v_id v) d1 = []"
    using assms(3) k(2) by (auto simp: active_trips_def filter_empty_conv set_tupd clear_position_def split: if_splits)
  ultimately show ?thesis
    using assms(4)
    by (auto simp: process_point_def active_trip_def open_trip_def new_trip_def point_row_def driver_points_def
        set_trip_def set_ingest_event_def Let_def first_row_def split: prod.splits)
qed

subsection \<open>The erasure of a user\<close>

text \<open>Nothing ties the person to the organization, and no session is open.\<close>

definition user_left :: "instant \<Rightarrow> uuid \<Rightarrow> user \<Rightarrow> db \<Rightarrow> bool" where
  "user_left now org u d \<longleftrightarrow>
     list_all (\<lambda>m. \<not> (m_organization_id m = org \<and> m_user_id m = u_id u)) (memberships d) \<and>
     list_all (\<lambda>r. \<not> (d_organization_id r = org \<and> d_user_id r = Some (u_id u))) (drivers d) \<and>
     list_all (\<lambda>c. \<not> open_coaching_of org (u_id u) c) (coaching_actions d) \<and>
     list_all (\<lambda>i. \<not> invitation_to org (lower (u_email u)) i) (invitations d) \<and>
     list_all (\<lambda>q. em_organization_id q = Some org \<and> lower (em_recipient q) = lower (u_email u) \<longrightarrow> em_status q = MailSending) (email_messages d) \<and>
     list_all (\<lambda>s. s_user_id s = u_id u \<longrightarrow> s_revoked_at s \<noteq> None) (sessions d)"

definition account_forgotten :: "privacy_env \<Rightarrow> uuid \<Rightarrow> db \<Rightarrow> bool" where
  "account_forgotten env i d \<longleftrightarrow>
     list_all (\<lambda>r. u_id r = i \<longrightarrow> (u_full_name r, u_email r) = user_pseudonym i \<and> u_password_hash r = pv_unusable_hash env \<and>
        u_status r = UserErased \<and> u_mfa_totp_secret_enc r = None \<and> u_mfa_pending_secret_enc r = None) (users d) \<and>
     list_all (\<lambda>s. s_user_id s \<noteq> i) (sessions d) \<and> list_all (\<lambda>t. ut_user_id t \<noteq> i) (user_tokens d) \<and>
     list_all (\<lambda>c. rc_user_id c \<noteq> i) (mfa_recovery_codes d) \<and> list_all (\<lambda>c. mc_user_id c \<noteq> i) (mfa_challenges d)"

lemma erase_user_Inr:
  assumes "erase_user env now org i d = Inr (counts, d')" "tget u_id (users d) i = Some u"
  defines "d1 \<equiv> leave_organization now org u d"
  shows "d' = (if count_rows (\<lambda>m. m_user_id m = i) (memberships d1) = 0 \<and> u_platform_role u = None then erase_account env i d1 else d1) \<and>
    (\<exists>m. one_or_none (filter (\<lambda>m. m_organization_id m = org \<and> m_user_id m = i) (memberships d)) = Inr m \<and>
      (\<forall>x. m = Some x \<longrightarrow> m_role_key x \<noteq> ROwner))"
proof -
  obtain m where m: "one_or_none (filter (\<lambda>m. m_organization_id m = org \<and> m_user_id m = i) (memberships d)) = Inr m"
    using assms(1) by (cases "one_or_none (filter (\<lambda>m. m_organization_id m = org \<and> m_user_id m = i) (memberships d))")
      (auto simp: erase_user_def)
  then show ?thesis
    using assms(1,2) unfolding d1_def
    by (cases m) (auto simp: erase_user_def Let_def bind_eq_Inr split: if_splits)
qed

lemma leave_organization_left:
  shows "user_left now org u (leave_organization now org u d)"
  unfolding user_left_def leave_organization_def Let_def
  by (simp add: list_all_tupd_iff) (auto simp: list_all_iff open_coaching_of_def mail_to_def)

lemma leave_organization_elsewhere: "same_elsewhere org d (leave_organization now org u d)"
  unfolding same_elsewhere_def leave_organization_def Let_def
  by simp (auto simp: open_coaching_of_def mail_to_def invitation_to_def intro!: filter_tupd_untouched filter_cong [OF refl])

lemma same_elsewhere_account: "same_elsewhere org d (erase_account env i d1) = same_elsewhere org d d1"
  by (simp add: same_elsewhere_def erase_account_def)


text \<open>
  The erasure misses the mail of the account itself: password resets and other account messages belong
  to no organization, so that their rows, with the address, survive even the erasure of the whole account.
\<close>

theorem account_mail_survives_erasure:
  assumes "account_mail env1 t0 template u context1 secret d0 = Inr ((), d)" "erase_user env now org (u_id u) d = Inr (counts, d')"
  shows "\<exists>q \<in> set (email_messages d'). em_recipient q = u_email u \<and> em_template q = template"
proof -
  obtain i d1 where q: "enqueue (av_mail env1) t0
      \<lparr>mr_template = template, mr_recipient = u_email u, mr_context = (''full_name'', PStr (u_full_name u)) # context1,
         mr_secret_context = secret, mr_organization_id = None, mr_related = Some (''user'', u_id u),
         mr_idempotency_key = None, mr_max_attempts = 8\<rparr> d0 = Inr (i, d)"
    using assms(1) by (auto simp: account_mail_def bind_eq_Inr)
  have "last (email_messages d) \<in> set (email_messages d) \<and> em_recipient (last (email_messages d)) = u_email u \<and>
      em_template (last (email_messages d)) = template \<and> em_organization_id (last (email_messages d)) = None"
    using q by (auto simp: enqueue_def bind_eq_Inr key_used_def queued_mail_def split: if_splits)
  then obtain r where r: "r \<in> set (email_messages d)" "em_recipient r = u_email u" "em_template r = template" "em_organization_id r = None"
    by blast
  obtain x where x: "tget u_id (users d) (u_id u) = Some x"
    using assms(2) by (cases "tget u_id (users d) (u_id u)") (auto simp: erase_user_def bind_eq_Inr)
  have "r \<in> set (email_messages d')"
    using erase_user_Inr [OF assms(2) x] r(1,4) by (auto simp: leave_organization_def erase_account_def Let_def mail_to_def)
  then show ?thesis
    using r by blast
qed

subsection \<open>Examples\<close>

text \<open>
  A driver with a vehicle, a speeding event and its picture; a user with a membership and mail to come.
\<close>

definition leaving_driver :: driver where
  "leaving_driver = \<lparr>d_id = 5, d_organization_id = 7, d_external_id = ''D1'', d_full_name = ''Ali'', d_user_id = None,
     d_license_number_enc = Some ''sealed'', d_phone = Some ''555'', d_status = DrvActive, d_erased_at = None\<rparr>"

definition leaving_event :: safety_event where
  "leaving_event = \<lparr>se_id = 0, se_organization_id = 7, se_vehicle_id = 4, se_driver_id = Some 5, se_trip_id = None,
     se_event_type = Speeding, se_severity = Low, se_confidence = 1, se_occurred_at = 0, se_latitude = Some 41,
     se_longitude = Some 29, se_measured_value = None, se_threshold = None, se_ruleset_version = 1,
     se_severity_framework_version = 1, se_data_quality = None, se_review_status = RevPending,
     se_reviewer_user_id = None, se_reviewed_at = None, se_resolution = None, se_root_cause = None,
     se_reviewer_notes = None, se_needs_review = False, se_dedup_key = (4, Speeding, 0), se_occurrence_count = 1,
     se_details = []\<rparr>"

definition leaving_db :: db where
  "leaving_db = available_db\<lparr>drivers := [leaving_driver], safety_events := [leaving_event],
     driver_assignments := [\<lparr>da_id = 8, da_organization_id = 7, da_driver_id = 5, da_vehicle_id = 4, da_started_at = 0,
       da_ended_at = None\<rparr>], next_id := 9\<rparr>"

lemma leaving_inv: "local_inv toy_env s \<Longrightarrow> evidence_inv toy_env (leaving_db, s)"
  using example_rows(2,3)
  by (simp add: evidence_inv_def leaving_db_def available_db_def ids_ok_def keys_distinct_def set_status_def)

lemma leaving_rows:
  "driver_constraints leaving_db" "keys_distinct d_id (drivers leaving_db)" "pseudonym_free 7 5 leaving_db"
  "tget d_id (drivers leaving_db) 5 = Some leaving_driver" "d_organization_id leaving_driver = 7"
  "driver_media 7 5 leaving_db = [set_status EvAvailable slot_row]"
  using example_rows(4,9)
  by (simp_all add: leaving_db_def leaving_driver_def driver_constraints_def unique_on_def keys_distinct_def pseudonym_free_def
      driver_media_def available_db_def leaving_event_def set_status_def)

theorem erase_driver_forgets_witness:
  "\<exists>s counts d' s'. local_view toy_env s (evidence_object_key 7 3) = Some (png_body, Some ''image/png'') \<and>
     erase_driver (local_storage toy_env) 0 7 5 leaving_db s = (Inr (counts, d'), s') \<and> driver_forgotten 0 7 5 d' \<and>
     local_view toy_env s' (evidence_object_key 7 3) = None"
proof -
  obtain s where s: "local_inv toy_env s" "local_view toy_env s (evidence_object_key 7 3) = Some (png_body, Some ''image/png'')"
    using example_png .
  show ?thesis
    using erase_driver_forgets [OF leaving_inv [OF s(1)] leaving_rows(1-5), of 0] s(2) leaving_rows(6) example_rows(6)
    by (fastforce simp: set_status_def)
qed

text \<open>The vehicle and its next position.\<close>

definition leaving_vehicle :: vehicle where
  "leaving_vehicle = (hd (vehicles position_db))\<lparr>v_id := 4\<rparr>"

theorem erased_driver_tracked_again_witness:
  "\<exists>s counts d1 s1. erase_driver (local_storage toy_env) 0 7 5 leaving_db s = (Inr (counts, d1), s1) \<and>
     (\<forall>e p. \<exists>pt \<in> set (telemetry_points (snd (process_point 9 flat_libm (position_event 2 0) e p leaving_vehicle d1))).
        tp_driver_id pt = Some 5)"
proof -
  obtain s where s: "local_inv toy_env s"
    using empty_fs_inv by blast
  obtain counts d1 s1 where e: "erase_driver (local_storage toy_env) 0 7 5 leaving_db s = (Inr (counts, d1), s1)"
    using local_files.erase_driver_ok [OF s evidence_inv_keys [OF leaving_inv [OF s]] leaving_rows(1-5), of 0] by blast
  have "v_id leaving_vehicle = 4" "ie_organization_id (position_event 2 0) = 7"
    by (simp_all add: leaving_vehicle_def position_event_def)
  moreover have "current_driver 7 4 leaving_db = Some 5" "active_trips 7 4 leaving_db = []"
    by (simp_all add: current_driver_def active_trips_def leaving_db_def available_db_def slot_db_def empty_db_def first_row_def)
  ultimately show ?thesis
    using e erased_driver_tracked_again [OF e, of leaving_vehicle "position_event 2 0"]
    by (fastforce simp: driver_points_def)
qed

definition leaving_user :: user where
  "leaving_user = new_user 5 ''ann@x.tr'' ''hash'' ''Ann'' None"

definition leaving_user_db :: db where
  "leaving_user_db = empty_db\<lparr>users := [leaving_user], memberships := [new_membership 0 6 5 7 RCoach], next_id := 7\<rparr>"

definition plain_privacy :: privacy_env where
  "plain_privacy = \<lparr>pv_decrypt = None, pv_mail = None, pv_archive = (\<lambda>_ _ _ _ _ _. []), pv_isoformat = (\<lambda>_. []),
     pv_unusable_hash = ''!''\<rparr>"

lemma leaving_user_erased:
  assumes "users d = [leaving_user]" "memberships d = [new_membership 0 6 5 7 RCoach]" "drivers d = []"
    "coaching_actions d = []" "invitations d = []" "sessions d = []" "organizations d = []"
  shows "\<exists>counts d'. erase_user plain_privacy 0 7 5 d = Inr (counts, d')"
  using assms
  by (simp add: erase_user_def leaving_user_def new_user_def new_membership_def leave_organization_def erase_account_def
      flush_def identity_constraints_def unique_on_def Let_def)


theorem account_mail_survives_erasure_witness:
  "\<exists>d counts d'. account_mail demo_env 0 ''password_reset'' leaving_user [] None leaving_user_db = Inr ((), d) \<and>
     erase_user plain_privacy 0 7 5 d = Inr (counts, d') \<and> (\<exists>q \<in> set (email_messages d'). em_recipient q = ''ann@x.tr'')"
proof -
  obtain d where m: "account_mail demo_env 0 ''password_reset'' leaving_user [] None leaving_user_db = Inr ((), d)"
    "users d = [leaving_user]" "memberships d = [new_membership 0 6 5 7 RCoach]" "drivers d = []"
    "coaching_actions d = []" "invitations d = []" "sessions d = []" "organizations d = []"
    by (simp add: account_mail_def enqueue_def seal_secret_def mail_templates_def key_used_def leaving_user_db_def empty_db_def
        demo_env_def)
  obtain counts d' where e: "erase_user plain_privacy 0 7 5 d = Inr (counts, d')"
    using leaving_user_erased [OF m(2-8)] by blast
  have u: "u_id leaving_user = 5" "u_email leaving_user = ''ann@x.tr''"
    by (simp_all add: leaving_user_def new_user_def)
  show ?thesis
    using m(1) e account_mail_survives_erasure [OF m(1), of plain_privacy 0 7 counts d'] unfolding u by blast
qed

end
