(* ===== verification/PrivacyLife.thy ===== *)
theory PrivacyLife
  imports Erasure Lifecycle RetryQueue
begin

section \<open>Retention periods, the purge and the life of a request\<close>

text \<open>
  Facts on \<^verbatim>\<open>application/privacy/service.py\<close> and \<^verbatim>\<open>processor.py\<close>: shortened retention periods stay within the
  plan, the purge deletes what is expired and nothing else, requests follow their state machine (the
  contracts of \<open>lifecycle\<close> and \<open>retry_queue\<close> on their own rows), and a late failure that does not.
\<close>

subsection \<open>Retention periods\<close>

lemma pick_days_range: "min_retention_days \<le> p \<Longrightarrow> min_retention_days \<le> pick_days p kv key \<and> pick_days p kv key \<le> p"
  by (auto simp: pick_days_def min_retention_days_def split: option.splits pyval.splits)

lemma pick_days_override: "dget kv key = Some (PInt n) \<Longrightarrow> min_retention_days \<le> n \<Longrightarrow> n \<le> p \<Longrightarrow> pick_days p kv key = n"
  by (simp add: pick_days_def min_retention_days_def)

lemma pick_days_plan: "dget kv key = None \<Longrightarrow> pick_days p kv key = p"
  by (simp add: pick_days_def)

lemma dget_merge_overrides:
  assumes "k1 \<noteq> k2"
  shows "dget (merge_overrides [(k1, x), (k2, y)] kv) k1 = map_option PInt x"
    "dget (merge_overrides [(k1, x), (k2, y)] kv) k2 = map_option PInt y"
  using assms
  by (auto simp: merge_overrides_def dget_def AList.update_conv' AList.delete_conv' split: option.splits)

lemma override_ok:
  assumes "validate_retention_overrides [(k1, x), (k2, y)] p = []" "k1 \<in> set retention_categories" "k2 \<in> set retention_categories"
  shows "case x of None \<Rightarrow> True | Some n \<Rightarrow> min_retention_days \<le> n \<and> n \<le> p"
    "case y of None \<Rightarrow> True | Some n \<Rightarrow> min_retention_days \<le> n \<and> n \<le> p"
  using assms by (auto simp: validate_retention_overrides_def split: option.splits if_splits)

lemma get_entitlements_settings [simp]:
  "get_entitlements now org (d\<lparr>organization_settings_rows := rows\<rparr>) = get_entitlements now org d"
  "get_entitlements now org (record_audit c a rt ri oid d) = get_entitlements now org d"
  by (rule get_entitlements_cong; simp add: record_audit_frame)+

text \<open>The days in force for one category, given what was asked for it.\<close>

definition in_force :: "int \<Rightarrow> int option \<Rightarrow> int \<Rightarrow> bool" where
  "in_force plan_days asked got \<longleftrightarrow>
     (case asked of None \<Rightarrow> got = plan_days | Some n \<Rightarrow> min_retention_days \<le> n \<and> n \<le> plan_days \<and> got = n)"

lemma pick_in_force:
  assumes "case x of None \<Rightarrow> True | Some n \<Rightarrow> min_retention_days \<le> n \<and> n \<le> p" "dget kv key = map_option PInt x"
  shows "in_force p x (pick_days p kv key)"
  using assms pick_days_override pick_days_plan by (cases x) (auto simp: in_force_def)

text \<open>
  A change of the retention periods that is accepted takes effect as asked: a period between 30 days
  and the plan's, the plan's own where none is given. It is stored, and under any later plan of at least 30
  days the periods in force stay between 30 days and that plan's.
\<close>

theorem retention_within_plan:
  assumes "put_retention now ctx x y d = Inr (v, d')"
  shows "\<exists>org e. c_organization_id ctx = Some org \<and> get_entitlements now org d = Inr e \<and> rv_plan_days v = en_retention_days e \<and>
    in_force (rv_plan_days v) x (rp_telemetry_days (rv_effective v)) \<and>
    in_force (rv_plan_days v) y (rp_evidence_media_days (rv_effective v)) \<and>
    (let later = (\<lambda>p. resolve_retention p (raw_retention org d'))
     in later (rv_plan_days v) = rv_effective v \<and>
        (\<forall>p \<ge> min_retention_days. rp_telemetry_days (later p) \<in> {min_retention_days..p} \<and>
           rp_evidence_media_days (later p) \<in> {min_retention_days..p}))"
proof -
  let ?overrides_given = "[(''telemetry_days'', x), (''evidence_media_days'', y)]"
  obtain org e row where r: "c_organization_id ctx = Some org" "get_entitlements now org d = Inr e"
    "validate_retention_overrides ?overrides_given (en_retention_days e) = []" "org_settings_of org d = Some row"
    "d' = record_audit ctx ''organization.retention_updated'' ''organization'' (Some org) None
       (d\<lparr>organization_settings_rows := tupd (\<lambda>r. os_organization_id r = org)
          (\<lambda>r. r\<lparr>os_retention := merge_overrides ?overrides_given (os_retention r)\<rparr>) (organization_settings_rows d)\<rparr>)"
    "get_retention now org d' = Inr v"
    using assms
    by (auto simp: put_retention_def retention_manager_def update_retention_def bind_eq_Inr Let_def split: option.splits)
  have raw: "raw_retention org d' = merge_overrides ?overrides_given (os_retention row)"
    using r(4) tget_SomeD [OF r(4) [unfolded org_settings_of_def]] unfolding r(5)
    by (simp add: raw_retention_def org_settings_of_def record_audit_frame tget_tupd)
  have v: "rv_plan_days v = en_retention_days e" "rv_effective v = resolve_retention (en_retention_days e) (raw_retention org d')"
    using r(2,6) unfolding r(5) by (auto simp: get_retention_def bind_eq_Inr Let_def)
  have cat: "''telemetry_days'' \<in> set retention_categories" "''evidence_media_days'' \<in> set retention_categories"
    by (simp_all add: retention_categories_def)
  have get: "dget (raw_retention org d') ''telemetry_days'' = map_option PInt x"
    "dget (raw_retention org d') ''evidence_media_days'' = map_option PInt y"
    unfolding raw by (simp_all add: dget_merge_overrides)
  show ?thesis
    using r(1,2) v pick_in_force [OF override_ok(1) [OF r(3) cat] get(1)] pick_in_force [OF override_ok(2) [OF r(3) cat] get(2)]
      pick_days_range
    by (simp add: Let_def resolve_retention_def)
qed

subsection \<open>The purge\<close>

lemma delete_first_spec:
  "delete_first n p rs = (rs', k) \<Longrightarrow> filter (\<lambda>r. \<not> p r) rs' = filter (\<lambda>r. \<not> p r) rs \<and>
     k = min n (count_rows p rs) \<and> count_rows p rs' = count_rows p rs - k"
proof (induction rs arbitrary: n rs' k)
  case (Cons r rs)
  show ?case
  proof (cases "p r \<and> 0 < n")
    case True
    obtain rest j where rest: "delete_first (n - 1) p rs = (rest, j)"
      by fastforce
    then show ?thesis
      using Cons.IH [OF rest] Cons.prems True by (auto simp: min_def)
  next
    case False
    obtain rest j where rest: "delete_first n p rs = (rest, j)"
      by fastforce
    then show ?thesis
      using Cons.IH [OF rest] Cons.prems False by (auto simp: min_def)
  qed
qed simp

lemma purge_batches_spec:
  "purge_batches m n p rs = (rs', k) \<Longrightarrow> filter (\<lambda>r. \<not> p r) rs' = filter (\<lambda>r. \<not> p r) rs \<and>
     k = min (m * n) (count_rows p rs) \<and> count_rows p rs' = count_rows p rs - k"
proof (induction m arbitrary: rs rs' k)
  case (Suc m)
  obtain rest j where first: "delete_first n p rs = (rest, j)"
    by fastforce
  obtain rest2 j2 where more: "purge_batches m n p rest = (rest2, j2)"
    by fastforce
  note 1 = delete_first_spec [OF first]
  note 2 = Suc.IH [OF more]
  show ?case
    using Suc.prems first more 1 2 by (auto simp: min_def split: if_splits)
qed simp

context object_store
begin

lemma purge_media_ok:
  assumes "inv s" "\<forall>ev \<in> set rows. \<forall>k. ev_storage_key ev = Some k \<longrightarrow> ok k"
  shows "\<exists>s'. purge_media st now rows d s = (Inr (length rows,
      d\<lparr>event_evidence_rows := tupd (\<lambda>r. ev_id r \<in> ev_id ` set rows) (mark_deleted now) (event_evidence_rows d)\<rparr>), s') \<and>
    inv s' \<and> (\<forall>k. ok k \<longrightarrow> view s' k = (if \<exists>ev \<in> set rows. ev_storage_key ev = Some k then None else view s k))"
  using assms
proof (induction rows arbitrary: d s)
  case (Cons ev rows)
  obtain s1 where s1: "(case ev_storage_key ev of None \<Rightarrow> (Inr (), s) | Some k \<Rightarrow> os_delete st k s) = (Inr (), s1)" "inv s1"
    "\<forall>k. ok k \<longrightarrow> view s1 k = (if ev_storage_key ev = Some k then None else view s k)"
    using delete_key_ok [OF Cons.prems(1), of ev] Cons.prems(2) by auto
  let ?d1 = "set_evidence (ev_id ev) (mark_deleted now) d"
  obtain s' where s': "purge_media st now rows ?d1 s1 = (Inr (length rows,
      ?d1\<lparr>event_evidence_rows := tupd (\<lambda>r. ev_id r \<in> ev_id ` set rows) (mark_deleted now) (event_evidence_rows ?d1)\<rparr>), s')"
    "inv s'" "\<forall>k. ok k \<longrightarrow> view s' k = (if \<exists>ev \<in> set rows. ev_storage_key ev = Some k then None else view s1 k)"
    using Cons.IH [OF s1(2)] Cons.prems(2) by fastforce
  have rows: "tupd (\<lambda>r. ev_id r \<in> ev_id ` set rows) (mark_deleted now) (event_evidence_rows ?d1) =
      tupd (\<lambda>r. ev_id r \<in> ev_id ` set (ev # rows)) (mark_deleted now) (event_evidence_rows d)"
    unfolding set_evidence_def by (simp add: tupd_tupd_idem mark_deleted_def)
  show ?case
    using s1 s' rows by (auto simp: set_evidence_def)
qed (simp add: tupd_def)

end

text \<open>The media the purge of an organization takes: the first 500 that are expired.\<close>

definition purged_media :: "uuid \<Rightarrow> retention_policy \<Rightarrow> instant \<Rightarrow> db \<Rightarrow> event_evidence list" where
  "purged_media org policy now d =
     take evidence_purge_batch (filter (expired_media org (now - days (rp_evidence_media_days policy))) (event_evidence_rows d))"

text \<open>
  C24: the purge of an organization succeeds on a working storage. It deletes, of the positions that are
  older than the organization's policy allows, up to 200,000 (40 batches of 5,000), and marks the first 500
  expired media deleted, with their objects gone. Newer positions, those of other organizations, other
  objects and all other tables stay as they are, except for an audit entry when media were deleted.
\<close>

theorem purge_deletes_the_expired:
  assumes "evidence_inv env (d, s)" "get_entitlements now org d = Inr e"
    "policy = resolve_retention (en_retention_days e) (raw_retention org d)"
    "old = expired_point org (now - days (rp_telemetry_days policy))" "gone = purged_media org policy now d"
  shows "\<exists>t d' s' points audits. purge_organization (local_storage env) now org d s = (Inr (t, length gone), d', s') \<and>
    d' = d\<lparr>telemetry_points := points, audit_logs := audit_logs d @ audits,
      event_evidence_rows := tupd (\<lambda>r. r \<in> set gone) (mark_deleted now) (event_evidence_rows d)\<rparr> \<and>
    filter (\<lambda>p. \<not> old p) points = filter (\<lambda>p. \<not> old p) (telemetry_points d) \<and>
    t = min 200000 (count_rows old (telemetry_points d)) \<and>
    count_rows old points = count_rows old (telemetry_points d) - t \<and> length audits \<le> 1 \<and>
    (\<forall>k. local_key_ok k \<longrightarrow> local_view env s' k = (if \<exists>ev \<in> set gone. ev_storage_key ev = Some k then None else local_view env s k))"
proof -
  obtain points t where b: "purge_batches telemetry_purge_max_batches telemetry_purge_batch old (telemetry_points d) = (points, t)"
    by fastforce
  have n: "telemetry_purge_max_batches * telemetry_purge_batch = 200000"
    by (simp add: telemetry_purge_max_batches_def telemetry_purge_batch_def)
  note spec = purge_batches_spec [OF b, unfolded n]
  have inv: "local_inv env s" and ids: "keys_distinct ev_id (event_evidence_rows d)" and keys: "local_files.keys_ok d"
    using assms(1) evidence_inv_keys [OF assms(1)] by (simp_all add: evidence_inv_def ids_ok_def)
  have sub: "set gone \<subseteq> set (event_evidence_rows d)"
    unfolding assms(5) purged_media_def by (auto dest: in_set_takeD)
  let ?d1 = "d\<lparr>telemetry_points := points\<rparr>"
  obtain s' where m: "purge_media (local_storage env) now gone ?d1 s = (Inr (length gone,
      ?d1\<lparr>event_evidence_rows := tupd (\<lambda>r. ev_id r \<in> ev_id ` set gone) (mark_deleted now) (event_evidence_rows ?d1)\<rparr>), s')"
    "\<forall>k. local_key_ok k \<longrightarrow> local_view env s' k = (if \<exists>ev \<in> set gone. ev_storage_key ev = Some k then None else local_view env s k)"
    using local_files.purge_media_ok [OF inv, of gone now ?d1] keys sub by (fastforce simp: local_files.keys_ok_def)
  have rows: "tupd (\<lambda>r. ev_id r \<in> ev_id ` set gone) (mark_deleted now) (event_evidence_rows d) =
      tupd (\<lambda>r. r \<in> set gone) (mark_deleted now) (event_evidence_rows d)"
    using ids sub by (intro tupd_cong_set) (auto simp: keys_distinct_def distinct_map inj_on_def)
  have run: "purge_organization (local_storage env) now org d s = (Inr (t, length gone),
      (let d2 = ?d1\<lparr>event_evidence_rows := tupd (\<lambda>r. r \<in> set gone) (mark_deleted now) (event_evidence_rows d)\<rparr>
       in if length gone = 0 then d2
          else record_audit (privacy_system_context org) ''retention.evidence_media_purged'' ''organization'' (Some org) None d2), s')"
    using assms(2) b m(1) rows unfolding purge_organization_def assms(3) [symmetric] assms(4,5) purged_media_def
    by (simp add: Let_def assms(3))
  have "\<exists>audits. (let d2 = ?d1\<lparr>event_evidence_rows := rows\<rparr> in if c then d2 else record_audit ctx a rt ri oid d2) =
      d\<lparr>telemetry_points := points, audit_logs := audit_logs d @ audits, event_evidence_rows := rows\<rparr> \<and>
      length audits \<le> 1" for rows c ctx a rt ri oid
    by (rule exI [of _ "if c then [] else drop (length (audit_logs d)) (audit_logs (record_audit ctx a rt ri oid d))"])
      (simp add: record_audit_def)
  then obtain audits where a: "(let d2 = ?d1\<lparr>event_evidence_rows := tupd (\<lambda>r. r \<in> set gone) (mark_deleted now) (event_evidence_rows d)\<rparr>
      in if length gone = 0 then d2
         else record_audit (privacy_system_context org) ''retention.evidence_media_purged'' ''organization'' (Some org) None d2) =
      d\<lparr>telemetry_points := points, audit_logs := audit_logs d @ audits,
        event_evidence_rows := tupd (\<lambda>r. r \<in> set gone) (mark_deleted now) (event_evidence_rows d)\<rparr>" "length audits \<le> 1"
    by blast
  show ?thesis
    by (intro exI conjI, rule run [unfolded a(1)], rule refl) (use spec m(2) a(2) in simp_all)
qed

subsection \<open>The life of a request\<close>

text \<open>A request without the key of its artifact, which the purge clears.\<close>

definition request_core :: "privacy_request \<Rightarrow> privacy_request" where
  "request_core r = r\<lparr>pr_artifact_key := None\<rparr>"

fun request_arrow :: "privacy_status \<Rightarrow> privacy_status \<Rightarrow> bool" where
  "request_arrow PrPending q = (q \<in> {PrProcessing, PrCanceled})"
| "request_arrow PrProcessing q = (q \<in> {PrProcessing, PrPending, PrCompleted, PrFailed})"
| "request_arrow _ q = False"

definition moves :: "privacy_request \<Rightarrow> privacy_request \<Rightarrow> bool" where
  "moves r r' \<longleftrightarrow> pr_id r' = pr_id r \<and> request_key r' = request_key r \<and>
     (request_core r' = request_core r \<or> request_arrow (pr_status r) (pr_status r'))"

definition request_change :: "db \<Rightarrow> db \<Rightarrow> bool" where
  "request_change d d' \<longleftrightarrow> next_id d \<le> next_id d' \<and>
     ((\<exists>g. privacy_requests d' = map g (privacy_requests d) \<and> (\<forall>r \<in> set (privacy_requests d). moves r (g r))) \<or>
      (\<exists>r. privacy_requests d' = privacy_requests d @ [r] \<and> pr_id r = next_id d \<and> next_id d' = Suc (next_id d) \<and>
           privacy_constraints d'))"

definition requests_inv :: "db \<times> 's \<Rightarrow> bool" where
  "requests_inv w \<longleftrightarrow> ids_ok pr_id (next_id (fst w)) (privacy_requests (fst w)) \<and> privacy_constraints (fst w)"

definition get_request :: "db \<times> 's \<Rightarrow> uuid \<Rightarrow> privacy_request option" where
  "get_request w i = map_option request_core (tget pr_id (privacy_requests (fst w)) i)"

text \<open>
  The steps: the two endpoints that change a request, the claim of the worker, the processing of a request
  (whatever its outcome, rolled back or not) and the purge. The processing of a request is one step, or,
  where it failed, the failure is recorded by a later step of its own while the request is still being
  processed. What a worker can do that outlives its lease (record the failure of a request that another
  worker has settled since) is not among the steps; see \<open>late_failure_reopens_request\<close>.
\<close>

inductive privacy_step :: "privacy_env \<Rightarrow> 's object_storage \<Rightarrow> db \<times> 's \<Rightarrow> db \<times> 's \<Rightarrow> bool" for env st where
  create: "create_request now ctx t kind subject i reason d = Inr (n, d') \<Longrightarrow> privacy_step env st (d, s) (d', s)"
| cancel: "cancel_request now ctx t i d = Inr (n, d') \<Longrightarrow> privacy_step env st (d, s) (d', s)"
| claim: "claim_requests limit locked now d = (is, d') \<Longrightarrow> privacy_step env st (d, s) (d', s)"
| process: "process_request env st now i d s = (r, d', s') \<Longrightarrow> privacy_step env st (d, s) (d', s')"
| failure: "record_failure now i e d = Inr d' \<Longrightarrow> tget pr_id (privacy_requests d) i = Some r \<Longrightarrow> pr_status r = PrProcessing \<Longrightarrow>
    privacy_step env st (d, s) (d', s)"
| purge: "purge_expired st now orgs d s = (stats, d', s') \<Longrightarrow> privacy_step env st (d, s) (d', s')"

lemma request_core_eq:
  assumes "request_core r' = request_core r"
  shows "pr_id r' = pr_id r" "request_key r' = request_key r" "active_request r' = active_request r" "pr_status r' = pr_status r"
proof -
  have "f r' = f r" if "\<And>x. f x = f (request_core x)" for f :: "privacy_request \<Rightarrow> 'b"
    using that assms by metis
  from this [of pr_id] this [of request_key] this [of active_request] this [of pr_status]
  show "pr_id r' = pr_id r" "request_key r' = request_key r" "active_request r' = active_request r" "pr_status r' = pr_status r"
    by (simp_all add: request_core_def request_key_def active_request_def)
qed

lemma moves_refl [simp]: "moves r r"
  by (simp add: moves_def)

lemma moves_core: "moves r r' \<Longrightarrow> request_core r2 = request_core r' \<Longrightarrow> moves r r2"
  using request_core_eq [of r2 r'] by (auto simp: moves_def)

lemma moves_active: "moves r r' \<Longrightarrow> active_request r' \<Longrightarrow> active_request r"
  using request_core_eq [of r' r] by (auto simp: moves_def active_request_def elim: request_arrow.elims)

lemma request_change_same: "privacy_requests d' = privacy_requests d \<Longrightarrow> next_id d \<le> next_id d' \<Longrightarrow> request_change d d'"
  by (auto simp: request_change_def intro!: exI [of _ "\<lambda>r. r"])

lemma request_change_tupd:
  assumes "privacy_requests d' = tupd p f (privacy_requests d)" "next_id d \<le> next_id d'"
    "\<And>r. r \<in> set (privacy_requests d) \<Longrightarrow> p r \<Longrightarrow> moves r (f r)"
  shows "request_change d d'"
  using assms by (auto simp: request_change_def tupd_def intro!: exI [of _ "\<lambda>r. if p r then f r else r"])

lemma request_change_inv:
  assumes "request_change d d'" "requests_inv (d, s)"
  shows "requests_inv (d', s')"
proof -
  have ids: "ids_ok pr_id (next_id d) (privacy_requests d)" and pc: "privacy_constraints d"
    using assms(2) by (simp_all add: requests_inv_def)
  consider (map) g where "privacy_requests d' = map g (privacy_requests d)" "\<forall>r \<in> set (privacy_requests d). moves r (g r)"
      "next_id d \<le> next_id d'"
    | (new) r where "privacy_requests d' = privacy_requests d @ [r]" "pr_id r = next_id d" "next_id d' = Suc (next_id d)"
      "privacy_constraints d'"
    using assms(1) by (auto simp: request_change_def)
  then show ?thesis
  proof cases
    case map
    have m: "privacy_requests d' = tupd (\<lambda>r. moves r (g r)) g (privacy_requests d)"
      using map(1,2) by (auto simp: tupd_def)
    have "unique_on active_request request_key (tupd (\<lambda>r. moves r (g r)) g (privacy_requests d))"
      using pc moves_active by (intro unique_on_tupd) (auto simp: privacy_constraints_def moves_def)
    moreover have keys: "map pr_id (map g (privacy_requests d)) = map pr_id (privacy_requests d)"
      using map(2) by (simp add: moves_def)
    have "ids_ok pr_id (next_id d) (privacy_requests d')"
      using ids map(2) unfolding map(1) ids_ok_def keys_distinct_def keys by (simp add: list_all_iff moves_def)
    ultimately show ?thesis
      using ids_ok_mono map(3) m by (auto simp: requests_inv_def privacy_constraints_def)
  next
    case new
    then show ?thesis
      using ids ids_ok_snoc by (simp add: requests_inv_def)
  qed
qed

lemma tget_map: "(\<And>r. r \<in> set rows \<Longrightarrow> key (g r) = key r) \<Longrightarrow> tget key (map g rows) i = map_option g (tget key rows i)"
  by (induction rows) auto

lemma request_change_row:
  assumes "request_change d d'" "requests_inv (d, s)" "get_request (d, s) i = Some c"
  shows "\<exists>c'. get_request (d', s') i = Some c' \<and>
    (c' = c \<or> request_arrow (pr_status c) (pr_status c'))"
proof -
  obtain r where r: "tget pr_id (privacy_requests d) i = Some r" "c = request_core r"
    using assms(3) by (auto simp: get_request_def)
  consider (map) g where "privacy_requests d' = map g (privacy_requests d)" "\<forall>r \<in> set (privacy_requests d). moves r (g r)"
    | (new) q where "privacy_requests d' = privacy_requests d @ [q]"
    using assms(1) by (auto simp: request_change_def)
  then show ?thesis
  proof cases
    case map
    have "tget pr_id (privacy_requests d') i = Some (g r)" "moves r (g r)"
      using map r(1) tget_SomeD [OF r(1)] by (simp_all add: tget_map moves_def)
    then show ?thesis
      using r(2) by (auto simp: get_request_def moves_def request_core_def)
  next
    case new
    then show ?thesis
      using r by (simp add: get_request_def tget_append)
  qed
qed

subsection \<open>What each operation does to the requests\<close>

lemma create_request_change: "create_request now ctx t kind subject i reason d = Inr (n, d') \<Longrightarrow> request_change d d'"
  by (auto simp: create_request_def bind_eq_Inr Let_def request_change_def audit_privacy_def record_audit_frame
      privacy_constraints_def new_request_def)

lemma cancel_request_change:
  assumes "requests_inv (d, s)" "cancel_request now ctx t i d = Inr (n, d')"
  shows "request_change d d'"
proof -
  obtain r where r: "tget pr_id (privacy_requests d) i = Some r" "pr_status r = PrPending"
    "d' = audit_privacy ctx ''privacy.request_canceled'' (pr_id r)
       (set_request (pr_id r) (\<lambda>q. q\<lparr>pr_status := PrCanceled, pr_completed_at := Some now\<rparr>) d)"
    using assms(2) by (auto simp: cancel_request_def load_request_def bind_eq_Inr split: option.splits if_splits)
  have ids: "ids_ok pr_id (next_id d) (privacy_requests d)"
    using assms(1) by (simp add: requests_inv_def)
  have "pr_status q = PrPending" if "q \<in> set (privacy_requests d)" "pr_id q = pr_id r" for q
    using ids_ok_get [OF ids r(1) that(1)] that(2) tget_SomeD [OF r(1)] r(2) by simp
  then show ?thesis
    unfolding r(3)
    by (intro request_change_tupd [of _ "\<lambda>q. pr_id q = pr_id r" "\<lambda>q. q\<lparr>pr_status := PrCanceled, pr_completed_at := Some now\<rparr>"])
      (auto simp: audit_privacy_def record_audit_frame set_request_def moves_def request_key_def)
qed

lemma claim_requests_change:
  assumes "requests_inv (d, s)" "claim_requests limit locked now d = (is, d')"
  shows "request_change d d'"
proof -
  have d': "privacy_requests d' = tupd (\<lambda>r. pr_id r \<in> set is) (claim_one now) (privacy_requests d)" "next_id d' = next_id d"
    and cl: "is = map pr_id (take limit (order_by pr_created_at (filter (due_request locked now) (privacy_requests d))))"
    using assms(2) by (auto simp: claim_requests_def Let_def)
  have "request_arrow (pr_status r) PrProcessing" if mem: "r \<in> set (privacy_requests d)" "pr_id r \<in> set is" for r
  proof -
    obtain q where "q \<in> set (order_by pr_created_at (filter (due_request locked now) (privacy_requests d)))" "pr_id q = pr_id r"
      using mem(2) unfolding cl by (auto dest: in_set_takeD)
    then have q: "q \<in> set (privacy_requests d)" "active_request q" "pr_id q = pr_id r"
      by (auto simp: due_request_def)
    then have "q = r"
      using mem(1) assms(1) by (auto simp: requests_inv_def ids_ok_def keys_distinct_def distinct_map inj_on_def)
    then show ?thesis
      using q(2) by (auto simp: active_request_def)
  qed
  then show ?thesis
    using d' by (intro request_change_tupd [OF d'(1)]) (auto simp: moves_def claim_one_def request_key_def)
qed

lemma enqueue_requests:
  "enqueue encrypt now q d = Inr (i, d') \<Longrightarrow> privacy_requests d' = privacy_requests d \<and> next_id d \<le> next_id d'"
  by (auto simp: enqueue_def bind_eq_Inr split: if_splits)

lemma notify_requests:
  "(if c then notify_export_ready env now r d else Inr d) = Inr d' \<Longrightarrow>
   privacy_requests d' = privacy_requests d \<and> next_id d \<le> next_id d'"
  by (auto simp: notify_export_ready_def bind_eq_Inr dest!: enqueue_requests split: if_splits option.splits)

lemma run_export_requests:
  assumes "run_export env st now r key d s = (Inr (counts, d'), s')"
  shows "\<exists>n t. privacy_requests d' = tupd (\<lambda>q. pr_id q = pr_id r) (\<lambda>q. q\<lparr>pr_artifact_key := Some key,
      pr_artifact_size_bytes := n, pr_artifact_expires_at := t\<rparr>) (privacy_requests d) \<and> next_id d \<le> next_id d'"
  using assms
  by (auto simp: run_export_def Let_def bind_eq_Inr set_request_def dest!: notify_requests split: sum.splits prod.splits)
    (intro exI, rule refl)+

lemma run_erasure_requests:
  assumes "run_erasure env st now r d s = (Inr (counts, d'), s')"
  shows "privacy_requests d' = privacy_requests d \<and> next_id d' = next_id d"
proof (cases "pr_subject_type r")
  case SubjDriver
  then show ?thesis
    using assms erase_evidence_frame
    by (fastforce simp: run_erasure_def erase_driver_def Let_def split: option.splits if_splits sum.splits prod.splits)
next
  case SubjUser
  then have e: "erase_user env now (pr_organization_id r) (pr_subject_id r) d = Inr (counts, d')"
    using assms by (simp add: run_erasure_def)
  then obtain u where u: "tget u_id (users d) (pr_subject_id r) = Some u"
    by (cases "tget u_id (users d) (pr_subject_id r)") (auto simp: erase_user_def bind_eq_Inr)
  show ?thesis
    using erase_user_Inr [OF e u] by (auto simp: erase_account_def leave_organization_def Let_def)
qed

lemma record_failure_change:
  assumes "requests_inv (d, s)" "record_failure now i e d = Inr d'" "tget pr_id (privacy_requests d) i = Some r"
    "pr_status r = PrProcessing"
  shows "request_change d d'"
proof -
  have ids: "ids_ok pr_id (next_id d) (privacy_requests d)"
    using assms(1) by (simp add: requests_inv_def)
  have "privacy_requests d' = tupd (\<lambda>q. pr_id q = i) (fail_request now e) (privacy_requests d)" "next_id d \<le> next_id d'"
    using assms(2,3) by (auto simp: record_failure_def Let_def bind_eq_Inr audit_privacy_def record_audit_frame set_request_def)
  moreover have "moves r (fail_request now e r)"
    using assms(4) by (simp add: moves_def fail_request_def Let_def request_key_def)
  ultimately show ?thesis
    using ids_ok_get [OF ids assms(3)] by (intro request_change_tupd [of d' "\<lambda>q. pr_id q = i" "fail_request now e"]) auto
qed

lemma process_request_change:
  assumes "requests_inv (d, s)" "process_request env st now i d s = (res, d', s')"
  shows "request_change d d'"
proof (cases "\<exists>r. tget pr_id (privacy_requests d) i = Some r \<and> pr_status r = PrProcessing")
  case True
  then obtain r where r: "tget pr_id (privacy_requests d) i = Some r" "pr_status r = PrProcessing" "pr_id r = i"
    using tget_SomeD by fastforce
  have ids: "ids_ok pr_id (next_id d) (privacy_requests d)"
    using assms(1) by (simp add: requests_inv_def)
  note only = ids_ok_get [OF ids r(1)]
  have upd: "request_change d d2" if "privacy_requests d2 = tupd (\<lambda>q. pr_id q = i) f (privacy_requests d)" "next_id d \<le> next_id d2"
    "moves r (f r)" for d2 f
    using that only by (intro request_change_tupd [OF that(1,2)]) auto
  note failed = record_failure_change [OF assms(1) _ r(1,2)]
  have settled: "request_change d d2" if "settle_failure now i e d s1 = (x, d2, s2)" for e s1 x d2 s2
    using that failed [of now e] request_change_same [of d d] by (auto simp: settle_failure_def split: sum.splits)
  show ?thesis
  proof (cases "attempt_request env st now r d s")
    case (Pair a s1)
    show ?thesis
    proof (cases a)
      case (Inl e)
      then show ?thesis
        using assms(2) r Pair settled request_change_same [of d d]
        by (auto simp: process_request_def split: sum.splits prod.splits exn.splits if_splits)
    next
      case (Inr b)
      obtain counts d1 where b: "a = Inr (counts, d1)"
        using Inr by (cases b) auto
      have d': "d' = finish_request now r counts d1"
        using assms(2) r Pair b by (simp add: process_request_def)
      have "\<exists>f. privacy_requests d1 = tupd (\<lambda>q. pr_id q = i) f (privacy_requests d) \<and> (\<forall>q. pr_id (f q) = pr_id q \<and>
          request_key (f q) = request_key q) \<and> next_id d \<le> next_id d1"
      proof (cases "pr_kind r = PrivExport")
        case True
        then show ?thesis
          using Pair b r(3) run_export_requests [of env st now r "export_object_key (pr_organization_id r) (pr_id r)" d s counts d1 s1]
          by (auto simp: attempt_request_def request_key_def)
      next
        case False
        then show ?thesis
          using Pair b run_erasure_requests [of env st now r d s counts d1 s1]
          by (auto simp: attempt_request_def intro!: exI [of _ "\<lambda>q. q"])
      qed
      then obtain f where f: "privacy_requests d1 = tupd (\<lambda>q. pr_id q = i) f (privacy_requests d)"
        "\<And>q. pr_id (f q) = pr_id q \<and> request_key (f q) = request_key q" "next_id d \<le> next_id d1"
        by blast
      let ?done = "\<lambda>q. q\<lparr>pr_status := PrCompleted, pr_result := counts, pr_error_code := None, pr_completed_at := Some now\<rparr>"
      have "privacy_requests d' = tupd (\<lambda>q. pr_id q = i) (\<lambda>q. ?done (f q)) (privacy_requests d)"
        using f(1,2) r(3) unfolding d'
        by (simp add: finish_request_def audit_privacy_def record_audit_frame set_request_def tupd_def)
      moreover have "next_id d \<le> next_id d'"
        using f(3) unfolding d' by (simp add: finish_request_def audit_privacy_def record_audit_frame set_request_def)
      moreover have "moves r (?done (f r))"
        using f(2) [of r] r(2) by (simp add: moves_def request_key_def)
      ultimately show ?thesis
        using upd [of d' "\<lambda>q. ?done (f q)"] by blast
    qed
  qed
next
  case False
  then show ?thesis
    using assms(2) request_change_same [of d d] by (auto simp: process_request_def split: option.splits)
qed

lemma purge_media_frame: "purge_media st now rows d s = (Inr (n, d'), s') \<Longrightarrow> \<exists>evs. d' = d\<lparr>event_evidence_rows := evs\<rparr>"
proof (induction rows arbitrary: d s n d' s')
  case Nil
  then show ?case
    by (auto intro: exI [of _ "event_evidence_rows d"])
next
  case (Cons ev rows)
  obtain s1 where "(case ev_storage_key ev of None \<Rightarrow> (Inr (), s) | Some k \<Rightarrow> os_delete st k s) = (Inr (), s1)"
    using Cons.prems by (auto split: sum.splits prod.splits)
  then obtain m where "purge_media st now rows (set_evidence (ev_id ev) (mark_deleted now) d) s1 = (Inr (m, d'), s')"
    using Cons.prems by (auto split: sum.splits prod.splits)
  from Cons.IH [OF this] show ?case
    by (auto simp: set_evidence_def)
qed

lemma purge_organization_requests:
  "purge_organization st now org d s = (res, d', s') \<Longrightarrow> privacy_requests d' = privacy_requests d \<and> next_id d' = next_id d"
  by (auto simp: purge_organization_def Let_def record_audit_frame dest!: purge_media_frame split: sum.splits prod.splits if_splits)

lemma purge_organizations_requests:
  "purge_organizations st now orgs d s = (res, d', s') \<Longrightarrow> privacy_requests d' = privacy_requests d \<and> next_id d' = next_id d"
proof (induction orgs arbitrary: d s res d' s')
  case (Cons org orgs)
  obtain r1 d1 s1 where 1: "purge_organization st now org d s = (r1, d1, s1)"
    by (metis prod.exhaust)
  obtain r2 d2 s2 where 2: "purge_organizations st now orgs d1 s1 = (r2, d2, s2)"
    by (metis prod.exhaust)
  show ?case
    using Cons.prems 1 2 purge_organization_requests [OF 1] Cons.IH [OF 2]
    by (auto split: sum.splits prod.splits)
qed auto

lemma purge_artifacts_requests:
  "purge_artifacts st rows d s = (Inr (n, d'), s') \<Longrightarrow> next_id d' = next_id d \<and>
   (\<exists>g. privacy_requests d' = map g (privacy_requests d) \<and> (\<forall>r. request_core (g r) = request_core r))"
proof (induction rows arbitrary: d s n d' s')
  case Nil
  then show ?case
    by (auto intro: exI [of _ "\<lambda>r. r"])
next
  case (Cons r rows)
  let ?f = "\<lambda>q. if pr_id q = pr_id r then q\<lparr>pr_artifact_key := None\<rparr> else q"
  obtain s1 m where "purge_artifacts st rows (set_request (pr_id r) (\<lambda>q. q\<lparr>pr_artifact_key := None\<rparr>) d) s1 = (Inr (m, d'), s')"
    using Cons.prems by (auto split: sum.splits prod.splits)
  from Cons.IH [OF this] obtain g where g: "next_id d' = next_id d" "privacy_requests d' = map g (map ?f (privacy_requests d))"
    "\<forall>r. request_core (g r) = request_core r"
    by (auto simp: set_request_def tupd_def)
  then show ?case
    by (auto simp: request_core_def intro!: exI [of _ "\<lambda>q. g (?f q)"])
qed

lemma purge_expired_change:
  assumes "purge_expired st now orgs d s = (res, d', s')"
  shows "request_change d d'"
proof -
  obtain r1 d1 s1 where 1: "purge_organizations st now
      (filter (\<lambda>i. case orgs of None \<Rightarrow> True | Some is \<Rightarrow> i \<in> set is) (map org_id (organizations d))) d s = (r1, d1, s1)"
    by (metis prod.exhaust)
  note o = purge_organizations_requests [OF 1]
  consider "privacy_requests d' = privacy_requests d1 \<and> next_id d' = next_id d1"
    | n d2 s2 where "purge_artifacts st (filter (expired_artifact now) (privacy_requests d1)) d1 s1 = (Inr (n, d2), s2)"
      "privacy_requests d' = privacy_requests d2 \<and> next_id d' = next_id d2"
    using assms 1
    by (auto simp: purge_expired_def Let_def purge_logs_def split: sum.splits prod.splits if_splits)
  then show ?thesis
  proof cases
    case 1
    then show ?thesis
      using o by (simp add: request_change_same)
  next
    case 2
    then show ?thesis
      using purge_artifacts_requests [OF 2(1)] o moves_core [OF moves_refl] by (auto simp: request_change_def)
  qed
qed

inductive_cases privacy_stepE: "privacy_step env st w w'"

lemma privacy_step_change:
  assumes "privacy_step env st w w'" "requests_inv w"
  shows "request_change (fst w) (fst w')"
  using assms
  by (cases rule: privacy_step.cases)
    (simp_all add: create_request_change cancel_request_change claim_requests_change process_request_change
      record_failure_change purge_expired_change)

interpretation privacy_life: lifecycle get_request requests_inv "privacy_step env st" pr_status request_arrow
    "\<lambda>q. q \<notin> {PrPending, PrProcessing}"
  for env and st :: "'s object_storage"
proof
  fix w w' :: "db \<times> 's" and i c
  assume step: "privacy_step env st w w'" and inv: "requests_inv w"
  have row: "get_request w i = Some c \<Longrightarrow> \<exists>c'. get_request w' i = Some c' \<and> (c' = c \<or> request_arrow (pr_status c) (pr_status c'))"
    using request_change_row [OF privacy_step_change [OF step inv], of "snd w" i c "snd w'"] inv by simp
  show "requests_inv w'"
    using request_change_inv [OF privacy_step_change [OF step inv], of "snd w" "snd w'"] inv by simp
  show "get_request w i = Some c \<Longrightarrow> \<exists>c'. get_request w' i = Some c' \<and> (pr_status c' = pr_status c \<or> request_arrow (pr_status c) (pr_status c'))"
    using row by blast
  show "get_request w i = Some c \<Longrightarrow> pr_status c \<notin> {PrPending, PrProcessing} \<Longrightarrow> get_request w' i = Some c"
    using row by (auto elim: request_arrow.elims)
qed

text \<open>
  C23: along any sequence of requests to the endpoints, claims, processings, recorded failures and purges in
  which the attempts at one request do not overlap (an attempt takes effect as one step, and a failure is
  recorded only while the request is still being processed): each subject has at most one active request of a
  kind, a request only moves along its state machine, and one that is completed, failed or canceled never
  changes again, apart from the artifact that expires. The code does not enforce the condition: a worker that
  outlives its lease can break it, and a settled request is then opened again, see
  \<open>late_failure_reopens_request\<close>.
\<close>

theorem settled_request_is_final:
  assumes "(privacy_step env st)\<^sup>*\<^sup>* (d, s) (d', s')" "requests_inv (d, s)" "tget pr_id (privacy_requests d) i = Some r"
  shows "privacy_constraints d' \<and> (\<exists>r'. tget pr_id (privacy_requests d') i = Some r' \<and>
    request_arrow\<^sup>*\<^sup>* (pr_status r) (pr_status r') \<and> (\<not> active_request r \<longrightarrow> request_core r' = request_core r))"
proof -
  have get: "get_request (d, s) i = Some (request_core r)" "pr_status (request_core r) = pr_status r"
    using assms(3) by (simp_all add: get_request_def request_core_def)
  obtain c' where c': "get_request (d', s') i = Some c'" "request_arrow\<^sup>*\<^sup>* (pr_status r) (pr_status c')"
    using privacy_life.run_row [OF assms(1,2) get(1)] get(2) by auto
  then obtain r' where r': "tget pr_id (privacy_requests d') i = Some r'" "c' = request_core r'"
    by (auto simp: get_request_def)
  have "request_core r' = request_core r" if "\<not> active_request r"
    using privacy_life.run_final [OF assms(1,2) get(1)] that c'(1) r'(2) get(2) by (auto simp: active_request_def)
  then show ?thesis
    using privacy_life.run_inv [OF assms(1,2)] r' c'(2) by (auto simp: requests_inv_def request_core_def)
qed

subsection \<open>Failures\<close>

lemma retry_delay_bounds: "minutes 1 \<le> retry_delay n \<and> retry_delay n \<le> hours 1"
proof -
  have "(1::int) \<le> 2 ^ nat (max 0 (n - 1))"
    by simp
  then show ?thesis
    by (simp add: retry_delay_def minutes_def hours_def)
qed

text \<open>
  A failed attempt: a claim and the failure it ends in, for an error that is worth another try (the permanent
  failures stand for none of their own kind here).
\<close>

definition retryable :: "exn \<Rightarrow> exn" where
  "retryable e = (case e of PermanentFailure c \<Rightarrow> PyRuntimeError c | _ \<Rightarrow> e)"

definition fail_attempt :: "exn \<Rightarrow> instant \<Rightarrow> privacy_request \<Rightarrow> privacy_request" where
  "fail_attempt e now r = fail_request now (retryable e) (claim_one now r)"

lemma retryable_not_permanent [simp]: "retryable e \<noteq> PermanentFailure c"
  by (simp add: retryable_def split: exn.split)

lemma fail_request_id: "pr_id (fail_request now e r) = pr_id r"
  by (simp add: fail_request_def Let_def)

lemma fail_request_retryable:
  "fail_request now (retryable e) r =
     (if max_privacy_attempts \<le> pr_attempts r
      then r\<lparr>pr_error_code := Some (exn_name (retryable e)), pr_status := PrFailed, pr_completed_at := Some now\<rparr>
      else r\<lparr>pr_error_code := Some (exn_name (retryable e)), pr_status := PrPending,
             pr_next_attempt_at := now + retry_delay (pr_attempts r)\<rparr>)"
  by (auto simp: fail_request_def Let_def split: exn.split)

interpretation privacy_retry: retry_queue pr_attempts "\<lambda>_. max_privacy_attempts" "\<lambda>r. pr_status r = PrFailed"
    pr_next_attempt_at "fail_attempt e" "hours 1"
  for e
proof
  fix r now
  have "0 < retry_delay n" "retry_delay n \<le> hours 1" for n
    using retry_delay_bounds [of n] by (simp_all add: minutes_def)
  then show "pr_status r \<noteq> PrFailed \<Longrightarrow> 0 \<le> pr_attempts r \<Longrightarrow> pr_attempts r + 1 < max_privacy_attempts \<Longrightarrow>
      now < pr_next_attempt_at (fail_attempt e now r) \<and> pr_next_attempt_at (fail_attempt e now r) \<le> now + hours 1"
    by (simp add: fail_attempt_def fail_request_retryable claim_one_def)
qed (simp_all add: fail_attempt_def fail_request_retryable claim_one_def)

text \<open>A request whose attempts all fail is given up at the fifth, and never waits longer than an hour before.\<close>

lemma failing_request_ends:
  assumes "pr_status r = PrPending" "pr_attempts r = 0" "length ts \<le> 5" "ts \<noteq> []"
  shows "pr_status (fold (fail_attempt e) ts r) = PrFailed \<longleftrightarrow> length ts = 5"
    "length ts < 5 \<Longrightarrow> pr_next_attempt_at (fold (fail_attempt e) ts r) \<le> last ts + hours 1"
  using privacy_retry.dies_at_last_attempt [of r ts e] privacy_retry.next_attempt_bounded [of r ts e] assms
  by (auto simp: max_privacy_attempts_def)

lemma unique_on_replace:
  assumes "unique_on p key rows" "keys_distinct i rows" "\<forall>q \<in> set rows. p q \<longrightarrow> key q \<noteq> key r"
  shows "unique_on p key (tupd (\<lambda>q. i q = n) (\<lambda>_. r) rows)"
  using assms
proof (induction rows)
  case (Cons a rows)
  have IH: "unique_on p key (tupd (\<lambda>q. i q = n) (\<lambda>_. r) rows)"
    using Cons by (auto simp: unique_on_def keys_distinct_def split: if_splits)
  have other: "tupd (\<lambda>q. i q = n) (\<lambda>_. r) rows = rows" if "i a = n"
    using Cons.prems(2) that by (intro tupd_id) (auto simp: keys_distinct_def, metis image_eqI)
  have head: "p a \<Longrightarrow> key a \<notin> key ` {q \<in> set rows. p q}"
    using Cons.prems(1) by (auto simp: unique_on_def)
  show ?case
  proof (cases "i a = n")
    case True
    then show ?thesis
      using IH Cons.prems(3) other by (auto simp: unique_on_def)
  next
    case False
    have "p a \<Longrightarrow> key a \<notin> key ` {q \<in> set (tupd (\<lambda>q. i q = n) (\<lambda>_. r) rows). p q}"
      using head Cons.prems(3) by (auto simp: set_tupd split: if_splits)
    then show ?thesis
      using IH False by (auto simp: unique_on_def)
  qed
qed simp

text \<open>
  A failure that is recorded late undoes a completed request: \<open>record_failure\<close> does not look at the
  status, so when the lease of a worker ran out, another worker completed the request and the first one then
  fails, the request is pending again, with the result and the day of its completion still in place, and is
  due again within the hour: an erasure or an export runs a second time.
\<close>

theorem late_failure_reopens_request:
  assumes "requests_inv (d, s)" "tget pr_id (privacy_requests d) i = Some r" "pr_status r = PrCompleted"
    "pr_attempts r < max_privacy_attempts"
    "list_all (\<lambda>q. active_request q \<longrightarrow> request_key q \<noteq> request_key r) (privacy_requests d)"
  shows "\<exists>d' r'. record_failure now i (retryable e) d = Inr d' \<and> tget pr_id (privacy_requests d') i = Some r' \<and>
    pr_status r' = PrPending \<and> pr_completed_at r' = pr_completed_at r \<and> pr_result r' = pr_result r \<and>
    (\<forall>t \<ge> now + hours 1. due_request [] t r')"
proof -
  have ids: "ids_ok pr_id (next_id d) (privacy_requests d)" and pc: "privacy_constraints d"
    using assms(1) by (simp_all add: requests_inv_def)
  have i: "pr_id r = i"
    using tget_SomeD [OF assms(2)] by simp
  let ?r = "fail_request now (retryable e) r"
  let ?d = "set_request i (fail_request now (retryable e)) d"
  have r': "?r = r\<lparr>pr_error_code := Some (exn_name (retryable e)), pr_status := PrPending,
      pr_next_attempt_at := now + retry_delay (pr_attempts r)\<rparr>"
    using assms(4) by (simp add: fail_request_retryable)
  have "privacy_requests ?d = tupd (\<lambda>q. pr_id q = i) (\<lambda>_. ?r) (privacy_requests d)"
    using ids_ok_get [OF ids assms(2)] by (auto simp: set_request_def tupd_def)
  moreover have "unique_on active_request request_key (tupd (\<lambda>q. pr_id q = i) (\<lambda>_. ?r) (privacy_requests d))"
    using pc ids assms(5) i by (intro unique_on_replace) (auto simp: privacy_constraints_def ids_ok_def list_all_iff r' request_key_def)
  ultimately have "privacy_constraints ?d"
    by (simp add: privacy_constraints_def)
  moreover have "pr_status ?r = PrPending"
    by (simp add: r')
  ultimately have "record_failure now i (retryable e) d = Inr ?d"
    using assms(2) by (simp add: record_failure_def Let_def)
  moreover have "tget pr_id (privacy_requests ?d) i = Some ?r"
    using assms(2) i by (simp add: set_request_def tget_tupd fail_request_id)
  moreover have "due_request [] t ?r" if "now + hours 1 \<le> t" for t
    using that retry_delay_bounds [of "pr_attempts r"] by (simp add: r' due_request_def active_request_def)
  ultimately show ?thesis
    by (auto simp: r')
qed

subsection \<open>Examples\<close>

text \<open>An organization on the catalog's trial plan with an old and a new position, and two requests of a member.\<close>

definition old_position :: "uuid \<Rightarrow> instant \<Rightarrow> telemetry_point" where
  "old_position i t = \<lparr>tp_id = i, tp_occurred_at = t, tp_organization_id = 7, tp_trip_id = None, tp_vehicle_id = 4,
     tp_driver_id = None, tp_latitude = 41, tp_longitude = 29, tp_speed_kph = None, tp_heading_deg = None,
     tp_acceleration_ms2 = None, tp_lateral_acceleration_ms2 = None, tp_quality = 1\<rparr>"

definition privacy_db :: db where
  "privacy_db = available_db\<lparr>
     organization_settings_rows := [\<lparr>os_organization_id = 7, os_timezone = ''UTC'', os_currency = ''TRY'', os_risk_thresholds = [],
       os_retention = [], os_security = []\<rparr>],
     plans := plan_catalog, telemetry_points := [old_position 5 0, old_position 6 (days 399)],
     memberships := [new_membership 0 8 9 7 RCoach], next_id := 10\<rparr>"

definition owner_context :: request_context where
  "owner_context = system_context\<lparr>c_user_id := Some 5, c_organization_id := Some 7, c_role := Some ROwner\<rparr>"

theorem retention_within_plan_witness:
  "\<exists>v d'. put_retention 0 owner_context (Some 30) None privacy_db = Inr (v, d') \<and>
     in_force (rv_plan_days v) (Some 30) (rp_telemetry_days (rv_effective v))"
proof -
  have "\<not> isl (put_retention 0 owner_context (Some 30) None privacy_db)"
    by code_simp
  then obtain v d' where p: "put_retention 0 owner_context (Some 30) None privacy_db = Inr (v, d')"
    by (cases "put_retention 0 owner_context (Some 30) None privacy_db") auto
  show ?thesis
    using retention_within_plan [OF p] p by blast
qed

lemma privacy_db_evidence: "local_inv toy_env s \<Longrightarrow> evidence_inv toy_env (privacy_db, s)"
  using example_rows(2,3)
  by (simp add: evidence_inv_def privacy_db_def available_db_def ids_ok_def keys_distinct_def set_status_def)

lemma privacy_db_entitled: "\<exists>e. get_entitlements (days 400) 7 privacy_db = Inr e \<and> en_retention_days e = 90"
proof -
  have "case get_entitlements (days 400) 7 privacy_db of Inl _ \<Rightarrow> False | Inr e \<Rightarrow> en_retention_days e = 90"
    by code_simp
  then show ?thesis
    by (cases "get_entitlements (days 400) 7 privacy_db") auto
qed

theorem purge_deletes_the_expired_witness:
  "\<exists>s d' s'. local_view toy_env s (evidence_object_key 7 3) = Some (png_body, Some ''image/png'') \<and>
     purge_organization (local_storage toy_env) (days 400) 7 privacy_db s = (Inr (1, 1), d', s') \<and>
     local_view toy_env s' (evidence_object_key 7 3) = None"
proof -
  obtain s where s: "local_inv toy_env s" "local_view toy_env s (evidence_object_key 7 3) = Some (png_body, Some ''image/png'')"
    using example_png .
  obtain e where e: "get_entitlements (days 400) 7 privacy_db = Inr e" "en_retention_days e = 90"
    using privacy_db_entitled by blast
  let ?policy = "resolve_retention (en_retention_days e) (raw_retention 7 privacy_db)"
  let ?old = "expired_point 7 (days 400 - days (rp_telemetry_days ?policy))"
  have pol: "rp_telemetry_days ?policy = 90" "rp_evidence_media_days ?policy = 90"
    using e(2) by (simp_all add: raw_retention_def org_settings_of_def privacy_db_def resolve_retention_def pick_days_def dget_def)
  have gone: "purged_media 7 ?policy (days 400) privacy_db = [set_status EvAvailable slot_row]"
    unfolding purged_media_def pol
    by (simp add: privacy_db_def available_db_def expired_media_def slot_row_def new_upload_def set_status_def
        evidence_purge_batch_def days_def)
  have old: "count_rows ?old (telemetry_points privacy_db) = 1"
    unfolding pol by (simp add: privacy_db_def expired_point_def old_position_def days_def)
  show ?thesis
    using purge_deletes_the_expired [OF privacy_db_evidence [OF s(1)] e(1) refl refl gone [symmetric]] s(2) old
      evidence_key_ok [of 7 3] example_rows(6)
    by (auto simp: set_status_def)
qed

definition asked_db :: db where
  "asked_db = privacy_db\<lparr>privacy_requests := [new_request 0 owner_context 7 PrivExport SubjUser 9 None 8]\<rparr>"

lemma asked_inv: "requests_inv (asked_db, s)"
  by (simp add: requests_inv_def asked_db_def privacy_db_def new_request_def ids_ok_def keys_distinct_def
      privacy_constraints_def unique_on_def)

theorem settled_request_is_final_witness:
  "\<exists>d r r'. cancel_request 5 owner_context 7 8 asked_db = Inr (8, d) \<and> tget pr_id (privacy_requests d) 8 = Some r \<and>
     pr_status r = PrCanceled \<and> tget pr_id (privacy_requests (snd (claim_requests 5 [] (days 1) d))) 8 = Some r' \<and>
     request_core r' = request_core r"
proof -
  have "case cancel_request 5 owner_context 7 8 asked_db of Inl _ \<Rightarrow> False
      | Inr (n, d) \<Rightarrow> n = 8 \<and> map_option pr_status (tget pr_id (privacy_requests d) 8) = Some PrCanceled"
    by code_simp
  then obtain d r where d: "cancel_request 5 owner_context 7 8 asked_db = Inr (8, d)" "tget pr_id (privacy_requests d) 8 = Some r"
    "pr_status r = PrCanceled"
    by (cases "cancel_request 5 owner_context 7 8 asked_db") auto
  have inv: "requests_inv (d, ())"
    using request_change_inv [OF cancel_request_change [OF asked_inv d(1)] asked_inv] .
  obtain ids d' where c: "claim_requests 5 [] (days 1) d = (ids, d')"
    by fastforce
  have "(privacy_step env st)\<^sup>*\<^sup>* (d, ()) (d', ())" for env st
    by (rule r_into_rtranclp, rule privacy_step.claim, rule c)
  from settled_request_is_final [OF this inv d(2)]
  show ?thesis
    using d c by (auto simp: active_request_def)
qed

definition done_db :: db where
  "done_db = asked_db\<lparr>privacy_requests := [(new_request 0 owner_context 7 PrivExport SubjUser 9 None 8)
     \<lparr>pr_status := PrCompleted, pr_attempts := 2, pr_completed_at := Some 3\<rparr>]\<rparr>"

theorem late_failure_reopens_request_witness:
  "\<exists>d' r'. record_failure 9 8 StorageError done_db = Inr d' \<and> tget pr_id (privacy_requests d') 8 = Some r' \<and>
     pr_status r' = PrPending \<and> pr_completed_at r' = Some 3"
proof -
  let ?r = "(new_request 0 owner_context 7 PrivExport SubjUser 9 None 8)
     \<lparr>pr_status := PrCompleted, pr_attempts := 2, pr_completed_at := Some 3\<rparr>"
  have inv: "requests_inv (done_db, ())"
    by (simp add: requests_inv_def done_db_def asked_db_def privacy_db_def new_request_def ids_ok_def keys_distinct_def
        privacy_constraints_def unique_on_def)
  have r: "tget pr_id (privacy_requests done_db) 8 = Some ?r" "pr_status ?r = PrCompleted" "pr_attempts ?r < max_privacy_attempts"
    "list_all (\<lambda>q. active_request q \<longrightarrow> request_key q \<noteq> request_key ?r) (privacy_requests done_db)"
    by (simp_all add: done_db_def new_request_def max_privacy_attempts_def active_request_def)
  show ?thesis
    using late_failure_reopens_request [OF inv r, of 9 StorageError] by (auto simp: retryable_def)
qed

end
