(* ===== verification/Access.thy ===== *)
theory Access
  imports AccountSecurity RateLimit "HOL-Library.Countable"
begin

section \<open>Access tokens, the request context and the guards of the endpoints\<close>

text \<open>
  \<^verbatim>\<open>infrastructure/security/tokens.py\<close> (the JWT service), \<^verbatim>\<open>api/deps.py\<close> and the member and security
  endpoints of \<^verbatim>\<open>api/routers/v1/organizations.py\<close>. The JWT library is the parameter \<open>jwt_env\<close>: \<open>jw_encode\<close>
  signs a payload, \<open>jw_kid\<close> reads the key id of an unverified header, \<open>jw_decode\<close> checks signature, issuer,
  audience and times. Sessions of the database are left out: an endpoint is a function on \<open>db\<close> whose
  result is committed exactly when it is \<open>Inr\<close>. A missing header is the empty string.
\<close>

subsection \<open>The JWT service\<close>

record jwt_payload =
  jp_iss :: string
  jp_aud :: string
  jp_sub :: uuid
  jp_iat :: instant
  jp_nbf :: instant
  jp_exp :: instant
  jp_jti :: string
  jp_org :: "uuid option"
  jp_role :: "string option"
  jp_platform_admin :: bool

record jwt_env =
  jw_issuer :: string
  jw_audience :: string
  jw_ttl :: duration
  jw_encode :: "string \<Rightarrow> jwt_payload \<Rightarrow> string"
  jw_kid :: "string \<Rightarrow> string option"
  jw_decode :: "string \<Rightarrow> string \<Rightarrow> instant \<Rightarrow> string \<Rightarrow> jwt_payload option"

definition jwt_key_id :: string where
  "jwt_key_id = ''visionroute-2026-01''"

definition issue_access_token ::
    "jwt_env \<Rightarrow> instant \<Rightarrow> string \<Rightarrow> uuid \<Rightarrow> uuid option \<Rightarrow> string option \<Rightarrow> bool \<Rightarrow> string" where
  "issue_access_token env now jti user_id organization_id role is_platform_admin =
     jw_encode env jwt_key_id
       \<lparr>jp_iss = jw_issuer env, jp_aud = jw_audience env, jp_sub = user_id, jp_iat = now, jp_nbf = now,
        jp_exp = now + jw_ttl env, jp_jti = jti, jp_org = organization_id, jp_role = role,
        jp_platform_admin = is_platform_admin\<rparr>"

record access_claims =
  cl_user_id :: uuid
  cl_organization_id :: "uuid option"
  cl_role :: "string option"
  cl_is_platform_admin :: bool
  cl_jti :: string
  cl_issued_at :: instant

text \<open>\<open>None\<close> is \<^verbatim>\<open>TokenError\<close>.\<close>

definition verify_access_token :: "jwt_env \<Rightarrow> instant \<Rightarrow> string \<Rightarrow> access_claims option" where
  "verify_access_token env now token =
     (if jw_kid env token \<noteq> Some jwt_key_id then None
      else map_option (\<lambda>p. \<lparr>cl_user_id = jp_sub p, cl_organization_id = jp_org p, cl_role = jp_role p,
             cl_is_platform_admin = jp_platform_admin p, cl_jti = jp_jti p, cl_issued_at = jp_iat p\<rparr>)
             (jw_decode env (jw_issuer env) (jw_audience env) now token))"

subsection \<open>The access state of the database\<close>

fun py_bool :: "pyval \<Rightarrow> bool" where
  "py_bool PNone = False"
| "py_bool (PBool b) = b"
| "py_bool (PInt n) = (n \<noteq> 0)"
| "py_bool (PFloat x) = (x \<noteq> 0)"
| "py_bool (PStr s) = (s \<noteq> [])"
| "py_bool (PList vs) = (vs \<noteq> [])"
| "py_bool (PDict kv) = (kv \<noteq> [])"

definition mfa_required :: "pydict \<Rightarrow> bool" where
  "mfa_required security = (case dget security ''mfa_required'' of None \<Rightarrow> False | Some v \<Rightarrow> py_bool v)"

record access_state =
  as_role :: "role_key option"
  as_is_platform_admin :: bool
  as_email_verified :: bool
  as_mfa_enabled :: bool
  as_mfa_required :: bool

definition session_revoked :: exn where
  "session_revoked = UnauthorizedError ''SESSION_REVOKED''"

definition access_rows :: "uuid \<Rightarrow> uuid \<Rightarrow> db \<Rightarrow> (role_key \<times> pydict) list" where
  "access_rows user_id org d =
     map (\<lambda>m. (m_role_key m, case tget os_organization_id (organization_settings_rows d) (m_organization_id m) of
                               None \<Rightarrow> [] | Some s \<Rightarrow> os_security s))
       (filter (\<lambda>m. m_user_id m = user_id \<and> m_organization_id m = org \<and> m_status m = MemActive) (memberships d))"

definition authoritative_access :: "access_claims \<Rightarrow> db \<Rightarrow> access_state result" where
  "authoritative_access cl d =
     (case tget u_id (users d) (cl_user_id cl) of
        None \<Rightarrow> Inl session_revoked
      | Some u \<Rightarrow>
          bind (raise_if (u_status u \<noteq> UserActive) session_revoked) (\<lambda>_.
          bind (raise_if (case u_sessions_revoked_at u of None \<Rightarrow> False | Some t \<Rightarrow> cl_issued_at cl < t) session_revoked) (\<lambda>_.
          bind (case cl_organization_id cl of
                  None \<Rightarrow> Inr (None, False)
                | Some org \<Rightarrow>
                    bind (one_or_none (access_rows (cl_user_id cl) org d)) (\<lambda>row. case row of
                      None \<Rightarrow> Inl session_revoked
                    | Some (role, security) \<Rightarrow> Inr (Some role, mfa_required security))) (\<lambda>(role, required).
            Inr \<lparr>as_role = role,
                 as_is_platform_admin = (cl_is_platform_admin cl \<and> u_platform_role u = Some SuperAdmin),
                 as_email_verified = (u_email_verified_at u \<noteq> None),
                 as_mfa_enabled = (u_mfa_enabled_at u \<noteq> None), as_mfa_required = required\<rparr>))))"

subsection \<open>The context of a request\<close>

record http_request =
  hr_authorization :: string
  hr_path :: string
  hr_request_id :: "string option"
  hr_client_ip :: "string option"
  hr_user_agent :: "string option"

definition bearer :: string where "bearer = ''Bearer ''"
definition mfa_exempt_prefix :: string where "mfa_exempt_prefix = ''/api/v1/auth/''"

definition get_current_context ::
    "jwt_env \<Rightarrow> (uuid \<Rightarrow> string) \<Rightarrow> instant \<Rightarrow> http_request \<Rightarrow> db \<Rightarrow> request_context result" where
  "get_current_context env label now req d =
     (if \<not> prefix bearer (hr_authorization req) then Inl (UnauthorizedError ''UNAUTHORIZED'')
      else case verify_access_token env now (drop (length bearer) (hr_authorization req)) of
        None \<Rightarrow> Inl (UnauthorizedError ''UNAUTHORIZED'')
      | Some cl \<Rightarrow>
          bind (authoritative_access cl d) (\<lambda>state.
          bind (raise_if (as_mfa_required state \<and> \<not> as_mfa_enabled state \<and> \<not> prefix mfa_exempt_prefix (hr_path req))
                 (ForbiddenError ''MFA_ENROLLMENT_REQUIRED'')) (\<lambda>_.
            Inr \<lparr>c_user_id = Some (cl_user_id cl), c_organization_id = cl_organization_id cl, c_role = as_role state,
                 c_is_platform_admin = as_is_platform_admin state, c_actor_label = label (cl_user_id cl),
                 c_request_id = hr_request_id req, c_ip_address = hr_client_ip req, c_user_agent = hr_user_agent req,
                 c_email_verified = as_email_verified state, c_mfa_enabled = as_mfa_enabled state\<rparr>)))"

definition revalidate_access :: "jwt_env \<Rightarrow> instant \<Rightarrow> http_request \<Rightarrow> db \<Rightarrow> bool result" where
  "revalidate_access env now req d =
     (if \<not> prefix bearer (hr_authorization req) then Inr False
      else case verify_access_token env now (drop (length bearer) (hr_authorization req)) of
        None \<Rightarrow> Inr False
      | Some cl \<Rightarrow>
          (case authoritative_access cl d of
             Inl (UnauthorizedError _) \<Rightarrow> Inr False
           | Inl e \<Rightarrow> Inl e
           | Inr _ \<Rightarrow> Inr True))"

definition anonymous_context :: "http_request \<Rightarrow> request_context" where
  "anonymous_context req =
     \<lparr>c_user_id = None, c_organization_id = None, c_role = None, c_is_platform_admin = False,
      c_actor_label = ''anonymous'', c_request_id = hr_request_id req, c_ip_address = hr_client_ip req,
      c_user_agent = hr_user_agent req, c_email_verified = False, c_mfa_enabled = False\<rparr>"

subsection \<open>Guards\<close>

definition require_permission :: "permission \<Rightarrow> request_context \<Rightarrow> unit result" where
  "require_permission p ctx = raise_if (\<not> has_permission ctx p) PermissionDeniedError"

definition require_tenant_id :: "request_context \<Rightarrow> uuid result" where
  "require_tenant_id ctx = (case c_organization_id ctx of None \<Rightarrow> Inl PermissionDeniedError | Some t \<Rightarrow> Inr t)"

definition require_verified_email :: "bool \<Rightarrow> request_context \<Rightarrow> unit result" where
  "require_verified_email policy ctx =
     raise_if (policy \<and> \<not> c_email_verified ctx \<and> \<not> c_is_platform_admin ctx) (ForbiddenError ''EMAIL_NOT_VERIFIED'')"

definition require_platform_admin :: "request_context \<Rightarrow> unit result" where
  "require_platform_admin ctx = raise_if (\<not> c_is_platform_admin ctx) PermissionDeniedError"

text \<open>What most endpoints start with: a tenant session and a permission.\<close>

definition tenant_with :: "permission \<Rightarrow> request_context \<Rightarrow> uuid result" where
  "tenant_with p ctx = bind (require_tenant_id ctx) (\<lambda>t. bind (require_permission p ctx) (\<lambda>_. Inr t))"

lemma tenant_with_Inr: "tenant_with p ctx = Inr t \<longleftrightarrow> c_organization_id ctx = Some t \<and> has_permission ctx p"
  by (auto simp: tenant_with_def require_tenant_id_def require_permission_def bind_eq_Inr split: option.splits)

subsection \<open>What an accepted token stands for\<close>

lemma authoritative_access_Inr:
  "authoritative_access cl d = Inr st \<longleftrightarrow>
     (\<exists>u. tget u_id (users d) (cl_user_id cl) = Some u \<and> u_status u = UserActive \<and>
        (\<forall>t. u_sessions_revoked_at u = Some t \<longrightarrow> t \<le> cl_issued_at cl) \<and>
        as_is_platform_admin st = (cl_is_platform_admin cl \<and> u_platform_role u = Some SuperAdmin) \<and>
        as_email_verified st = (u_email_verified_at u \<noteq> None) \<and> as_mfa_enabled st = (u_mfa_enabled_at u \<noteq> None) \<and>
        (case cl_organization_id cl of
           None \<Rightarrow> as_role st = None \<and> \<not> as_mfa_required st
         | Some org \<Rightarrow> \<exists>role security. access_rows (cl_user_id cl) org d = [(role, security)] \<and>
             as_role st = Some role \<and> as_mfa_required st = mfa_required security))"
proof (cases "tget u_id (users d) (cl_user_id cl)")
  case None
  then show ?thesis
    by (simp add: authoritative_access_def)
next
  case (Some u)
  show ?thesis
  proof (cases "cl_organization_id cl")
    case None
    then show ?thesis
      using Some by (cases st) (auto simp: authoritative_access_def bind_eq_Inr split: option.splits)
  next
    case (Some org)
    show ?thesis
      using \<open>tget u_id (users d) (cl_user_id cl) = Some u\<close> Some
      by (cases st, cases "one_or_none (access_rows (cl_user_id cl) org d)")
        (auto simp: authoritative_access_def bind_eq_Inr raise_if_def not_less one_or_none_Some [symmetric] split: option.splits)
  qed
qed

lemma get_current_context_Inr:
  assumes "get_current_context env label now req d = Inr ctx"
  obtains token cl st where "hr_authorization req = bearer @ token" "verify_access_token env now token = Some cl"
    "authoritative_access cl d = Inr st" "as_mfa_required st \<longrightarrow> as_mfa_enabled st \<or> prefix mfa_exempt_prefix (hr_path req)"
    "c_user_id ctx = Some (cl_user_id cl)" "c_organization_id ctx = cl_organization_id cl" "c_role ctx = as_role st"
    "c_is_platform_admin ctx = as_is_platform_admin st" "c_mfa_enabled ctx = as_mfa_enabled st"
proof -
  obtain token where t: "hr_authorization req = bearer @ token"
    using assms by (auto simp: get_current_context_def prefix_def split: if_splits)
  obtain cl where cl: "verify_access_token env now token = Some cl"
    using assms t by (auto simp: get_current_context_def split: option.splits)
  obtain st where st: "authoritative_access cl d = Inr st"
    using assms t cl by (auto simp: get_current_context_def bind_eq_Inr)
  show ?thesis
    by (rule that [OF t cl st]) (use assms t cl st in \<open>auto simp: get_current_context_def bind_eq_Inr\<close>)
qed

lemma access_rows_member:
  assumes "access_rows uid org d = [(role, security)]"
  shows "\<exists>m \<in> set (memberships d). m_user_id m = uid \<and> m_organization_id m = org \<and> m_status m = MemActive \<and> m_role_key m = role"
proof -
  have "(role, security) \<in> set (access_rows uid org d)"
    using assms by simp
  then show ?thesis
    by (auto simp: access_rows_def)
qed

text \<open>What the JWT library is relied on for: it accepts what was signed here, in its time and for this service.\<close>

definition whole_second :: "instant \<Rightarrow> instant" where
  "whole_second t = t div 1000000 * 1000000"

definition jwt_ok :: "jwt_env \<Rightarrow> bool" where
  "jwt_ok env \<longleftrightarrow>
     (\<forall>kid p. jw_kid env (jw_encode env kid p) = Some kid) \<and>
     (\<forall>iss aud now kid p. jw_decode env iss aud now (jw_encode env kid p) =
        (if jp_iss p = iss \<and> jp_aud p = aud \<and> whole_second (jp_nbf p) \<le> now \<and> jp_iat p \<le> now \<and> now < whole_second (jp_exp p)
         then Some p else None))"

lemma verify_issued:
  assumes "jwt_ok env"
  shows "verify_access_token env now (issue_access_token env t jti uid org role admin) =
    (if t \<le> now \<and> now < whole_second (t + jw_ttl env)
     then Some \<lparr>cl_user_id = uid, cl_organization_id = org, cl_role = role, cl_is_platform_admin = admin, cl_jti = jti,
                cl_issued_at = t\<rparr>
     else None)"
proof -
  have "whole_second t \<le> now" if "t \<le> now"
    using that div_mult_mod_eq [of t 1000000] pos_mod_sign [of 1000000 t] by (simp add: whole_second_def)
  then show ?thesis
    using assms by (auto simp: verify_access_token_def issue_access_token_def jwt_ok_def)
qed

text \<open>Who may act for an organization at the moment of the request, whatever the token says.\<close>

definition admitted :: "instant \<Rightarrow> uuid \<Rightarrow> uuid \<Rightarrow> string \<Rightarrow> role_key \<Rightarrow> db \<Rightarrow> bool" where
  "admitted t uid org path role d \<longleftrightarrow>
     (case tget u_id (users d) uid of
        None \<Rightarrow> False
      | Some u \<Rightarrow> u_status u = UserActive \<and> (case u_sessions_revoked_at u of None \<Rightarrow> True | Some r \<Rightarrow> r \<le> t) \<and>
          map fst (access_rows uid org d) = [role] \<and>
          list_all (\<lambda>(_, security). mfa_required security \<longrightarrow> u_mfa_enabled_at u \<noteq> None \<or> prefix mfa_exempt_prefix path)
            (access_rows uid org d))"

lemma admitted_access:
  assumes org: "cl_organization_id cl = Some org"
  shows "(\<exists>st. authoritative_access cl d = Inr st \<and> as_role st = Some r \<and>
      (as_mfa_required st \<longrightarrow> as_mfa_enabled st \<or> prefix mfa_exempt_prefix path)) \<longleftrightarrow>
   admitted (cl_issued_at cl) (cl_user_id cl) org path r d"
proof
  assume "\<exists>st. authoritative_access cl d = Inr st \<and> as_role st = Some r \<and>
      (as_mfa_required st \<longrightarrow> as_mfa_enabled st \<or> prefix mfa_exempt_prefix path)"
  then obtain st where st: "authoritative_access cl d = Inr st" "as_role st = Some r"
    "as_mfa_required st \<longrightarrow> as_mfa_enabled st \<or> prefix mfa_exempt_prefix path"
    by blast
  obtain u role security where u: "tget u_id (users d) (cl_user_id cl) = Some u" "u_status u = UserActive"
    "\<forall>t. u_sessions_revoked_at u = Some t \<longrightarrow> t \<le> cl_issued_at cl" "as_mfa_enabled st = (u_mfa_enabled_at u \<noteq> None)"
    "access_rows (cl_user_id cl) org d = [(role, security)]" "as_mfa_required st = mfa_required security" "as_role st = Some role"
    using st(1) unfolding authoritative_access_Inr org option.case by blast
  then show "admitted (cl_issued_at cl) (cl_user_id cl) org path r d"
    using st(2,3) by (cases "u_sessions_revoked_at u") (simp_all add: admitted_def)
next
  assume "admitted (cl_issued_at cl) (cl_user_id cl) org path r d"
  then obtain u security where u: "tget u_id (users d) (cl_user_id cl) = Some u" "u_status u = UserActive"
    "case u_sessions_revoked_at u of None \<Rightarrow> True | Some t \<Rightarrow> t \<le> cl_issued_at cl"
    "access_rows (cl_user_id cl) org d = [(r, security)]"
    "mfa_required security \<longrightarrow> u_mfa_enabled_at u \<noteq> None \<or> prefix mfa_exempt_prefix path"
    by (auto simp: admitted_def map_eq_Cons_conv split: option.splits)
  then have "authoritative_access cl d = Inr \<lparr>as_role = Some r,
      as_is_platform_admin = (cl_is_platform_admin cl \<and> u_platform_role u = Some SuperAdmin),
      as_email_verified = (u_email_verified_at u \<noteq> None), as_mfa_enabled = (u_mfa_enabled_at u \<noteq> None),
      as_mfa_required = mfa_required security\<rparr>"
    using org by (cases "u_sessions_revoked_at u") (simp_all add: authoritative_access_def raise_if_def not_less)
  then show "\<exists>st. authoritative_access cl d = Inr st \<and> as_role st = Some r \<and>
      (as_mfa_required st \<longrightarrow> as_mfa_enabled st \<or> prefix mfa_exempt_prefix path)"
    using u(5) by auto
qed

text \<open>
  C5: an access token opens a request exactly while it is valid and its user is admitted at that moment:
  the account active, no session revocation after the token was issued, an active membership, the second
  factor where the organization requires it (outside the account pages). The role in the token is never
  used: the request has exactly the permissions of the role in the database, and a token names a platform
  administrator in vain when the account is none.
\<close>

theorem access_follows_database:
  assumes "jwt_ok env" "hr_authorization req = bearer @ issue_access_token env t jti uid (Some org) role admin"
  shows "((\<exists>ctx. get_current_context env label now req d = Inr ctx) \<longleftrightarrow>
      t \<le> now \<and> now < whole_second (t + jw_ttl env) \<and> (\<exists>r. admitted t uid org (hr_path req) r d)) \<and>
    (\<forall>ctx. get_current_context env label now req d = Inr ctx \<longrightarrow>
      c_user_id ctx = Some uid \<and> c_organization_id ctx = Some org \<and>
      (\<exists>r u. admitted t uid org (hr_path req) r d \<and> tget u_id (users d) uid = Some u \<and>
         (\<forall>p. has_permission ctx p \<longleftrightarrow> admin \<and> u_platform_role u = Some SuperAdmin \<or> role_has r p)))"
proof -
  let ?cl = "\<lparr>cl_user_id = uid, cl_organization_id = Some org, cl_role = role, cl_is_platform_admin = admin,
      cl_jti = jti, cl_issued_at = t\<rparr>"
  note verify = verify_issued [OF assms(1), of now t jti uid "Some org" role admin]
  have adm: "(\<exists>st. authoritative_access ?cl d = Inr st \<and> as_role st = Some r \<and>
      (as_mfa_required st \<longrightarrow> as_mfa_enabled st \<or> prefix mfa_exempt_prefix (hr_path req))) \<longleftrightarrow>
      admitted t uid org (hr_path req) r d" for r
    using admitted_access [of ?cl org d r "hr_path req"] by simp
  have ctx: "t \<le> now \<and> now < whole_second (t + jw_ttl env) \<and> c_user_id ctx = Some uid \<and> c_organization_id ctx = Some org \<and>
      (\<exists>r u. admitted t uid org (hr_path req) r d \<and> tget u_id (users d) uid = Some u \<and>
         (\<forall>p. has_permission ctx p \<longleftrightarrow> admin \<and> u_platform_role u = Some SuperAdmin \<or> role_has r p))"
    if ok: "get_current_context env label now req d = Inr ctx" for ctx
  proof -
    obtain token cl st where c: "hr_authorization req = bearer @ token" "verify_access_token env now token = Some cl"
      "authoritative_access cl d = Inr st" "as_mfa_required st \<longrightarrow> as_mfa_enabled st \<or> prefix mfa_exempt_prefix (hr_path req)"
      "c_user_id ctx = Some (cl_user_id cl)" "c_organization_id ctx = cl_organization_id cl" "c_role ctx = as_role st"
      "c_is_platform_admin ctx = as_is_platform_admin st" "c_mfa_enabled ctx = as_mfa_enabled st"
      by (rule get_current_context_Inr [OF ok])
    have cl: "cl = ?cl" and time: "t \<le> now" "now < whole_second (t + jw_ttl env)"
      using c(1,2) assms(2) verify by (auto split: if_splits)
    obtain u r where u: "tget u_id (users d) uid = Some u" "as_role st = Some r"
      "as_is_platform_admin st = (admin \<and> u_platform_role u = Some SuperAdmin)"
      using c(3) unfolding cl authoritative_access_Inr by auto
    have "admitted t uid org (hr_path req) r d"
      using adm [of r] c(3,4) u(2) unfolding cl by blast
    then show ?thesis
      using c(5-8) u time unfolding cl by (auto simp: has_permission_def)
  qed
  have "\<exists>ctx. get_current_context env label now req d = Inr ctx"
    if ok: "t \<le> now" "now < whole_second (t + jw_ttl env)" "admitted t uid org (hr_path req) r d" for r
  proof -
    obtain st where "authoritative_access ?cl d = Inr st"
      "as_mfa_required st \<longrightarrow> as_mfa_enabled st \<or> prefix mfa_exempt_prefix (hr_path req)"
      using adm [of r] ok(3) by blast
    then show ?thesis
      using ok(1,2) verify assms(2) by (auto simp: get_current_context_def bind_eq_Inr)
  qed
  then show ?thesis
    using ctx by blast
qed

text \<open>A JWT library that satisfies \<open>jwt_ok\<close>: a payload is coded as a number and written in unary.\<close>

definition string_code :: "string \<Rightarrow> nat" where
  "string_code s = list_encode (map of_char s)"

definition code_string :: "nat \<Rightarrow> string" where
  "code_string n = map char_of (list_decode n)"

lemma code_string_code [simp]: "code_string (string_code s) = s"
  by (simp add: code_string_def string_code_def comp_def)

definition unary_encode :: "string \<Rightarrow> jwt_payload \<Rightarrow> string" where
  "unary_encode kid p = replicate (list_encode
     [string_code kid, string_code (jp_iss p), string_code (jp_aud p), jp_sub p, int_encode (jp_iat p), int_encode (jp_nbf p),
      int_encode (jp_exp p), string_code (jp_jti p), case jp_org p of None \<Rightarrow> 0 | Some u \<Rightarrow> Suc u,
      case jp_role p of None \<Rightarrow> 0 | Some r \<Rightarrow> Suc (string_code r), of_bool (jp_platform_admin p)]) (CHR ''x'')"

definition unary_payload :: "string \<Rightarrow> jwt_payload" where
  "unary_payload token = (let f = list_decode (length token) in
     \<lparr>jp_iss = code_string (f ! 1), jp_aud = code_string (f ! 2), jp_sub = f ! 3, jp_iat = int_decode (f ! 4),
      jp_nbf = int_decode (f ! 5), jp_exp = int_decode (f ! 6), jp_jti = code_string (f ! 7),
      jp_org = (if f ! 8 = 0 then None else Some (f ! 8 - 1)),
      jp_role = (if f ! 9 = 0 then None else Some (code_string (f ! 9 - 1))), jp_platform_admin = (f ! 10 \<noteq> 0)\<rparr>)"

definition unary_jwt :: jwt_env where
  "unary_jwt = \<lparr>jw_issuer = ''visionroute'', jw_audience = ''api'', jw_ttl = 900000000, jw_encode = unary_encode,
     jw_kid = (\<lambda>token. Some (code_string (list_decode (length token) ! 0))),
     jw_decode = (\<lambda>iss aud now token. let p = unary_payload token in
       if jp_iss p = iss \<and> jp_aud p = aud \<and> whole_second (jp_nbf p) \<le> now \<and> jp_iat p \<le> now \<and> now < whole_second (jp_exp p)
       then Some p else None)\<rparr>"

lemma unary_payload_encode [simp]: "unary_payload (unary_encode kid p) = p"
  by (cases p) (auto simp: unary_payload_def unary_encode_def eval_nat_numeral split: option.splits)

lemma unary_jwt_ok: "jwt_ok unary_jwt"
  by (simp add: jwt_ok_def unary_jwt_def) (simp add: unary_encode_def)

definition office_db :: db where
  "office_db = empty_db\<lparr>users := [new_user 5 ''ann@x.tr'' ''hash'' ''Ann'' None],
     memberships := [new_membership 0 6 5 7 RCoach], next_id := 8\<rparr>"

definition office_request :: http_request where
  "office_request = \<lparr>hr_authorization = bearer @ issue_access_token unary_jwt 4000000 ''jti'' 5 (Some 7) (Some ''owner'') True,
     hr_path = ''/api/v1/drivers'', hr_request_id = None, hr_client_ip = None, hr_user_agent = None\<rparr>"

lemma office_admitted: "admitted 4000000 5 7 (hr_path office_request) r office_db \<longleftrightarrow> r = RCoach"
  by (auto simp: admitted_def office_db_def empty_db_def access_rows_def new_user_def new_membership_def mfa_required_def dget_def)

theorem access_follows_database_witness:
  "(\<exists>ctx. get_current_context unary_jwt (\<lambda>_. ''ann'') 5000000 office_request office_db = Inr ctx) \<and>
   \<not> (\<exists>ctx. get_current_context unary_jwt (\<lambda>_. ''ann'') 904000000 office_request office_db = Inr ctx)"
proof -
  have req: "hr_authorization office_request =
      bearer @ issue_access_token unary_jwt 4000000 ''jti'' 5 (Some 7) (Some ''owner'') True"
    by (simp add: office_request_def)
  have time: "whole_second (4000000 + jw_ttl unary_jwt) = 904000000"
    by (simp add: whole_second_def unary_jwt_def)
  show ?thesis
    using access_follows_database [OF unary_jwt_ok req, of "\<lambda>_. ''ann''" 5000000 office_db]
      access_follows_database [OF unary_jwt_ok req, of "\<lambda>_. ''ann''" 904000000 office_db]
    by (simp add: office_admitted time)
qed

end
