(* ===== verification/Members.thy ===== *)
theory Members
  imports Access Erasure
begin

section \<open>The endpoints of an organization\<close>

text \<open>
  \<^verbatim>\<open>api/routers/v1/organizations.py\<close>: the organization and its security policy, members and invitations.
  The services behind the invitations and the reset of a second factor are those of \<open>Identity\<close> and
  \<open>AccountSecurity\<close>; the rest is in the router. Rows are listed in the order they were created. Labels
  are left out.
\<close>

subsection \<open>The organization\<close>

definition load_org :: "uuid \<Rightarrow> db \<Rightarrow> (organization \<times> organization_settings) result" where
  "load_org t d =
     (case (tget org_id (organizations d) t, tget os_organization_id (organization_settings_rows d) t) of
        (Some o1, Some s) \<Rightarrow> Inr (o1, s)
      | _ \<Rightarrow> Inl (DomainNotFoundError ''organization''))"

record organization_view =
  ov_id :: uuid
  ov_name :: string
  ov_slug :: string
  ov_status :: org_status
  ov_timezone :: string
  ov_currency :: string

definition org_out :: "organization \<Rightarrow> organization_settings \<Rightarrow> organization_view" where
  "org_out o1 s = \<lparr>ov_id = org_id o1, ov_name = org_name o1, ov_slug = org_slug o1, ov_status = org_status o1,
     ov_timezone = os_timezone s, ov_currency = os_currency s\<rparr>"

definition get_current_organization :: "request_context \<Rightarrow> db \<Rightarrow> organization_view result" where
  "get_current_organization ctx d =
     bind (tenant_with OrgRead ctx) (\<lambda>t. bind (load_org t d) (\<lambda>(o1, s). Inr (org_out o1 s)))"

record organization_update =
  ou_name :: "string option"
  ou_timezone :: "string option"
  ou_currency :: "string option"

text \<open>The lengths the schema of the request accepts.\<close>

definition organization_update_ok :: "organization_update \<Rightarrow> bool" where
  "organization_update_ok b \<longleftrightarrow>
     (case ou_name b of None \<Rightarrow> True | Some n \<Rightarrow> 2 \<le> length n \<and> length n \<le> 200) \<and>
     (case ou_timezone b of None \<Rightarrow> True | Some z \<Rightarrow> length z \<le> 60) \<and>
     (case ou_currency b of None \<Rightarrow> True | Some c \<Rightarrow> length c = 3)"

definition upper_char :: "char \<Rightarrow> char" where
  "upper_char c = (if is_lower c then char_of (of_char c - 32 :: nat) else c)"

definition or_keep :: "'a option \<Rightarrow> 'a \<Rightarrow> 'a" where
  "or_keep new old = (case new of None \<Rightarrow> old | Some x \<Rightarrow> x)"

definition update_current_organization ::
    "request_context \<Rightarrow> organization_update \<Rightarrow> db \<Rightarrow> (organization_view \<times> db) result" where
  "update_current_organization ctx b d =
     bind (tenant_with OrgUpdate ctx) (\<lambda>t.
     bind (raise_if (\<not> organization_update_ok b) (ValidationFailedError ''body'')) (\<lambda>_.
     bind (load_org t d) (\<lambda>(o1, s).
       let o2 = o1\<lparr>org_name := or_keep (ou_name b) (org_name o1)\<rparr>;
           s2 = s\<lparr>os_timezone := or_keep (ou_timezone b) (os_timezone s),
                  os_currency := or_keep (map_option (map upper_char) (ou_currency b)) (os_currency s)\<rparr>;
           d1 = d\<lparr>organizations := tupd (\<lambda>q. org_id q = t) (\<lambda>q. q\<lparr>org_name := org_name o2\<rparr>) (organizations d),
                  organization_settings_rows := tupd (\<lambda>q. os_organization_id q = t)
                    (\<lambda>q. q\<lparr>os_timezone := os_timezone s2, os_currency := os_currency s2\<rparr>) (organization_settings_rows d)\<rparr>;
           changed = (ou_name b \<noteq> None \<or> ou_timezone b \<noteq> None \<or> ou_currency b \<noteq> None)
       in Inr (org_out o2 s2, if changed then record_audit ctx ''organization.updated'' ''organization'' (Some t) None d1 else d1))))"

definition get_security_policy :: "request_context \<Rightarrow> db \<Rightarrow> bool result" where
  "get_security_policy ctx d =
     bind (tenant_with OrgRead ctx) (\<lambda>t. bind (load_org t d) (\<lambda>(_, s). Inr (mfa_required (os_security s))))"

definition update_security_policy :: "request_context \<Rightarrow> bool \<Rightarrow> db \<Rightarrow> (bool \<times> db) result" where
  "update_security_policy ctx required d =
     bind (tenant_with OrgUpdate ctx) (\<lambda>t.
     bind (load_org t d) (\<lambda>(_, s).
     bind (raise_if (required \<and> \<not> c_mfa_enabled ctx) (DomainConflictError ''own_mfa_first'')) (\<lambda>_.
       Inr (required, record_audit ctx ''organization.security_updated'' ''organization'' (Some t) None
              (d\<lparr>organization_settings_rows := tupd (\<lambda>q. os_organization_id q = t)
                 (\<lambda>q. q\<lparr>os_security := (''mfa_required'', PBool required) # filter (\<lambda>(k, _). k \<noteq> ''mfa_required'') (os_security q)\<rparr>)
                 (organization_settings_rows d)\<rparr>)))))"

subsection \<open>Members\<close>

record member_view =
  mv_membership_id :: uuid
  mv_user_id :: uuid
  mv_email :: string
  mv_full_name :: string
  mv_role :: role_key
  mv_status :: membership_status
  mv_joined_at :: instant
  mv_mfa_enabled :: bool
  mv_email_verified :: bool

definition member_out :: "membership \<Rightarrow> user \<Rightarrow> member_view" where
  "member_out m u = \<lparr>mv_membership_id = m_id m, mv_user_id = u_id u, mv_email = u_email u, mv_full_name = u_full_name u,
     mv_role = m_role_key m, mv_status = m_status m, mv_joined_at = m_created_at m,
     mv_mfa_enabled = (u_mfa_enabled_at u \<noteq> None), mv_email_verified = (u_email_verified_at u \<noteq> None)\<rparr>"

definition members_with_users :: "(membership \<Rightarrow> bool) \<Rightarrow> db \<Rightarrow> (membership \<times> user) list" where
  "members_with_users p d = [(m, u). m \<leftarrow> order_by m_created_at (filter p (memberships d)), u \<leftarrow> filter (\<lambda>u. u_id u = m_user_id m) (users d)]"

definition list_members :: "request_context \<Rightarrow> db \<Rightarrow> member_view list result" where
  "list_members ctx d =
     bind (tenant_with OrgMembersRead ctx) (\<lambda>t.
       Inr (map (\<lambda>(m, u). member_out m u) (members_with_users (\<lambda>m. m_organization_id m = t) d)))"

definition update_member_role :: "request_context \<Rightarrow> uuid \<Rightarrow> role_key \<Rightarrow> db \<Rightarrow> (member_view \<times> db) result" where
  "update_member_role ctx membership_id role d =
     bind (tenant_with OrgMembersManage ctx) (\<lambda>t.
     bind (one_or_none (members_with_users (\<lambda>m. m_id m = membership_id \<and> m_organization_id m = t) d)) (\<lambda>row. case row of
       None \<Rightarrow> Inl (DomainNotFoundError ''membership'')
     | Some (m, u) \<Rightarrow>
         bind (raise_if (m_role_key m = ROwner \<and> role \<noteq> ROwner) (DomainConflictError ''owner_role'')) (\<lambda>_.
         bind (raise_if (role = ROwner) (ValidationFailedError ''owner_assignment'')) (\<lambda>_.
           Inr (member_out (m\<lparr>m_role_key := role\<rparr>) u,
                record_audit ctx ''membership.role_changed'' ''membership'' (Some (m_id m)) None
                  (d\<lparr>memberships := tupd (\<lambda>q. m_id q = m_id m) (\<lambda>q. q\<lparr>m_role_key := role\<rparr>) (memberships d)\<rparr>))))))"

definition remove_member :: "request_context \<Rightarrow> uuid \<Rightarrow> db \<Rightarrow> (unit \<times> db) result" where
  "remove_member ctx membership_id d =
     bind (tenant_with OrgMembersManage ctx) (\<lambda>t.
     bind (one_or_none (filter (\<lambda>m. m_id m = membership_id \<and> m_organization_id m = t) (memberships d))) (\<lambda>row. case row of
       None \<Rightarrow> Inl (DomainNotFoundError ''membership'')
     | Some m \<Rightarrow>
         bind (raise_if (m_role_key m = ROwner) (DomainConflictError ''owner_removal'')) (\<lambda>_.
         bind (raise_if (Some (m_user_id m) = c_user_id ctx) (DomainConflictError ''own_membership'')) (\<lambda>_.
           Inr ((), record_audit ctx ''membership.removed'' ''membership'' (Some (m_id m)) None
                  (d\<lparr>memberships := filter (\<lambda>q. m_id q \<noteq> m_id m) (memberships d)\<rparr>))))))"

definition reset_member_mfa ::
    "account_env \<Rightarrow> instant \<Rightarrow> request_context \<Rightarrow> uuid \<Rightarrow> db \<Rightarrow> (uuid \<times> db) result" where
  "reset_member_mfa env now ctx membership_id d =
     bind (require_permission OrgMembersManage ctx) (\<lambda>_. admin_reset_mfa env now ctx membership_id d)"

subsection \<open>Invitations\<close>

definition post_invitation ::
    "identity_env \<Rightarrow> bool \<Rightarrow> instant \<Rightarrow> request_context \<Rightarrow> string \<Rightarrow> string \<Rightarrow> role_key \<Rightarrow> db \<Rightarrow> (uuid \<times> db) result" where
  "post_invitation env policy now ctx rnd email role d =
     bind (tenant_with OrgInvitationsManage ctx) (\<lambda>_.
     bind (require_verified_email policy ctx) (\<lambda>_. create_invitation env now ctx rnd email role d))"

text \<open>\<open>granted\<close> is the decision of the rate limiter for the invitation.\<close>

definition post_resend_invitation ::
    "identity_env \<Rightarrow> bool \<Rightarrow> bool \<Rightarrow> instant \<Rightarrow> request_context \<Rightarrow> string \<Rightarrow> uuid \<Rightarrow> db \<Rightarrow> (uuid \<times> db) result" where
  "post_resend_invitation env policy granted now ctx rnd i d =
     bind (tenant_with OrgInvitationsManage ctx) (\<lambda>_.
     bind (require_verified_email policy ctx) (\<lambda>_.
     bind (raise_if (\<not> granted) (ForbiddenError ''RATE_LIMITED'')) (\<lambda>_. resend_invitation env now ctx rnd i d)))"

definition delete_invitation :: "instant \<Rightarrow> request_context \<Rightarrow> uuid \<Rightarrow> db \<Rightarrow> (uuid \<times> db) result" where
  "delete_invitation now ctx i d =
     bind (tenant_with OrgInvitationsManage ctx) (\<lambda>_. revoke_invitation now ctx i d)"

datatype invitation_status = InviteAccepted | InviteRevoked | InviteExpired | InvitePending

definition invitation_status :: "invitation \<Rightarrow> instant \<Rightarrow> invitation_status" where
  "invitation_status i now =
     (if inv_accepted_at i \<noteq> None then InviteAccepted
      else if inv_revoked_at i \<noteq> None then InviteRevoked
      else if inv_expires_at i \<le> now then InviteExpired else InvitePending)"

definition list_invitations ::
    "instant \<Rightarrow> request_context \<Rightarrow> db \<Rightarrow> (uuid \<times> string \<times> role_key \<times> invitation_status \<times> email_status option) list result" where
  "list_invitations now ctx d =
     bind (tenant_with OrgInvitationsManage ctx) (\<lambda>t.
       let is = take 200 (rev (filter (\<lambda>i. inv_organization_id i = t) (invitations d)));
           sent = (\<lambda>i. filter (\<lambda>q. em_organization_id q = Some t \<and> em_related q = Some (''invitation'', inv_id i))
                         (order_by em_created_at (email_messages d)))
       in Inr (map (\<lambda>i. (inv_id i, inv_email i, inv_role_key i, invitation_status i now,
                         if sent i = [] then None else Some (em_status (last (sent i))))) is))"

subsection \<open>The owner of an organization\<close>

definition owners :: "db \<Rightarrow> membership list" where
  "owners d = filter (\<lambda>m. m_role_key m = ROwner) (memberships d)"

definition owner_rows :: "db \<Rightarrow> uuid \<Rightarrow> membership list" where
  "owner_rows d org = filter (\<lambda>m. m_organization_id m = org) (owners d)"

definition owner_inv :: "db \<Rightarrow> bool" where
  "owner_inv d \<longleftrightarrow> invit_inv d \<and> ids_ok m_id (next_id d) (memberships d) \<and> ids_ok org_id (next_id d) (organizations d) \<and>
     list_all (\<lambda>m. m_organization_id m < next_id d) (owners d) \<and>
     list_all (\<lambda>o1. length (owner_rows d (org_id o1)) = 1) (organizations d)"

inductive organization_step :: "db \<Rightarrow> db \<Rightarrow> bool" where
  step_register: "register_organization env now ctx name slug email full_name pw d = Inr (r, d') \<Longrightarrow> organization_step d d'"
| step_update: "update_current_organization ctx body d = Inr (v, d') \<Longrightarrow> organization_step d d'"
| step_policy: "update_security_policy ctx required d = Inr (b, d') \<Longrightarrow> organization_step d d'"
| step_role: "update_member_role ctx i role d = Inr (v, d') \<Longrightarrow> organization_step d d'"
| step_remove: "remove_member ctx i d = Inr (u, d') \<Longrightarrow> organization_step d d'"
| step_reset: "reset_member_mfa aenv now ctx i d = Inr (j, d') \<Longrightarrow> organization_step d d'"
| step_invite: "post_invitation env policy now ctx rnd email role d = Inr (j, d') \<Longrightarrow> organization_step d d'"
| step_resend: "post_resend_invitation env policy granted now ctx rnd i d = Inr (j, d') \<Longrightarrow> organization_step d d'"
| step_revoke: "delete_invitation now ctx i d = Inr (j, d') \<Longrightarrow> organization_step d d'"
| step_accept: "accept_invitation env now ctx token full_name2 pw2 d = Inr (a, d') \<Longrightarrow> organization_step d d'"
| step_erase: "erase_user penv now org i d = Inr (counts, d') \<Longrightarrow> organization_step d d'"

definition owner_step :: "db \<Rightarrow> db \<Rightarrow> bool" where
  "owner_step d d' \<longleftrightarrow> (owner_inv d \<longrightarrow> owner_inv d' \<and> org_id ` set (organizations d) \<subseteq> org_id ` set (organizations d') \<and>
     (\<forall>i \<in> org_id ` set (organizations d). owner_rows d' i = owner_rows d i))"

lemma owner_step_trans: "owner_step d d1 \<Longrightarrow> owner_step d1 d2 \<Longrightarrow> owner_step d d2"
  unfolding owner_step_def
proof (intro impI)
  assume a: "owner_inv d \<longrightarrow> owner_inv d1 \<and> org_id ` set (organizations d) \<subseteq> org_id ` set (organizations d1) \<and>
      (\<forall>i \<in> org_id ` set (organizations d). owner_rows d1 i = owner_rows d i)"
    and b: "owner_inv d1 \<longrightarrow> owner_inv d2 \<and> org_id ` set (organizations d1) \<subseteq> org_id ` set (organizations d2) \<and>
      (\<forall>i \<in> org_id ` set (organizations d1). owner_rows d2 i = owner_rows d1 i)"
    and inv: "owner_inv d"
  have a': "owner_inv d1" "org_id ` set (organizations d) \<subseteq> org_id ` set (organizations d1)"
      "\<forall>i \<in> org_id ` set (organizations d). owner_rows d1 i = owner_rows d i"
    using mp [OF a inv] by simp_all
  have b': "owner_inv d2" "org_id ` set (organizations d1) \<subseteq> org_id ` set (organizations d2)"
      "\<forall>i \<in> org_id ` set (organizations d1). owner_rows d2 i = owner_rows d1 i"
    using mp [OF b a'(1)] by simp_all
  show "owner_inv d2 \<and> org_id ` set (organizations d) \<subseteq> org_id ` set (organizations d2) \<and>
      (\<forall>i \<in> org_id ` set (organizations d). owner_rows d2 i = owner_rows d i)"
  proof (intro conjI ballI)
    fix i
    assume i: "i \<in> org_id ` set (organizations d)"
    show "owner_rows d2 i = owner_rows d i"
      by (simp only: bspec [OF b'(3) subsetD [OF a'(2) i]] bspec [OF a'(3) i])
  qed (rule b'(1), rule subset_trans [OF a'(2) b'(2)])
qed

lemma ids_ok_map: "map key xs = map key ys \<Longrightarrow> ids_ok key n xs = ids_ok key n ys"
proof -
  have "ids_ok key n rows \<longleftrightarrow> distinct (map key rows) \<and> list_all (\<lambda>k. k < n) (map key rows)" for rows
    by (simp add: ids_ok_def keys_distinct_def list.pred_map comp_def)
  then show "map key xs = map key ys \<Longrightarrow> ids_ok key n xs = ids_ok key n ys"
    by simp
qed

lemma owner_stepI:
  assumes "owner_inv d \<Longrightarrow> ids_ok m_id (next_id d') (memberships d')" "owner_inv d \<Longrightarrow> owners d' = owners d"
    "map org_id (organizations d') = map org_id (organizations d)" "owner_inv d \<Longrightarrow> invit_inv d'" "next_id d \<le> next_id d'"
  shows "owner_step d d'"
  unfolding owner_step_def
proof
  assume inv: "owner_inv d"
  note o = assms(2) [OF inv]
  have ids: "org_id ` set (organizations d') = org_id ` set (organizations d)"
    using assms(3) by (metis list.set_map)
  have "ids_ok org_id (next_id d') (organizations d')"
    unfolding ids_ok_map [OF assms(3)] using inv by (intro ids_ok_mono [OF _ assms(5)]) (simp add: owner_inv_def)
  moreover have "list_all (\<lambda>m. m_organization_id m < next_id d') (owners d')"
    using inv assms(5) by (auto simp: owner_inv_def o list_all_iff)
  moreover have "list_all (\<lambda>o1. length (owner_rows d' (org_id o1)) = 1) (organizations d')"
  proof -
    have "\<forall>i \<in> org_id ` set (organizations d). length (owner_rows d i) = 1"
      using inv by (simp add: owner_inv_def list_all_iff)
    then have "\<forall>i \<in> org_id ` set (organizations d'). length (owner_rows d' i) = 1"
      by (simp only: ids owner_rows_def o)
    then show ?thesis
      by (simp add: list_all_iff)
  qed
  ultimately have "owner_inv d'"
    using assms(1,4) inv unfolding owner_inv_def by blast
  then show "owner_inv d' \<and> org_id ` set (organizations d) \<subseteq> org_id ` set (organizations d') \<and>
     (\<forall>i \<in> org_id ` set (organizations d). owner_rows d' i = owner_rows d i)"
    using ids by (simp add: owner_rows_def o)
qed

lemma owner_step_frame:
  assumes "memberships d' = memberships d" "map org_id (organizations d') = map org_id (organizations d)"
    "invit_step d d'" "next_id d \<le> next_id d'"
  shows "owner_step d d'"
proof (rule owner_stepI)
  show "ids_ok m_id (next_id d') (memberships d')" if "owner_inv d"
    unfolding assms(1) using that by (intro ids_ok_mono [OF _ assms(4)]) (simp add: owner_inv_def)
qed (use assms in \<open>auto simp: owner_inv_def owners_def invit_step_def\<close>)

lemma account_mail_tables:
  "account_mail env now t u c s d = Inr (x, d') \<Longrightarrow> memberships d' = memberships d \<and> organizations d' = organizations d"
  by (auto simp: account_mail_def bind_eq_Inr elim!: enqueue_cases)

lemma admin_reset_mfa_tables:
  "admin_reset_mfa env now ctx i d = Inr (j, d') \<Longrightarrow> memberships d' = memberships d \<and> organizations d' = organizations d"
  by (auto simp: admin_reset_mfa_def bind_eq_Inr Let_def notify_owner_def revoke_all_sessions_def delete_codes_def set_user_def
      dest!: account_mail_tables split: option.splits)

lemma send_invitation_organizations:
  "send_invitation env now ctx i token d = Inr (u, d') \<Longrightarrow>
    memberships d' = memberships d \<and> organizations d' = organizations d \<and> next_id d \<le> next_id d'"
  by (auto simp: send_invitation_def Let_def bind_eq_Inr set_invitation_def elim!: enqueue_cases split: option.splits)

lemma invitation_frames:
  "create_invitation env now ctx rnd email role d = Inr (i, d') \<Longrightarrow>
    memberships d' = memberships d \<and> organizations d' = organizations d \<and> next_id d \<le> next_id d'"
  "resend_invitation env now ctx rnd j d = Inr (i, d') \<Longrightarrow>
    memberships d' = memberships d \<and> organizations d' = organizations d \<and> next_id d \<le> next_id d'"
  "revoke_invitation now ctx j d = Inr (i, d') \<Longrightarrow>
    memberships d' = memberships d \<and> organizations d' = organizations d \<and> next_id d \<le> next_id d'"
  by (auto simp: create_invitation_def resend_invitation_def revoke_invitation_def Let_def bind_eq_Inr set_invitation_def
      dest!: send_invitation_organizations split: option.splits if_splits)

lemma owner_step_roles:
  assumes "owner_inv d \<Longrightarrow> ids_ok m_id (next_id d) (memberships d') \<and> owners d' = owners d"
    "organizations d' = organizations d" "invitations d' = invitations d" "next_id d' = next_id d"
  shows "owner_step d d'"
  by (rule owner_stepI) (use assms in \<open>auto simp: owner_inv_def invit_inv_def\<close>)

lemma members_with_users_one:
  assumes "one_or_none (members_with_users p d) = Inr (Some (m, u))"
  shows "m \<in> set (memberships d) \<and> p m \<and> u \<in> set (users d) \<and> u_id u = m_user_id m"
proof -
  have "(m, u) \<in> set (members_with_users p d)"
    using assms by (simp add: one_or_none_Some)
  then show ?thesis
    by (auto simp: members_with_users_def)
qed

lemma update_member_role_Inr:
  assumes "update_member_role ctx i role d = Inr (v, d')"
  obtains t m where "c_organization_id ctx = Some t" "m \<in> set (memberships d)" "m_id m = i" "m_organization_id m = t"
    "m_role_key m \<noteq> ROwner" "role \<noteq> ROwner" "users d' = users d"
    "memberships d' = tupd (\<lambda>q. m_id q = i) (\<lambda>q. q\<lparr>m_role_key := role\<rparr>) (memberships d)" "organizations d' = organizations d"
    "invitations d' = invitations d" "next_id d' = next_id d"
    "organization_settings_rows d' = organization_settings_rows d"
proof -
  obtain t m u where "c_organization_id ctx = Some t"
    "one_or_none (members_with_users (\<lambda>m. m_id m = i \<and> m_organization_id m = t) d) = Inr (Some (m, u))"
    "m_role_key m \<noteq> ROwner" "role \<noteq> ROwner" "d' = record_audit ctx ''membership.role_changed'' ''membership'' (Some (m_id m)) None
       (d\<lparr>memberships := tupd (\<lambda>q. m_id q = m_id m) (\<lambda>q. q\<lparr>m_role_key := role\<rparr>) (memberships d)\<rparr>)"
    using assms by (auto simp: update_member_role_def bind_eq_Inr tenant_with_Inr split: option.splits)
  moreover from members_with_users_one [OF this(2)]
  have "m \<in> set (memberships d)" "m_id m = i" "m_organization_id m = t"
    by simp_all
  ultimately show ?thesis
    by (intro that [of t m]) simp_all
qed

lemma remove_member_Inr:
  assumes "remove_member ctx i d = Inr (v, d')"
  obtains t m where "c_organization_id ctx = Some t" "m \<in> set (memberships d)" "m_id m = i" "m_organization_id m = t"
    "m_role_key m \<noteq> ROwner" "Some (m_user_id m) \<noteq> c_user_id ctx" "users d' = users d"
    "memberships d' = filter (\<lambda>q. m_id q \<noteq> i) (memberships d)" "organizations d' = organizations d"
    "invitations d' = invitations d" "next_id d' = next_id d"
proof -
  obtain t m where "c_organization_id ctx = Some t"
    "one_or_none (filter (\<lambda>m. m_id m = i \<and> m_organization_id m = t) (memberships d)) = Inr (Some m)"
    "m_role_key m \<noteq> ROwner" "Some (m_user_id m) \<noteq> c_user_id ctx"
    "d' = record_audit ctx ''membership.removed'' ''membership'' (Some (m_id m)) None
       (d\<lparr>memberships := filter (\<lambda>q. m_id q \<noteq> m_id m) (memberships d)\<rparr>)"
    using assms by (auto simp: remove_member_def bind_eq_Inr tenant_with_Inr split: option.splits)
  moreover from one_or_none_filterD [OF this(2)]
  have "m \<in> set (memberships d)" "m_id m = i" "m_organization_id m = t"
    by simp_all
  ultimately show ?thesis
    by (intro that [of t m]) simp_all
qed

lemma owner_step_role: "update_member_role ctx i role d = Inr (v, d') \<Longrightarrow> owner_step d d'"
proof (erule update_member_role_Inr)
  fix t m
  assume h: "m \<in> set (memberships d)" "m_id m = i" "m_role_key m \<noteq> ROwner" "role \<noteq> ROwner"
    "memberships d' = tupd (\<lambda>q. m_id q = i) (\<lambda>q. q\<lparr>m_role_key := role\<rparr>) (memberships d)"
    "organizations d' = organizations d" "invitations d' = invitations d" "next_id d' = next_id d"
  have "owners d' = owners d" if ids: "ids_ok m_id (next_id d) (memberships d)"
  proof -
    have "memberships d' = tupd (\<lambda>q. m_id q = i \<and> m_role_key q \<noteq> ROwner) (\<lambda>q. q\<lparr>m_role_key := role\<rparr>) (memberships d)"
      unfolding h(5) using ids_ok_same [OF ids _ h(1)] h(2,3) by (intro tupd_cong_set) auto
    then show ?thesis
      using h(4) by (simp add: owners_def) (rule filter_tupd_other, simp)
  qed
  then show "owner_step d d'"
    using h(5-8) by (intro owner_step_roles) (auto simp: owner_inv_def ids_ok_tupd)
qed

lemma owner_step_remove: "remove_member ctx i d = Inr (v, d') \<Longrightarrow> owner_step d d'"
proof (erule remove_member_Inr)
  fix t m
  assume h: "m \<in> set (memberships d)" "m_id m = i" "m_role_key m \<noteq> ROwner"
    "memberships d' = filter (\<lambda>q. m_id q \<noteq> i) (memberships d)"
    "organizations d' = organizations d" "invitations d' = invitations d" "next_id d' = next_id d"
  have "owners d' = owners d" if "ids_ok m_id (next_id d) (memberships d)"
    using ids_ok_same [OF that _ h(1)] h(2,3) unfolding owners_def h(4) filter_filter by (intro filter_cong) auto
  then show "owner_step d d'"
    using h(4-7) by (intro owner_step_roles) (auto simp: owner_inv_def ids_ok_filter)
qed

lemma invited_account_tables: "invited_account env now i full_name pw d = Inr (uid, d1) \<Longrightarrow> organizations d1 = organizations d"
  by (auto simp: invited_account_def bind_eq_Inr Let_def set_user_def split: option.splits if_splits)

lemma accept_invitation_tables:
  assumes "accept_invitation env now ctx token full_name pw d = Inr (a, d')"
  obtains i uid d1 where "invited_account env now i full_name pw d = Inr (uid, d1)" "i \<in> set (invitations d)"
    "memberships d' = memberships d1 @ [new_membership now (next_id d1) uid (inv_organization_id i) (inv_role_key i)]"
    "organizations d' = organizations d1" "next_id d' = Suc (next_id d1)"
proof -
  obtain i uid d1 where i: "open_invitation_by_token env now token d = Inr i" "invited_account env now i full_name pw d = Inr (uid, d1)"
    "d' = record_audit ctx ''invitation.accepted'' ''invitation'' (Some (inv_id i)) (Some (inv_organization_id i))
       (set_invitation (inv_id i) (\<lambda>r. r\<lparr>inv_accepted_at := Some now\<rparr>)
          (add_membership now uid (inv_organization_id i) (inv_role_key i) d1))"
    using assms by (auto simp: accept_invitation_def bind_eq_Inr Let_def)
  show ?thesis
    using open_invitation_by_token_ok [OF i(1)] i(3)
    by (intro that [OF i(2)]) (simp_all add: set_invitation_def add_membership_def)
qed

lemma owner_step_accept:
  assumes "accept_invitation env now ctx token full_name pw d = Inr (a, d')"
  shows "owner_step d d'"
  using assms
proof (rule accept_invitation_tables)
  fix i uid d1
  assume h: "invited_account env now i full_name pw d = Inr (uid, d1)" "i \<in> set (invitations d)"
    "memberships d' = memberships d1 @ [new_membership now (next_id d1) uid (inv_organization_id i) (inv_role_key i)]"
    "organizations d' = organizations d1" "next_id d' = Suc (next_id d1)"
  note k = invited_account_keeps [OF h(1)]
  have role: "inv_role_key i \<noteq> ROwner" if "owner_inv d"
    using that h(2) by (simp add: owner_inv_def invit_inv_def list_all_iff)
  show ?thesis
  proof (rule owner_stepI)
    show "ids_ok m_id (next_id d') (memberships d')" if "owner_inv d"
      unfolding h(3,5) k(1)
      using ids_ok_mono [OF _ k(3), of m_id "memberships d"] that
      by (intro ids_ok_snoc) (simp_all add: owner_inv_def new_membership_def)
    show "owners d' = owners d" if "owner_inv d"
      using role [OF that] by (simp add: owners_def h(3) k(1) new_membership_def)
    show "invit_inv d'" if "owner_inv d"
      using accept_invitation_invit_step [OF assms] that by (simp add: owner_inv_def invit_step_def)
  qed (use h(4,5) k(3) invited_account_tables [OF h(1)] in simp_all)
qed

lemma owner_step_erase:
  assumes "erase_user env now org i d = Inr (counts, d')"
  shows "owner_step d d'"
proof (rule owner_stepI)
  obtain u where u: "tget u_id (users d) i = Some u"
    using assms by (auto simp: erase_user_def bind_eq_Inr split: option.splits)
  then have ui: "u_id u = i"
    using tget_SomeD by fast
  note e = erase_user_Inr [OF assms u]
  have f: "memberships d' = filter (\<lambda>m. \<not> (m_organization_id m = org \<and> m_user_id m = i)) (memberships d)"
    "organizations d' = organizations d" "next_id d' = next_id d"
    "invitations d' = filter (\<lambda>i. \<not> invitation_to org (lower (u_email u)) i) (invitations d)"
    using conjunct1 [OF e] ui by (auto simp: leave_organization_def erase_account_def Let_def)
  obtain row where row: "one_or_none (filter (\<lambda>m. m_organization_id m = org \<and> m_user_id m = i) (memberships d)) = Inr row"
    "\<forall>x. row = Some x \<longrightarrow> m_role_key x \<noteq> ROwner"
    using conjunct2 [OF e] by blast
  have none: "m_role_key m \<noteq> ROwner" if "m \<in> set (memberships d)" "m_organization_id m = org" "m_user_id m = i" for m
  proof -
    have m: "m \<in> set (filter (\<lambda>m. m_organization_id m = org \<and> m_user_id m = i) (memberships d))"
      using that by simp
    show ?thesis
    proof (cases row)
      case None
      then show ?thesis
        using m row(1) by (simp only: one_or_none_None) simp
    next
      case (Some x)
      then have "m = x"
        using m row(1) by (simp only: one_or_none_Some) simp
      then show ?thesis
        using row(2) Some by simp
    qed
  qed
  show "ids_ok m_id (next_id d') (memberships d')" if "owner_inv d"
    using that unfolding f by (intro ids_ok_filter) (simp add: owner_inv_def)
  show "owners d' = owners d"
    using none unfolding owners_def f filter_filter by (intro filter_cong) auto
  show "invit_inv d'" if "owner_inv d"
    using that by (simp add: owner_inv_def invit_inv_def f ids_ok_filter list_all_iff unique_on_def distinct_map_filter)
  show "map org_id (organizations d') = map org_id (organizations d)" "next_id d \<le> next_id d'"
    by (simp_all add: f)
qed

lemma register_organization_tables:
  assumes "register_organization env now ctx name slug email full_name pw d = Inr (r, d')"
  obtains o1 where "memberships d' = memberships d @ [new_membership now (next_id d + 2) (Suc (next_id d)) (next_id d) ROwner]"
    "organizations d' = organizations d @ [o1]" "org_id o1 = next_id d" "invitations d' = invitations d" "next_id d + 3 \<le> next_id d'"
  using assms
  by (auto simp: register_organization_def bind_eq_Inr Let_def add_tenant_def add_membership_def start_trial_def)

lemma owner_step_register:
  assumes "register_organization env now ctx name slug email full_name pw d = Inr (r, d')"
  shows "owner_step d d'"
  unfolding owner_step_def
proof
  assume inv: "owner_inv d"
  obtain o1 where t: "memberships d' = memberships d @ [new_membership now (next_id d + 2) (Suc (next_id d)) (next_id d) ROwner]"
    "organizations d' = organizations d @ [o1]" "org_id o1 = next_id d" "invitations d' = invitations d" "next_id d + 3 \<le> next_id d'"
    by (rule register_organization_tables [OF assms])
  let ?m = "new_membership now (next_id d + 2) (Suc (next_id d)) (next_id d) ROwner"
  have o: "owners d' = owners d @ [?m]"
    by (simp add: owners_def t(1) new_membership_def)
  have fresh: "owner_rows d (next_id d) = []"
    using inv by (auto simp: owner_inv_def owner_rows_def filter_empty_conv list_all_iff)
  have rows: "owner_rows d' i = owner_rows d i @ (if i = next_id d then [?m] else [])" for i
    by (simp add: owner_rows_def o new_membership_def)
  have old: "owner_rows d' i = owner_rows d i" if "i \<in> org_id ` set (organizations d)" for i
    using that inv by (auto simp: rows owner_inv_def ids_ok_def list_all_iff)
  have "ids_ok m_id (Suc (next_id d + 2)) (memberships d')"
    unfolding t(1) using inv by (intro ids_ok_snoc ids_ok_mono [of m_id "next_id d" _ "next_id d + 2"])
      (simp_all add: owner_inv_def new_membership_def)
  moreover have "ids_ok org_id (Suc (next_id d)) (organizations d')"
    unfolding t(2) using inv t(3) by (intro ids_ok_snoc) (simp_all add: owner_inv_def)
  moreover have "list_all (\<lambda>m. m_organization_id m < next_id d') (owners d')"
    using inv t(5) by (auto simp: o owner_inv_def list_all_iff new_membership_def)
  moreover have "list_all (\<lambda>o1. length (owner_rows d' (org_id o1)) = 1) (organizations d')"
    using inv old fresh t(3) by (simp add: t(2) owner_inv_def list_all_iff rows [of "next_id d"])
  moreover have "invit_inv d'"
    using inv t(5) ids_ok_mono [of inv_id "next_id d" "invitations d" "next_id d'"] by (simp add: owner_inv_def invit_inv_def t(4))
  ultimately have "owner_inv d'"
    using t(5) ids_ok_mono [of m_id "Suc (next_id d + 2)" "memberships d'" "next_id d'"]
      ids_ok_mono [of org_id "Suc (next_id d)" "organizations d'" "next_id d'"] by (simp add: owner_inv_def)
  then show "owner_inv d' \<and> org_id ` set (organizations d) \<subseteq> org_id ` set (organizations d') \<and>
     (\<forall>i \<in> org_id ` set (organizations d). owner_rows d' i = owner_rows d i)"
    using old by (auto simp: t(2))
qed

lemma update_organization_tables:
  "update_current_organization ctx body d = Inr (v, d') \<Longrightarrow> memberships d' = memberships d \<and> invitations d' = invitations d \<and>
     next_id d' = next_id d \<and> map org_id (organizations d') = map org_id (organizations d)"
  by (auto simp: update_current_organization_def bind_eq_Inr Let_def map_tupd)

lemma owner_step_update: "update_current_organization ctx body d = Inr (v, d') \<Longrightarrow> owner_step d d'"
  using update_organization_tables [of ctx body d v d'] by (intro owner_step_frame invit_step_frame) simp_all

lemma owner_step_policy: "update_security_policy ctx required d = Inr (b, d') \<Longrightarrow> owner_step d d'"
  by (rule owner_step_frame) (auto simp: update_security_policy_def bind_eq_Inr intro!: invit_step_frame)

lemma owner_step_reset: "reset_member_mfa env now ctx i d = Inr (j, d') \<Longrightarrow> owner_step d d'"
  using admin_reset_mfa_tables [of env now ctx i d j d'] admin_reset_mfa_steps [of env now ctx i d j d']
  by (intro owner_step_frame) (auto simp: reset_member_mfa_def bind_eq_Inr elim: admin_reset_mfa_ok)

lemma owner_step_invitations:
  "post_invitation env policy now ctx rnd email role d = Inr (j, d') \<Longrightarrow> owner_step d d'"
  "post_resend_invitation env policy granted now ctx rnd i d = Inr (j, d') \<Longrightarrow> owner_step d d'"
  "delete_invitation now ctx i d = Inr (j, d') \<Longrightarrow> owner_step d d'"
  by (auto simp: post_invitation_def post_resend_invitation_def delete_invitation_def bind_eq_Inr intro!: owner_step_frame
      dest: invitation_frames create_invitation_step resend_invitation_step revoke_invitation_step)

lemma organization_step_owner: "organization_step d d' \<Longrightarrow> owner_step d d'"
  by (erule organization_step.cases)
    (simp_all only: owner_step_register owner_step_update owner_step_policy owner_step_role owner_step_remove owner_step_reset
      owner_step_invitations owner_step_accept owner_step_erase)

text \<open>
  C6: an organization has exactly one owner from its registration on, and it is always the same
  membership: no sequence of requests to the organization's endpoints (profile, policy, roles, removals,
  resets, invitations and their acceptance) and no erasure of a user changes, adds or removes an owner.
\<close>

theorem owners_stay:
  assumes "owner_inv d" "organization_step\<^sup>*\<^sup>* d d'"
  shows "owner_inv d' \<and> list_all (\<lambda>o1. length (owner_rows d' (org_id o1)) = 1) (organizations d') \<and>
    (\<forall>i \<in> org_id ` set (organizations d). owner_rows d' i = owner_rows d i)"
proof -
  have "owner_step d d'"
    using assms(2)
  proof (induction rule: rtranclp_induct)
    case (step x y)
    then show ?case
      by (intro owner_step_trans [OF step.IH organization_step_owner])
  qed (simp add: owner_step_def)
  then have "owner_inv d'" "\<forall>i \<in> org_id ` set (organizations d). owner_rows d' i = owner_rows d i"
    using mp assms(1) unfolding owner_step_def by simp_all
  then show ?thesis
    by (simp add: owner_inv_def)
qed

text \<open>A context of a user in an organization rests on the one active membership, and has its role.\<close>

lemma context_membership:
  assumes "get_current_context env label now req d = Inr c" "c_user_id c = Some uid" "c_organization_id c = Some org"
  obtains m where "m \<in> set (memberships d)" "m_user_id m = uid" "m_organization_id m = org" "m_status m = MemActive"
    "c_role c = Some (m_role_key m)"
proof -
  obtain token cl st where c: "authoritative_access cl d = Inr st" "c_user_id c = Some (cl_user_id cl)"
    "c_organization_id c = cl_organization_id cl" "c_role c = as_role st"
    by (rule get_current_context_Inr [OF assms(1)])
  have cl: "cl_user_id cl = uid" "cl_organization_id cl = Some org"
    using c(2,3) assms(2,3) by simp_all
  obtain role security where r: "access_rows uid org d = [(role, security)]" "as_role st = Some role"
    using c(1) unfolding authoritative_access_Inr cl option.case by blast
  show ?thesis
    using access_rows_member [OF r(1)] that c(4) r(2) by auto
qed

text \<open>
  C7: a removed member has no request accepted for the organization any more, and a changed role is the
  role of the next request, whatever access tokens the person still holds: there is no time in which an old
  token keeps the old privileges.
\<close>

theorem member_change_is_immediate:
  assumes "identity_constraints d" "m \<in> set (memberships d)"
  shows "(\<forall>d' env label now req c. remove_member ctx (m_id m) d = Inr ((), d') \<longrightarrow>
      get_current_context env label now req d' = Inr c \<longrightarrow>
      \<not> (c_user_id c = Some (m_user_id m) \<and> c_organization_id c = Some (m_organization_id m))) \<and>
    (\<forall>d' v role env label now req c. update_member_role ctx (m_id m) role d = Inr (v, d') \<longrightarrow>
      get_current_context env label now req d' = Inr c \<longrightarrow>
      c_user_id c = Some (m_user_id m) \<and> c_organization_id c = Some (m_organization_id m) \<longrightarrow> c_role c = Some role)"
proof -
  have same: "q = m" if "q \<in> set (memberships d)" "m_user_id q = m_user_id m" "m_organization_id q = m_organization_id m" for q
    using unique_on_memb assms that by (auto simp: identity_constraints_def unique_on_def distinct_map dest: inj_onD)
  have removed: "\<not> (c_user_id c = Some (m_user_id m) \<and> c_organization_id c = Some (m_organization_id m))"
    if h: "remove_member ctx (m_id m) d = Inr ((), d')" "get_current_context env label now req d' = Inr c"
    for d' env label now req c
  proof
    assume c: "c_user_id c = Some (m_user_id m) \<and> c_organization_id c = Some (m_organization_id m)"
    obtain q where "q \<in> set (memberships d')" "m_user_id q = m_user_id m" "m_organization_id q = m_organization_id m"
      by (rule context_membership [OF h(2) conjunct1 [OF c] conjunct2 [OF c]])
    then show False
      using same [of q] by (rule_tac remove_member_Inr [OF h(1)]) auto
  qed
  have changed: "c_role c = Some role"
    if h: "update_member_role ctx (m_id m) role d = Inr (v, d')" "get_current_context env label now req d' = Inr c"
      "c_user_id c = Some (m_user_id m) \<and> c_organization_id c = Some (m_organization_id m)"
    for d' v role env label now req c
  proof -
    obtain q where q: "q \<in> set (memberships d')" "m_user_id q = m_user_id m" "m_organization_id q = m_organization_id m"
      "c_role c = Some (m_role_key q)"
      by (rule context_membership [OF h(2) conjunct1 [OF h(3)] conjunct2 [OF h(3)]])
    have "memberships d' = tupd (\<lambda>q. m_id q = m_id m) (\<lambda>q. q\<lparr>m_role_key := role\<rparr>) (memberships d)"
      by (rule update_member_role_Inr [OF h(1)])
    then obtain q0 where "q0 \<in> set (memberships d)" "q = (if m_id q0 = m_id m then q0\<lparr>m_role_key := role\<rparr> else q0)"
      using q(1) by (auto simp: set_tupd)
    then show ?thesis
      using same [of q0] q by (auto split: if_splits)
  qed
  show ?thesis
    using removed changed by blast
qed

definition office_owner :: request_context where
  "office_owner = \<lparr>c_user_id = Some 9, c_organization_id = Some 7, c_role = Some ROwner, c_is_platform_admin = False,
     c_actor_label = ''9'', c_request_id = None, c_ip_address = None, c_user_agent = None, c_email_verified = True,
     c_mfa_enabled = False\<rparr>"

definition owned_db :: db where
  "owned_db = empty_db\<lparr>organizations := [\<lparr>org_id = 7, org_name = ''Fleet'', org_slug = ''fleet'', org_status = OrgActive\<rparr>],
     users := [new_user 5 ''ann@x.tr'' ''hash'' ''Ann'' None, new_user 9 ''bob@x.tr'' ''hash'' ''Bob'' None],
     memberships := [new_membership 0 8 9 7 ROwner, new_membership 0 6 5 7 RCoach], next_id := 10\<rparr>"

lemma owned_db_inv: "owner_inv owned_db" "identity_constraints owned_db"
  by (simp_all add: owner_inv_def owned_db_def empty_db_def invit_inv_def ids_ok_def keys_distinct_def unique_on_def owners_def
      owner_rows_def new_membership_def identity_constraints_def new_user_def slug_ok_def slug_char_def is_lower_def is_digit_def lower_def
      lower_char_def is_upper_def)

lemma owned_remove:
  "\<exists>d'. remove_member office_owner 6 owned_db = Inr ((), d') \<and> memberships d' = [new_membership 0 8 9 7 ROwner]"
  by (simp add: remove_member_def tenant_with_def require_tenant_id_def require_permission_def office_owner_def has_permission_def
      owned_db_def empty_db_def new_membership_def one_or_none_def owner_has_all)

theorem owners_stay_witness:
  "\<exists>d'. organization_step owned_db d' \<and> owner_rows d' 7 = [new_membership 0 8 9 7 ROwner]"
proof -
  obtain d' where d': "remove_member office_owner 6 owned_db = Inr ((), d')"
    using owned_remove by blast
  then have "organization_step owned_db d'"
    by (rule step_remove)
  moreover have "7 \<in> org_id ` set (organizations owned_db)"
    by (simp add: owned_db_def)
  then have "owner_rows d' 7 = owner_rows owned_db 7"
    using owners_stay [OF owned_db_inv(1) r_into_rtranclp [of organization_step, OF \<open>organization_step owned_db d'\<close>]] by blast
  moreover have "owner_rows owned_db 7 = [new_membership 0 8 9 7 ROwner]"
    by (simp add: owner_rows_def owners_def owned_db_def new_membership_def)
  ultimately show ?thesis
    by auto
qed

theorem member_change_is_immediate_witness:
  "\<exists>d'. remove_member office_owner 6 owned_db = Inr ((), d') \<and>
     (\<forall>env label now req c. get_current_context env label now req d' = Inr c \<longrightarrow>
        \<not> (c_user_id c = Some 5 \<and> c_organization_id c = Some 7))"
proof -
  have "new_membership 0 6 5 7 RCoach \<in> set (memberships owned_db)"
    by (simp add: owned_db_def)
  from member_change_is_immediate [OF owned_db_inv(2) this, of office_owner] show ?thesis
    using owned_remove by (auto simp: new_membership_def)
qed

end
