(* ===== verification/UrlGuard.thy ===== *)
theory UrlGuard
  imports Prelude "HOL-Library.Word"
begin

section \<open>The guard of user-supplied URLs\<close>

text \<open>
  \<^verbatim>\<open>infrastructure/security/urlguard.py\<close>, with what it uses of \<^verbatim>\<open>urllib.parse\<close> and \<^verbatim>\<open>ipaddress\<close> of
  Python 3.13. Texts are ASCII here, so the normalisation check of \<^verbatim>\<open>urlsplit\<close> never fires. Name resolution
  and the syntax check of a bracketed address are parameters (\<open>net_env\<close>); the addresses a resolver
  returns are words, and an \<^verbatim>\<open>OSError\<close> is \<open>FileSystemError\<close>.
\<close>

unbundle bit_operations_syntax

subsection \<open>Addresses\<close>

datatype ip_address = IPv4 "32 word" | IPv6 "128 word"

definition in_net :: "'a::len word \<Rightarrow> 'a word \<times> nat \<Rightarrow> bool" where
  "in_net a net = (drop_bit (LENGTH('a) - snd net) a = drop_bit (LENGTH('a) - snd net) (fst net))"

definition private4 :: "(32 word \<times> nat) list" where
  "private4 = [(0x00000000, 8), (0x0A000000, 8), (0x7F000000, 8), (0xA9FE0000, 16), (0xAC100000, 12), (0xC0000000, 24),
     (0xC00000AA, 31), (0xC0000200, 24), (0xC0A80000, 16), (0xC6120000, 15), (0xC6336400, 24), (0xCB007100, 24),
     (0xF0000000, 4), (0xFFFFFFFF, 32)]"

definition private4_exceptions :: "(32 word \<times> nat) list" where
  "private4_exceptions = [(0xC0000009, 32), (0xC000000A, 32)]"

definition private6 :: "(128 word \<times> nat) list" where
  "private6 = [(1, 128), (0, 128), (0xFFFF00000000, 96), (0x0064FF9B000100000000000000000000, 48),
     (0x01000000000000000000000000000000, 64), (0x20010000000000000000000000000000, 23),
     (0x20010DB8000000000000000000000000, 32), (0x20020000000000000000000000000000, 16),
     (0x3FFF0000000000000000000000000000, 20),
     (0xFC000000000000000000000000000000, 7), (0xFE800000000000000000000000000000, 10)]"

definition private6_exceptions :: "(128 word \<times> nat) list" where
  "private6_exceptions = [(0x20010001000000000000000000000001, 128), (0x20010001000000000000000000000002, 128),
     (0x20010003000000000000000000000000, 32), (0x20010004011200000000000000000000, 48),
     (0x20010020000000000000000000000000, 28), (0x20010030000000000000000000000000, 28)]"

definition reserved6 :: "(128 word \<times> nat) list" where
  "reserved6 = [(0, 8), (0x01000000000000000000000000000000, 8), (0x02000000000000000000000000000000, 7),
     (0x04000000000000000000000000000000, 6), (0x08000000000000000000000000000000, 5),
     (0x10000000000000000000000000000000, 4), (0x40000000000000000000000000000000, 3),
     (0x60000000000000000000000000000000, 3), (0x80000000000000000000000000000000, 3),
     (0xA0000000000000000000000000000000, 3), (0xC0000000000000000000000000000000, 3),
     (0xE0000000000000000000000000000000, 4), (0xF0000000000000000000000000000000, 5),
     (0xF8000000000000000000000000000000, 6), (0xFE000000000000000000000000000000, 9)]"

definition mapped4 :: "128 word \<Rightarrow> 32 word option" where
  "mapped4 a = (if drop_bit 32 a = 0xFFFF then Some (ucast a) else None)"

definition public4 :: "32 word \<Rightarrow> bool" where
  "public4 a \<longleftrightarrow> \<not> (list_ex (in_net a) private4 \<and> \<not> list_ex (in_net a) private4_exceptions \<or> in_net a (0x7F000000, 8) \<or>
     in_net a (0xA9FE0000, 16) \<or> in_net a (0xE0000000, 4) \<or> in_net a (0xF0000000, 4) \<or> a = 0)"

definition public6 :: "128 word \<Rightarrow> bool" where
  "public6 a \<longleftrightarrow> \<not> (list_ex (in_net a) private6 \<and> \<not> list_ex (in_net a) private6_exceptions \<or> a = 1 \<or>
     in_net a (0xFE800000000000000000000000000000, 10) \<or> in_net a (0xFF000000000000000000000000000000, 8) \<or>
     list_ex (in_net a) reserved6 \<or> a = 0)"

fun is_public_ip :: "ip_address \<Rightarrow> bool" where
  "is_public_ip (IPv4 a) = public4 a"
| "is_public_ip (IPv6 a) = (case mapped4 a of Some b \<Rightarrow> public4 b | None \<Rightarrow> public6 a)"

subsection \<open>The parts of a URL\<close>

record net_env =
  ne_bracketed :: "string \<Rightarrow> bool"
  ne_resolve :: "string \<Rightarrow> ip_address list result"

record parsed_url =
  pu_scheme :: string
  pu_username :: "string option"
  pu_password :: "string option"
  pu_hostname :: "string option"

definition url_clean :: "string \<Rightarrow> string" where
  "url_clean url = filter (\<lambda>c. of_char c \<notin> {9, 10, 13 :: nat}) (dropWhile (\<lambda>c. of_char c \<le> (32 :: nat)) url)"

definition scheme_char :: "char \<Rightarrow> bool" where
  "scheme_char c \<longleftrightarrow> is_alpha c \<or> is_digit c \<or> c \<in> set ''+-.''"

definition before_char :: "char \<Rightarrow> string \<Rightarrow> string" where
  "before_char c s = takeWhile (\<lambda>x. x \<noteq> c) s"

definition after_char :: "char \<Rightarrow> string \<Rightarrow> string" where
  "after_char c s = drop 1 (dropWhile (\<lambda>x. x \<noteq> c) s)"

definition split_scheme :: "string \<Rightarrow> string \<times> string" where
  "split_scheme url =
     (let i = before_char (CHR '':'') url
      in if CHR '':'' \<in> set url \<and> i \<noteq> [] \<and> is_alpha (hd url) \<and> list_all scheme_char i
         then (lower i, after_char (CHR '':'') url) else ([], url))"

definition url_netloc :: "string \<Rightarrow> string" where
  "url_netloc rest = (if take 2 rest = ''//'' then takeWhile (\<lambda>c. c \<notin> set ''/?#'') (drop 2 rest) else [])"

text \<open>\<^verbatim>\<open>netloc.rpartition("@")\<close>: what is before and after the last at sign.\<close>

definition user_info :: "string \<Rightarrow> string option" where
  "user_info netloc = (if CHR ''@'' \<in> set netloc then Some (rev (after_char (CHR ''@'') (rev netloc))) else None)"

definition host_info :: "string \<Rightarrow> string" where
  "host_info netloc = rev (before_char (CHR ''@'') (rev netloc))"

definition host_name :: "string \<Rightarrow> string option" where
  "host_name hostinfo =
     (let h = (if CHR ''['' \<in> set hostinfo then before_char (CHR '']'') (after_char (CHR ''['') hostinfo)
               else before_char (CHR '':'') hostinfo)
      in if h = [] then None else Some (lower (before_char (CHR ''%'') h) @ dropWhile (\<lambda>x. x \<noteq> CHR ''%'') h))"

definition urlparse :: "net_env \<Rightarrow> string \<Rightarrow> parsed_url result" where
  "urlparse env url =
     (let (scheme, rest) = split_scheme (url_clean url); netloc = url_netloc rest;
          opening = (CHR ''['' \<in> set netloc); closing = (CHR '']'' \<in> set netloc)
      in bind (raise_if (opening \<noteq> closing \<or> opening \<and> \<not> ne_bracketed env netloc) (PyValueError ''netloc'')) (\<lambda>_.
         Inr \<lparr>pu_scheme = scheme,
              pu_username = map_option (before_char (CHR '':'')) (user_info netloc),
              pu_password = (case user_info netloc of None \<Rightarrow> None
                 | Some u \<Rightarrow> if CHR '':'' \<in> set u then Some (after_char (CHR '':'') u) else None),
              pu_hostname = host_name (host_info netloc)\<rparr>))"

subsection \<open>The check\<close>

record url_policy =
  up_allowed_schemes :: "string list"
  up_allow_http :: bool

definition prod_url_policy :: url_policy where
  "prod_url_policy = \<lparr>up_allowed_schemes = [''https''], up_allow_http = False\<rparr>"

definition dev_url_policy :: url_policy where
  "dev_url_policy = \<lparr>up_allowed_schemes = [''https''], up_allow_http = True\<rparr>"

definition truthy :: "string option \<Rightarrow> bool" where
  "truthy s \<longleftrightarrow> (case s of None \<Rightarrow> False | Some t \<Rightarrow> t \<noteq> [])"

definition resolved :: "net_env \<Rightarrow> string \<Rightarrow> ip_address list result" where
  "resolved env host =
     (case ne_resolve env host of Inl FileSystemError \<Rightarrow> Inl (UnsafeUrlError ''unresolved'') | r \<Rightarrow> r)"

definition validate_url :: "net_env \<Rightarrow> url_policy \<Rightarrow> string \<Rightarrow> string result" where
  "validate_url env policy url =
     bind (urlparse env url) (\<lambda>p.
     bind (raise_if (\<not> (pu_scheme p \<in> set (up_allowed_schemes policy) \<or> up_allow_http policy \<and> pu_scheme p = ''http''))
            (UnsafeUrlError ''scheme'')) (\<lambda>_.
     bind (raise_if (truthy (pu_username p) \<or> truthy (pu_password p)) (UnsafeUrlError ''credentials'')) (\<lambda>_.
       case pu_hostname p of
         None \<Rightarrow> Inl (UnsafeUrlError ''host'')
       | Some host \<Rightarrow>
           bind (resolved env host) (\<lambda>addresses.
           bind (raise_if (addresses = []) (UnsafeUrlError ''no_address'')) (\<lambda>_.
           bind (raise_if (\<not> list_all is_public_ip addresses) (UnsafeUrlError ''internal'')) (\<lambda>_. Inr url))))))"

subsection \<open>Which addresses pass\<close>

lemma uint_drop: "uint (drop_bit k w) = uint w div 2 ^ k"
  using uint_lt2p [of w] by (simp only: unsigned_drop_bit_eq) (simp add: take_bit_int_eq_self drop_bit_eq_div)

lemma in_net_range:
  fixes a n :: "'a::len word"
  assumes "LENGTH('a) - p = k" "uint n = m * 2 ^ k"
  shows "in_net a (n, p) \<longleftrightarrow> m * 2 ^ k \<le> uint a \<and> uint a < (m + 1) * 2 ^ k"
proof -
  have pos: "(0 :: int) < 2 ^ k"
    by simp
  have "in_net a (n, p) \<longleftrightarrow> uint a div 2 ^ k = m"
    using assms by (simp add: in_net_def word_uint_eq_iff uint_drop)
  also have "\<dots> \<longleftrightarrow> m * 2 ^ k \<le> uint a \<and> uint a < (m + 1) * 2 ^ k"
  proof
    assume "uint a div 2 ^ k = m"
    then have "m * 2 ^ k + uint a mod 2 ^ k = uint a"
      using div_mult_mod_eq [of "uint a" "2 ^ k"] by simp
    then show "m * 2 ^ k \<le> uint a \<and> uint a < (m + 1) * 2 ^ k"
      using pos_mod_sign [OF pos, of "uint a"] pos_mod_bound [OF pos, of "uint a"]
      unfolding ring_distribs mult_1 by (intro conjI) linarith+
  next
    assume "m * 2 ^ k \<le> uint a \<and> uint a < (m + 1) * 2 ^ k"
    then show "uint a div 2 ^ k = m"
      by (intro int_div_pos_eq [of _ _ _ "uint a - m * 2 ^ k"]) (simp_all add: ring_distribs)
  qed
  finally show ?thesis .
qed

definition between :: "'a::len word \<Rightarrow> int \<Rightarrow> int \<Rightarrow> bool" where
  "between a lo hi \<longleftrightarrow> lo \<le> uint a \<and> uint a \<le> hi"

lemma in_net_between:
  fixes a n :: "'a::len word"
  assumes "uint n mod 2 ^ (LENGTH('a) - p) = 0"
  shows "in_net a (n, p) \<longleftrightarrow> between a (uint n) (uint n + (2 ^ (LENGTH('a) - p) - 1))"
proof -
  have "uint n = uint n div 2 ^ (LENGTH('a) - p) * 2 ^ (LENGTH('a) - p)"
    using assms div_mult_mod_eq [of "uint n" "2 ^ (LENGTH('a) - p)"] by simp
  from in_net_range [OF refl this, of a] this show ?thesis
    by (auto simp: between_def ring_distribs)
qed

text \<open>The IPv4 addresses that do not pass, as ranges.\<close>

definition inner4 :: "32 word \<Rightarrow> bool" where
  "inner4 a \<longleftrightarrow> between a 0x00000000 0x00FFFFFF \<or> between a 0x0A000000 0x0AFFFFFF \<or> between a 0x7F000000 0x7FFFFFFF \<or>
     between a 0xA9FE0000 0xA9FEFFFF \<or> between a 0xAC100000 0xAC1FFFFF \<or>
     between a 0xC0000000 0xC00000FF \<and> \<not> between a 0xC0000009 0xC000000A \<or> between a 0xC0000200 0xC00002FF \<or>
     between a 0xC0A80000 0xC0A8FFFF \<or> between a 0xC6120000 0xC613FFFF \<or> between a 0xC6336400 0xC63364FF \<or>
     between a 0xCB007100 0xCB0071FF \<or> between a 0xE0000000 0xFFFFFFFF"

lemma public4_ranges: "public4 a \<longleftrightarrow> \<not> inner4 a"
proof -
  have zero: "a = 0 \<Longrightarrow> between a 0 16777215"
    by (simp add: between_def)
  have sub: "between a 3221225642 3221225643 \<Longrightarrow> between a 3221225472 3221225727"
      "between a 3221225642 3221225643 \<Longrightarrow> \<not> between a 3221225481 3221225482"
    by (simp_all add: between_def)
  have top: "between a 3758096384 4294967295 \<longleftrightarrow> between a 3758096384 4026531839 \<or> between a 4026531840 4294967295"
      "between a 4294967295 4294967295 \<Longrightarrow> between a 4026531840 4294967295"
    by (auto simp: between_def)
  have exc: "between a 3221225481 3221225481 \<or> between a 3221225482 3221225482 \<longleftrightarrow> between a 3221225481 3221225482"
    by (auto simp: between_def)
  have only: "between a 3221225481 3221225482 \<Longrightarrow> \<not> between a lo hi" if "hi < 3221225481 \<or> 3221225482 < lo" for lo hi
    using that by (auto simp: between_def)
  have nets: "in_net a (n, p) \<longleftrightarrow> between a (uint n) (uint n + (2 ^ (32 - p) - 1))" if "uint n mod 2 ^ (32 - p) = 0" for n p
    using in_net_between [of n p a] that by simp
  show ?thesis
  proof (cases "between a 3221225481 3221225482")
    case True
    then show ?thesis
      using exc only
      by (simp add: public4_def private4_def private4_exceptions_def inner4_def nets) (use zero only in \<open>auto simp del: One_nat_def\<close>)
  next
    case False
    then show ?thesis
      using exc zero sub top
      by (simp add: public4_def private4_def private4_exceptions_def inner4_def nets) blast
  qed
qed

text \<open>An IPv6 address that passes is global unicast, or in the old site-local range.\<close>

lemma net_above:
  fixes a n :: "128 word"
  assumes "\<not> in_net a (n, p)" "uint n mod 2 ^ (128 - p) = 0" "uint n \<le> uint a"
  shows "uint n + 2 ^ (128 - p) \<le> uint a"
  using assms in_net_between [of n p a] by (simp add: between_def)

text \<open>The exceptions among the private IPv6 networks all lie below 2001:40::.\<close>

lemma exceptions_low:
  assumes "list_ex (in_net a) private6_exceptions"
  shows "uint a < 0x20010040000000000000000000000000"
proof -
  have net: "uint a \<le> uint n + (2 ^ (128 - p) - 1)" if "in_net a (n, p)" "uint n mod 2 ^ (128 - p) = 0" for n p
    using in_net_between [of n p a] that by (simp add: between_def)
  obtain n p where "in_net a (n, p)" "(n, p) \<in> set private6_exceptions"
    using assms by (auto simp: list_ex_iff)
  moreover have "list_all (\<lambda>(n, p). uint n mod 2 ^ (128 - p) = 0 \<and> uint n + (2 ^ (128 - p) - 1) < 0x20010040000000000000000000000000)
      private6_exceptions"
    by (simp add: private6_exceptions_def)
  ultimately show ?thesis
    using net [of n p] by (force simp: list_all_iff)
qed

lemma public6_not_in:
  assumes "public6 a" "(n, p) \<in> set private6" "uint n mod 2 ^ (128 - p) = 0" "0x20010040000000000000000000000000 \<le> uint n"
  shows "\<not> in_net a (n, p)"
proof
  assume n: "in_net a (n, p)"
  then have "list_ex (in_net a) private6"
    using assms(2) by (auto simp: list_ex_iff)
  then have "uint a < 0x20010040000000000000000000000000"
    using assms(1) by (intro exceptions_low) (simp add: public6_def)
  moreover have "uint n \<le> uint a"
    using n in_net_between [of n p a] assms(3) by (simp add: between_def)
  ultimately show False
    using assms(4) by simp
qed

lemma public6_nets:
  assumes "public6 a"
  shows "list_all (\<lambda>net. \<not> in_net a net) (reserved6 @ [(0xFC000000000000000000000000000000, 7),
     (0xFE800000000000000000000000000000, 10), (0xFF000000000000000000000000000000, 8)])"
  using assms public6_not_in [OF assms, of "0xFC000000000000000000000000000000" 7]
  by (simp add: public6_def list_all_iff list_ex_iff private6_def)

lemma public6_ranges:
  assumes "public6 a"
  shows "between a 0x20000000000000000000000000000000 0x3FFFFFFFFFFFFFFFFFFFFFFFFFFFFFFF \<or>
    between a 0xFEC00000000000000000000000000000 0xFEFFFFFFFFFFFFFFFFFFFFFFFFFFFFFF"
proof -
  note out = public6_nets [OF assms, unfolded reserved6_def, simplified]
  have "0 \<le> uint a"
    by simp
  then have "0x01000000000000000000000000000000 \<le> uint a"
    using out net_above [of a "0" 8] by simp
  then have "0x02000000000000000000000000000000 \<le> uint a"
    using out net_above [of a "0x01000000000000000000000000000000" 8] by simp
  then have "0x04000000000000000000000000000000 \<le> uint a"
    using out net_above [of a "0x02000000000000000000000000000000" 7] by simp
  then have "0x08000000000000000000000000000000 \<le> uint a"
    using out net_above [of a "0x04000000000000000000000000000000" 6] by simp
  then have "0x10000000000000000000000000000000 \<le> uint a"
    using out net_above [of a "0x08000000000000000000000000000000" 5] by simp
  then have "0x20000000000000000000000000000000 \<le> uint a"
    using out net_above [of a "0x10000000000000000000000000000000" 4] by simp
  note low = this
  have high: "0xFEC00000000000000000000000000000 \<le> uint a" if h: "0x40000000000000000000000000000000 \<le> uint a"
  proof -
    from h have "0x60000000000000000000000000000000 \<le> uint a"
      using out net_above [of a "0x40000000000000000000000000000000" 3] by simp
    then have "0x80000000000000000000000000000000 \<le> uint a"
      using out net_above [of a "0x60000000000000000000000000000000" 3] by simp
    then have "0xA0000000000000000000000000000000 \<le> uint a"
      using out net_above [of a "0x80000000000000000000000000000000" 3] by simp
    then have "0xC0000000000000000000000000000000 \<le> uint a"
      using out net_above [of a "0xA0000000000000000000000000000000" 3] by simp
    then have "0xE0000000000000000000000000000000 \<le> uint a"
      using out net_above [of a "0xC0000000000000000000000000000000" 3] by simp
    then have "0xF0000000000000000000000000000000 \<le> uint a"
      using out net_above [of a "0xE0000000000000000000000000000000" 4] by simp
    then have "0xF8000000000000000000000000000000 \<le> uint a"
      using out net_above [of a "0xF0000000000000000000000000000000" 5] by simp
    then have "0xFC000000000000000000000000000000 \<le> uint a"
      using out net_above [of a "0xF8000000000000000000000000000000" 6] by simp
    then have "0xFE000000000000000000000000000000 \<le> uint a"
      using out net_above [of a "0xFC000000000000000000000000000000" 7] by simp
    then have "0xFE800000000000000000000000000000 \<le> uint a"
      using out net_above [of a "0xFE000000000000000000000000000000" 9] by simp
    then have "0xFEC00000000000000000000000000000 \<le> uint a"
      using out net_above [of a "0xFE800000000000000000000000000000" 10] by simp
    then show ?thesis .
  qed
  have top: "uint a < 0xFF000000000000000000000000000000"
  proof (rule ccontr)
    assume "\<not> ?thesis"
    then show False
      using out net_above [of a "0xFF000000000000000000000000000000" 8] uint_lt2p [of a] by simp
  qed
  show ?thesis
    using low high top by (cases "0x40000000000000000000000000000000 \<le> uint a") (simp_all add: between_def)
qed

text \<open>
  What may be reached. Of IPv4, everything outside 0.0.0.0/8, 10.0.0.0/8, 127.0.0.0/8, 169.254.0.0/16,
  172.16.0.0/12, 192.0.0.0/24 (but for .9 and .10), 192.0.2.0/24, 192.168.0.0/16, 198.18.0.0/15,
  198.51.100.0/24, 203.0.113.0/24 and 224.0.0.0/3. Of IPv6, the addresses that stand for such an IPv4 address,
  those of 2000::/3 outside 2001::/23 (but for the exceptions), 2001:db8::/32, 2002::/16 and 3fff::/20, and the
  old site-local range with its neighbours (fec0:: up to feff::).
\<close>

definition outside6 :: "128 word \<Rightarrow> bool" where
  "outside6 a \<longleftrightarrow>
     between a 0x20000000000000000000000000000000 0x3FFFFFFFFFFFFFFFFFFFFFFFFFFFFFFF \<and>
       (in_net a (0x20010000000000000000000000000000, 23) \<longrightarrow> list_ex (in_net a) private6_exceptions) \<and>
       \<not> in_net a (0x20010DB8000000000000000000000000, 32) \<and> \<not> in_net a (0x20020000000000000000000000000000, 16) \<and>
       \<not> in_net a (0x3FFF0000000000000000000000000000, 20) \<or>
     between a 0xFEC00000000000000000000000000000 0xFEFFFFFFFFFFFFFFFFFFFFFFFFFFFFFF"

definition outside :: "ip_address \<Rightarrow> bool" where
  "outside ip = (case ip of
     IPv4 a \<Rightarrow> \<not> inner4 a
   | IPv6 a \<Rightarrow> (case mapped4 a of Some b \<Rightarrow> \<not> inner4 b | None \<Rightarrow> outside6 a))"

lemma public6_outside6:
  assumes "public6 a"
  shows "outside6 a"
  using public6_ranges [OF assms] assms public6_not_in [OF assms, of "0x20010DB8000000000000000000000000" 32]
    public6_not_in [OF assms, of "0x20020000000000000000000000000000" 16] public6_not_in [OF assms, of "0x3FFF0000000000000000000000000000" 20]
  by (auto simp: outside6_def public6_def private6_def)

lemma is_public_outside: "is_public_ip ip \<Longrightarrow> outside ip"
  by (cases ip) (auto simp: outside_def public4_ranges public6_outside6 split: option.splits)

text \<open>
  C32: a URL that passes the guard names an allowed scheme and a host and carries no credentials, and no
  address its host resolved to is in the unspecified, private, loopback, link-local, benchmarking,
  documentation, multicast or reserved ranges listed above. The shared address space 100.64.0.0/10 and the
  old site-local range fec0::/10 are not among them and do pass.
\<close>

theorem guarded_url_stays_outside:
  assumes "validate_url env policy url = Inr u"
  shows "u = url \<and> (\<exists>p host addresses. urlparse env url = Inr p \<and> pu_hostname p = Some host \<and>
    (pu_scheme p \<in> set (up_allowed_schemes policy) \<or> up_allow_http policy \<and> pu_scheme p = ''http'') \<and>
    pu_username p \<in> {None, Some []} \<and> pu_password p \<in> {None, Some []} \<and>
    ne_resolve env host = Inr addresses \<and> addresses \<noteq> [] \<and> (\<forall>ip \<in> set addresses. outside ip))"
proof -
  obtain p where p: "urlparse env url = Inr p"
    and s: "pu_scheme p \<in> set (up_allowed_schemes policy) \<or> up_allow_http policy \<and> pu_scheme p = ''http''"
    and c: "\<not> truthy (pu_username p)" "\<not> truthy (pu_password p)"
    and r: "(case pu_hostname p of None \<Rightarrow> Inl (UnsafeUrlError ''host'')
       | Some host \<Rightarrow>
           bind (resolved env host) (\<lambda>addresses.
           bind (raise_if (addresses = []) (UnsafeUrlError ''no_address'')) (\<lambda>_.
           bind (raise_if (\<not> list_all is_public_ip addresses) (UnsafeUrlError ''internal'')) (\<lambda>_. Inr url)))) = Inr u"
    using assms unfolding validate_url_def bind_eq_Inr raise_if_eq_Inr by blast
  obtain host addresses where h: "pu_hostname p = Some host" "resolved env host = Inr addresses" "addresses \<noteq> []"
    "list_all is_public_ip addresses" "u = url"
    using r by (auto simp: bind_eq_Inr split: option.splits)
  have "ne_resolve env host = Inr addresses"
    using h(2) by (auto simp: resolved_def split: sum.splits exn.splits)
  moreover have "pu_username p \<in> {None, Some []}" "pu_password p \<in> {None, Some []}"
    using c by (auto simp: truthy_def split: option.splits)
  ultimately show ?thesis
    using p s h is_public_outside by (auto simp: list_all_iff)
qed

subsection \<open>Two addresses that pass\<close>

definition fixed_net :: "ip_address list \<Rightarrow> net_env" where
  "fixed_net ips = \<lparr>ne_bracketed = (\<lambda>_. False), ne_resolve = (\<lambda>_. Inr ips)\<rparr>"

definition odd_port_url :: string where
  "odd_port_url = ''https://a.tr:abc/''"

text \<open>The guard does not look at the port.\<close>

lemma odd_port_parts:
  "urlparse env odd_port_url = Inr \<lparr>pu_scheme = ''https'', pu_username = None, pu_password = None, pu_hostname = Some ''a.tr''\<rparr>"
  by (simp add: urlparse_def odd_port_url_def split_scheme_def url_clean_def url_netloc_def user_info_def host_info_def host_name_def
      before_char_def after_char_def scheme_char_def is_alpha_def is_lower_def is_upper_def is_digit_def lower_def lower_char_def
      take_Cons' drop_Cons')

lemma odd_port_guard:
  "list_all is_public_ip ips \<Longrightarrow> ips \<noteq> [] \<Longrightarrow> validate_url (fixed_net ips) prod_url_policy odd_port_url = Inr odd_port_url"
  by (simp add: validate_url_def odd_port_parts truthy_def resolved_def fixed_net_def prod_url_policy_def)

theorem guarded_url_stays_outside_witness:
  "validate_url (fixed_net [IPv4 0x5DB8D822]) prod_url_policy odd_port_url = Inr odd_port_url \<and> outside (IPv4 0x5DB8D822)"
proof -
  have "is_public_ip (IPv4 0x5DB8D822)"
    by (simp add: public4_ranges inner4_def between_def)
  then have ok: "validate_url (fixed_net [IPv4 0x5DB8D822]) prod_url_policy odd_port_url = Inr odd_port_url"
    by (intro odd_port_guard) simp_all
  then show ?thesis
    using guarded_url_stays_outside [OF ok] by (auto simp: fixed_net_def)
qed

text \<open>
  The shared address space 100.64.0.0/10, in which some clouds serve their instance metadata, passes: it is
  neither private nor reserved for \<^verbatim>\<open>ipaddress\<close>.
\<close>

lemma shared_range_passes: "is_public_ip (IPv4 0x646464C8)"
  by (simp add: public4_ranges inner4_def between_def)

end
