(* ===== verification/Webhooks.thy ===== *)
theory Webhooks
  imports UrlGuard Notifications
begin

section \<open>Sending webhook deliveries\<close>

text \<open>
  The delivery half of \<^verbatim>\<open>application/notifications/service.py\<close>. Name resolution, the cipher, HMAC, JSON and
  the HTTP client are parameters (\<open>webhook_env\<close>). A request ends with a status, with an \<^verbatim>\<open>httpx.HTTPError\<close>
  (\<open>HttpFailure\<close>), or with any other exception (\<open>HttpRaise\<close>): \<^verbatim>\<open>httpx.InvalidURL\<close>, which the client raises
  for a URL it cannot parse, is not an \<^verbatim>\<open>HTTPError\<close>. \<open>locked\<close> lists the deliveries the query skips: those another
  transaction holds (\<^verbatim>\<open>SKIP LOCKED\<close>) and, as the query has no \<^verbatim>\<open>ORDER BY\<close>, any others it does not reach before
  its limit; so every set of due rows within the limit can be the batch.
\<close>

datatype http_outcome = HttpStatus int | HttpFailure string | HttpRaise exn

record webhook_env =
  hk_net :: net_env
  hk_decrypt :: "(string \<Rightarrow> string option) option"
  hk_hmac :: "string \<Rightarrow> string \<Rightarrow> string"
  hk_body :: "webhook_delivery \<Rightarrow> string"
  hk_post :: "string \<Rightarrow> string \<Rightarrow> string \<Rightarrow> uuid \<Rightarrow> http_outcome"

definition sign_payload :: "(string \<Rightarrow> string \<Rightarrow> string) \<Rightarrow> string \<Rightarrow> string \<Rightarrow> int \<Rightarrow> string" where
  "sign_payload hmac_hex secret body timestamp =
     ''t='' @ int_text timestamp @ '',v1='' @ hmac_hex secret (int_text timestamp @ ''.'' @ body)"

text \<open>What the \<^verbatim>\<open>try\<close> block of \<^verbatim>\<open>_send_one\<close> computes: an error of the client, or the status of the response.\<close>

definition run_delivery ::
    "webhook_env \<Rightarrow> url_policy \<Rightarrow> instant \<Rightarrow> webhook_delivery \<Rightarrow> webhook_endpoint \<Rightarrow> (string + int) result" where
  "run_delivery env policy now w e =
     bind (validate_url (hk_net env) policy (we_url e)) (\<lambda>_.
       case hk_decrypt env of
         None \<Rightarrow> Inl (PyRuntimeError ''cipher_missing'')
       | Some f \<Rightarrow>
           (case f (we_secret_enc e) of
              None \<Rightarrow> Inl (PyRuntimeError ''field_encryption'')
            | Some secret \<Rightarrow>
                (case hk_post env (we_url e) (hk_body env w)
                        (sign_payload (hk_hmac env) secret (hk_body env w) (now div 1000000)) (wd_id w) of
                   HttpStatus st \<Rightarrow> Inr (Inr st)
                 | HttpFailure t \<Rightarrow> Inr (Inl t)
                 | HttpRaise x \<Rightarrow> Inl x)))"

text \<open>\<^verbatim>\<open>except (httpx.HTTPError, UnsafeUrlError, RuntimeError)\<close>, with the text of the exception.\<close>

definition caught :: "exn \<Rightarrow> string option" where
  "caught x = (case x of UnsafeUrlError t \<Rightarrow> Some t | PyRuntimeError t \<Rightarrow> Some t | _ \<Rightarrow> None)"

definition record_failure_rows :: "string \<Rightarrow> instant \<Rightarrow> webhook_delivery \<Rightarrow> webhook_endpoint \<Rightarrow> db \<Rightarrow> db" where
  "record_failure_rows err now w e d =
     set_endpoint (we_id e) (\<lambda>x. x\<lparr>we_last_failure_at := Some now\<rparr>) (set_delivery (wd_id w) (fail_delivery err now) d)"

definition send_one ::
    "webhook_env \<Rightarrow> url_policy \<Rightarrow> instant \<Rightarrow> webhook_delivery \<Rightarrow> webhook_endpoint \<Rightarrow> db \<Rightarrow> (bool \<times> db) result" where
  "send_one env policy now w e d =
     (case run_delivery env policy now w e of
        Inl x \<Rightarrow> (case caught x of None \<Rightarrow> Inl x | Some t \<Rightarrow> Inr (False, record_failure_rows t now w e d))
      | Inr (Inl t) \<Rightarrow> Inr (False, record_failure_rows t now w e d)
      | Inr (Inr st) \<Rightarrow>
          (let d1 = set_delivery (wd_id w) (\<lambda>x. x\<lparr>wd_response_status := Some st\<rparr>) d
           in if 200 \<le> st \<and> st < 300
              then Inr (True, set_endpoint (we_id e) (\<lambda>x. x\<lparr>we_last_success_at := Some now\<rparr>)
                     (set_delivery (wd_id w) (\<lambda>x. x\<lparr>wd_status := DelDelivered, wd_delivered_at := Some now\<rparr>) d1))
              else Inr (False, record_failure_rows (http_error st) now w e d1)))"

definition due_deliveries :: "uuid list \<Rightarrow> instant \<Rightarrow> nat \<Rightarrow> db \<Rightarrow> (webhook_delivery \<times> webhook_endpoint) list" where
  "due_deliveries locked now limit d =
     take limit [(w, e). w \<leftarrow> webhook_deliveries d, e \<leftarrow> webhook_endpoints d,
       we_id e = wd_endpoint_id w \<and> wd_status w = DelPending \<and> wd_next_attempt_at w \<le> now \<and> wd_id w \<notin> set locked]"

fun deliver_rows ::
    "webhook_env \<Rightarrow> url_policy \<Rightarrow> instant \<Rightarrow> (webhook_delivery \<times> webhook_endpoint) list \<Rightarrow> db \<Rightarrow> ((nat \<times> nat) \<times> db) result" where
  "deliver_rows env policy now [] d = Inr ((0, 0), d)"
| "deliver_rows env policy now ((w, e) # rows) d =
     bind (send_one env policy now w e d) (\<lambda>(ok, d1).
     bind (deliver_rows env policy now rows d1) (\<lambda>((delivered, failed), d2).
       Inr (if ok then (Suc delivered, failed) else (delivered, Suc failed), d2)))"

definition deliver_pending ::
    "webhook_env \<Rightarrow> url_policy \<Rightarrow> uuid list \<Rightarrow> instant \<Rightarrow> nat \<Rightarrow> db \<Rightarrow> ((nat \<times> nat) \<times> db) result" where
  "deliver_pending env policy locked now limit d = deliver_rows env policy now (due_deliveries locked now limit d) d"

definition webhook_batch :: nat where "webhook_batch = 20"

text \<open>\<^verbatim>\<open>Worker._deliver_webhooks\<close>: one transaction around the batch, rolled back by an exception.\<close>

definition deliver_webhooks ::
    "webhook_env \<Rightarrow> bool \<Rightarrow> uuid list \<Rightarrow> instant \<Rightarrow> db \<Rightarrow> nat result \<times> db" where
  "deliver_webhooks env production locked now d =
     (case deliver_pending env (if production then prod_url_policy else dev_url_policy) locked now webhook_batch d of
        Inl x \<Rightarrow> (Inl x, d)
      | Inr ((delivered, failed), d1) \<Rightarrow> (Inr delivered, d1))"

subsection \<open>A batch settles every row it takes\<close>

definition wd_get :: "db \<Rightarrow> uuid \<Rightarrow> webhook_delivery option" where
  "wd_get d i = tget wd_id (webhook_deliveries d) i"

lemma delivery_setters [simp]:
  "webhook_deliveries (set_endpoint i f d) = webhook_deliveries d"
  "webhook_deliveries (set_delivery i g d) = tupd (\<lambda>w. wd_id w = i) g (webhook_deliveries d)"
  by (simp_all add: set_endpoint_def set_delivery_def)

lemma fail_delivery_id [simp]: "wd_id (fail_delivery err now w) = wd_id w"
  by (simp add: fail_delivery_def Let_def)

text \<open>What may become of a pending delivery that was sent at \<open>now\<close>.\<close>

definition delivered_at :: "instant \<Rightarrow> webhook_delivery \<Rightarrow> webhook_delivery \<Rightarrow> bool" where
  "delivered_at now w w' \<longleftrightarrow> wd_status w' = DelDelivered \<and> wd_delivered_at w' = Some now \<and> wd_attempts w' = wd_attempts w \<and>
     (\<exists>st. wd_response_status w' = Some st \<and> 200 \<le> st \<and> st < 300)"

definition failed_at :: "instant \<Rightarrow> webhook_delivery \<Rightarrow> webhook_delivery \<Rightarrow> bool" where
  "failed_at now w w' \<longleftrightarrow> wd_attempts w' = wd_attempts w + 1 \<and>
     (if max_delivery_attempts \<le> wd_attempts w' then wd_status w' = DelDeadLetter
      else wd_status w' = DelPending \<and> now < wd_next_attempt_at w' \<and> wd_next_attempt_at w' \<le> now + seconds 900)"

lemma failed_at_fail:
  "wd_status w = DelPending \<Longrightarrow> failed_at now w (fail_delivery err now w)"
  "wd_status w = DelPending \<Longrightarrow> failed_at now w (fail_delivery err now (w\<lparr>wd_response_status := r\<rparr>))"
  using webhook_backoff_bounds by (auto simp: failed_at_def fail_delivery_def Let_def seconds_def)

lemma tget_tupd_id: "(\<And>w. wd_id (f w) = wd_id w) \<Longrightarrow>
    tget wd_id (tupd (\<lambda>w. wd_id w = j) f rows) i = map_option (\<lambda>w. if wd_id w = j then f w else w) (tget wd_id rows i)"
  by (simp add: tget_tupd)

lemma wd_get_id: "wd_get d i = Some r \<Longrightarrow> wd_id r = i"
  using tget_SomeD by (fastforce simp: wd_get_def)

lemma send_one_other:
  assumes "send_one env policy now w e d = Inr (ok, d')" "i \<noteq> wd_id w"
  shows "wd_get d' i = wd_get d i"
proof -
  have same: "map_option (\<lambda>x. if wd_id x = wd_id w then f x else x) (tget wd_id rows i) = tget wd_id rows i" for f rows
    using assms(2) tget_SomeD [of wd_id rows i] by (cases "tget wd_id rows i") auto
  show ?thesis
    using assms(1)
    by (auto simp: send_one_def record_failure_rows_def wd_get_def Let_def tget_tupd_id same split: sum.splits option.splits if_splits)
qed

lemma send_one_row:
  assumes "send_one env policy now w e d = Inr (ok, d')" "wd_get d (wd_id w) = Some w" "wd_status w = DelPending"
  shows "\<exists>w'. wd_get d' (wd_id w) = Some w' \<and> (if ok then delivered_at now w w' else failed_at now w w')"
  using assms(1,2) failed_at_fail [OF assms(3)]
  by (auto simp: send_one_def record_failure_rows_def wd_get_def Let_def tget_tupd_id delivered_at_def
      split: sum.splits option.splits if_splits)

text \<open>How many of the rows \<open>ids\<close> are delivered.\<close>

definition delivered_count :: "uuid list \<Rightarrow> db \<Rightarrow> nat" where
  "delivered_count ids d = length (filter (\<lambda>i. case wd_get d i of None \<Rightarrow> False | Some w \<Rightarrow> wd_status w = DelDelivered) ids)"

lemma deliver_rows_settle:
  assumes "deliver_rows env policy now rows d = Inr ((ok, bad), d')" "distinct (map (\<lambda>r. wd_id (fst r)) rows)"
    "\<forall>(w, e) \<in> set rows. wd_get d (wd_id w) = Some w \<and> wd_status w = DelPending"
  shows "ok + bad = length rows \<and> ok = delivered_count (map (\<lambda>r. wd_id (fst r)) rows) d' \<and>
    (\<forall>(w, e) \<in> set rows. \<exists>w'. wd_get d' (wd_id w) = Some w' \<and> (delivered_at now w w' \<or> failed_at now w w')) \<and>
    (\<forall>i. i \<notin> set (map (\<lambda>r. wd_id (fst r)) rows) \<longrightarrow> wd_get d' i = wd_get d i)"
  using assms
proof (induction rows arbitrary: d ok bad)
  case Nil
  then show ?case
    by (simp add: delivered_count_def)
next
  case (Cons row rows)
  obtain w e where row: "row = (w, e)"
    by (cases row)
  obtain one d1 okr badr where s: "send_one env policy now w e d = Inr (one, d1)"
    and r: "deliver_rows env policy now rows d1 = Inr ((okr, badr), d')"
    and ok: "ok = (if one then Suc okr else okr)" "bad = (if one then badr else Suc badr)"
  proof -
    obtain one d1 where s: "send_one env policy now w e d = Inr (one, d1)"
      and k: "bind (deliver_rows env policy now rows d1) (\<lambda>((delivered, failed), d2).
         Inr (if one then (Suc delivered, failed) else (delivered, Suc failed), d2)) = Inr ((ok, bad), d')"
      using Cons.prems(1) by (auto simp: row bind_eq_Inr)
    then obtain okr badr where "deliver_rows env policy now rows d1 = Inr ((okr, badr), d')"
      "(ok, bad) = (if one then (Suc okr, badr) else (okr, Suc badr))"
      by (auto simp: bind_eq_Inr)
    then show ?thesis
      using s by (intro that) (auto split: if_splits)
  qed
  have w: "wd_get d (wd_id w) = Some w" "wd_status w = DelPending" "wd_id w \<notin> set (map (\<lambda>r. wd_id (fst r)) rows)"
    using Cons.prems(2,3) by (auto simp: row)
  have "\<forall>(v, e) \<in> set rows. wd_get d1 (wd_id v) = Some v \<and> wd_status v = DelPending"
  proof (intro ballI, clarify)
    fix v f
    assume v: "(v, f) \<in> set rows"
    then have "wd_id v \<noteq> wd_id w"
      using w(3) by force
    then show "wd_get d1 (wd_id v) = Some v \<and> wd_status v = DelPending"
      using Cons.prems(3) v send_one_other [OF s] by auto
  qed
  note IH = Cons.IH [OF r _ this]
  have dist: "distinct (map (\<lambda>r. wd_id (fst r)) rows)"
    using Cons.prems(2) by (simp add: comp_def)
  note IH = IH [OF dist]
  obtain w' where w': "wd_get d1 (wd_id w) = Some w'" "if one then delivered_at now w w' else failed_at now w w'"
    using send_one_row [OF s w(1,2)] by blast
  have at: "wd_get d' (wd_id w) = Some w'"
    using IH w(3) w'(1) by simp
  have status: "wd_status w' = DelDelivered \<longleftrightarrow> one"
    using w'(2) by (auto simp: delivered_at_def failed_at_def split: if_splits)
  have "ok = delivered_count (map (\<lambda>r. wd_id (fst r)) (row # rows)) d'"
    using IH at status by (simp add: delivered_count_def row ok)
  moreover have "ok + bad = length (row # rows)"
    using IH by (auto simp: ok)
  moreover have "\<forall>(v, f) \<in> set (row # rows). \<exists>w'. wd_get d' (wd_id v) = Some w' \<and> (delivered_at now v w' \<or> failed_at now v w')"
    using IH at w'(2) by (cases one) (auto simp: row)
  moreover have "\<forall>i. i \<notin> set (map (\<lambda>r. wd_id (fst r)) (row # rows)) \<longrightarrow> wd_get d' i = wd_get d i"
    using IH send_one_other [OF s] by (simp add: row)
  ultimately show ?case
    by blast
qed

lemma due_deliveries_rows:
  assumes "(w, e) \<in> set (due_deliveries locked now limit d)"
  shows "w \<in> set (webhook_deliveries d) \<and> wd_status w = DelPending \<and> e \<in> set (webhook_endpoints d) \<and> we_id e = wd_endpoint_id w"
proof -
  have "(w, e) \<in> set [(w, e). w \<leftarrow> webhook_deliveries d, e \<leftarrow> webhook_endpoints d,
       we_id e = wd_endpoint_id w \<and> wd_status w = DelPending \<and> wd_next_attempt_at w \<le> now \<and> wd_id w \<notin> set locked]"
    using assms unfolding due_deliveries_def by (rule in_set_takeD)
  then show ?thesis
    by auto
qed

lemma distinct_short: "length xs \<le> 1 \<Longrightarrow> distinct (map f xs)"
  by (cases xs) auto

lemma distinct_join:
  assumes "distinct (map wd_id ws)" "distinct (map we_id es)"
  shows "distinct (map (\<lambda>r. wd_id (fst r)) [(w, e). w \<leftarrow> ws, e \<leftarrow> es, we_id e = wd_endpoint_id w \<and> p w])"
  using assms(1)
proof (induction ws)
  case (Cons w ws)
  let ?in = "[(w, e). e \<leftarrow> es, we_id e = wd_endpoint_id w \<and> p w]"
  have one: "length (filter (\<lambda>e. we_id e = wd_endpoint_id w) es) \<le> 1"
    using assms(2) unique_on_filter_length [of "\<lambda>_. True" we_id es "wd_endpoint_id w"] by (simp add: unique_on_def)
  have inner: "?in = map (Pair w) (filter (\<lambda>e. we_id e = wd_endpoint_id w \<and> p w) es)"
    by (induction es) auto
  have "length ?in \<le> 1"
    unfolding inner using one by (cases "p w") simp_all
  then have "distinct (map (\<lambda>r. wd_id (fst r)) ?in)"
    by (rule distinct_short)
  moreover have "set (map (\<lambda>r. wd_id (fst r)) ?in) \<subseteq> {wd_id w}"
    by auto
  moreover have "wd_id w \<notin> set (map (\<lambda>r. wd_id (fst r)) [(w, e). w \<leftarrow> ws, e \<leftarrow> es, we_id e = wd_endpoint_id w \<and> p w])"
    using Cons.prems by auto
  ultimately show ?case
    using Cons by auto
qed simp


subsection \<open>A concrete batch\<close>

definition example_endpoint :: "uuid \<Rightarrow> string \<Rightarrow> webhook_endpoint" where
  "example_endpoint i url = \<lparr>we_id = i, we_organization_id = 7, we_url = url, we_description = None, we_secret_enc = ''s'',
     we_active = True, we_last_success_at = None, we_last_failure_at = None\<rparr>"

definition example_delivery :: "uuid \<Rightarrow> uuid \<Rightarrow> webhook_delivery" where
  "example_delivery i e = \<lparr>wd_id = i, wd_organization_id = 7, wd_endpoint_id = e, wd_event_type = ''webhook.test'',
     wd_payload = TestPayload ''5'', wd_status = DelPending, wd_attempts = 0, wd_next_attempt_at = 0, wd_last_error = None,
     wd_response_status = None, wd_delivered_at = None, wd_created_at = 0\<rparr>"

text \<open>A client that answers 200, and refuses the URL with the odd port as \<^verbatim>\<open>httpx\<close> does.\<close>

definition example_webhooks :: webhook_env where
  "example_webhooks = \<lparr>hk_net = fixed_net [IPv4 0x5DB8D822], hk_decrypt = Some Some, hk_hmac = (\<lambda>_ _. ''00''), hk_body = (\<lambda>_. ''{}''),
     hk_post = (\<lambda>url _ _ _. if url = odd_port_url then HttpRaise (InvalidUrlError ''port'') else HttpStatus 200)\<rparr>"

definition webhook_db :: db where
  "webhook_db = empty_db\<lparr>webhook_endpoints := [example_endpoint 3 ''ftp://a.tr''], webhook_deliveries := [example_delivery 4 3],
     next_id := 5\<rparr>"

lemma ftp_refused: "validate_url env prod_url_policy ''ftp://a.tr'' = Inl (UnsafeUrlError ''scheme'')"
  by (simp add: validate_url_def prod_url_policy_def urlparse_def split_scheme_def url_clean_def url_netloc_def user_info_def
      host_info_def host_name_def before_char_def after_char_def scheme_char_def is_alpha_def is_lower_def is_upper_def is_digit_def
      lower_def lower_char_def take_Cons' drop_Cons')


end
