(* ===== verification/WorkerLoop.thy ===== *)
theory WorkerLoop
  imports Webhooks Worker Mail PrivacyProcessor
begin

section \<open>The loop of the worker process\<close>

text \<open>
  \<^verbatim>\<open>Worker.run_once\<close> and \<^verbatim>\<open>Worker.run_forever\<close> of \<^verbatim>\<open>worker/runner.py\<close>: the four sources of work in the
  order in which they are polled, each in transactions of its own. A poll runs at one instant. The loop has
  no \<^verbatim>\<open>except\<close>: an exception of a source ends the process. Metrics and the pause between polls are left out,
  and a run of the loop is a list of polls (the instants and the rows other transactions hold then).
\<close>

record worker_env =
  wk_exn_text :: "exn \<Rightarrow> string"
  wk_libm :: libm
  wk_pydantic :: pydantic
  wk_webhooks :: webhook_env
  wk_production :: bool
  wk_mail :: mail_env
  wk_privacy :: privacy_env

record poll =
  po_now :: instant
  po_outbox_locked :: "uuid list"
  po_webhooks_locked :: "uuid list"
  po_mail_locked :: "uuid list"
  po_privacy_locked :: "uuid list"

definition mail_batch :: nat where "mail_batch = 20"
definition privacy_batch :: nat where "privacy_batch = 5"

definition run_once :: "worker_env \<Rightarrow> 's object_storage \<Rightarrow> poll \<Rightarrow> db \<Rightarrow> 's \<Rightarrow> nat result \<times> db \<times> 's" where
  "run_once env st po d s =
     (let (n1, d1) = process_outbox_batch (wk_exn_text env) (po_outbox_locked po) (po_now po) (wk_libm env) (wk_pydantic env) d
      in case deliver_webhooks (wk_webhooks env) (wk_production env) (po_webhooks_locked po) (po_now po) d1 of
           (Inl x, d2) \<Rightarrow> (Inl x, d2, s)
         | (Inr n2, d2) \<Rightarrow>
             (let (stats, d3) = deliver_due (wk_mail env) (po_mail_locked po) mail_batch (po_now po) d2
              in case process_due (wk_privacy env) st privacy_batch (po_privacy_locked po) (po_now po) d3 s of
                   (Inl x, d4, s4) \<Rightarrow> (Inl x, d4, s4)
                 | (Inr n4, d4, s4) \<Rightarrow> (Inr (n1 + n2 + handled stats + n4), d4, s4)))"

text \<open>The result tells whether the process is still running.\<close>

fun run_forever :: "worker_env \<Rightarrow> 's object_storage \<Rightarrow> poll list \<Rightarrow> db \<Rightarrow> 's \<Rightarrow> exn option \<times> db \<times> 's" where
  "run_forever env st [] d s = (None, d, s)"
| "run_forever env st (po # polls) d s =
     (case run_once env st po d s of
        (Inl x, d1, s1) \<Rightarrow> (Some x, d1, s1)
      | (Inr n, d1, s1) \<Rightarrow> run_forever env st polls d1 s1)"

subsection \<open>One bad URL stops the process\<close>

lemma send_one_uncaught:
  assumes "run_delivery env policy now w e = Inl x" "caught x = None"
  shows "send_one env policy now w e d = Inl x"
  using assms by (simp add: send_one_def)

lemma deliver_rows_raises:
  assumes "(w, e) \<in> set rows" "run_delivery env policy now w e = Inl x" "caught x = None"
  shows "\<exists>y. deliver_rows env policy now rows d = Inl y"
  using assms(1)
proof (induction rows arbitrary: d)
  case (Cons row rows)
  obtain v f where row: "row = (v, f)"
    by (cases row)
  show ?case
  proof (cases "send_one env policy now v f d")
    case (Inr r)
    obtain ok d1 where r: "r = (ok, d1)"
      by (cases r)
    have "(w, e) \<in> set rows"
      using Cons.prems Inr send_one_uncaught [OF assms(2,3), of d] by (auto simp: row)
    from Cons.IH [OF this, of d1] show ?thesis
      by (auto simp: row Inr r)
  qed (simp add: row)
qed simp

text \<open>The outbox batch leaves the queues of the other sources alone, except that it queues deliveries.\<close>

definition queues_kept :: "db \<Rightarrow> db \<Rightarrow> bool" where
  "queues_kept d d' \<longleftrightarrow> email_messages d' = email_messages d \<and> privacy_requests d' = privacy_requests d \<and>
     webhook_endpoints d' = webhook_endpoints d \<and> prefix (webhook_deliveries d) (webhook_deliveries d')"

lemma queues_kept_refl [simp]: "queues_kept d d"
  by (simp add: queues_kept_def)

lemma queues_kept_trans: "queues_kept d d1 \<Longrightarrow> queues_kept d1 d2 \<Longrightarrow> queues_kept d d2"
  unfolding queues_kept_def by (auto intro: prefix_order.trans)

lemma queues_kept_fold:
  assumes "\<And>x st. queues_kept (snd st) (snd (f x st))"
  shows "queues_kept (snd st) (snd (fold f xs st))"
proof (induction xs arbitrary: st)
  case (Cons x xs)
  show ?case
    using queues_kept_trans [OF assms Cons.IH] by simp
qed simp

lemma active_trip_queues: "active_trip tenant v a d = (t, d1) \<Longrightarrow> queues_kept d d1"
  by (auto simp: active_trip_def open_trip_def set_trip_def queues_kept_def Let_def split: option.splits if_splits)

lemma process_point_queues: "queues_kept d (snd (process_point now m event e p v d))"
proof -
  obtain t d1 where t: "active_trip (ie_organization_id event) (v_id v) (e_occurred_at e) d = (t, d1)"
    by fastforce
  show ?thesis
    using active_trip_queues [OF t]
    by (simp add: process_point_def t case_prod_beta Let_def set_trip_def set_ingest_event_def queues_kept_def)
qed

lemma process_ingest_event_queues:
  assumes "process_ingest_event now m pyd event d = Inr (x, d1)"
  shows "queues_kept d d1"
proof (cases "ie_event_type event = ''telemetry.position''")
  case True
  obtain e where e: "of_validation (validate_envelope pyd (ie_envelope event)) = Inr e"
    using assms True by (auto simp: process_ingest_event_def bind_eq_Inr)
  obtain p where p: "of_validation (validate_payload pyd (e_payload e)) = Inr p"
    using assms True e by (auto simp: process_ingest_event_def bind_eq_Inr)
  obtain vehicle where r: "resolve_vehicle (ie_organization_id event) (e_vehicle_external_id e) d = Inr vehicle"
    using assms True e p by (auto simp: process_ingest_event_def bind_eq_Inr)
  show ?thesis
  proof (cases vehicle)
    case None
    then show ?thesis
      using assms True e p r by (auto simp: process_ingest_event_def set_ingest_event_def queues_kept_def)
  next
    case (Some w)
    then have "d1 = snd (process_point now m event e p w d)"
      using assms True e p r by (auto simp: process_ingest_event_def case_prod_beta)
    then show ?thesis
      by (simp add: process_point_queues)
  qed
next
  case False
  then show ?thesis
    using assms by (auto simp: process_ingest_event_def set_ingest_event_def queues_kept_def)
qed

lemma persist_queues: "persist now ctx sample hit d = Inr (i, d1) \<Longrightarrow> queues_kept d d1"
  by (cases rule: persist_cases [of d ctx hit now sample]) (auto simp: queues_kept_def)

lemma persist_all_queues: "persist_all now ctx sample hits d = Inr (is, d1) \<Longrightarrow> queues_kept d d1"
proof (induction hits arbitrary: d "is")
  case (Cons hit hits)
  then show ?case
    by (auto simp: bind_eq_Inr intro: queues_kept_trans dest: persist_queues)
qed simp

lemma evaluate_queues: "evaluate now ctx sample th d = Inr (is, d1) \<Longrightarrow> queues_kept d d1"
  by (auto simp: evaluate_def bind_eq_Inr dest: persist_all_queues)

lemma set_ingest_queues: "queues_kept (set_ingest_event i f d) d1 \<longleftrightarrow> queues_kept d d1"
  by (simp add: set_ingest_event_def queues_kept_def)

lemma process_accepted_queues: "process_accepted_ingest_event now m pyd event d = Inr (x, d1) \<Longrightarrow> queues_kept d d1"
  by (auto simp: process_accepted_ingest_event_def bind_eq_Inr Let_def set_ingest_queues intro: queues_kept_trans
      dest!: process_ingest_event_queues evaluate_queues split: if_splits option.splits) (blast intro: queues_kept_trans)

lemma queue_delivery_queues: "queues_kept d (queue_delivery now org n p e d)"
  by (simp add: queues_kept_def queue_delivery_def)

lemma queue_webhooks_queues: "queues_kept d (snd (queue_webhooks now org n p d))"
proof -
  have "queues_kept d (fold (queue_delivery now org n p) es d)" for es
    by (induction es arbitrary: d) (auto intro: queues_kept_trans queue_delivery_queues)
  then show ?thesis
    by (simp add: queue_webhooks_def Let_def)
qed

lemma apply_rule_queues: "queues_kept (snd st) (snd (apply_rule now org i t sev r st))"
proof -
  have note_kept: "queues_kept d (notify_in_app now org i sev r d)" for d
    by (simp add: queues_kept_def notify_in_app_def)
  let ?st1 = "if InApp \<in> set (nr_channels r) then (fst st + 1, notify_in_app now org i sev r (snd st)) else st"
  have first: "queues_kept (snd st) (snd ?st1)"
    by (simp add: note_kept)
  have "snd (apply_rule now org i t sev r st) = (if WebhookChannel \<in> set (nr_channels r)
      then snd (queue_webhooks now org ''safety.event_created'' (SafetyPayload i t sev) (snd ?st1)) else snd ?st1)"
    by (simp only: apply_rule_def case_prod_beta Let_def snd_conv if_distrib [of snd])
  then show ?thesis
    using first queues_kept_trans [OF first queue_webhooks_queues] by presburger
qed

lemma dispatch_queues: "dispatch now m pyd o1 d = Inr d1 \<Longrightarrow> queues_kept d d1"
  using queues_kept_fold [of "apply_rule now org i t sev" "(0, d)" rs for org i t sev rs, OF apply_rule_queues]
  by (auto simp: dispatch_def handle_ingest_accepted_def on_safety_event_def bind_eq_Inr dest: process_accepted_queues
      split: outbox_payload.splits option.splits)

lemma process_event_queues: "queues_kept (snd st) (snd (process_event exn_text now m pyd o1 st))"
  using dispatch_queues [of now m pyd o1 "snd st"]
  by (auto simp: process_event_def set_outbox_def queues_kept_def split: sum.splits)

lemma outbox_batch_queues: "queues_kept d (snd (process_outbox_batch exn_text locked now m pyd d))"
proof -
  obtain events d1 where c: "claim locked now d = (events, d1)"
    by fastforce
  then have "queues_kept d d1"
    by (auto simp: claim_def Let_def queues_kept_def)
  then show ?thesis
    using queues_kept_fold [of "process_event exn_text now m pyd" "(0, d1)", OF process_event_queues]
    by (auto simp: process_outbox_batch_def c intro: queues_kept_trans)
qed

text \<open>A supervisor starts the next process on the database the last one left.\<close>

fun restarts ::
    "worker_env \<Rightarrow> 's object_storage \<Rightarrow> poll list list \<Rightarrow> db \<Rightarrow> 's \<Rightarrow> exn option list \<times> db \<times> 's" where
  "restarts env st [] d s = ([], d, s)"
| "restarts env st (polls # runs) d s =
     (let (x, d1, s1) = run_forever env st polls d s; (xs, d2, s2) = restarts env st runs d1 s1 in (x # xs, d2, s2))"

text \<open>A pending delivery to \<open>url\<close>, one of the first of the table.\<close>

definition early_delivery :: "webhook_delivery \<Rightarrow> webhook_endpoint \<Rightarrow> db \<Rightarrow> bool" where
  "early_delivery w e d \<longleftrightarrow> (\<exists>before after. webhook_deliveries d = before @ w # after \<and> length before < webhook_batch) \<and>
     wd_status w = DelPending \<and> e \<in> set (webhook_endpoints d) \<and> we_id e = wd_endpoint_id w \<and>
     keys_distinct we_id (webhook_endpoints d)"

lemma early_delivery_kept: "early_delivery w e d \<Longrightarrow> queues_kept d d1 \<Longrightarrow> early_delivery w e d1"
  by (fastforce simp: early_delivery_def queues_kept_def prefix_def)

lemma join_one: "concat (map (\<lambda>e. if q e then [(w, e)] else []) es) = map (Pair w) (filter q es)"
  by (induction es) auto

lemma join_length: "distinct (map we_id es) \<Longrightarrow> length [(w, e). w \<leftarrow> ws, e \<leftarrow> es, we_id e = wd_endpoint_id w \<and> p w] \<le> length ws"
proof (induction ws)
  case (Cons w ws)
  have "length (filter (\<lambda>e. we_id e = wd_endpoint_id w) es) \<le> 1"
    using Cons.prems unique_on_filter_length [of "\<lambda>_. True" we_id es "wd_endpoint_id w"] by (simp add: unique_on_def)
  moreover have "[(w, e). e \<leftarrow> es, we_id e = wd_endpoint_id w \<and> p w] = map (Pair w) (filter (\<lambda>e. we_id e = wd_endpoint_id w \<and> p w) es)"
    by (induction es) auto
  moreover have "length (filter (\<lambda>e. we_id e = wd_endpoint_id w \<and> p w) es) \<le> length (filter (\<lambda>e. we_id e = wd_endpoint_id w) es)"
    by (cases "p w") simp_all
  ultimately have "length [(w, e). e \<leftarrow> es, we_id e = wd_endpoint_id w \<and> p w] \<le> 1"
    by (metis (no_types, lifting) le_trans length_map)
  then show ?case
    using Cons by simp
qed simp

lemma early_delivery_due:
  assumes "early_delivery w e d" "wd_next_attempt_at w \<le> now" "wd_id w \<notin> set locked"
  shows "(w, e) \<in> set (due_deliveries locked now webhook_batch d)"
proof -
  obtain before after where ws: "webhook_deliveries d = before @ w # after" "length before < webhook_batch"
    using assms(1) by (auto simp: early_delivery_def)
  let ?p = "\<lambda>w. wd_status w = DelPending \<and> wd_next_attempt_at w \<le> now \<and> wd_id w \<notin> set locked"
  let ?join = "\<lambda>ws. [(w, e). w \<leftarrow> ws, e \<leftarrow> webhook_endpoints d, we_id e = wd_endpoint_id w \<and> ?p w]"
  have short: "length (?join before) < webhook_batch"
    using join_length [where es = "webhook_endpoints d" and ws = before and p = ?p] assms(1) ws(2)
    by (simp add: early_delivery_def keys_distinct_def)
  obtain es1 es2 where es: "webhook_endpoints d = es1 @ e # es2"
    using assms(1) by (auto simp: early_delivery_def dest: split_list)
  have none: "we_id x \<noteq> wd_endpoint_id w" if "x \<in> set es1" for x
    using assms(1) that by (force simp: early_delivery_def keys_distinct_def es)
  have "filter (\<lambda>e. we_id e = wd_endpoint_id w) es1 = []"
    using none by (simp add: filter_empty_conv)
  then obtain rest where "?join [w] = (w, e) # rest"
    using assms by (simp add: es early_delivery_def join_one)
  then have "?join (before @ w # after) = ?join before @ (w, e) # (rest @ ?join after)"
    by simp
  then have "(w, e) \<in> set (take webhook_batch (?join (before @ w # after)))"
    using short by (simp add: take_Cons')
  then show ?thesis
    by (simp only: due_deliveries_def ws(1))
qed

text \<open>
  A URL that passes the guard and that the HTTP client refuses with an exception \<^verbatim>\<open>_send_one\<close> does not handle
  (\<^verbatim>\<open>httpx.InvalidURL\<close>), and a secret that can be decrypted.
\<close>

definition loop_policy :: "worker_env \<Rightarrow> url_policy" where
  "loop_policy env = (if wk_production env then prod_url_policy else dev_url_policy)"

definition unparsable :: "webhook_env \<Rightarrow> url_policy \<Rightarrow> string \<Rightarrow> bool" where
  "unparsable env policy url \<longleftrightarrow> validate_url (hk_net env) policy url = Inr url \<and>
     (\<forall>body sig i. \<exists>x. hk_post env url body sig i = HttpRaise x \<and> caught x = None)"

definition secret_readable :: "webhook_env \<Rightarrow> webhook_endpoint \<Rightarrow> bool" where
  "secret_readable env e \<longleftrightarrow> (case hk_decrypt env of None \<Rightarrow> False | Some f \<Rightarrow> f (we_secret_enc e) \<noteq> None)"

lemma unparsable_raises:
  assumes "unparsable env policy (we_url e)" "secret_readable env e"
  shows "\<exists>x. run_delivery env policy now w e = Inl x \<and> caught x = None"
proof -
  obtain f secret where f: "hk_decrypt env = Some f" "f (we_secret_enc e) = Some secret"
    using assms(2) by (auto simp: secret_readable_def split: option.splits)
  obtain x where "hk_post env (we_url e) (hk_body env w)
      (sign_payload (hk_hmac env) secret (hk_body env w) (now div 1000000)) (wd_id w) = HttpRaise x" "caught x = None"
    using assms(1) unfolding unparsable_def by blast
  then show ?thesis
    using assms(1) f by (simp add: run_delivery_def unparsable_def)
qed

text \<open>
  The query of \<^verbatim>\<open>deliver_pending\<close> takes 20 due rows in no particular order; \<open>po_webhooks_locked\<close> stands for the
  rows it skips. \<open>picked\<close> says that a poll takes the delivery up, if it is still there, and \<open>picked_each\<close> that the
  first poll of every process does.
\<close>

definition after_outbox :: "worker_env \<Rightarrow> poll \<Rightarrow> db \<Rightarrow> db" where
  "after_outbox env po d =
     snd (process_outbox_batch (wk_exn_text env) (po_outbox_locked po) (po_now po) (wk_libm env) (wk_pydantic env) d)"

definition picked :: "poll \<Rightarrow> webhook_delivery \<Rightarrow> webhook_endpoint \<Rightarrow> db \<Rightarrow> bool" where
  "picked po w e d \<longleftrightarrow> (w \<in> set (webhook_deliveries d) \<and> e \<in> set (webhook_endpoints d) \<longrightarrow>
     (w, e) \<in> set (due_deliveries (po_webhooks_locked po) (po_now po) webhook_batch d))"

fun picked_each ::
    "worker_env \<Rightarrow> 's object_storage \<Rightarrow> webhook_delivery \<Rightarrow> webhook_endpoint \<Rightarrow> poll list list \<Rightarrow> db \<Rightarrow> 's \<Rightarrow> bool" where
  "picked_each env st w e [] d s = True"
| "picked_each env st w e (polls # runs) d s =
     (polls \<noteq> [] \<and> picked (hd polls) w e (after_outbox env (hd polls) d) \<and>
      (let (x, d1, s1) = run_forever env st polls d s in picked_each env st w e runs d1 s1))"

lemma queues_kept_stored:
  "queues_kept d d1 \<Longrightarrow> w \<in> set (webhook_deliveries d) \<Longrightarrow> e \<in> set (webhook_endpoints d) \<Longrightarrow>
   w \<in> set (webhook_deliveries d1) \<and> e \<in> set (webhook_endpoints d1)"
  by (auto simp: queues_kept_def dest: set_mono_prefix)

lemma bad_poll:
  assumes "unparsable (wk_webhooks env) (loop_policy env) (we_url e)" "secret_readable (wk_webhooks env) e"
    "w \<in> set (webhook_deliveries d)" "e \<in> set (webhook_endpoints d)" "picked po w e (after_outbox env po d)"
  shows "\<exists>x d1. run_once env st po d s = (Inl x, d1, s) \<and> queues_kept d d1"
proof -
  obtain n1 d1 where b: "process_outbox_batch (wk_exn_text env) (po_outbox_locked po) (po_now po) (wk_libm env) (wk_pydantic env) d = (n1, d1)"
    by fastforce
  then have d1: "after_outbox env po d = d1"
    by (simp add: after_outbox_def)
  have kept: "queues_kept d d1"
    using outbox_batch_queues [of d "wk_exn_text env" "po_outbox_locked po" "po_now po" "wk_libm env" "wk_pydantic env"] by (simp add: b)
  then have due: "(w, e) \<in> set (due_deliveries (po_webhooks_locked po) (po_now po) webhook_batch d1)"
    using assms(5) queues_kept_stored [OF kept assms(3,4)] by (simp add: picked_def d1)
  obtain x where "run_delivery (wk_webhooks env) (loop_policy env) (po_now po) w e = Inl x" "caught x = None"
    using unparsable_raises [OF assms(1,2)] by blast
  then obtain y where "deliver_pending (wk_webhooks env) (loop_policy env) (po_webhooks_locked po) (po_now po) webhook_batch d1 = Inl y"
    using deliver_rows_raises [OF due] by (force simp: deliver_pending_def)
  then have "run_once env st po d s = (Inl y, d1, s)"
    by (simp add: run_once_def b deliver_webhooks_def loop_policy_def)
  then show ?thesis
    using kept by blast
qed

text \<open>
  C33: one endpoint whose URL passes the guard but cannot be parsed by the HTTP client stops the worker of
  every tenant, because the exception is not among those \<^verbatim>\<open>_send_one\<close> handles. A poll that takes up a delivery
  to it rolls its batch back and ends the process, which has no handler; the delivery is still pending, so
  every process started after it ends in the same way as soon as it takes the delivery up. Until then no mail
  is claimed and no privacy request is touched, and webhook deliveries only pile up.
\<close>

theorem bad_webhook_stops_worker:
  assumes "unparsable (wk_webhooks env) (loop_policy env) (we_url e)" "secret_readable (wk_webhooks env) e"
    "w \<in> set (webhook_deliveries d)" "e \<in> set (webhook_endpoints d)" "picked_each env st w e runs d s"
  shows "\<exists>xs d'. restarts env st runs d s = (xs, d', s) \<and> length xs = length runs \<and> None \<notin> set xs \<and> queues_kept d d' \<and>
    w \<in> set (webhook_deliveries d') \<and> e \<in> set (webhook_endpoints d')"
  using assms(3-5)
proof (induction runs arbitrary: d)
  case (Cons polls runs)
  then obtain po rest where polls: "polls = po # rest"
    by (cases polls) auto
  obtain x d1 where x: "run_once env st po d s = (Inl x, d1, s)" "queues_kept d d1"
    using bad_poll [OF assms(1,2) Cons.prems(1,2), of po st s] Cons.prems(3) by (auto simp: polls)
  have next_run: "picked_each env st w e runs d1 s"
    using Cons.prems(3) x(1) by (simp add: polls)
  obtain xs d' where "restarts env st runs d1 s = (xs, d', s)" "length xs = length runs" "None \<notin> set xs" "queues_kept d1 d'"
    "w \<in> set (webhook_deliveries d')" "e \<in> set (webhook_endpoints d')"
    using Cons.IH [OF _ _ next_run] queues_kept_stored [OF x(2) Cons.prems(1,2)] by auto
  then show ?case
    using x queues_kept_trans [OF x(2)] by (auto simp: polls)
qed simp

text \<open>A scan in the order of the table picks a delivery that is among the first 20 rows.\<close>

lemma early_picked:
  assumes "early_delivery w e d" "wd_next_attempt_at w \<le> po_now po" "wd_id w \<notin> set (po_webhooks_locked po)"
  shows "picked po w e (after_outbox env po d)"
proof -
  have "queues_kept d (after_outbox env po d)"
    unfolding after_outbox_def by (rule outbox_batch_queues)
  then show ?thesis
    using early_delivery_due [OF early_delivery_kept [OF assms(1)] assms(2,3)] by (simp add: picked_def)
qed

lemma early_picked_each:
  assumes "unparsable (wk_webhooks env) (loop_policy env) (we_url e)" "secret_readable (wk_webhooks env) e" "early_delivery w e d"
    "\<forall>polls \<in> set runs. polls \<noteq> [] \<and> (\<forall>po \<in> set polls. wd_next_attempt_at w \<le> po_now po \<and> wd_id w \<notin> set (po_webhooks_locked po))"
  shows "picked_each env st w e runs d s"
  using assms(3,4)
proof (induction runs arbitrary: d)
  case (Cons polls runs)
  then obtain po rest where polls: "polls = po # rest"
    by (cases polls) auto
  have p: "picked po w e (after_outbox env po d)"
    using Cons.prems by (intro early_picked) (auto simp: polls)
  have "w \<in> set (webhook_deliveries d)" "e \<in> set (webhook_endpoints d)"
    using Cons.prems(1) by (auto simp: early_delivery_def)
  then obtain x d1 where x: "run_once env st po d s = (Inl x, d1, s)" "queues_kept d d1"
    using bad_poll [OF assms(1,2) _ _ p, of st s] by blast
  then show ?case
    using p Cons.IH [OF early_delivery_kept [OF Cons.prems(1) x(2)]] Cons.prems(2) by (simp add: polls)
qed simp

definition bad_endpoint_db :: db where
  "bad_endpoint_db = empty_db\<lparr>webhook_endpoints := [example_endpoint 3 odd_port_url, example_endpoint 5 ''https://b.tr''],
     webhook_deliveries := [example_delivery 4 3, example_delivery 6 5], next_id := 7\<rparr>"

definition example_worker :: worker_env where
  "example_worker = \<lparr>wk_exn_text = exn_name, wk_libm = flat_libm, wk_pydantic = strict_pydantic, wk_webhooks = example_webhooks,
     wk_production = True, wk_mail = good_env,
     wk_privacy = \<lparr>pv_decrypt = None, pv_mail = None, pv_archive = (\<lambda>_ _ _ _ _ _. []), pv_isoformat = (\<lambda>_. []), pv_unusable_hash = ''!''\<rparr>\<rparr>"

definition poll_at :: "instant \<Rightarrow> poll" where
  "poll_at t = \<lparr>po_now = t, po_outbox_locked = [], po_webhooks_locked = [], po_mail_locked = [], po_privacy_locked = []\<rparr>"

theorem bad_webhook_stops_worker_witness:
  "\<forall>st s. \<exists>xs d'. restarts example_worker st [[poll_at 5, poll_at 6], [poll_at 9]] bad_endpoint_db s = (xs, d', s) \<and> length xs = 2 \<and>
     None \<notin> set xs \<and> queues_kept bad_endpoint_db d'"
proof (intro allI)
  fix st :: "'a object_storage" and s :: 'a
  let ?e = "example_endpoint 3 odd_port_url" and ?w = "example_delivery 4 3"
  have "is_public_ip (IPv4 0x5DB8D822)"
    by (simp add: public4_ranges inner4_def between_def)
  then have "validate_url (fixed_net [IPv4 0x5DB8D822]) prod_url_policy odd_port_url = Inr odd_port_url"
    by (intro odd_port_guard) simp_all
  then have bad: "unparsable (wk_webhooks example_worker) (loop_policy example_worker) (we_url ?e)"
    by (simp add: unparsable_def loop_policy_def example_worker_def example_webhooks_def example_endpoint_def caught_def)
  have sec: "secret_readable (wk_webhooks example_worker) ?e"
    by (simp add: secret_readable_def example_worker_def example_webhooks_def)
  have early: "early_delivery ?w ?e bad_endpoint_db"
    by (simp add: early_delivery_def bad_endpoint_db_def example_delivery_def example_endpoint_def webhook_batch_def keys_distinct_def)
      (rule exI [of _ "[]"], simp)
  have "picked_each example_worker st ?w ?e [[poll_at 5, poll_at 6], [poll_at 9]] bad_endpoint_db s"
    by (rule early_picked_each [OF bad sec early]) (simp add: example_delivery_def poll_at_def)
  moreover have "?w \<in> set (webhook_deliveries bad_endpoint_db)" "?e \<in> set (webhook_endpoints bad_endpoint_db)"
    by (simp_all add: bad_endpoint_db_def)
  ultimately show "\<exists>xs d'. restarts example_worker st [[poll_at 5, poll_at 6], [poll_at 9]] bad_endpoint_db s = (xs, d', s) \<and> length xs = 2 \<and>
     None \<notin> set xs \<and> queues_kept bad_endpoint_db d'"
    using bad_webhook_stops_worker [OF bad sec, of ?w bad_endpoint_db st "[[poll_at 5, poll_at 6], [poll_at 9]]" s]
    by (auto simp: numeral_2_eq_2 simp del: restarts.simps picked_each.simps)
qed

end
