(* ===== verification/ApiKeys.thy ===== *)
theory ApiKeys
  imports Access Ingestion Lifecycle
begin

section \<open>API clients, their keys, data sources and the ingestion endpoint\<close>

text \<open>
  \<^verbatim>\<open>application/api_clients/service.py\<close>, \<^verbatim>\<open>api/ingest_deps.py\<close>, \<^verbatim>\<open>api/routers/v1/integrations.py\<close> and the JSON
  endpoint of \<^verbatim>\<open>api/routers/v1/ingest.py\<close>. SHA-256 and the random part of a key are parameters; the CSV
  import, which only builds envelopes, is left out, as are the columns \<^verbatim>\<open>license\<close> and \<^verbatim>\<open>attribution\<close>.
\<close>

subsection \<open>Clients and keys\<close>

definition ingest_scope :: string where "ingest_scope = ''ingest:write''"
definition evidence_scope :: string where "evidence_scope = ''evidence:write''"

text \<open>The allowed scopes in their alphabetical order.\<close>

definition allowed_scopes :: "string list" where
  "allowed_scopes = [evidence_scope, ingest_scope]"

definition create_client :: "request_context \<Rightarrow> uuid \<Rightarrow> string \<Rightarrow> db \<Rightarrow> (api_client \<times> db) result" where
  "create_client ctx tenant name d =
     (let client = \<lparr>ac_id = next_id d, ac_organization_id = tenant, ac_name = name, ac_created_by_user_id = c_user_id ctx,
                    ac_status = ClientActive\<rparr>
      in bind (raise_if (c_user_id ctx = None) IntegrityError) (\<lambda>_.
         Inr (client, record_audit ctx ''api_client.created'' ''api_client'' (Some (ac_id client)) None
                (d\<lparr>api_clients := api_clients d @ [client], next_id := Suc (next_id d)\<rparr>))))"

definition list_clients :: "uuid \<Rightarrow> db \<Rightarrow> api_client list" where
  "list_clients tenant d = rev (filter (\<lambda>c. ac_organization_id c = tenant) (api_clients d))"

definition tenant_client :: "uuid \<Rightarrow> uuid \<Rightarrow> string \<Rightarrow> db \<Rightarrow> api_client result" where
  "tenant_client tenant client_id what d =
     (case tget ac_id (api_clients d) client_id of
        None \<Rightarrow> Inl (DomainNotFoundError what)
      | Some c \<Rightarrow> if ac_organization_id c \<noteq> tenant then Inl (DomainNotFoundError what) else Inr c)"

text \<open>Comparing a time without a zone with the current time is a \<^verbatim>\<open>TypeError\<close>.\<close>

definition check_expiry :: "instant \<Rightarrow> pydatetime option \<Rightarrow> instant option result" where
  "check_expiry now expiry =
     (case expiry of
        None \<Rightarrow> Inr None
      | Some (Naive _) \<Rightarrow> Inl (PyTypeError ''naive_datetime'')
      | Some (Aware t) \<Rightarrow> if t \<le> now then Inl (ValidationFailedError ''expires_at'') else Inr (Some t))"

definition issue_client_token ::
    "(string \<Rightarrow> string) \<Rightarrow> instant \<Rightarrow> request_context \<Rightarrow> string \<Rightarrow> uuid \<Rightarrow> uuid \<Rightarrow> string list \<Rightarrow> pydatetime option \<Rightarrow> db \<Rightarrow>
     ((api_token \<times> string) \<times> db) result" where
  "issue_client_token hash256 now ctx rnd tenant client_id scopes expiry d =
     bind (tenant_client tenant client_id ''api_client'' d) (\<lambda>client.
     bind (raise_if (scopes = [] \<or> \<not> set scopes \<subseteq> set allowed_scopes) (ValidationFailedError ''scopes'')) (\<lambda>_.
     bind (check_expiry now expiry) (\<lambda>expires_at.
       let cleartext = opaque_secret ''vrk'' rnd;
           token = \<lparr>at_id = next_id d, at_api_client_id = ac_id client, at_token_hash = hash256 cleartext,
                    at_prefix = take 12 cleartext, at_scopes = filter (\<lambda>s. s \<in> set scopes) allowed_scopes,
                    at_expires_at = expires_at, at_revoked_at = None, at_last_used_at = None\<rparr>
       in bind (raise_if (at_token_hash token \<in> at_token_hash ` set (api_tokens d)) IntegrityError) (\<lambda>_.
          Inr ((token, cleartext), record_audit ctx ''api_token.issued'' ''api_token'' (Some (at_id token)) None
                 (d\<lparr>api_tokens := api_tokens d @ [token], next_id := Suc (next_id d)\<rparr>))))))"

definition revoke_token :: "instant \<Rightarrow> request_context \<Rightarrow> uuid \<Rightarrow> uuid \<Rightarrow> db \<Rightarrow> (unit \<times> db) result" where
  "revoke_token now ctx tenant token_id d =
     (case tget at_id (api_tokens d) token_id of
        None \<Rightarrow> Inl (DomainNotFoundError ''api_token'')
      | Some token \<Rightarrow>
          bind (tenant_client tenant (at_api_client_id token) ''api_token'' d) (\<lambda>_.
            Inr ((), record_audit ctx ''api_token.revoked'' ''api_token'' (Some token_id) None
                   (d\<lparr>api_tokens := tupd (\<lambda>t. at_id t = token_id) (\<lambda>t. t\<lparr>at_revoked_at := Some now\<rparr>) (api_tokens d)\<rparr>))))"

definition list_tokens :: "uuid \<Rightarrow> uuid \<Rightarrow> db \<Rightarrow> api_token list result" where
  "list_tokens tenant client_id d =
     bind (tenant_client tenant client_id ''api_client'' d) (\<lambda>_.
       Inr (rev (filter (\<lambda>t. at_api_client_id t = client_id) (api_tokens d))))"

record verified_token =
  vt_token_id :: uuid
  vt_api_client_id :: uuid
  vt_organization_id :: uuid
  vt_scopes :: "string list"

definition token_expired :: "instant \<Rightarrow> api_token \<Rightarrow> bool" where
  "token_expired now t \<longleftrightarrow> (case at_expires_at t of None \<Rightarrow> False | Some x \<Rightarrow> x \<le> now)"

definition key_rows :: "string \<Rightarrow> db \<Rightarrow> (api_token \<times> api_client) list" where
  "key_rows digest d =
     [(t, c). t \<leftarrow> filter (\<lambda>t. at_token_hash t = digest) (api_tokens d), c \<leftarrow> filter (\<lambda>c. ac_id c = at_api_client_id t) (api_clients d)]"

definition verify_api_token :: "(string \<Rightarrow> string) \<Rightarrow> instant \<Rightarrow> string \<Rightarrow> db \<Rightarrow> (verified_token option \<times> db) result" where
  "verify_api_token hash256 now cleartext d =
     bind (one_or_none (key_rows (hash256 cleartext) d)) (\<lambda>row. case row of
       None \<Rightarrow> Inr (None, d)
     | Some (t, c) \<Rightarrow>
         if at_revoked_at t \<noteq> None \<or> token_expired now t \<or> ac_status c \<noteq> ClientActive then Inr (None, d)
         else Inr (Some \<lparr>vt_token_id = at_id t, vt_api_client_id = ac_id c, vt_organization_id = ac_organization_id c,
                         vt_scopes = at_scopes t\<rparr>,
                   d\<lparr>api_tokens := tupd (\<lambda>q. at_id q = at_id t) (\<lambda>q. q\<lparr>at_last_used_at := Some now\<rparr>) (api_tokens d)\<rparr>))"

subsection \<open>The principal of an ingestion request\<close>

record ingest_principal =
  ig_organization_id :: uuid
  ig_api_client_id :: uuid
  ig_scopes :: "string list"

text \<open>\<open>limiter\<close> is the rate limiter for the client's identifier: its answer and its state afterwards.\<close>

definition authenticate_key ::
    "(string \<Rightarrow> string) \<Rightarrow> (uuid \<Rightarrow> 's \<Rightarrow> (int + unit) \<times> 's) \<Rightarrow> instant \<Rightarrow> string \<Rightarrow> db \<Rightarrow> 's \<Rightarrow> ingest_principal result \<times> db \<times> 's" where
  "authenticate_key hash256 limiter now api_key d s =
     (if api_key = [] then (Inl (UnauthorizedError ''API_KEY_REQUIRED''), d, s)
      else case verify_api_token hash256 now api_key d of
        Inl x \<Rightarrow> (Inl x, d, s)
      | Inr (None, d1) \<Rightarrow> (Inl (UnauthorizedError ''API_KEY_INVALID''), d1, s)
      | Inr (Some v, d1) \<Rightarrow>
          (case limiter (vt_api_client_id v) s of
             (Inl retry_after, s1) \<Rightarrow> (Inl (ApiError ''RATE_LIMITED''), d1, s1)
           | (Inr _, s1) \<Rightarrow>
               (Inr \<lparr>ig_organization_id = vt_organization_id v, ig_api_client_id = vt_api_client_id v, ig_scopes = vt_scopes v\<rparr>, d1, s1)))"

definition require_scope :: "string \<Rightarrow> ingest_principal \<Rightarrow> ingest_principal result" where
  "require_scope scope p = bind (raise_if (scope \<notin> set (ig_scopes p)) (ForbiddenError ''SCOPE_MISSING'')) (\<lambda>_. Inr p)"

definition ingest_context :: "(uuid \<Rightarrow> string) \<Rightarrow> string option \<Rightarrow> ingest_principal \<Rightarrow> request_context" where
  "ingest_context label request_id p =
     \<lparr>c_user_id = None, c_organization_id = Some (ig_organization_id p), c_role = None, c_is_platform_admin = False,
      c_actor_label = ''api_client:'' @ label (ig_api_client_id p), c_request_id = request_id, c_ip_address = None,
      c_user_agent = None, c_email_verified = False, c_mfa_enabled = False\<rparr>"

subsection \<open>The endpoints\<close>

definition source_key_char :: "char \<Rightarrow> bool" where
  "source_key_char c \<longleftrightarrow> is_lower c \<or> is_digit c"

definition source_key_ok :: "string \<Rightarrow> bool" where
  "source_key_ok k \<longleftrightarrow> 3 \<le> length k \<and> length k \<le> 120 \<and> source_key_char (hd k) \<and> source_key_char (last k) \<and>
     list_all (\<lambda>c. source_key_char c \<or> c \<in> set ''._-'') k"

definition source_kinds :: "string list" where
  "source_kinds = [''rest'', ''webhook'', ''mqtt'', ''kafka'', ''s3_batch'', ''csv'', ''simulator'']"

definition name_ok :: "string \<Rightarrow> bool" where
  "name_ok n \<longleftrightarrow> 2 \<le> length n \<and> length n \<le> 200"

definition create_data_source ::
    "request_context \<Rightarrow> string \<Rightarrow> string \<Rightarrow> string \<Rightarrow> db \<Rightarrow> (data_source \<times> db) result" where
  "create_data_source ctx name source_key kind d =
     bind (tenant_with IntegrationsManage ctx) (\<lambda>t.
     bind (raise_if (\<not> (name_ok name \<and> source_key_ok source_key \<and> kind \<in> set source_kinds)) (ValidationFailedError ''body'')) (\<lambda>_.
     bind (get_source_by_key t source_key d) (\<lambda>existing.
     bind (raise_if (existing \<noteq> None) (DomainConflictError ''source_key'')) (\<lambda>_.
       let source = \<lparr>ds_id = next_id d, ds_organization_id = t, ds_name = name, ds_kind = kind, ds_source_key = source_key,
                     ds_status = SrcActive, ds_last_event_at = None, ds_last_success_at = None, ds_accepted_count = 0,
                     ds_rejected_count = 0, ds_duplicate_count = 0\<rparr>
       in Inr (source, record_audit ctx ''data_source.created'' ''data_source'' (Some (ds_id source)) None
                 (d\<lparr>data_sources := data_sources d @ [source], next_id := Suc (next_id d)\<rparr>))))))"

definition list_data_sources :: "request_context \<Rightarrow> db \<Rightarrow> data_source list result" where
  "list_data_sources ctx d =
     bind (tenant_with IntegrationsRead ctx) (\<lambda>t. Inr (rev (filter (\<lambda>s. ds_organization_id s = t) (data_sources d))))"

definition create_api_client :: "request_context \<Rightarrow> string \<Rightarrow> db \<Rightarrow> (api_client \<times> db) result" where
  "create_api_client ctx name d =
     bind (tenant_with IntegrationsManage ctx) (\<lambda>t.
     bind (raise_if (\<not> name_ok name) (ValidationFailedError ''body'')) (\<lambda>_. create_client ctx t name d))"

definition list_api_clients :: "request_context \<Rightarrow> db \<Rightarrow> api_client list result" where
  "list_api_clients ctx d = bind (tenant_with IntegrationsRead ctx) (\<lambda>t. Inr (list_clients t d))"

definition issue_api_token ::
    "(string \<Rightarrow> string) \<Rightarrow> bool \<Rightarrow> instant \<Rightarrow> request_context \<Rightarrow> string \<Rightarrow> uuid \<Rightarrow> string list \<Rightarrow> pydatetime option \<Rightarrow> db \<Rightarrow>
     ((api_token \<times> string) \<times> db) result" where
  "issue_api_token hash256 policy now ctx rnd client_id scopes expiry d =
     bind (tenant_with IntegrationsManage ctx) (\<lambda>t.
     bind (require_verified_email policy ctx) (\<lambda>_. issue_client_token hash256 now ctx rnd t client_id scopes expiry d))"

definition list_api_tokens :: "request_context \<Rightarrow> uuid \<Rightarrow> db \<Rightarrow> api_token list result" where
  "list_api_tokens ctx client_id d = bind (tenant_with IntegrationsRead ctx) (\<lambda>t. list_tokens t client_id d)"

definition revoke_api_token :: "instant \<Rightarrow> request_context \<Rightarrow> uuid \<Rightarrow> db \<Rightarrow> (unit \<times> db) result" where
  "revoke_api_token now ctx token_id d = bind (tenant_with IntegrationsManage ctx) (\<lambda>t. revoke_token now ctx t token_id d)"

definition max_batch :: nat where "max_batch = 1000"

definition run_ingest ::
    "instant \<Rightarrow> pydantic \<Rightarrow> ingest_principal \<Rightarrow> string \<Rightarrow> pydict list \<Rightarrow> db \<Rightarrow> (batch_result \<times> db) result" where
  "run_ingest now pyd p source_key events d =
     bind (get_source_by_key (ig_organization_id p) source_key d) (\<lambda>source. case source of
       None \<Rightarrow> Inl (DomainNotFoundError ''DATA_SOURCE_NOT_FOUND'')
     | Some src \<Rightarrow>
         bind (raise_if (ds_status src \<noteq> SrcActive) (ApiError ''DATA_SOURCE_INACTIVE'')) (\<lambda>_.
           ingest_batch now pyd (ig_organization_id p) src events d))"

text \<open>The whole request: the key's use is committed in a session of its own, whatever follows.\<close>

definition ingest_events_request ::
    "(string \<Rightarrow> string) \<Rightarrow> (uuid \<Rightarrow> 's \<Rightarrow> (int + unit) \<times> 's) \<Rightarrow> instant \<Rightarrow> pydantic \<Rightarrow> string \<Rightarrow> string \<Rightarrow> pydict list \<Rightarrow> db \<Rightarrow> 's \<Rightarrow>
     batch_result result \<times> db \<times> 's" where
  "ingest_events_request hash256 limiter now pyd api_key source_key events d s =
     (case authenticate_key hash256 limiter now api_key d s of
        (Inl x, d1, s1) \<Rightarrow> (Inl x, d1, s1)
      | (Inr p, d1, s1) \<Rightarrow>
          (case bind (require_scope ingest_scope p) (\<lambda>p.
                bind (raise_if (source_key = [] \<or> 120 < length source_key \<or> events = [] \<or> max_batch < length events)
                        (ValidationFailedError ''body'')) (\<lambda>_.
                  run_ingest now pyd p source_key events d1)) of
             Inl x \<Rightarrow> (Inl x, d1, s1)
           | Inr (r, d2) \<Rightarrow> (Inr r, d2, s1)))"

subsection \<open>The life of a key\<close>

text \<open>The columns of a key that matter to whoever holds it: whether it is revoked, and what never changes.\<close>

definition key_core :: "db \<Rightarrow> uuid \<Rightarrow> (bool \<times> uuid \<times> string \<times> string list \<times> instant option) option" where
  "key_core d i = map_option (\<lambda>t. (at_revoked_at t \<noteq> None, at_api_client_id t, at_token_hash t, at_scopes t, at_expires_at t))
     (tget at_id (api_tokens d) i)"

definition key_arrow ::
    "bool \<times> uuid \<times> string \<times> string list \<times> instant option \<Rightarrow> bool \<times> uuid \<times> string \<times> string list \<times> instant option \<Rightarrow> bool" where
  "key_arrow a b \<longleftrightarrow> snd b = snd a \<and> (fst a \<longrightarrow> fst b)"

definition keys_inv :: "db \<Rightarrow> bool" where
  "keys_inv d \<longleftrightarrow> ids_ok at_id (next_id d) (api_tokens d) \<and> ids_ok ac_id (next_id d) (api_clients d) \<and>
     unique_on (\<lambda>_. True) at_token_hash (api_tokens d)"

inductive key_step :: "(string \<Rightarrow> string) \<Rightarrow> db \<Rightarrow> db \<Rightarrow> bool" for hash256 where
  key_client: "create_api_client ctx name d = Inr (c, d') \<Longrightarrow> key_step hash256 d d'"
| key_issue: "issue_api_token hash256 policy now ctx rnd i scopes expiry d = Inr (t, d') \<Longrightarrow> key_step hash256 d d'"
| key_revoke: "revoke_api_token now ctx i d = Inr (u, d') \<Longrightarrow> key_step hash256 d d'"
| key_use: "verify_api_token hash256 now api_key d = Inr (v, d') \<Longrightarrow> key_step hash256 d d'"

definition keys_change :: "db \<Rightarrow> db \<Rightarrow> bool" where
  "keys_change d d' \<longleftrightarrow> (keys_inv d \<longrightarrow> keys_inv d' \<and>
     (\<forall>i c. key_core d i = Some c \<longrightarrow> (\<exists>c'. key_core d' i = Some c' \<and> key_arrow c c')) \<and>
     (\<forall>i c. tget ac_id (api_clients d) i = Some c \<longrightarrow> tget ac_id (api_clients d') i = Some c))"

lemma keys_change_refl [simp]: "keys_change d d"
  by (simp add: keys_change_def key_arrow_def)

lemma keys_change_tupd:
  assumes "api_clients d' = api_clients d" "next_id d' = next_id d" "api_tokens d' = tupd p f (api_tokens d)"
    "\<And>t. at_id (f t) = at_id t \<and> at_api_client_id (f t) = at_api_client_id t \<and> at_token_hash (f t) = at_token_hash t \<and>
       at_scopes (f t) = at_scopes t \<and> at_expires_at (f t) = at_expires_at t \<and> (at_revoked_at t \<noteq> None \<longrightarrow> at_revoked_at (f t) \<noteq> None)"
  shows "keys_change d d'"
proof -
  have f: "at_id (f t) = at_id t" "at_token_hash (f t) = at_token_hash t" for t
    using assms(4) by simp_all
  have inv: "keys_inv d \<Longrightarrow> keys_inv d'"
    using assms(1-3) f by (auto simp: keys_inv_def ids_ok_tupd unique_on_def map_tupd)
  have "\<exists>c'. key_core d' i = Some c' \<and> key_arrow c c'" if core: "key_core d i = Some c" for i c
  proof -
    obtain t where t: "tget at_id (api_tokens d) i = Some t"
      "c = (at_revoked_at t \<noteq> None, at_api_client_id t, at_token_hash t, at_scopes t, at_expires_at t)"
      using core by (auto simp: key_core_def)
    have "tget at_id (api_tokens d') i = Some (if p t then f t else t)"
      using t(1) f(1) by (simp add: assms(3) tget_tupd)
    then show ?thesis
      using assms(4) [of t] t(2) by (simp add: key_core_def key_arrow_def)
  qed
  then show ?thesis
    using inv assms(1) by (simp add: keys_change_def)
qed

lemma create_api_client_change:
  assumes "create_api_client ctx name d = Inr (c, d')"
  shows "keys_change d d'"
proof -
  obtain x where "api_clients d' = api_clients d @ [x]" "ac_id x = next_id d" "next_id d' = Suc (next_id d)" "api_tokens d' = api_tokens d"
    using assms by (auto simp: create_api_client_def create_client_def bind_eq_Inr Let_def)
  then show ?thesis
    by (auto simp: keys_change_def keys_inv_def ids_ok_snoc ids_ok_Suc key_core_def key_arrow_def tget_append)
qed

lemma issue_api_token_Inr:
  assumes "issue_api_token hash256 policy now ctx rnd i scopes expiry d = Inr ((t, key), d')"
  obtains c where "c_organization_id ctx = Some (ac_organization_id c)" "tget ac_id (api_clients d) i = Some c" "at_api_client_id t = i"
    "key = opaque_secret ''vrk'' rnd" "at_token_hash t = hash256 key" "set scopes \<subseteq> set allowed_scopes" "scopes \<noteq> []"
    "at_scopes t = filter (\<lambda>s. s \<in> set scopes) allowed_scopes" "at_revoked_at t = None" "at_id t = next_id d"
    "at_token_hash t \<notin> at_token_hash ` set (api_tokens d)"
    "(case expiry of None \<Rightarrow> at_expires_at t = None | Some (Aware x) \<Rightarrow> now < x \<and> at_expires_at t = Some x | _ \<Rightarrow> False)"
    "api_tokens d' = api_tokens d @ [t]" "next_id d' = Suc (next_id d)" "api_clients d' = api_clients d"
proof -
  obtain tenant c e where ten: "c_organization_id ctx = Some tenant" and c: "tenant_client tenant i ''api_client'' d = Inr c"
    and sc: "scopes \<noteq> []" "set scopes \<subseteq> set allowed_scopes" and e: "check_expiry now expiry = Inr e"
    using assms by (auto simp: issue_api_token_def issue_client_token_def bind_eq_Inr tenant_with_Inr)
  have c': "tget ac_id (api_clients d) i = Some c" "ac_organization_id c = tenant" "ac_id c = i"
    using c tget_SomeD [of ac_id "api_clients d" i c] by (auto simp: tenant_client_def split: option.splits if_splits)
  have ex: "case expiry of None \<Rightarrow> e = None | Some (Aware x) \<Rightarrow> now < x \<and> e = Some x | _ \<Rightarrow> False"
    using e by (auto simp: check_expiry_def split: option.splits pydatetime.splits if_splits)
  let ?key = "opaque_secret ''vrk'' rnd"
  have t: "t = \<lparr>at_id = next_id d, at_api_client_id = i, at_token_hash = hash256 ?key, at_prefix = take 12 ?key,
      at_scopes = filter (\<lambda>s. s \<in> set scopes) allowed_scopes, at_expires_at = e, at_revoked_at = None, at_last_used_at = None\<rparr>"
    "key = ?key" "hash256 ?key \<notin> at_token_hash ` set (api_tokens d)"
    "d' = record_audit ctx ''api_token.issued'' ''api_token'' (Some (next_id d)) None
       (d\<lparr>api_tokens := api_tokens d @ [t], next_id := Suc (next_id d)\<rparr>)"
    using assms ten c c'(3) sc e by (auto simp: issue_api_token_def issue_client_token_def bind_eq_Inr Let_def tenant_with_Inr)
  have row: "at_api_client_id t = i" "at_token_hash t = hash256 key" "at_scopes t = filter (\<lambda>s. s \<in> set scopes) allowed_scopes"
    "at_revoked_at t = None" "at_id t = next_id d" "at_token_hash t \<notin> at_token_hash ` set (api_tokens d)"
    "at_expires_at t = e"
    using t(3) by (simp_all add: t(1,2))
  have tabs: "api_tokens d' = api_tokens d @ [t]" "next_id d' = Suc (next_id d)" "api_clients d' = api_clients d"
    by (simp_all add: t(4))
  show ?thesis
    by (rule that [of c, OF _ c'(1) row(1) t(2) row(2) sc(2,1) row(3-6) ex [folded row(7)] tabs]) (simp add: ten c'(2))
qed

lemma issue_api_token_change:
  assumes "issue_api_token hash256 policy now ctx rnd i scopes expiry d = Inr ((t, key), d')"
  shows "keys_change d d'"
  using assms
proof (rule issue_api_token_Inr)
  assume h: "at_id t = next_id d" "at_token_hash t \<notin> at_token_hash ` set (api_tokens d)" "api_tokens d' = api_tokens d @ [t]"
    "next_id d' = Suc (next_id d)" "api_clients d' = api_clients d"
  then show ?thesis
    by (auto simp: keys_change_def keys_inv_def ids_ok_snoc ids_ok_Suc unique_on_snoc key_core_def key_arrow_def tget_append)
qed

lemma revoke_api_token_change:
  "revoke_api_token now ctx i d = Inr (u, d') \<Longrightarrow> keys_change d d'"
  by (rule keys_change_tupd [where p = "\<lambda>t. at_id t = i" and f = "\<lambda>t. t\<lparr>at_revoked_at := Some now\<rparr>"])
    (auto simp: revoke_api_token_def revoke_token_def bind_eq_Inr split: option.splits)

lemma verify_api_token_Inr:
  "verify_api_token hash256 now key d = Inr (v, d') \<longleftrightarrow>
     (\<exists>row. one_or_none (key_rows (hash256 key) d) = Inr row \<and>
        (case row of
           None \<Rightarrow> v = None \<and> d' = d
         | Some (t, c) \<Rightarrow>
             if at_revoked_at t \<noteq> None \<or> token_expired now t \<or> ac_status c \<noteq> ClientActive then v = None \<and> d' = d
             else v = Some \<lparr>vt_token_id = at_id t, vt_api_client_id = ac_id c, vt_organization_id = ac_organization_id c,
                         vt_scopes = at_scopes t\<rparr> \<and>
               d' = d\<lparr>api_tokens := tupd (\<lambda>q. at_id q = at_id t) (\<lambda>q. q\<lparr>at_last_used_at := Some now\<rparr>) (api_tokens d)\<rparr>))"
  by (cases "one_or_none (key_rows (hash256 key) d)") (auto simp: verify_api_token_def split: option.splits)

lemma verify_api_token_change:
  assumes "verify_api_token hash256 now key d = Inr (v, d')"
  shows "keys_change d d'"
proof -
  have "d' = d \<or> (\<exists>i. d' = d\<lparr>api_tokens := tupd (\<lambda>q. at_id q = i) (\<lambda>q. q\<lparr>at_last_used_at := Some now\<rparr>) (api_tokens d)\<rparr>)"
  proof -
    obtain row where row: "one_or_none (key_rows (hash256 key) d) = Inr row"
      using assms unfolding verify_api_token_Inr by blast
    show ?thesis
    proof (cases row)
      case None
      then show ?thesis using assms row by (simp add: verify_api_token_def)
    next
      case (Some tc)
      then show ?thesis
        using assms row by (cases tc) (auto simp: verify_api_token_def split: if_splits)
    qed
  qed
  then show ?thesis
  proof
    assume "\<exists>i. d' = d\<lparr>api_tokens := tupd (\<lambda>q. at_id q = i) (\<lambda>q. q\<lparr>at_last_used_at := Some now\<rparr>) (api_tokens d)\<rparr>"
    then obtain i where "d' = d\<lparr>api_tokens := tupd (\<lambda>q. at_id q = i) (\<lambda>q. q\<lparr>at_last_used_at := Some now\<rparr>) (api_tokens d)\<rparr>"
      by blast
    then show ?thesis
      by (intro keys_change_tupd [where p = "\<lambda>q. at_id q = i" and f = "\<lambda>q. q\<lparr>at_last_used_at := Some now\<rparr>"]) simp_all
  qed simp
qed

lemma key_step_change: "key_step hash256 d d' \<Longrightarrow> keys_change d d'"
  by (erule key_step.cases)
    (auto dest: create_api_client_change issue_api_token_change revoke_api_token_change verify_api_token_change)

lemma key_arrow_refl [simp]: "key_arrow c c"
  by (simp add: key_arrow_def)

interpretation key_life: lifecycle key_core keys_inv "key_step hash256" "\<lambda>c. c" key_arrow "\<lambda>_. False" for hash256
  by unfold_locales (use key_step_change keys_change_def in blast)+

interpretation client_life: lifecycle "\<lambda>d. tget ac_id (api_clients d)" keys_inv "key_step hash256" ac_status "\<lambda>_ _. False" "\<lambda>_. True"
  for hash256
  by unfold_locales (use key_step_change keys_change_def in blast)+

lemma key_arrow_run: "key_arrow\<^sup>*\<^sup>* a b \<Longrightarrow> key_arrow a b"
  by (induction rule: rtranclp_induct) (auto simp: key_arrow_def)

text \<open>The query of \<^verbatim>\<open>verify_token\<close> finds exactly the key with the hash, with its client.\<close>

lemma key_rows_one:
  assumes "keys_inv d" "tget at_id (api_tokens d) i = Some t" "tget ac_id (api_clients d) (at_api_client_id t) = Some c"
  shows "key_rows (at_token_hash t) d = [(t, c)]"
proof -
  have t: "t \<in> set (api_tokens d)" and c: "c \<in> set (api_clients d)" "ac_id c = at_api_client_id t"
    using tget_SomeD [OF assms(2)] tget_SomeD [OF assms(3)] by simp_all
  have "length (filter (\<lambda>q. True \<and> at_token_hash q = at_token_hash t) (api_tokens d)) \<le> 1"
    using assms(1) by (intro unique_on_filter_length) (simp add: keys_inv_def)
  moreover have "t \<in> set (filter (\<lambda>q. at_token_hash q = at_token_hash t) (api_tokens d))"
    using t by simp
  ultimately have ts: "filter (\<lambda>q. at_token_hash q = at_token_hash t) (api_tokens d) = [t]"
    by (cases "filter (\<lambda>q. at_token_hash q = at_token_hash t) (api_tokens d)") auto
  have "length (filter (\<lambda>q. True \<and> ac_id q = at_api_client_id t) (api_clients d)) \<le> 1"
    using assms(1) by (intro unique_on_filter_length) (simp add: keys_inv_def ids_ok_def keys_distinct_def unique_on_def)
  moreover have "c \<in> set (filter (\<lambda>q. ac_id q = at_api_client_id t) (api_clients d))"
    using c by simp
  ultimately have "filter (\<lambda>q. ac_id q = at_api_client_id t) (api_clients d) = [c]"
    by (cases "filter (\<lambda>q. ac_id q = at_api_client_id t) (api_clients d)") auto
  then show ?thesis
    by (simp add: key_rows_def ts)
qed

text \<open>What stays of an issued key along any sequence of requests, and what verifying it answers.\<close>

lemma key_stays:
  assumes "keys_inv d" "tget at_id (api_tokens d) k = Some t" "tget ac_id (api_clients d) (at_api_client_id t) = Some c"
    "(key_step hash256)\<^sup>*\<^sup>* d e"
  obtains r where "tget at_id (api_tokens e) k = Some r" "at_api_client_id r = at_api_client_id t" "at_token_hash r = at_token_hash t"
    "at_scopes r = at_scopes t" "at_expires_at r = at_expires_at t" "at_revoked_at t \<noteq> None \<longrightarrow> at_revoked_at r \<noteq> None"
    "keys_inv e" "tget ac_id (api_clients e) (at_api_client_id t) = Some c"
proof -
  have "key_core d k = Some (at_revoked_at t \<noteq> None, at_api_client_id t, at_token_hash t, at_scopes t, at_expires_at t)"
    using assms(2) by (simp add: key_core_def)
  from key_life.run_row [OF assms(4,1) this]
  obtain r' where r': "key_core e k = Some r'"
    "key_arrow\<^sup>*\<^sup>* (at_revoked_at t \<noteq> None, at_api_client_id t, at_token_hash t, at_scopes t, at_expires_at t) r'"
    by auto
  have arrow: "key_arrow (at_revoked_at t \<noteq> None, at_api_client_id t, at_token_hash t, at_scopes t, at_expires_at t) r'"
    using r'(2) by (rule key_arrow_run)
  obtain r where r: "tget at_id (api_tokens e) k = Some r"
    "r' = (at_revoked_at r \<noteq> None, at_api_client_id r, at_token_hash r, at_scopes r, at_expires_at r)"
    using r'(1) by (auto simp: key_core_def)
  show ?thesis
    using that [OF r(1)] arrow r(2) key_life.run_inv [OF assms(4,1)] client_life.run_final [OF assms(4,1,3)]
    by (simp add: key_arrow_def)
qed

lemma verify_api_token_row:
  assumes "keys_inv d" "tget at_id (api_tokens d) k = Some t" "tget ac_id (api_clients d) (at_api_client_id t) = Some c"
    "at_token_hash t = hash256 key" "ac_status c = ClientActive"
  shows "\<exists>d2. verify_api_token hash256 now key d = Inr (
      if at_revoked_at t = None \<and> \<not> token_expired now t
      then Some \<lparr>vt_token_id = k, vt_api_client_id = at_api_client_id t, vt_organization_id = ac_organization_id c,
             vt_scopes = at_scopes t\<rparr>
      else None, d2)" (is ?granted)
    and "at_revoked_at t \<noteq> None \<Longrightarrow> verify_api_token hash256 now key d = Inr (None, d)"
proof -
  have "key_rows (hash256 key) d = [(t, c)]"
    using key_rows_one [OF assms(1-3)] assms(4) by simp
  moreover have "at_id t = k" "ac_id c = at_api_client_id t"
    using tget_SomeD [OF assms(2)] tget_SomeD [OF assms(3)] by simp_all
  ultimately show ?granted
    and "at_revoked_at t \<noteq> None \<Longrightarrow> verify_api_token hash256 now key d = Inr (None, d)"
    using assms(5) by (auto simp: verify_api_token_def one_or_none_def)
qed

text \<open>
  C30: an API key grants exactly what it was issued for: along any sequence of requests, verifying it gives
  its own client, the organization that issued it and the scopes asked for (each once, all of them allowed)
  until its expiry, and nothing from the expiry or a revocation on. A revoked key never works again.
\<close>

theorem api_key_grants_exactly:
  assumes "keys_inv d0" "issue_api_token hash256 policy now0 ctx rnd i scopes expiry d0 = Inr ((t, key), d)"
    "tget ac_id (api_clients d0) i = Some c" "ac_status c = ClientActive" "(key_step hash256)\<^sup>*\<^sup>* d d'"
  shows "\<exists>row d2. tget at_id (api_tokens d') (at_id t) = Some row \<and>
    verify_api_token hash256 now key d' = Inr (
      if at_revoked_at row = None \<and> (case expiry of Some (Aware x) \<Rightarrow> now < x | _ \<Rightarrow> True)
      then Some \<lparr>vt_token_id = at_id t, vt_api_client_id = i, vt_organization_id = ac_organization_id c,
             vt_scopes = filter (\<lambda>s. s \<in> set scopes) allowed_scopes\<rparr>
      else None, d2) \<and>
    set scopes \<subseteq> set allowed_scopes \<and> c_organization_id ctx = Some (ac_organization_id c) \<and>
    (\<forall>d'' later. at_revoked_at row \<noteq> None \<longrightarrow> (key_step hash256)\<^sup>*\<^sup>* d' d'' \<longrightarrow>
       verify_api_token hash256 later key d'' = Inr (None, d''))"
  using assms(2)
proof (rule issue_api_token_Inr)
  fix c2
  assume org: "c_organization_id ctx = Some (ac_organization_id c2)" "tget ac_id (api_clients d0) i = Some c2"
    and t: "at_api_client_id t = i" "at_token_hash t = hash256 key" "set scopes \<subseteq> set allowed_scopes"
      "at_scopes t = filter (\<lambda>s. s \<in> set scopes) allowed_scopes" "at_id t = next_id d0"
      "(case expiry of None \<Rightarrow> at_expires_at t = None | Some (Aware x) \<Rightarrow> now0 < x \<and> at_expires_at t = Some x | _ \<Rightarrow> False)"
    and d: "api_tokens d = api_tokens d0 @ [t]" "api_clients d = api_clients d0"
  have inv: "keys_inv d"
    using issue_api_token_change [OF assms(2)] assms(1) by (simp add: keys_change_def)
  have row0: "tget at_id (api_tokens d) (at_id t) = Some t"
    using assms(1) t(5) ids_ok_fresh [of at_id "next_id d0" "api_tokens d0"] by (simp add: d tget_append keys_inv_def)
  have client0: "tget ac_id (api_clients d) (at_api_client_id t) = Some c"
    by (simp add: d t(1) assms(3))
  obtain row where row: "tget at_id (api_tokens d') (at_id t) = Some row" "at_api_client_id row = i" "at_token_hash row = hash256 key"
      "at_scopes row = at_scopes t" "at_expires_at row = at_expires_at t" "keys_inv d'" "tget ac_id (api_clients d') i = Some c"
    using key_stays [OF inv row0 client0 assms(5)] t(1,2) by metis
  have expired: "token_expired now row \<longleftrightarrow> \<not> (case expiry of Some (Aware x) \<Rightarrow> now < x | _ \<Rightarrow> True)"
    using t(6) row(5) by (auto simp: token_expired_def split: option.splits pydatetime.splits)
  have revoked: "verify_api_token hash256 later key d'' = Inr (None, d'')"
    if gone: "at_revoked_at row \<noteq> None" and run: "(key_step hash256)\<^sup>*\<^sup>* d' d''" for d'' later
    using key_stays [OF row(6) row(1) row(7) [folded row(2)] run] verify_api_token_row(2) gone row(2,3) assms(4) by metis
  show ?thesis
    using verify_api_token_row(1) [where ?hash256.0 = hash256 and key = key and now = now, OF row(6) row(1) row(7) [folded row(2)] row(3) assms(4)]
      row(1,2,4) expired t(3,4) org assms(3) revoked by auto
qed

text \<open>A key valid to minute 60, issued at minute 0, used at 30 and then revoked.\<close>

definition keys_context :: request_context where
  "keys_context = \<lparr>c_user_id = Some 1, c_organization_id = Some 1, c_role = Some ROwner, c_is_platform_admin = False,
     c_actor_label = ''user:a'', c_request_id = None, c_ip_address = None, c_user_agent = None, c_email_verified = True,
     c_mfa_enabled = False\<rparr>"

definition keys_db :: db where
  "keys_db = empty_db\<lparr>next_id := 10, api_clients :=
     [\<lparr>ac_id = 5, ac_organization_id = 1, ac_name = ''gateway'', ac_created_by_user_id = Some 1, ac_status = ClientActive\<rparr>]\<rparr>"

definition issued_key :: "(api_token \<times> string) \<times> db" where
  "issued_key = projr (issue_api_token id True 0 keys_context ''secret'' 5 [ingest_scope] (Some (Aware 60)) keys_db)"

theorem api_key_grants_exactly_witness:
  "\<exists>d2. verify_api_token id 30 ''vrk_secret'' (snd issued_key) =
     Inr (Some \<lparr>vt_token_id = 10, vt_api_client_id = 5, vt_organization_id = 1, vt_scopes = [ingest_scope]\<rparr>, d2)"
proof -
  have inv: "keys_inv keys_db"
    by code_simp
  have issued: "issue_api_token id True 0 keys_context ''secret'' 5 [ingest_scope] (Some (Aware 60)) keys_db =
      Inr ((fst (fst issued_key), ''vrk_secret''), snd issued_key)"
    by code_simp
  have client: "tget ac_id (api_clients keys_db) 5 = Some (hd (api_clients keys_db))"
    "ac_status (hd (api_clients keys_db)) = ClientActive"
    by code_simp+
  have row: "tget at_id (api_tokens (snd issued_key)) 10 = Some (fst (fst issued_key))" "at_id (fst (fst issued_key)) = 10"
    "at_revoked_at (fst (fst issued_key)) = None" "ac_organization_id (hd (api_clients keys_db)) = 1"
    "filter (\<lambda>s. s \<in> set [ingest_scope]) allowed_scopes = [ingest_scope]"
    by code_simp+
  from api_key_grants_exactly [OF inv issued client rtranclp.rtrancl_refl, of 30]
  show ?thesis
  proof (elim exE conjE)
    fix k d2
    assume k: "tget at_id (api_tokens (snd issued_key)) (at_id (fst (fst issued_key))) = Some k"
      and verified: "verify_api_token id 30 ''vrk_secret'' (snd issued_key) = Inr (
        if at_revoked_at k = None \<and> (case Some (Aware 60) of Some (Aware x) \<Rightarrow> 30 < x | _ \<Rightarrow> True)
        then Some \<lparr>vt_token_id = at_id (fst (fst issued_key)), vt_api_client_id = 5,
               vt_organization_id = ac_organization_id (hd (api_clients keys_db)),
               vt_scopes = filter (\<lambda>s. s \<in> set [ingest_scope]) allowed_scopes\<rparr>
        else None, d2)"
    have "k = fst (fst issued_key)"
      using k row(1,2) by simp
    then show ?thesis
      using verified unfolding row(2,4,5) by (simp add: row(3))
  qed
qed

end
