(* ===== verification/NotificationApi.thy ===== *)
theory NotificationApi
  imports Webhooks Access Cipher
begin

section \<open>The endpoints for notifications, webhooks and the summary\<close>

text \<open>
  \<^verbatim>\<open>api/routers/v1/notifications_reports.py\<close>: in-app notifications, rules, webhook endpoints with their
  secrets and deliveries, and the analytics summary. A listing returns the rows it reads. The reports
  (CSV, PDF) are left out. The cipher and the random part of a secret are parameters; \<open>now\<close> is the time of
  the transaction.
\<close>

subsection \<open>Notifications and rules\<close>

definition page_ok :: "nat \<Rightarrow> bool" where
  "page_ok limit \<longleftrightarrow> 1 \<le> limit \<and> limit \<le> 200"

definition newest :: "('r \<Rightarrow> instant) \<Rightarrow> 'r list \<Rightarrow> 'r list" where
  "newest key rows = rev (order_by key rows)"

definition list_notifications :: "request_context \<Rightarrow> bool \<Rightarrow> nat \<Rightarrow> db \<Rightarrow> notification list result" where
  "list_notifications ctx unread_only limit d =
     bind (tenant_with EventsRead ctx) (\<lambda>t.
     bind (raise_if (\<not> page_ok limit) (ValidationFailedError ''limit'')) (\<lambda>_.
       Inr (take limit (newest nt_created_at
         (filter (\<lambda>n. nt_organization_id n = t \<and> (unread_only \<longrightarrow> nt_read_at n = None)) (notifications d))))))"

definition mark_notification_read :: "instant \<Rightarrow> request_context \<Rightarrow> uuid \<Rightarrow> db \<Rightarrow> (unit \<times> db) result" where
  "mark_notification_read now ctx i d =
     bind (tenant_with EventsRead ctx) (\<lambda>t.
       case tget nt_id (notifications d) i of
         None \<Rightarrow> Inl (DomainNotFoundError ''notification'')
       | Some n \<Rightarrow>
           if nt_organization_id n \<noteq> t then Inl (DomainNotFoundError ''notification'')
           else Inr ((), if nt_read_at n = None
                  then d\<lparr>notifications := tupd (\<lambda>q. nt_id q = i) (\<lambda>q. q\<lparr>nt_read_at := Some now\<rparr>) (notifications d)\<rparr>
                  else d))"

definition parse_channel :: "string \<Rightarrow> channel" where
  "parse_channel s = (if s = ''in_app'' then InApp else if s = ''webhook'' then WebhookChannel else OtherChannel s)"

definition supported :: "channel \<Rightarrow> bool" where
  "supported c \<longleftrightarrow> c \<in> {InApp, WebhookChannel}"

definition rule_name_ok :: "string \<Rightarrow> bool" where
  "rule_name_ok n \<longleftrightarrow> 2 \<le> length n \<and> length n \<le> 200"

definition create_rule ::
    "request_context \<Rightarrow> string \<Rightarrow> severity \<Rightarrow> string list \<Rightarrow> db \<Rightarrow> (notification_rule \<times> db) result" where
  "create_rule ctx name min_severity channels d =
     bind (tenant_with NotificationsManage ctx) (\<lambda>t.
     bind (raise_if (\<not> rule_name_ok name) (ValidationFailedError ''body'')) (\<lambda>_.
     bind (raise_if (\<not> list_all supported (map parse_channel channels)) (ValidationFailedError ''channels'')) (\<lambda>_.
       let rule = \<lparr>nr_id = next_id d, nr_organization_id = t, nr_name = name, nr_kind = SeverityThreshold,
                   nr_min_severity = min_severity, nr_channels = map parse_channel channels, nr_active = True\<rparr>
       in Inr (rule, record_audit ctx ''notification_rule.created'' ''notification_rule'' (Some (nr_id rule)) None
                 (d\<lparr>notification_rules := notification_rules d @ [rule], next_id := Suc (next_id d)\<rparr>)))))"

definition list_rules :: "request_context \<Rightarrow> db \<Rightarrow> notification_rule list result" where
  "list_rules ctx d =
     bind (tenant_with NotificationsManage ctx) (\<lambda>t. Inr (filter (\<lambda>r. nr_organization_id r = t) (notification_rules d)))"

subsection \<open>Webhook endpoints\<close>

text \<open>An answer carries the secret only where it was just made.\<close>

record webhook_view =
  wv_row :: webhook_endpoint
  wv_secret :: "string option"

definition webhook_out :: "webhook_endpoint \<Rightarrow> string option \<Rightarrow> webhook_view" where
  "webhook_out e secret = \<lparr>wv_row = e, wv_secret = secret\<rparr>"

definition new_webhook_secret :: "string \<Rightarrow> string" where
  "new_webhook_secret rnd = ''whsec_'' @ rnd"

definition load_webhook :: "request_context \<Rightarrow> uuid \<Rightarrow> db \<Rightarrow> webhook_endpoint result" where
  "load_webhook ctx i d =
     bind (tenant_with NotificationsManage ctx) (\<lambda>t.
       case tget we_id (webhook_endpoints d) i of
         None \<Rightarrow> Inl (DomainNotFoundError ''webhook'')
       | Some e \<Rightarrow> if we_organization_id e \<noteq> t then Inl (DomainNotFoundError ''webhook'') else Inr e)"

definition description_ok :: "string option \<Rightarrow> bool" where
  "description_ok x \<longleftrightarrow> (case x of None \<Rightarrow> True | Some s \<Rightarrow> length s \<le> 300)"

definition checked_url :: "net_env \<Rightarrow> bool \<Rightarrow> string \<Rightarrow> string result" where
  "checked_url net production url =
     (case validate_url net (if production then prod_url_policy else dev_url_policy) url of
        Inl (UnsafeUrlError m) \<Rightarrow> Inl (ValidationFailedError m)
      | r \<Rightarrow> r)"

definition create_webhook ::
    "net_env \<Rightarrow> bool \<Rightarrow> bool \<Rightarrow> (string \<Rightarrow> string) option \<Rightarrow> string \<Rightarrow> request_context \<Rightarrow> string \<Rightarrow> string option \<Rightarrow> db \<Rightarrow>
     (webhook_view \<times> db) result" where
  "create_webhook net production policy encrypt rnd ctx url description d =
     bind (tenant_with NotificationsManage ctx) (\<lambda>t.
     case encrypt of
       None \<Rightarrow> Inl (ApiError ''ENCRYPTION_NOT_CONFIGURED'')
     | Some enc \<Rightarrow>
     bind (require_verified_email policy ctx) (\<lambda>_.
     bind (raise_if (500 < length url \<or> \<not> description_ok description) (ValidationFailedError ''body'')) (\<lambda>_.
     bind (checked_url net production url) (\<lambda>_.
       let secret = new_webhook_secret rnd;
           e = \<lparr>we_id = next_id d, we_organization_id = t, we_url = url, we_description = description,
                we_secret_enc = enc secret, we_active = True, we_last_success_at = None, we_last_failure_at = None\<rparr>
       in Inr (webhook_out e (Some secret),
               record_audit ctx ''webhook.created'' ''webhook_endpoint'' (Some (we_id e)) None
                 (d\<lparr>webhook_endpoints := webhook_endpoints d @ [e], next_id := Suc (next_id d)\<rparr>))))))"

definition list_webhooks :: "request_context \<Rightarrow> db \<Rightarrow> webhook_view list result" where
  "list_webhooks ctx d =
     bind (tenant_with NotificationsManage ctx) (\<lambda>t.
       Inr (map (\<lambda>e. webhook_out e None) (rev (filter (\<lambda>e. we_organization_id e = t) (webhook_endpoints d)))))"

definition update_webhook ::
    "request_context \<Rightarrow> uuid \<Rightarrow> bool option \<Rightarrow> string option \<Rightarrow> db \<Rightarrow> (webhook_view \<times> db) result" where
  "update_webhook ctx i active description d =
     bind (bind (tenant_with NotificationsManage ctx) (\<lambda>_.
             raise_if (\<not> description_ok description) (ValidationFailedError ''body''))) (\<lambda>_.
     bind (load_webhook ctx i d) (\<lambda>e.
       let e1 = (case active of None \<Rightarrow> e | Some b \<Rightarrow> e\<lparr>we_active := b\<rparr>);
           e2 = (case description of None \<Rightarrow> e1 | Some s \<Rightarrow> e1\<lparr>we_description := Some s\<rparr>);
           d1 = set_endpoint i (\<lambda>_. e2) d
       in Inr (webhook_out e2 None,
               if active \<noteq> None \<or> description \<noteq> None
               then record_audit ctx ''webhook.updated'' ''webhook_endpoint'' (Some i) None d1 else d1)))"

definition rotate_webhook_secret ::
    "(string \<Rightarrow> string) option \<Rightarrow> string \<Rightarrow> request_context \<Rightarrow> uuid \<Rightarrow> db \<Rightarrow> (webhook_view \<times> db) result" where
  "rotate_webhook_secret encrypt rnd ctx i d =
     bind (tenant_with NotificationsManage ctx) (\<lambda>_.
     case encrypt of
       None \<Rightarrow> Inl (ApiError ''ENCRYPTION_NOT_CONFIGURED'')
     | Some enc \<Rightarrow>
     bind (load_webhook ctx i d) (\<lambda>e.
       let secret = new_webhook_secret rnd; e1 = e\<lparr>we_secret_enc := enc secret\<rparr>
       in Inr (webhook_out e1 (Some secret),
               record_audit ctx ''webhook.secret_rotated'' ''webhook_endpoint'' (Some i) None (set_endpoint i (\<lambda>_. e1) d))))"

text \<open>The deliveries of an endpoint go with it (\<^verbatim>\<open>ON DELETE CASCADE\<close>).\<close>

definition delete_webhook :: "request_context \<Rightarrow> uuid \<Rightarrow> db \<Rightarrow> (unit \<times> db) result" where
  "delete_webhook ctx i d =
     bind (load_webhook ctx i d) (\<lambda>e.
       Inr ((), record_audit ctx ''webhook.deleted'' ''webhook_endpoint'' (Some i) None
              (d\<lparr>webhook_endpoints := filter (\<lambda>q. we_id q \<noteq> i) (webhook_endpoints d),
                webhook_deliveries := filter (\<lambda>w. wd_endpoint_id w \<noteq> i) (webhook_deliveries d)\<rparr>)))"

definition list_webhook_deliveries :: "request_context \<Rightarrow> uuid \<Rightarrow> nat \<Rightarrow> db \<Rightarrow> webhook_delivery list result" where
  "list_webhook_deliveries ctx i limit d =
     bind (tenant_with NotificationsManage ctx) (\<lambda>t.
     bind (raise_if (\<not> page_ok limit) (ValidationFailedError ''limit'')) (\<lambda>_.
     bind (load_webhook ctx i d) (\<lambda>e.
       Inr (take limit (newest wd_created_at
         (filter (\<lambda>w. wd_endpoint_id w = we_id e \<and> wd_organization_id w = t) (webhook_deliveries d)))))))"

definition send_test_webhook :: "instant \<Rightarrow> request_context \<Rightarrow> uuid \<Rightarrow> db \<Rightarrow> (unit \<times> db) result" where
  "send_test_webhook now ctx i d =
     bind (tenant_with NotificationsManage ctx) (\<lambda>t.
     bind (load_webhook ctx i d) (\<lambda>e.
       Inr ((), queue_delivery now t ''webhook.test'' (TestPayload (c_actor_label ctx)) e d)))"

subsection \<open>The summary\<close>

record analytics =
  an_window_days :: int
  an_total_events :: int
  an_events_by_severity :: "(severity \<times> int) list"
  an_total_distance_km :: float64
  an_events_per_100km :: "float64 option"
  an_confirmation_rate :: "float64 option"

definition window_events :: "uuid \<Rightarrow> instant \<Rightarrow> db \<Rightarrow> safety_event list" where
  "window_events t since d = filter (\<lambda>e. se_organization_id e = t \<and> since \<le> se_occurred_at e) (safety_events d)"

text \<open>\<^verbatim>\<open>GROUP BY\<close>: the groups that have rows, with their sizes.\<close>

definition grouped :: "('r \<Rightarrow> 'k) \<Rightarrow> 'k list \<Rightarrow> 'r list \<Rightarrow> ('k \<times> int) list" where
  "grouped key ks rows = filter (\<lambda>(k, n). n \<noteq> 0) (map (\<lambda>k. (k, int (count_rows (\<lambda>r. key r = k) rows))) ks)"

definition group_total :: "('k \<times> int) list \<Rightarrow> int" where
  "group_total g = sum_list (map snd g)"

definition get_count :: "'k \<Rightarrow> ('k \<times> int) list \<Rightarrow> int" where
  "get_count k g = (case map_of g k of None \<Rightarrow> 0 | Some n \<Rightarrow> n)"

definition float_sum :: "float64 list \<Rightarrow> float64" where
  "float_sum xs = fold (\<lambda>x s. fadd s x) xs 0"

definition analytics_summary :: "instant \<Rightarrow> request_context \<Rightarrow> int \<Rightarrow> db \<Rightarrow> analytics result" where
  "analytics_summary now ctx window_days d =
     bind (tenant_with AnalyticsRead ctx) (\<lambda>t.
     bind (raise_if (\<not> (1 \<le> window_days \<and> window_days \<le> 365)) (ValidationFailedError ''window_days'')) (\<lambda>_.
       let since = now - days window_days;
           by_severity = grouped se_severity [Low, Medium, High, Critical] (window_events t since d);
           total_events = group_total by_severity;
           review_counts = grouped se_review_status [RevPending, RevConfirmed, RevRejected, RevUncertain] (window_events t since d);
           decided = group_total (filter (\<lambda>(k, n). k \<noteq> RevPending) review_counts);
           total_km = float_sum (map t_distance_km (filter (\<lambda>r. t_organization_id r = t \<and> since \<le> t_started_at r) (trips d)))
       in Inr \<lparr>an_window_days = window_days, an_total_events = total_events, an_events_by_severity = by_severity,
               an_total_distance_km = py_round 1 total_km,
               an_events_per_100km =
                 (if 0 < total_km then Some (py_round 3 (fdiv (of_int total_events) (fdiv total_km 100))) else None),
               an_confirmation_rate =
                 (if decided \<noteq> 0 then Some (py_round 3 (fdiv (of_int (get_count RevConfirmed review_counts)) (of_int decided)))
                  else None)\<rparr>))"

subsection \<open>Requests stay in their organization\<close>

inductive notification_request :: "request_context \<Rightarrow> db \<Rightarrow> db \<Rightarrow> bool" for ctx where
  nq_read: "mark_notification_read now ctx i d = Inr (u, d') \<Longrightarrow> notification_request ctx d d'"
| nq_rule: "create_rule ctx name sev channels d = Inr (r, d') \<Longrightarrow> notification_request ctx d d'"
| nq_create: "create_webhook net production policy encrypt rnd ctx url description d = Inr (v, d') \<Longrightarrow> notification_request ctx d d'"
| nq_update: "update_webhook ctx i active description d = Inr (v, d') \<Longrightarrow> notification_request ctx d d'"
| nq_rotate: "rotate_webhook_secret encrypt rnd ctx i d = Inr (v, d') \<Longrightarrow> notification_request ctx d d'"
| nq_delete: "delete_webhook ctx i d = Inr (u, d') \<Longrightarrow> notification_request ctx d d'"
| nq_test: "send_test_webhook now ctx i d = Inr (u, d') \<Longrightarrow> notification_request ctx d d'"

text \<open>What an organization owns, and the keys the tables keep: a delivery belongs to its endpoint's organization.\<close>

definition owned_rows ::
    "uuid \<Rightarrow> db \<Rightarrow> notification list \<times> notification_rule list \<times> webhook_endpoint list \<times> webhook_delivery list" where
  "owned_rows t d =
     (filter (\<lambda>n. nt_organization_id n = t) (notifications d), filter (\<lambda>r. nr_organization_id r = t) (notification_rules d),
      filter (\<lambda>e. we_organization_id e = t) (webhook_endpoints d), filter (\<lambda>w. wd_organization_id w = t) (webhook_deliveries d))"

definition delivery_owned :: "webhook_endpoint list \<Rightarrow> webhook_delivery \<Rightarrow> bool" where
  "delivery_owned es w \<longleftrightarrow> (\<exists>e \<in> set es. we_id e = wd_endpoint_id w \<and> we_organization_id e = wd_organization_id w)"

definition webhooks_inv :: "db \<Rightarrow> bool" where
  "webhooks_inv d \<longleftrightarrow> ids_ok we_id (next_id d) (webhook_endpoints d) \<and> ids_ok nt_id (next_id d) (notifications d) \<and>
     (\<forall>w \<in> set (webhook_deliveries d). delivery_owned (webhook_endpoints d) w)"

lemma mark_notification_read_Inr:
  "mark_notification_read now ctx i d = Inr (u, d') \<longleftrightarrow>
     (\<exists>t n. tenant_with EventsRead ctx = Inr t \<and> tget nt_id (notifications d) i = Some n \<and> nt_organization_id n = t \<and>
        d' = (if nt_read_at n = None
          then d\<lparr>notifications := tupd (\<lambda>q. nt_id q = i) (\<lambda>q. q\<lparr>nt_read_at := Some now\<rparr>) (notifications d)\<rparr> else d))"
  by (cases "tget nt_id (notifications d) i") (auto simp: mark_notification_read_def bind_eq_Inr)

lemma load_webhook_Inr:
  "load_webhook ctx i d = Inr e \<longleftrightarrow> (\<exists>t. tenant_with NotificationsManage ctx = Inr t \<and>
     tget we_id (webhook_endpoints d) i = Some e \<and> we_organization_id e = t)"
  by (auto simp: load_webhook_def bind_eq_Inr split: option.splits if_splits)

lemma update_webhook_Inr:
  assumes "update_webhook ctx j active description d = Inr (v, d')"
  obtains e e' where "tget we_id (webhook_endpoints d) j = Some e" "c_organization_id ctx = Some (we_organization_id e)"
    "we_id e' = j" "we_organization_id e' = we_organization_id e" "we_secret_enc e' = we_secret_enc e"
    "d' = set_endpoint j (\<lambda>_. e') d \<or> d' = record_audit ctx ''webhook.updated'' ''webhook_endpoint'' (Some j) None (set_endpoint j (\<lambda>_. e') d)"
proof -
  obtain e where load: "load_webhook ctx j d = Inr e"
    using assms by (auto simp: update_webhook_def bind_eq_Inr)
  then have e: "tget we_id (webhook_endpoints d) j = Some e" "c_organization_id ctx = Some (we_organization_id e)" "we_id e = j"
    using tget_SomeD [of we_id "webhook_endpoints d" j] by (auto simp: load_webhook_Inr tenant_with_Inr)
  let ?e1 = "case active of None \<Rightarrow> e | Some b \<Rightarrow> e\<lparr>we_active := b\<rparr>"
  let ?e2 = "case description of None \<Rightarrow> ?e1 | Some s \<Rightarrow> ?e1\<lparr>we_description := Some s\<rparr>"
  have same: "we_id ?e2 = j" "we_organization_id ?e2 = we_organization_id e" "we_secret_enc ?e2 = we_secret_enc e"
    using e(3) by (simp_all split: option.split)
  have "d' = (if active \<noteq> None \<or> description \<noteq> None
      then record_audit ctx ''webhook.updated'' ''webhook_endpoint'' (Some j) None (set_endpoint j (\<lambda>_. ?e2) d)
      else set_endpoint j (\<lambda>_. ?e2) d)"
    using assms load by (auto simp: update_webhook_def bind_eq_Inr Let_def)
  then show ?thesis
    using that [OF e(1,2) same] by (simp split: if_splits)
qed

lemma rotate_webhook_secret_Inr:
  assumes "rotate_webhook_secret encrypt rnd ctx j d = Inr (v, d')"
  obtains e enc where "encrypt = Some enc" "tget we_id (webhook_endpoints d) j = Some e"
    "c_organization_id ctx = Some (we_organization_id e)" "we_id e = j"
    "v = webhook_out (e\<lparr>we_secret_enc := enc (new_webhook_secret rnd)\<rparr>) (Some (new_webhook_secret rnd))"
    "d' = record_audit ctx ''webhook.secret_rotated'' ''webhook_endpoint'' (Some j) None
       (set_endpoint j (\<lambda>_. e\<lparr>we_secret_enc := enc (new_webhook_secret rnd)\<rparr>) d)"
  using assms tget_SomeD [of we_id "webhook_endpoints d" j]
  by (auto simp: rotate_webhook_secret_def bind_eq_Inr load_webhook_Inr tenant_with_Inr Let_def split: option.splits)

text \<open>Changing one row of another organization leaves the rows of this one.\<close>

lemma filter_tupd_foreign:
  assumes "ids_ok key n rows" "tget key rows i = Some r" "\<not> p r" "\<not> p (f r)"
  shows "filter p (tupd (\<lambda>q. key q = i) f rows) = filter p rows"
proof -
  have "\<forall>q \<in> set rows. key q = i \<longrightarrow> \<not> p q \<and> \<not> p (f q)"
    using assms(3,4) ids_ok_get [OF assms(1,2)] by blast
  then show ?thesis
    by (induction rows) auto
qed

lemma delivery_owned_mono:
  assumes "delivery_owned es w" "\<And>e. e \<in> set es \<Longrightarrow> \<exists>e' \<in> set es'. we_id e' = we_id e \<and> we_organization_id e' = we_organization_id e"
  shows "delivery_owned es' w"
  using assms unfolding delivery_owned_def by metis

lemma webhooks_inv_endpoint:
  assumes "webhooks_inv d" "tget we_id (webhook_endpoints d) i = Some e" "we_id e' = i" "we_organization_id e' = we_organization_id e"
    "t \<noteq> we_organization_id e"
  shows "webhooks_inv (set_endpoint i (\<lambda>_. e') d) \<and> owned_rows t (set_endpoint i (\<lambda>_. e') d) = owned_rows t d"
proof -
  have inv: "ids_ok we_id (next_id d) (webhook_endpoints d)"
    using assms(1) by (simp add: webhooks_inv_def)
  have same: "map we_id (tupd (\<lambda>q. we_id q = i) (\<lambda>_. e') (webhook_endpoints d)) = map we_id (webhook_endpoints d)"
    using assms(3) by (intro map_tupd) simp
  have j: "i < next_id d"
    using inv tget_SomeD [OF assms(2)] by (auto simp: ids_ok_def list_all_iff)
  have ids: "ids_ok we_id (next_id d) (tupd (\<lambda>q. we_id q = i) (\<lambda>_. e') (webhook_endpoints d))"
    using inv assms(3) j by (auto simp: ids_ok_def keys_distinct_def same list_all_iff set_tupd)
  have "\<exists>q' \<in> set (tupd (\<lambda>q. we_id q = i) (\<lambda>_. e') (webhook_endpoints d)). we_id q' = we_id q \<and> we_organization_id q' = we_organization_id q"
    if "q \<in> set (webhook_endpoints d)" for q
  proof (rule bexI)
    show "(if we_id q = i then e' else q) \<in> set (tupd (\<lambda>q. we_id q = i) (\<lambda>_. e') (webhook_endpoints d))"
      using that by (auto simp: tupd_def)
  qed (use that assms(3,4) ids_ok_get [OF inv assms(2) that] in auto)
  then have "\<forall>w \<in> set (webhook_deliveries d). delivery_owned (tupd (\<lambda>q. we_id q = i) (\<lambda>_. e') (webhook_endpoints d)) w"
    using assms(1) delivery_owned_mono unfolding webhooks_inv_def by blast
  then show ?thesis
    using assms ids filter_tupd_foreign [OF inv assms(2), of "\<lambda>e. we_organization_id e = t" "\<lambda>_. e'"]
    by (simp add: webhooks_inv_def set_endpoint_def owned_rows_def)
qed

lemma audit_owned [simp]:
  "webhooks_inv (record_audit ctx a rt ri org d) = webhooks_inv d"
  "owned_rows t (record_audit ctx a rt ri org d) = owned_rows t d"
  by (simp_all add: webhooks_inv_def owned_rows_def)

lemma notification_request_isolated:
  assumes "notification_request ctx d d'" "webhooks_inv d" "c_organization_id ctx \<noteq> Some t"
  shows "webhooks_inv d' \<and> owned_rows t d' = owned_rows t d"
  using assms
proof (cases rule: notification_request.cases)
  case (nq_read now i u)
  then obtain n org where n: "c_organization_id ctx = Some org" "tget nt_id (notifications d) i = Some n" "nt_organization_id n = org"
    "d' = (if nt_read_at n = None
       then d\<lparr>notifications := tupd (\<lambda>q. nt_id q = i) (\<lambda>q. q\<lparr>nt_read_at := Some now\<rparr>) (notifications d)\<rparr> else d)"
    by (auto simp: mark_notification_read_Inr tenant_with_Inr)
  have "filter (\<lambda>n. nt_organization_id n = t) (tupd (\<lambda>q. nt_id q = i) (\<lambda>q. q\<lparr>nt_read_at := Some now\<rparr>) (notifications d)) =
      filter (\<lambda>n. nt_organization_id n = t) (notifications d)"
    using assms(2,3) n(1,3) by (intro filter_tupd_foreign [OF _ n(2)]) (auto simp: webhooks_inv_def)
  then show ?thesis
    using assms(2) by (simp add: n(4) webhooks_inv_def owned_rows_def ids_ok_tupd)
next
  case (nq_rule name sev channels r)
  then show ?thesis
    using assms(2,3)
    by (auto simp: create_rule_def bind_eq_Inr tenant_with_Inr Let_def webhooks_inv_def owned_rows_def ids_ok_Suc)
next
  case (nq_create net production policy encrypt rnd url description v)
  then show ?thesis
    using assms(2,3)
    by (auto simp: create_webhook_def bind_eq_Inr tenant_with_Inr Let_def webhooks_inv_def owned_rows_def ids_ok_Suc ids_ok_snoc
        delivery_owned_def split: option.splits)
next
  case (nq_update i active description v)
  then show ?thesis
  proof (rule update_webhook_Inr)
    fix e e' :: webhook_endpoint
    assume e: "tget we_id (webhook_endpoints d) i = Some e" "c_organization_id ctx = Some (we_organization_id e)"
        "we_id e' = i" "we_organization_id e' = we_organization_id e"
      and d': "d' = set_endpoint i (\<lambda>_. e') d \<or>
        d' = record_audit ctx ''webhook.updated'' ''webhook_endpoint'' (Some i) None (set_endpoint i (\<lambda>_. e') d)"
    have "t \<noteq> we_organization_id e"
      using assms(3) e(2) by auto
    then show ?thesis
      using webhooks_inv_endpoint [OF assms(2) e(1,3,4)] d' by auto
  qed
next
  case (nq_rotate encrypt rnd i v)
  then show ?thesis
  proof (rule rotate_webhook_secret_Inr)
    fix e :: webhook_endpoint and enc
    let ?e = "e\<lparr>we_secret_enc := enc (new_webhook_secret rnd)\<rparr>"
    assume e: "tget we_id (webhook_endpoints d) i = Some e" "c_organization_id ctx = Some (we_organization_id e)" "we_id e = i"
      and d': "d' = record_audit ctx ''webhook.secret_rotated'' ''webhook_endpoint'' (Some i) None (set_endpoint i (\<lambda>_. ?e) d)"
    have "t \<noteq> we_organization_id e"
      using assms(3) e(2) by auto
    then show ?thesis
      using webhooks_inv_endpoint [OF assms(2) e(1), of ?e t] e(3) by (simp add: d')
  qed
next
  case (nq_delete i u)
  then obtain e where e: "tget we_id (webhook_endpoints d) i = Some e" "c_organization_id ctx = Some (we_organization_id e)"
    "webhook_endpoints d' = filter (\<lambda>q. we_id q \<noteq> i) (webhook_endpoints d)" "next_id d' = next_id d"
    "webhook_deliveries d' = filter (\<lambda>w. wd_endpoint_id w \<noteq> i) (webhook_deliveries d)"
    "notifications d' = notifications d" "notification_rules d' = notification_rules d"
    by (auto simp: delete_webhook_def bind_eq_Inr load_webhook_Inr tenant_with_Inr)
  have inv: "ids_ok we_id (next_id d) (webhook_endpoints d)"
    using assms(2) by (simp add: webhooks_inv_def)
  have gone: "q = e" if "q \<in> set (webhook_endpoints d)" "we_id q = i" for q
    using ids_ok_get [OF inv e(1) that] .
  then have "filter (\<lambda>q. we_organization_id q = t \<and> we_id q \<noteq> i) (webhook_endpoints d) =
      filter (\<lambda>q. we_organization_id q = t) (webhook_endpoints d)"
    using e(2) assms(3) by (intro filter_cong) auto
  moreover have "filter (\<lambda>w. wd_organization_id w = t \<and> wd_endpoint_id w \<noteq> i) (webhook_deliveries d) =
      filter (\<lambda>w. wd_organization_id w = t) (webhook_deliveries d)"
    using assms(2,3) e(2) gone by (intro filter_cong) (auto simp: webhooks_inv_def delivery_owned_def)
  moreover have "\<forall>w \<in> set (webhook_deliveries d'). delivery_owned (webhook_endpoints d') w"
    using assms(2) by (fastforce simp: e(3,5) webhooks_inv_def delivery_owned_def)
  ultimately show ?thesis
    using assms(2) ids_ok_filter [OF inv, of "\<lambda>q. we_id q \<noteq> i"]
    by (simp add: webhooks_inv_def owned_rows_def e conj_commute)
next
  case (nq_test now i u)
  then obtain e where e: "tget we_id (webhook_endpoints d) i = Some e" "c_organization_id ctx = Some (we_organization_id e)"
    "d' = queue_delivery now (we_organization_id e) ''webhook.test'' (TestPayload (c_actor_label ctx)) e d"
    by (auto simp: send_test_webhook_def bind_eq_Inr load_webhook_Inr tenant_with_Inr)
  then show ?thesis
    using assms(2,3) tget_SomeD [OF e(1)]
    by (auto simp: queue_delivery_def webhooks_inv_def owned_rows_def ids_ok_Suc delivery_owned_def)
qed

definition other_request :: "uuid \<Rightarrow> db \<Rightarrow> db \<Rightarrow> bool" where
  "other_request t d d' \<longleftrightarrow> (\<exists>ctx. c_organization_id ctx \<noteq> Some t \<and> notification_request ctx d d')"

text \<open>
  C34: whatever sequence of notification and webhook requests members of other organizations make, the
  notifications, rules, webhooks and deliveries of an organization stay as they are, and every delivery keeps
  belonging to the organization of its endpoint.
\<close>

theorem notification_requests_isolated:
  assumes "(other_request t)\<^sup>*\<^sup>* d d'" "webhooks_inv d"
  shows "owned_rows t d' = owned_rows t d \<and> webhooks_inv d'"
  using assms
proof (induction rule: rtranclp_induct)
  case (step d1 d2)
  then obtain ctx where "c_organization_id ctx \<noteq> Some t" "notification_request ctx d1 d2"
    by (auto simp: other_request_def)
  then show ?case
    using step notification_request_isolated by simp
qed simp

subsection \<open>The secret that was shown\<close>

text \<open>Making a secret: creating an endpoint, or rotating its secret, with the answer that shows it once.\<close>

definition secret_shown :: "(string \<Rightarrow> string) \<Rightarrow> uuid \<Rightarrow> string \<Rightarrow> db \<Rightarrow> db \<Rightarrow> bool" where
  "secret_shown enc i secret d d' \<longleftrightarrow>
     (\<exists>v. we_id (wv_row v) = i \<and> wv_secret v = Some secret \<and>
        ((\<exists>net production policy rnd ctx url description.
            create_webhook net production policy (Some enc) rnd ctx url description d = Inr (v, d')) \<or>
         (\<exists>rnd ctx. rotate_webhook_secret (Some enc) rnd ctx i d = Inr (v, d'))))"

text \<open>
  What else happens, apart from a rotation or deletion of this endpoint: the other requests, events, rounds
  of the worker, and runs of the re-encryption command. \<open>R\<close> is the register of all key identifiers with
  their keys: every ring that a re-encryption runs with is a part of it.
\<close>

inductive secret_step :: "fernet \<Rightarrow> (string \<times> string) list \<Rightarrow> uuid \<Rightarrow> db \<Rightarrow> db \<Rightarrow> bool" for F R i where
  st_create: "create_webhook net production policy encrypt rnd ctx url description d = Inr (v, d') \<Longrightarrow> secret_step F R i d d'"
| st_update: "update_webhook ctx j active description d = Inr (v, d') \<Longrightarrow> secret_step F R i d d'"
| st_rotate: "rotate_webhook_secret encrypt rnd ctx j d = Inr (v, d') \<Longrightarrow> j \<noteq> i \<Longrightarrow> secret_step F R i d d'"
| st_delete: "delete_webhook ctx j d = Inr (u, d') \<Longrightarrow> j \<noteq> i \<Longrightarrow> secret_step F R i d d'"
| st_test: "send_test_webhook now ctx j d = Inr (u, d') \<Longrightarrow> secret_step F R i d d'"
| st_event: "d' = snd (on_safety_event now org event_id t sev d) \<Longrightarrow> secret_step F R i d d'"
| st_worker: "d' = snd (deliver_webhooks env production locked now d) \<Longrightarrow> secret_step F R i d d'"
| st_reencrypt: "reencrypt_all F ivs keys primary d = Inr (n, d') \<Longrightarrow> map_of keys \<subseteq>\<^sub>m map_of R \<Longrightarrow> secret_step F R i d d'"

definition endpoints_ok :: "db \<Rightarrow> bool" where
  "endpoints_ok d \<longleftrightarrow> ids_ok we_id (next_id d) (webhook_endpoints d)"

definition stored_secret :: "db \<Rightarrow> uuid \<Rightarrow> string option" where
  "stored_secret d i = map_option we_secret_enc (tget we_id (webhook_endpoints d) i)"

definition decryptor :: "fernet \<Rightarrow> field_cipher \<Rightarrow> string \<Rightarrow> string option" where
  "decryptor F c v = (case cipher_decrypt F c v of Inl _ \<Rightarrow> None | Inr p \<Rightarrow> Some p)"

text \<open>The secret in the clear, read with the whole register.\<close>

definition readable_secret :: "fernet \<Rightarrow> (string \<times> string) list \<Rightarrow> db \<Rightarrow> uuid \<Rightarrow> string option" where
  "readable_secret F R d i = Option.bind (stored_secret d i) (decryptor F \<lparr>fc_fernets = R, fc_primary = []\<rparr>)"

definition secrets_kept :: "db \<Rightarrow> db \<Rightarrow> bool" where
  "secrets_kept d d' \<longleftrightarrow> map (\<lambda>e. (we_id e, we_secret_enc e)) (webhook_endpoints d') = map (\<lambda>e. (we_id e, we_secret_enc e)) (webhook_endpoints d) \<and>
     next_id d \<le> next_id d'"

lemma secrets_kept_trans: "secrets_kept d d1 \<Longrightarrow> secrets_kept d1 d2 \<Longrightarrow> secrets_kept d d2"
  by (simp add: secrets_kept_def)

lemma stored_secret_map:
  "stored_secret d i = map_of (map (\<lambda>e. (we_id e, we_secret_enc e)) (webhook_endpoints d)) i"
proof -
  have "map_option we_secret_enc (tget we_id rows i) = map_of (map (\<lambda>e. (we_id e, we_secret_enc e)) rows) i" for rows
    by (induction rows) auto
  then show ?thesis
    by (simp add: stored_secret_def)
qed

lemma secrets_kept_ok: "secrets_kept d d' \<Longrightarrow> (endpoints_ok d \<longrightarrow> endpoints_ok d') \<and> stored_secret d' i = stored_secret d i"
proof -
  assume k: "secrets_kept d d'"
  then have "map fst (map (\<lambda>e. (we_id e, we_secret_enc e)) (webhook_endpoints d')) =
      map fst (map (\<lambda>e. (we_id e, we_secret_enc e)) (webhook_endpoints d))"
    by (simp only: secrets_kept_def)
  then have ids: "map we_id (webhook_endpoints d') = map we_id (webhook_endpoints d)"
    by (simp add: comp_def)
  have le: "next_id d \<le> next_id d'"
    using k by (simp add: secrets_kept_def)
  have ok: "endpoints_ok q \<longleftrightarrow> distinct (map we_id (webhook_endpoints q)) \<and> (\<forall>j \<in> set (map we_id (webhook_endpoints q)). j < next_id q)" for q
    by (simp add: endpoints_ok_def ids_ok_def keys_distinct_def list_all_iff)
  have "endpoints_ok d \<longrightarrow> endpoints_ok d'"
    unfolding ok ids using le less_le_trans by blast
  then show ?thesis
    using k by (simp add: stored_secret_map secrets_kept_def)
qed

lemma secrets_kept_same: "webhook_endpoints d' = webhook_endpoints d \<Longrightarrow> next_id d \<le> next_id d' \<Longrightarrow> secrets_kept d d'"
  by (simp add: secrets_kept_def)

lemma secrets_kept_set_endpoint: "(\<And>e. we_id (f e) = we_id e \<and> we_secret_enc (f e) = we_secret_enc e) \<Longrightarrow> secrets_kept d (set_endpoint i f d)"
  by (simp add: secrets_kept_def set_endpoint_def map_tupd)

lemma on_safety_event_secrets: "secrets_kept d (snd (on_safety_event now org event_id t sev d))"
proof -
  have queue: "secrets_kept d (fold (queue_delivery now o1 n p) es d)" for o1 n p es d
  proof (induction es arbitrary: d)
    case (Cons e es)
    have "secrets_kept d (queue_delivery now o1 n p e d)"
      by (rule secrets_kept_same) (simp_all add: queue_delivery_def)
    then show ?case
      using secrets_kept_trans Cons by simp
  qed (simp add: secrets_kept_def)
  have rule: "secrets_kept (snd st) (snd (apply_rule now org event_id t sev r st))" for r st
  proof -
    have "secrets_kept d (notify_in_app now org event_id sev r d)" for d
      by (rule secrets_kept_same) (simp_all add: notify_in_app_def)
    moreover have "secrets_kept d d" for d
      by (simp add: secrets_kept_def)
    ultimately have inner: "secrets_kept (snd st)
        (snd (if InApp \<in> set (nr_channels r) then (fst st + 1, notify_in_app now org event_id sev r (snd st)) else st))"
      by simp
    have "secrets_kept d (snd (queue_webhooks now org n p d))" for n p d
      using queue by (simp add: queue_webhooks_def Let_def)
    then show ?thesis
      using secrets_kept_trans [OF inner] inner by (simp add: apply_rule_def Let_def case_prod_beta del: if_split)
  qed
  have "secrets_kept (snd st) (snd (fold (apply_rule now org event_id t sev) rs st))" for rs st
  proof (induction rs arbitrary: st)
    case (Cons r rs)
    show ?case
      using secrets_kept_trans [OF rule Cons] by simp
  qed (simp add: secrets_kept_def)
  from this [of "(0, d)"] show ?thesis
    by (simp add: on_safety_event_def)
qed

lemma deliver_rows_secrets: "deliver_rows env policy now rows d = Inr (r, d') \<Longrightarrow> secrets_kept d d'"
proof (induction rows arbitrary: d r)
  case (Cons row rows)
  obtain w e where row: "row = (w, e)"
    by (cases row)
  obtain ok d1 r1 where s: "send_one env policy now w e d = Inr (ok, d1)" "deliver_rows env policy now rows d1 = Inr (r1, d')"
    using Cons.prems by (auto simp: row bind_eq_Inr)
  have "secrets_kept d d1"
    using s(1)
    by (auto simp: send_one_def record_failure_rows_def Let_def secrets_kept_def set_endpoint_def set_delivery_def map_tupd
        split: sum.splits option.splits if_splits)
  then show ?case
    using secrets_kept_trans Cons.IH [OF s(2)] by blast
qed (simp add: secrets_kept_def)

lemma deliver_webhooks_secrets: "secrets_kept d (snd (deliver_webhooks env production locked now d))"
  using deliver_rows_secrets
  by (auto simp: deliver_webhooks_def deliver_pending_def secrets_kept_def split: sum.splits prod.splits)

lemma tget_replace:
  "key r' = j \<Longrightarrow> tget key (tupd (\<lambda>q. key q = j) (\<lambda>_. r') rows) i =
     (if i = j then (if j \<in> key ` set rows then Some r' else None) else tget key rows i)"
  by (induction rows) auto

lemma replace_endpoint:
  assumes "endpoints_ok d" "tget we_id (webhook_endpoints d) j = Some e" "we_id e' = j"
  shows "endpoints_ok (set_endpoint j (\<lambda>_. e') d) \<and>
    stored_secret (set_endpoint j (\<lambda>_. e') d) i = (if i = j then Some (we_secret_enc e') else stored_secret d i)"
proof -
  have same: "map we_id (tupd (\<lambda>q. we_id q = j) (\<lambda>_. e') (webhook_endpoints d)) = map we_id (webhook_endpoints d)"
    using assms(3) by (intro map_tupd) simp
  have j: "j \<in> we_id ` set (webhook_endpoints d)" "j < next_id d"
    using tget_SomeD [OF assms(2)] assms(1) by (auto simp: endpoints_ok_def ids_ok_def list_all_iff)
  then show ?thesis
    using assms(1,3)
    by (auto simp: endpoints_ok_def ids_ok_def keys_distinct_def same list_all_iff set_tupd set_endpoint_def stored_secret_def tget_replace)
qed

lemma audit_secrets [simp]:
  "endpoints_ok (record_audit ctx a rt ri org d) = endpoints_ok d"
  "stored_secret (record_audit ctx a rt ri org d) i = stored_secret d i"
  by (simp_all add: endpoints_ok_def stored_secret_def)

text \<open>A re-encryption that ends found the key of every row in its ring.\<close>

lemma reencrypt_rows_key:
  "reencrypt_rows F c iv es = Inr (es', n) \<Longrightarrow> cipher_ok F c \<Longrightarrow> e \<in> set es \<Longrightarrow>
   \<exists>k. key_id_of (we_secret_enc e) = Inr k \<and> map_of (fc_fernets c) k \<noteq> None"
proof (induction es arbitrary: es' n)
  case (Cons a es)
  then obtain b x es1 m where a: "needs_rotation c (we_secret_enc a) = Inr b" "reencrypt_rows F c iv es = Inr (es1, m)"
    "(if b then bind (rotate_value F c (iv (we_id a)) (we_secret_enc a)) (\<lambda>v. Inr (a\<lparr>we_secret_enc := v\<rparr>, 1))
      else Inr (a, 0)) = Inr (x :: webhook_endpoint \<times> nat)"
    by (auto simp: bind_eq_Inr)
  obtain k where k: "key_id_of (we_secret_enc a) = Inr k" "b \<longleftrightarrow> k \<noteq> fc_primary c"
    using a(1) by (auto simp: needs_rotation_def bind_eq_Inr)
  have "map_of (fc_fernets c) k \<noteq> None"
  proof (cases b)
    case True
    then show ?thesis
      using a(1,3) k(1)
      by (auto simp: rotate_value_def bind_eq_Inr cipher_decrypt_def key_id_of_def split: option.splits)
  next
    case False
    then show ?thesis
      using k(2) cipher_ok_primary [OF Cons.prems(2)] by auto
  qed
  then show ?case
    using Cons.IH [OF a(2) Cons.prems(2)] Cons.prems(3) k(1) by auto
qed simp

lemma decrypt_in_larger_ring:
  "map_of (fc_fernets c) \<subseteq>\<^sub>m map_of (fc_fernets c') \<Longrightarrow> key_id_of v = Inr k \<Longrightarrow> map_of (fc_fernets c) k \<noteq> None \<Longrightarrow>
   cipher_decrypt F c' v = cipher_decrypt F c v"
  by (auto simp: map_le_def dom_def cipher_decrypt_def key_id_of_def bind_eq_Inr)

lemma list_all2_secret:
  "list_all2 (\<lambda>e e'. we_id e' = we_id e \<and> P (we_secret_enc e) (we_secret_enc e')) es es' \<Longrightarrow>
   map we_id es' = map we_id es \<and>
   rel_option (\<lambda>e e'. P (we_secret_enc e) (we_secret_enc e')) (tget we_id es i) (tget we_id es' i)"
  by (induction rule: list_all2_induct) auto

text \<open>A re-encryption keeps the identifiers and what is read with the register.\<close>

lemma reencrypt_all_kept:
  assumes "fernet_ok F" "reencrypt_all F ivs keys primary d = Inr (n, d')" "map_of keys \<subseteq>\<^sub>m map_of R" "endpoints_ok d"
  shows "endpoints_ok d' \<and> readable_secret F R d' i = readable_secret F R d i"
proof -
  let ?r = "\<lparr>fc_fernets = R, fc_primary = []\<rparr>"
  obtain c rows where c: "build_field_cipher F keys primary = Inr (Some c)"
    and rows: "reencrypt_rows F c ivs (webhook_endpoints d) = Inr (rows, n)" "d' = d\<lparr>webhook_endpoints := rows\<rparr>"
    using assms(2) by (auto simp: reencrypt_all_def bind_eq_Inr split: option.splits)
  have ok: "cipher_ok F c" "map_of (fc_fernets c) \<subseteq>\<^sub>m map_of (fc_fernets ?r)"
    using build_field_cipher_Some [OF c] assms(3) by simp_all
  obtain k where "map_of (fc_fernets c) (fc_primary c) = Some k"
    using cipher_ok_primary [OF ok(1)] by metis
  then have "map_of (fc_fernets ?r) (fc_primary c) = map_of (fc_fernets c) (fc_primary c)"
    using ok(2) by (auto simp: map_le_def dom_def)
  from reencrypt_rows_all [OF assms(1) ok(1) this rows(1)]
  have "list_all2 (\<lambda>e e'. we_id e' = we_id e \<and> decryptor F ?r (we_secret_enc e') = decryptor F ?r (we_secret_enc e))
      (webhook_endpoints d) rows"
  proof (rule list.rel_mono_strong)
    fix e e' :: webhook_endpoint
    assume e: "e \<in> set (webhook_endpoints d)"
      and s: "e' = e\<lparr>we_secret_enc := we_secret_enc e'\<rparr> \<and> needs_rotation c (we_secret_enc e') = Inr False \<and>
        cipher_decrypt F ?r (we_secret_enc e') = cipher_decrypt F c (we_secret_enc e)"
    obtain k where "key_id_of (we_secret_enc e) = Inr k" "map_of (fc_fernets c) k \<noteq> None"
      using reencrypt_rows_key [OF rows(1) ok(1) e] by blast
    then have "cipher_decrypt F ?r (we_secret_enc e') = cipher_decrypt F ?r (we_secret_enc e)"
      using s decrypt_in_larger_ring [OF ok(2)] by simp
    moreover have "we_id e' = we_id e"
      by (subst conjunct1 [OF s]) simp
    ultimately show "we_id e' = we_id e \<and> decryptor F ?r (we_secret_enc e') = decryptor F ?r (we_secret_enc e)"
      by (simp add: decryptor_def)
  qed
  from list_all2_secret [of "\<lambda>v v'. decryptor F ?r v' = decryptor F ?r v", OF this, of i]
  have same: "map we_id rows = map we_id (webhook_endpoints d)"
    and row: "rel_option (\<lambda>e e'. decryptor F ?r (we_secret_enc e') = decryptor F ?r (we_secret_enc e))
      (tget we_id (webhook_endpoints d) i) (tget we_id rows i)"
    by blast+
  have "(\<forall>r\<in>set rows. we_id r < next_id d) \<longleftrightarrow> (\<forall>r\<in>set (webhook_endpoints d). we_id r < next_id d)"
    using arg_cong [where f = "list_all (\<lambda>k. k < next_id d)", OF same] by (simp add: list_all_iff)
  then have "endpoints_ok d'"
    using assms(4) same by (simp add: rows(2) endpoints_ok_def ids_ok_def keys_distinct_def list_all_iff)
  moreover have "readable_secret F R d' i = readable_secret F R d i"
    using row by (auto simp: readable_secret_def stored_secret_def rows(2) elim!: option.rel_cases)
  ultimately show ?thesis
    by simp
qed

lemma secret_step_stored:
  assumes "secret_step F R i d d'" "endpoints_ok d"
    "\<nexists>ivs keys primary n. reencrypt_all F ivs keys primary d = Inr (n, d') \<and> map_of keys \<subseteq>\<^sub>m map_of R"
  shows "endpoints_ok d' \<and> (stored_secret d i = Some s \<longrightarrow> stored_secret d' i = Some s)"
  using assms(1)
proof (cases rule: secret_step.cases)
  case st_reencrypt
  then show ?thesis
    using assms(3) by blast
next
  case st_create
  then show ?thesis
    using assms(2)
    by (auto simp: create_webhook_def bind_eq_Inr Let_def endpoints_ok_def stored_secret_def ids_ok_snoc tget_append split: option.splits)
next
  case (st_update ctx j active description v)
  then show ?thesis
  proof (rule update_webhook_Inr)
    fix e e' :: webhook_endpoint
    assume e: "tget we_id (webhook_endpoints d) j = Some e" "we_id e' = j" "we_secret_enc e' = we_secret_enc e"
      and d': "d' = set_endpoint j (\<lambda>_. e') d \<or>
        d' = record_audit ctx ''webhook.updated'' ''webhook_endpoint'' (Some j) None (set_endpoint j (\<lambda>_. e') d)"
    have "stored_secret d j = Some (we_secret_enc e)"
      by (simp add: stored_secret_def e(1))
    then show ?thesis
      using replace_endpoint [OF assms(2) e(1,2), of i] d' e(3) by auto
  qed
next
  case (st_rotate encrypt rnd ctx j v)
  from st_rotate(1) show ?thesis
  proof (rule rotate_webhook_secret_Inr)
    fix e :: webhook_endpoint and enc
    assume e: "tget we_id (webhook_endpoints d) j = Some e" "we_id e = j"
      and d': "d' = record_audit ctx ''webhook.secret_rotated'' ''webhook_endpoint'' (Some j) None
        (set_endpoint j (\<lambda>_. e\<lparr>we_secret_enc := enc (new_webhook_secret rnd)\<rparr>) d)"
    show ?thesis
      using replace_endpoint [OF assms(2) e(1), of "e\<lparr>we_secret_enc := enc (new_webhook_secret rnd)\<rparr>" i] st_rotate(2) e(2)
      by (simp add: d')
  qed
next
  case (st_delete ctx j u)
  have "tget we_id (filter (\<lambda>q. we_id q \<noteq> j) rows) i = tget we_id rows i" for rows :: "webhook_endpoint list"
    using st_delete(2) by (induction rows) auto
  then show ?thesis
    using st_delete assms(2)
    by (auto simp: delete_webhook_def bind_eq_Inr endpoints_ok_def stored_secret_def ids_ok_filter)
next
  case (st_test now ctx j u)
  then have "secrets_kept d d'"
    by (intro secrets_kept_same) (auto simp: send_test_webhook_def bind_eq_Inr queue_delivery_def)
  then show ?thesis
    using secrets_kept_ok assms(2) by simp
next
  case st_event
  then show ?thesis
    using secrets_kept_ok [OF on_safety_event_secrets] assms(2) by simp
next
  case st_worker
  then show ?thesis
    using secrets_kept_ok [OF deliver_webhooks_secrets] assms(2) by simp
qed

lemma secret_step_kept:
  assumes "secret_step F R i d d'" "fernet_ok F \<and> endpoints_ok d"
  shows "(fernet_ok F \<and> endpoints_ok d') \<and> (readable_secret F R d i = Some s \<longrightarrow> readable_secret F R d' i = Some s)"
proof (cases "\<exists>ivs keys primary n. reencrypt_all F ivs keys primary d = Inr (n, d') \<and> map_of keys \<subseteq>\<^sub>m map_of R")
  case True
  then show ?thesis
    using reencrypt_all_kept [where i = i and R = R] assms(2) by metis
next
  case False
  show ?thesis
    using secret_step_stored [OF assms(1) _ False] assms(2)
    by (cases "stored_secret d i") (auto simp: readable_secret_def)
qed

text \<open>The readable secret of an endpoint is a row that only its own rotation and deletion end.\<close>

interpretation secret_life: lifecycle "\<lambda>d (_ :: uuid). readable_secret F R d i" "\<lambda>d. fernet_ok F \<and> endpoints_ok d"
    "secret_step F R i" "\<lambda>_. ()" "\<lambda>_ _. False" "\<lambda>_. True"
  for F R i
  by unfold_locales (use secret_step_kept in blast)+

lemma secret_shown_stored:
  assumes "secret_shown enc i secret d d'" "endpoints_ok d"
  shows "endpoints_ok d' \<and> stored_secret d' i = Some (enc secret)"
proof -
  obtain v where v: "we_id (wv_row v) = i" "wv_secret v = Some secret"
    and s: "(\<exists>net production policy rnd ctx url description.
        create_webhook net production policy (Some enc) rnd ctx url description d = Inr (v, d')) \<or>
      (\<exists>rnd ctx. rotate_webhook_secret (Some enc) rnd ctx i d = Inr (v, d'))"
    using assms(1) unfolding secret_shown_def by blast
  from s show ?thesis
  proof (elim disjE exE)
    fix net production policy rnd ctx url description
    assume "create_webhook net production policy (Some enc) rnd ctx url description d = Inr (v, d')"
    then show ?thesis
      using v assms(2) ids_ok_fresh [of we_id "next_id d" "webhook_endpoints d"]
      by (auto simp: create_webhook_def bind_eq_Inr Let_def endpoints_ok_def stored_secret_def ids_ok_snoc tget_append webhook_out_def)
  next
    fix rnd ctx
    assume "rotate_webhook_secret (Some enc) rnd ctx i d = Inr (v, d')"
    then show ?thesis
    proof (rule rotate_webhook_secret_Inr)
      fix e :: webhook_endpoint and enc'
      assume e: "Some enc = Some enc'" "tget we_id (webhook_endpoints d) i = Some e" "we_id e = i"
        "v = webhook_out (e\<lparr>we_secret_enc := enc' (new_webhook_secret rnd)\<rparr>) (Some (new_webhook_secret rnd))"
        "d' = record_audit ctx ''webhook.secret_rotated'' ''webhook_endpoint'' (Some i) None
          (set_endpoint i (\<lambda>_. e\<lparr>we_secret_enc := enc' (new_webhook_secret rnd)\<rparr>) d)"
      then have "secret = new_webhook_secret rnd" "enc' = enc"
        using v(2) by (simp_all add: webhook_out_def)
      then show ?thesis
        using replace_endpoint [OF assms(2) e(2), of "e\<lparr>we_secret_enc := enc secret\<rparr>" i] e(3,5) by simp
    qed
  qed
qed

text \<open>
  C35: the secret an owner was shown once, when a webhook was created or its secret rotated, is the one that
  signs every later delivery to it: whatever requests, events, rounds of the worker and re-encryptions with
  new rings come in between, until it is rotated or deleted. A key identifier keeps its key for ever
  (the register \<open>R\<close>), and the ring of the sending worker holds the key that the stored value names.
\<close>

theorem shown_secret_signs:
  assumes "fernet_ok F" "cipher_ok F c" "map_of (fc_fernets c) (fc_primary c) = map_of R (fc_primary c)"
    "endpoints_ok d" "secret_shown (cipher_encrypt F c iv) i secret d d1" "(secret_step F R i)\<^sup>*\<^sup>* d1 d2"
    "tget we_id (webhook_endpoints d2) i = Some e" "hk_decrypt env = Some (decryptor F c')"
    "\<forall>k. key_id_of (we_secret_enc e) = Inr k \<longrightarrow> map_of (fc_fernets c') k = map_of R k"
  shows "run_delivery env policy now w e = bind (validate_url (hk_net env) policy (we_url e)) (\<lambda>_.
    case hk_post env (we_url e) (hk_body env w) (sign_payload (hk_hmac env) secret (hk_body env w) (now div 1000000)) (wd_id w) of
      HttpStatus st \<Rightarrow> Inr (Inr st) | HttpFailure t \<Rightarrow> Inr (Inl t) | HttpRaise x \<Rightarrow> Inl x)"
proof -
  let ?r = "\<lparr>fc_fernets = R, fc_primary = []\<rparr>"
  have "readable_secret F R d1 i = Some secret" "endpoints_ok d1"
    using secret_shown_stored [OF assms(5,4)] decrypt_encrypt [OF assms(1,2), of ?r] assms(3)
    by (simp_all add: readable_secret_def decryptor_def)
  then have "readable_secret F R d2 i = Some secret"
    using secret_life.run_final [OF assms(6)] assms(1) by blast
  then have r: "cipher_decrypt F ?r (we_secret_enc e) = Inr secret"
    by (auto simp: readable_secret_def stored_secret_def assms(7) decryptor_def split: sum.splits)
  then obtain k t where k: "split_value (we_secret_enc e) = Inr (k, t)"
    by (auto simp: cipher_decrypt_def bind_eq_Inr)
  then have "map_of (fc_fernets c') k = map_of R k"
    using assms(9) by (simp add: key_id_of_def)
  then have "decryptor F c' (we_secret_enc e) = Some secret"
    using r k by (simp add: decryptor_def cipher_decrypt_def)
  then show ?thesis
    by (simp add: run_delivery_def assms(8))
qed

subsection \<open>The numbers of the summary\<close>

lemma sum_indicator: "distinct ks \<Longrightarrow> sum_list (map (\<lambda>k. if x = k then 1 else 0) ks) = (if x \<in> set ks then 1 else (0 :: int))"
  by (induction ks) auto

lemma sum_counts:
  "distinct ks \<Longrightarrow> (\<And>r. r \<in> set rows \<Longrightarrow> key r \<in> set ks) \<Longrightarrow>
   sum_list (map (\<lambda>k. int (count_rows (\<lambda>r. key r = k) rows)) ks) = int (length rows)"
proof (induction rows)
  case (Cons r rows)
  have "sum_list (map (\<lambda>k. int (count_rows (\<lambda>q. key q = k) (r # rows))) ks) =
      sum_list (map (\<lambda>k. (if key r = k then 1 else 0) + int (count_rows (\<lambda>q. key q = k) rows)) ks)"
    by (intro arg_cong [where f = sum_list] map_cong) simp_all
  also have "\<dots> = sum_list (map (\<lambda>k. if key r = k then 1 else 0) ks) + int (length rows)"
    using Cons by (simp add: sum_list_addf)
  also have "sum_list (map (\<lambda>k. if key r = k then 1 else 0) ks) = (1 :: int)"
    using Cons.prems sum_indicator [of ks "key r"] by simp
  finally show ?case
    by simp
qed (simp add: sum_list_0)

lemma group_total_grouped: "group_total (grouped key ks rows) = sum_list (map (\<lambda>k. int (count_rows (\<lambda>r. key r = k) rows)) ks)"
  by (induction ks) (auto simp: group_total_def grouped_def)

lemma get_count_grouped: "distinct ks \<Longrightarrow> k \<in> set ks \<Longrightarrow> get_count k (grouped key ks rows) = int (count_rows (\<lambda>r. key r = k) rows)"
proof (induction ks)
  case (Cons q ks)
  have none: "map_of (grouped key ks rows) k = None" if "k \<notin> set ks"
    using that by (auto simp: grouped_def map_of_eq_None_iff)
  show ?case
    using Cons none by (cases "k = q") (auto simp: get_count_def grouped_def split: if_splits)
qed simp

lemma decided_count:
  "group_total (filter (\<lambda>(k, n). k \<noteq> RevPending) (grouped se_review_status [RevPending, RevConfirmed, RevRejected, RevUncertain] rows)) =
     int (count_rows (\<lambda>e. se_review_status e \<noteq> RevPending) rows)"
proof -
  have "filter (\<lambda>(k, n). k \<noteq> RevPending) (grouped se_review_status [RevPending, RevConfirmed, RevRejected, RevUncertain] rows) =
      grouped se_review_status [RevConfirmed, RevRejected, RevUncertain] rows"
    by (simp add: grouped_def)
  moreover have "count_rows (\<lambda>r. se_review_status r = k) rows = count_rows (\<lambda>r. se_review_status r = k) (filter (\<lambda>e. se_review_status e \<noteq> RevPending) rows)"
    if "k \<noteq> RevPending" for k
    using that by (induction rows) auto
  ultimately show ?thesis
    using sum_counts [of "[RevConfirmed, RevRejected, RevUncertain]" "filter (\<lambda>e. se_review_status e \<noteq> RevPending) rows" se_review_status]
    by (simp add: group_total_grouped count_rows_def) (metis review_status.exhaust)
qed

text \<open>
  The summary counts every event of the window exactly once, splits the total exactly by severity, and
  its confirmation rate is the rounded share of confirmed among reviewed events, between 0 and 1, and absent
  exactly when nothing was reviewed.
\<close>

theorem analytics_counts:
  assumes "analytics_summary now ctx window d = Inr a" "c_organization_id ctx = Some t"
  shows "let rows = window_events t (now - days window) d; decided = count_rows (\<lambda>e. se_review_status e \<noteq> RevPending) rows
    in an_total_events a = int (length rows) \<and>
       (\<forall>sev n. (sev, n) \<in> set (an_events_by_severity a) \<longleftrightarrow> n = int (count_rows (\<lambda>e. se_severity e = sev) rows) \<and> 0 < n) \<and>
       (case an_confirmation_rate a of
          None \<Rightarrow> decided = 0
        | Some r \<Rightarrow> 0 < decided \<and> 0 \<le> r \<and> r \<le> 1 \<and>
            r = py_round 3 (fdiv (of_nat (count_rows (\<lambda>e. se_review_status e = RevConfirmed) rows)) (of_nat decided)))"
proof -
  define rows where "rows = window_events t (now - days window) d"
  let ?sevs = "[Low, Medium, High, Critical]"
  let ?revs = "[RevPending, RevConfirmed, RevRejected, RevUncertain]"
  let ?decided = "count_rows (\<lambda>e. se_review_status e \<noteq> RevPending) rows"
  let ?confirmed = "count_rows (\<lambda>e. se_review_status e = RevConfirmed) rows"
  let ?rate = "py_round 3 (fdiv (of_nat ?confirmed) (of_nat ?decided))"
  have a: "an_total_events a = group_total (grouped se_severity ?sevs rows)" "an_events_by_severity a = grouped se_severity ?sevs rows"
    "an_confirmation_rate a = (if ?decided \<noteq> 0 then Some ?rate else None)"
    using assms by (auto simp: analytics_summary_def bind_eq_Inr tenant_with_Inr Let_def rows_def [symmetric] decided_count
        get_count_grouped)
  have all: "se_severity r \<in> set ?sevs" for r
    by (cases "se_severity r") simp_all
  have "an_total_events a = int (length rows)"
    unfolding a(1) group_total_grouped by (rule sum_counts [OF _ all]) simp
  moreover have "(sev, n) \<in> set (an_events_by_severity a) \<longleftrightarrow> n = int (count_rows (\<lambda>e. se_severity e = sev) rows) \<and> 0 < n" for sev n
    by (cases sev) (auto simp: a(2) grouped_def)
  moreover have "0 \<le> ?rate \<and> ?rate \<le> 1" if "?decided \<noteq> 0"
  proof -
    have "?confirmed \<le> ?decided"
      by (induction rows) auto
    then have "0 \<le> (of_nat ?confirmed / of_nat ?decided :: rat)" "(of_nat ?confirmed / of_nat ?decided :: rat) \<le> 1"
      using that by simp_all
    then show ?thesis
      using fl_in_unit py_round_in_unit by (simp add: fdiv_def)
  qed
  ultimately show ?thesis
    using a(3) by (simp add: rows_def [symmetric] Let_def)
qed

subsection \<open>Examples\<close>

definition notifier :: "uuid \<Rightarrow> request_context" where
  "notifier org = \<lparr>c_user_id = Some 9, c_organization_id = Some org, c_role = Some ROwner, c_is_platform_admin = False,
     c_actor_label = ''9'', c_request_id = None, c_ip_address = None, c_user_agent = None, c_email_verified = True,
     c_mfa_enabled = False\<rparr>"

definition signing_db :: db where
  "signing_db = empty_db\<lparr>webhook_endpoints := [example_endpoint 3 odd_port_url], webhook_deliveries := [example_delivery 4 3],
     next_id := 5\<rparr>"

text \<open>A member of organization 8 deletes nothing of organization 7.\<close>

theorem notification_requests_isolated_witness:
  "\<exists>r d'. create_rule (notifier 8) ''All'' High [''webhook''] signing_db = Inr (r, d') \<and>
     owned_rows 7 d' = ([], [], [example_endpoint 3 odd_port_url], [example_delivery 4 3]) \<and> notification_rules d' = [r]"
proof -
  obtain r d' where r: "create_rule (notifier 8) ''All'' High [''webhook''] signing_db = Inr (r, d')" "notification_rules d' = [r]"
    by (simp add: create_rule_def tenant_with_def require_tenant_id_def require_permission_def notifier_def has_permission_def
        owner_has_all rule_name_ok_def supported_def parse_channel_def Let_def signing_db_def empty_db_def)
  have "other_request 7 signing_db d'"
    unfolding other_request_def by (intro exI [of _ "notifier 8"] conjI nq_rule [OF r(1)]) (simp add: notifier_def)
  then have "owned_rows 7 d' = owned_rows 7 signing_db"
    using notification_requests_isolated [OF r_into_rtranclp [of "other_request 7"]]
    by (simp add: webhooks_inv_def signing_db_def empty_db_def ids_ok_def keys_distinct_def delivery_owned_def example_endpoint_def
        example_delivery_def)
  then show ?thesis
    using r by (simp add: owned_rows_def signing_db_def empty_db_def example_endpoint_def example_delivery_def)
qed

definition ring :: field_cipher where
  "ring = \<lparr>fc_fernets = [(''k1'', ''K1'')], fc_primary = ''k1''\<rparr>"

text \<open>
  A receiver that knows the secret \<^verbatim>\<open>whsec_new\<close>: it answers 200 to its signature and 401 to any other. The
  secret was made under the key \<open>k1\<close> and re-encrypted under \<open>k2\<close>; the worker has only \<open>k2\<close>.
\<close>

definition new_ring :: field_cipher where
  "new_ring = \<lparr>fc_fernets = [(''k2'', ''K2'')], fc_primary = ''k2''\<rparr>"

definition receiver :: webhook_env where
  "receiver = example_webhooks\<lparr>hk_decrypt := Some (decryptor plain_fernet new_ring), hk_hmac := (\<lambda>s _. s),
     hk_post := (\<lambda>_ _ signature _. HttpStatus (if signature = ''t=0,v1=whsec_new'' then 200 else 401))\<rparr>"

definition secret_row :: "string \<Rightarrow> webhook_endpoint" where
  "secret_row v = (example_endpoint 3 odd_port_url)\<lparr>we_secret_enc := v\<rparr>"

definition shown_db :: db where
  "shown_db = record_audit (notifier 7) ''webhook.secret_rotated'' ''webhook_endpoint'' (Some 3) None
     (set_endpoint 3 (\<lambda>_. secret_row ''enc1:k1:K1.whsec_new'') signing_db)"

lemma shown_in_db: "secret_shown (cipher_encrypt plain_fernet ring []) 3 ''whsec_new'' signing_db shown_db"
proof -
  let ?e = "secret_row ''enc1:k1:K1.whsec_new''"
  have enc: "cipher_encrypt plain_fernet ring [] ''whsec_new'' = ''enc1:k1:K1.whsec_new''"
    by code_simp
  have "rotate_webhook_secret (Some (cipher_encrypt plain_fernet ring [])) ''new'' (notifier 7) 3 signing_db =
      Inr (webhook_out ?e (Some ''whsec_new''), shown_db)"
    using enc
    by (simp add: rotate_webhook_secret_def load_webhook_def tenant_with_def require_tenant_id_def require_permission_def notifier_def
        has_permission_def owner_has_all signing_db_def empty_db_def example_endpoint_def new_webhook_secret_def Let_def
        shown_db_def secret_row_def)
  then show ?thesis
    unfolding secret_shown_def
    by (intro exI [of _ "webhook_out ?e (Some ''whsec_new'')"] conjI disjI2 exI)
      (simp_all add: webhook_out_def example_endpoint_def secret_row_def)
qed

lemma shown_db_reencrypted:
  "secret_step plain_fernet both_keys 3 shown_db (shown_db\<lparr>webhook_endpoints := [secret_row ''enc1:k2:K2.whsec_new'']\<rparr>)"
proof -
  let ?c = "\<lparr>fc_fernets = both_keys, fc_primary = ''k2''\<rparr>"
  have rows: "webhook_endpoints shown_db = [secret_row ''enc1:k1:K1.whsec_new'']"
    by (simp add: shown_db_def signing_db_def empty_db_def set_endpoint_def example_endpoint_def)
  have vals: "needs_rotation ?c ''enc1:k1:K1.whsec_new'' = Inr True"
    "rotate_value plain_fernet ?c [] ''enc1:k1:K1.whsec_new'' = Inr ''enc1:k2:K2.whsec_new''"
    by code_simp+
  have "reencrypt_all plain_fernet (\<lambda>_. []) both_keys (Some ''k2'') shown_db =
      Inr (1, shown_db\<lparr>webhook_endpoints := [secret_row ''enc1:k2:K2.whsec_new'']\<rparr>)"
    by (simp add: reencrypt_all_def rotation_runs(2) rows) (simp add: secret_row_def vals)
  then show ?thesis
    by (rule st_reencrypt) simp
qed

theorem shown_secret_signs_witness:
  "run_delivery receiver prod_url_policy 0 (example_delivery 4 3) (secret_row ''enc1:k2:K2.whsec_new'') = Inr (Inr 200)"
proof -
  let ?e = "secret_row ''enc1:k2:K2.whsec_new''"
  have ring: "cipher_ok plain_fernet ring" "map_of (fc_fernets ring) (fc_primary ring) = map_of both_keys (fc_primary ring)"
    "key_id_of (we_secret_enc ?e) = Inr ''k2''" "map_of (fc_fernets new_ring) ''k2'' = map_of both_keys ''k2''"
    by code_simp+
  have key: "\<forall>k. key_id_of (we_secret_enc ?e) = Inr k \<longrightarrow> map_of (fc_fernets new_ring) k = map_of both_keys k"
    using ring(3,4) by simp
  have ok: "endpoints_ok signing_db"
    "tget we_id (webhook_endpoints (shown_db\<lparr>webhook_endpoints := [?e]\<rparr>)) 3 = Some ?e"
    "hk_decrypt receiver = Some (decryptor plain_fernet new_ring)"
    by (simp_all add: endpoints_ok_def signing_db_def empty_db_def ids_ok_def keys_distinct_def example_endpoint_def set_endpoint_def
        receiver_def secret_row_def)
  have zero: "int_text 0 = ''0''"
    by code_simp
  have guard: "validate_url (fixed_net [IPv4 0x5DB8D822]) prod_url_policy odd_port_url = Inr odd_port_url"
    by (intro odd_port_guard) (simp_all add: public4_ranges inner4_def between_def)
  have run: "(secret_step plain_fernet both_keys 3)\<^sup>*\<^sup>* shown_db (shown_db\<lparr>webhook_endpoints := [?e]\<rparr>)"
    using shown_db_reencrypted by (rule r_into_rtranclp)
  show ?thesis
    unfolding shown_secret_signs [OF plain_fernet_ok ring(1,2) ok(1) shown_in_db run ok(2,3) key]
    using guard zero by (simp add: receiver_def example_webhooks_def example_endpoint_def sign_payload_def secret_row_def)
qed

definition summary_event :: safety_event where
  "summary_event = \<lparr>se_id = 1, se_organization_id = 7, se_vehicle_id = 2, se_driver_id = None, se_trip_id = None,
     se_event_type = HarshBraking, se_severity = High, se_confidence = 1, se_occurred_at = 0, se_latitude = None,
     se_longitude = None, se_measured_value = None, se_threshold = None, se_ruleset_version = 1, se_severity_framework_version = 1,
     se_data_quality = None, se_review_status = RevConfirmed, se_reviewer_user_id = None, se_reviewed_at = None,
     se_resolution = None, se_root_cause = None, se_reviewer_notes = None, se_needs_review = False,
     se_dedup_key = (2, HarshBraking, 0), se_occurrence_count = 1, se_details = []\<rparr>"

theorem analytics_counts_witness:
  "\<exists>a. analytics_summary 10 (notifier 7) 30 (empty_db\<lparr>safety_events := [summary_event]\<rparr>) = Inr a \<and>
     an_total_events a = 1 \<and> an_confirmation_rate a \<noteq> None \<and> (High, 1) \<in> set (an_events_by_severity a)"
proof -
  obtain a where a: "analytics_summary 10 (notifier 7) 30 (empty_db\<lparr>safety_events := [summary_event]\<rparr>) = Inr a"
    by (simp add: analytics_summary_def tenant_with_def require_tenant_id_def require_permission_def notifier_def has_permission_def
        owner_has_all Let_def)
  have rows: "window_events 7 (10 - days 30) (empty_db\<lparr>safety_events := [summary_event]\<rparr>) = [summary_event]"
    by (simp add: window_events_def summary_event_def time_defs)
  have event: "se_severity summary_event = High" "se_review_status summary_event = RevConfirmed"
    by (simp_all add: summary_event_def)
  have "c_organization_id (notifier 7) = Some 7"
    by (simp add: notifier_def)
  from analytics_counts [OF a this] show ?thesis
    using a unfolding rows by (auto simp: event split: option.splits)
qed

end
