(* ===== verification/RiskScores.thy ===== *)
theory RiskScores
  imports TelemetryRules Access "HOL-Library.Multiset"
begin

section \<open>Driver scores, road risks and geofences\<close>

text \<open>
  \<^verbatim>\<open>domain/driver_score.py\<close>, \<^verbatim>\<open>application/safety/driver_score_service.py\<close>, \<^verbatim>\<open>application/safety/road_risk.py\<close> and
  \<^verbatim>\<open>api/routers/v1/risk.py\<close>. \<^verbatim>\<open>math.exp\<close> and the power \<^verbatim>\<open>0.5 ** x\<close> are parameters. \<^verbatim>\<open>sum\<close> of floats is the
  compensated summation of Python 3.12 and later; the order in which the database adds the distances of trips
  is the order of the rows.
\<close>

subsection \<open>The score of a driver\<close>

record score_math =
  sm_exp :: "float64 \<Rightarrow> float64"
  sm_half_power :: "float64 \<Rightarrow> float64"

definition score_model_version :: int where "score_model_version = 1"
definition min_exposure_km :: float64 where "min_exposure_km = 50"
definition recency_halflife_days :: float64 where "recency_halflife_days = 30"

fun severity_weight :: "severity \<Rightarrow> float64" where
  "severity_weight Low = 1"
| "severity_weight Medium = 5 / 2"
| "severity_weight High = 5"
| "severity_weight Critical = 9"

record scored_event =
  sc_severity :: severity
  sc_confidence :: float64
  sc_data_quality :: "float64 option"
  sc_occurred_at :: instant
  sc_review_status :: review_status

record driver_score =
  dr_score :: float64
  dr_risk_index :: float64
  dr_exposure_km :: float64
  dr_event_count :: int
  dr_weighted_events :: float64
  dr_model_version :: int
  dr_has_sufficient_exposure :: bool
  dr_components :: "(string \<times> float64) list"

definition recency_factor :: "score_math \<Rightarrow> instant \<Rightarrow> instant \<Rightarrow> float64" where
  "recency_factor m occurred_at now =
     (let age_days = max 0 (fdiv (total_seconds (now - occurred_at)) 86400)
      in sm_half_power m (fdiv age_days recency_halflife_days))"

definition event_weight :: "score_math \<Rightarrow> instant \<Rightarrow> scored_event \<Rightarrow> float64" where
  "event_weight m now e =
     (let quality = (case sc_data_quality e of None \<Rightarrow> 1 | Some q \<Rightarrow> q);
          review_factor = (if sc_review_status e = RevConfirmed then 1 else sc_confidence e)
      in fmul (fmul (fmul (severity_weight (sc_severity e)) (recency_factor m (sc_occurred_at e) now)) quality) review_factor)"

definition add_event :: "score_math \<Rightarrow> instant \<Rightarrow> scored_event \<Rightarrow> float64 \<times> int \<Rightarrow> float64 \<times> int" where
  "add_event m now e acc =
     (if sc_review_status e = RevRejected then acc else (fadd (fst acc) (event_weight m now e), snd acc + 1))"

definition risk_score :: "score_math \<Rightarrow> float64 \<Rightarrow> float64" where
  "risk_score m risk_index = fmul 100 (sm_exp m (fdiv (- risk_index) (fl (1443 / 100))))"

definition compute_driver_score :: "score_math \<Rightarrow> scored_event list \<Rightarrow> float64 \<Rightarrow> instant \<Rightarrow> driver_score" where
  "compute_driver_score m events exposure_km now =
     (if exposure_km < min_exposure_km
      then \<lparr>dr_score = 0, dr_risk_index = 0, dr_exposure_km = py_round 1 exposure_km, dr_event_count = 0,
            dr_weighted_events = 0, dr_model_version = score_model_version, dr_has_sufficient_exposure = False,
            dr_components = []\<rparr>
      else
        let (weighted, counted) = fold (add_event m now) events (0, 0);
            risk_index = fdiv weighted (fdiv exposure_km 100)
        in \<lparr>dr_score = py_round 1 (risk_score m risk_index), dr_risk_index = py_round 3 risk_index,
            dr_exposure_km = py_round 1 exposure_km, dr_event_count = counted,
            dr_weighted_events = py_round 3 weighted, dr_model_version = score_model_version,
            dr_has_sufficient_exposure = True,
            dr_components = [(''min_exposure_km'', min_exposure_km), (''recency_halflife_days'', recency_halflife_days)]\<rparr>)"

text \<open>\<^verbatim>\<open>now - timedelta(days=n)\<close> leaves the range of a timedelta or of a datetime (the years 1 to 9999).\<close>

definition min_datetime :: instant where "min_datetime = seconds (- 62135596800)"
definition max_datetime :: instant where "max_datetime = seconds 253402300800"

definition days_before :: "instant \<Rightarrow> int \<Rightarrow> instant result" where
  "days_before now n =
     (if 999999999 < \<bar>n\<bar> \<or> now - days n < min_datetime \<or> max_datetime \<le> now - days n
      then Inl (PyOverflowError ''timedelta'') else Inr (now - days n))"

definition sum_floats :: "float64 list \<Rightarrow> float64" where
  "sum_floats xs = fold (\<lambda>x s. fadd s x) xs 0"

definition score_driver :: "score_math \<Rightarrow> instant \<Rightarrow> uuid \<Rightarrow> uuid \<Rightarrow> int \<Rightarrow> db \<Rightarrow> driver_score result" where
  "score_driver m now tenant driver_id window_days d =
     bind (days_before now window_days) (\<lambda>since.
       let exposure_km = sum_floats (map t_distance_km (filter (\<lambda>t. t_organization_id t = tenant \<and>
             t_driver_id t = Some driver_id \<and> since \<le> t_started_at t) (trips d)));
           events = map (\<lambda>e. \<lparr>sc_severity = se_severity e, sc_confidence = se_confidence e, sc_data_quality = se_data_quality e,
                          sc_occurred_at = se_occurred_at e, sc_review_status = se_review_status e\<rparr>)
             (filter (\<lambda>e. se_organization_id e = tenant \<and> se_driver_id e = Some driver_id \<and> since \<le> se_occurred_at e)
                (safety_events d))
       in Inr (compute_driver_score m events exposure_km now))"

record score_view =
  sw_driver_id :: uuid
  sw_score :: "float64 option"
  sw_risk_index :: "float64 option"
  sw_exposure_km :: float64
  sw_event_count :: int
  sw_weighted_events :: float64
  sw_model_version :: int
  sw_has_sufficient_exposure :: bool

definition driver_risk_score :: "score_math \<Rightarrow> instant \<Rightarrow> request_context \<Rightarrow> uuid \<Rightarrow> int \<Rightarrow> db \<Rightarrow> score_view result" where
  "driver_risk_score m now ctx driver_id window_days d =
     bind (tenant_with AnalyticsRead ctx) (\<lambda>t.
       case tget d_id (drivers d) driver_id of
         None \<Rightarrow> Inl (DomainNotFoundError ''driver'')
       | Some drv \<Rightarrow>
           if d_organization_id drv \<noteq> t then Inl (DomainNotFoundError ''driver'')
           else bind (score_driver m now t driver_id window_days d) (\<lambda>s.
             Inr (if \<not> dr_has_sufficient_exposure s
                  then \<lparr>sw_driver_id = driver_id, sw_score = None, sw_risk_index = None, sw_exposure_km = dr_exposure_km s,
                        sw_event_count = 0, sw_weighted_events = 0, sw_model_version = score_model_version,
                        sw_has_sufficient_exposure = False\<rparr>
                  else \<lparr>sw_driver_id = driver_id, sw_score = Some (dr_score s), sw_risk_index = Some (dr_risk_index s),
                        sw_exposure_km = dr_exposure_km s, sw_event_count = dr_event_count s,
                        sw_weighted_events = dr_weighted_events s, sw_model_version = dr_model_version s,
                        sw_has_sufficient_exposure = True\<rparr>)))"

subsection \<open>Road risks\<close>

definition cluster_radius_km :: float64 where "cluster_radius_km = fl (15 / 100)"
definition min_cluster_size :: nat where "min_cluster_size = 3"
definition lookback_days :: int where "lookback_days = 30"

record risk_point =
  rp_latitude :: float64
  rp_longitude :: float64
  rp_severity :: severity
  rp_occurred_at :: instant

definition near :: "libm \<Rightarrow> risk_point \<Rightarrow> risk_point \<Rightarrow> bool" where
  "near m p q \<longleftrightarrow> haversine_km m (rp_latitude p) (rp_longitude p) (rp_latitude q) (rp_longitude q) \<le> cluster_radius_km"

text \<open>A point joins the first cluster whose first point is near, or opens a cluster.\<close>

fun place :: "libm \<Rightarrow> risk_point \<Rightarrow> risk_point list list \<Rightarrow> risk_point list list" where
  "place m p [] = [[p]]"
| "place m p (c # cs) = (if near m p (hd c) then (c @ [p]) # cs else c # place m p cs)"

definition cluster :: "libm \<Rightarrow> risk_point list \<Rightarrow> risk_point list list" where
  "cluster m points = fold (place m) points []"

definition severity_order :: "severity \<Rightarrow> nat" where
  "severity_order s = (case s of Low \<Rightarrow> 0 | Medium \<Rightarrow> 1 | High \<Rightarrow> 2 | Critical \<Rightarrow> 3)"

definition peak_severity :: "severity list \<Rightarrow> severity" where
  "peak_severity ss = fold (\<lambda>s peak. if severity_order peak < severity_order s then s else peak) ss Low"

text \<open>One step of the compensated sum, and the sum of a list that is not empty.\<close>

definition sum_step :: "float64 \<Rightarrow> float64 \<times> float64 \<Rightarrow> float64 \<times> float64" where
  "sum_step x acc =
     (let s = fst acc; c = snd acc; t = fadd s x
      in (t, if \<bar>x\<bar> \<le> \<bar>s\<bar> then fadd c (fadd (fsub s t) x) else fadd c (fadd (fsub x t) s)))"

fun py_sum :: "float64 list \<Rightarrow> float64" where
  "py_sum [] = 0"
| "py_sum (x # xs) = (let (s, c) = fold sum_step xs (x, 0) in if c \<noteq> 0 then fadd s c else s)"

definition mean :: "float64 list \<Rightarrow> float64" where
  "mean xs = fdiv (py_sum xs) (of_nat (length xs))"

definition risk_points :: "uuid \<Rightarrow> instant \<Rightarrow> db \<Rightarrow> risk_point list" where
  "risk_points tenant since d =
     [\<lparr>rp_latitude = the (se_latitude e), rp_longitude = the (se_longitude e), rp_severity = se_severity e,
       rp_occurred_at = se_occurred_at e\<rparr>.
      e \<leftarrow> filter (\<lambda>e. se_organization_id e = tenant \<and> se_event_type e \<in> {HarshBraking, HarshCornering} \<and>
        se_review_status e \<noteq> RevRejected \<and> since \<le> se_occurred_at e \<and> se_latitude e \<noteq> None \<and> se_longitude e \<noteq> None)
        (safety_events d)]"

definition risk_confidence :: "nat \<Rightarrow> float64" where
  "risk_confidence n = min 1 (fadd (fl (4 / 10)) (fmul (fl (1 / 10)) (of_nat n)))"

definition risk_of_cluster :: "instant \<Rightarrow> uuid \<Rightarrow> uuid \<Rightarrow> risk_point list \<Rightarrow> road_risk" where
  "risk_of_cluster now tenant i c =
     \<lparr>rr_id = i, rr_organization_id = tenant, rr_risk_type = ''repeated_harsh_events'',
      rr_center_latitude = py_round 6 (mean (map rp_latitude c)), rr_center_longitude = py_round 6 (mean (map rp_longitude c)),
      rr_radius_m = fmul cluster_radius_km 1000, rr_observed_count = int (length c),
      rr_inferred_severity = peak_severity (map rp_severity c), rr_confidence = py_round 3 (risk_confidence (length c)),
      rr_source = ''event_cluster'', rr_source_reliability = Some (fl (7 / 10)),
      rr_starts_at = Min (set (map rp_occurred_at c)), rr_expires_at = Some (now + days lookback_days),
      rr_last_observed_at = Some (Max (set (map rp_occurred_at c))), rr_review_status = RevPending\<rparr>"

definition add_risk :: "instant \<Rightarrow> uuid \<Rightarrow> risk_point list \<Rightarrow> db \<Rightarrow> db" where
  "add_risk now tenant c d =
     d\<lparr>road_risks := road_risks d @ [risk_of_cluster now tenant (next_id d) c], next_id := Suc (next_id d)\<rparr>"

definition rebuild_for_tenant :: "libm \<Rightarrow> instant \<Rightarrow> uuid \<Rightarrow> db \<Rightarrow> nat \<times> db" where
  "rebuild_for_tenant m now tenant d =
     (let clusters = filter (\<lambda>c. min_cluster_size \<le> length c)
            (cluster m (risk_points tenant (now - days lookback_days) d));
          d1 = d\<lparr>road_risks := filter (\<lambda>r. \<not> (rr_organization_id r = tenant \<and> rr_source r = ''event_cluster'')) (road_risks d)\<rparr>
      in (length clusters, fold (add_risk now tenant) clusters d1))"

definition list_risks :: "uuid \<Rightarrow> db \<Rightarrow> road_risk list" where
  "list_risks tenant d = rev (order_by rr_observed_count (filter (\<lambda>r. rr_organization_id r = tenant) (road_risks d)))"

definition list_road_risks :: "request_context \<Rightarrow> db \<Rightarrow> road_risk list result" where
  "list_road_risks ctx d = bind (tenant_with RisksRead ctx) (\<lambda>t. Inr (list_risks t d))"

definition rebuild_road_risks :: "libm \<Rightarrow> instant \<Rightarrow> request_context \<Rightarrow> db \<Rightarrow> (nat \<times> db) result" where
  "rebuild_road_risks m now ctx d =
     bind (tenant_with RisksManage ctx) (\<lambda>t.
       let (written, d1) = rebuild_for_tenant m now t d
       in Inr (written, record_audit ctx ''road_risk.rebuilt'' ''road_risk'' None None d1))"

subsection \<open>Geofences\<close>

record geofence_create =
  gc_name :: string
  gc_kind :: geofence_kind
  gc_center_latitude :: float64
  gc_center_longitude :: float64
  gc_radius_m :: float64
  gc_notes :: "string option"

definition geofence_ok :: "geofence_create \<Rightarrow> bool" where
  "geofence_ok b \<longleftrightarrow> 2 \<le> length (gc_name b) \<and> length (gc_name b) \<le> 200 \<and>
     - 90 \<le> gc_center_latitude b \<and> gc_center_latitude b \<le> 90 \<and>
     - 180 \<le> gc_center_longitude b \<and> gc_center_longitude b \<le> 180 \<and> 0 < gc_radius_m b \<and> gc_radius_m b \<le> 100000 \<and>
     (case gc_notes b of None \<Rightarrow> True | Some n \<Rightarrow> length n \<le> 2000)"

definition create_geofence :: "request_context \<Rightarrow> geofence_create \<Rightarrow> db \<Rightarrow> (geofence \<times> db) result" where
  "create_geofence ctx b d =
     bind (tenant_with GeofencesManage ctx) (\<lambda>t.
     bind (raise_if (\<not> geofence_ok b) (ValidationFailedError ''body'')) (\<lambda>_.
       let g = \<lparr>gf_id = next_id d, gf_organization_id = t, gf_name = gc_name b, gf_kind = gc_kind b,
                gf_center_latitude = gc_center_latitude b, gf_center_longitude = gc_center_longitude b,
                gf_radius_m = gc_radius_m b, gf_active = True, gf_notes = gc_notes b\<rparr>
       in Inr (g, record_audit ctx ''geofence.created'' ''geofence'' (Some (gf_id g)) None
                 (d\<lparr>geofences := geofences d @ [g], next_id := Suc (next_id d)\<rparr>))))"

definition list_geofences :: "request_context \<Rightarrow> db \<Rightarrow> geofence list result" where
  "list_geofences ctx d =
     bind (tenant_with RisksRead ctx) (\<lambda>t. Inr (rev (filter (\<lambda>g. gf_organization_id g = t) (geofences d))))"

subsection \<open>The score is bounded and monotone\<close>

text \<open>What is used of \<^verbatim>\<open>math.exp\<close> (monotone, 1 at 0, never negative) and of powers of a half (never negative).\<close>

definition score_math_ok :: "score_math \<Rightarrow> bool" where
  "score_math_ok m \<longleftrightarrow> mono (sm_exp m) \<and> sm_exp m 0 = 1 \<and> (\<forall>x. 0 \<le> sm_exp m x) \<and> (\<forall>x. 0 \<le> sm_half_power m x)"

text \<open>Events as the tables hold them: confidence and data quality are not negative.\<close>

definition event_ok :: "scored_event \<Rightarrow> bool" where
  "event_ok e \<longleftrightarrow> 0 \<le> sc_confidence e \<and> (case sc_data_quality e of None \<Rightarrow> True | Some q \<Rightarrow> 0 \<le> q)"

lemma fl_fl: "fl (fl x) = fl x"
proof (cases "x = 0")
  case False
  let ?k = "ilog2 \<bar>x\<bar>" and ?u = "pow2 (ilog2 \<bar>x\<bar> - 52)"
  define n where "n = rne (x / ?u)"
  have fx: "fl x = of_int n * ?u"
    using False by (simp add: fl_def n_def Let_def)
  have "\<bar>x\<bar> < pow2 (?k + 1)"
    using ilog2_bounds [of "\<bar>x\<bar>"] False by simp
  then have "\<bar>x\<bar> / ?u \<le> pow2 (?k + 1) / ?u"
    by (intro divide_right_mono) simp_all
  moreover have "pow2 (?k + 1) = pow2 (?k - 52) * 2 ^ 53"
    using pow2_add_nat [of "?k - 52" 53] by (simp add: add.commute)
  then have "pow2 (?k + 1) / ?u = of_int (2 ^ 53)"
    by simp
  ultimately have "\<bar>x\<bar> / ?u \<le> of_int (2 ^ 53)"
    by simp
  then have "\<bar>x / ?u\<bar> \<le> of_int (2 ^ 53)"
    by (simp add: abs_divide)
  then have "x / ?u \<le> of_int (2 ^ 53)" "of_int (- (2 ^ 53)) \<le> x / ?u"
    by linarith+
  then have "n \<le> 2 ^ 53" and "- (2 ^ 53) \<le> n"
    unfolding n_def using rne_le rne_ge by blast+
  then consider "\<bar>n\<bar> < 2 ^ 53" | "n = 2 ^ 53" | "n = - (2 ^ 53)"
    by linarith
  then show ?thesis
  proof cases
    case 1
    then show ?thesis
      unfolding fx by (rule fl_dyadic)
  next
    case 2
    then have "fl x = of_int 1 * pow2 (?k + 1)"
      using pow2_add_nat [of "?k - 52" 53] by (simp add: fx algebra_simps)
    then show ?thesis
      using fl_dyadic [of 1 "?k + 1"] by simp
  next
    case 3
    then have "fl x = of_int (- 1) * pow2 (?k + 1)"
      using pow2_add_nat [of "?k - 52" 53] by (simp add: fx algebra_simps)
    then show ?thesis
      using fl_dyadic [of "- 1" "?k + 1"] by simp
  qed
qed simp

lemma fadd_mono: "a \<le> b \<Longrightarrow> fadd a x \<le> fadd b x"
  by (simp add: fadd_def fl_mono)

lemma fadd_ge: "fl a = a \<Longrightarrow> 0 \<le> x \<Longrightarrow> a \<le> fadd a x"
  using fl_mono [of a "a + x"] by (simp add: fadd_def)

lemma event_weight_nonneg: "score_math_ok m \<Longrightarrow> event_ok e \<Longrightarrow> 0 \<le> event_weight m now e"
proof -
  assume ok: "score_math_ok m" "event_ok e"
  have "0 \<le> severity_weight s" for s
    by (cases s) simp_all
  moreover have "0 \<le> recency_factor m t now" for t
    using ok(1) by (simp add: recency_factor_def score_math_ok_def)
  ultimately show ?thesis
    using ok(2) by (auto simp: event_weight_def fmul_def event_ok_def Let_def fl_nonneg split: option.splits)
qed

definition fixed_sum :: "float64 \<times> int \<Rightarrow> bool" where
  "fixed_sum acc \<longleftrightarrow> fl (fst acc) = fst acc \<and> 0 \<le> fst acc"

lemma add_event_fixed: "score_math_ok m \<Longrightarrow> event_ok e \<Longrightarrow> fixed_sum acc \<Longrightarrow> fixed_sum (add_event m now e acc)"
  using event_weight_nonneg [of m e now] by (simp add: add_event_def fixed_sum_def fadd_def fl_fl fl_nonneg)

lemma fold_add_fixed: "score_math_ok m \<Longrightarrow> \<forall>e \<in> set es. event_ok e \<Longrightarrow> fixed_sum acc \<Longrightarrow> fixed_sum (fold (add_event m now) es acc)"
  by (induction es arbitrary: acc) (simp_all add: add_event_fixed)

lemma fold_add_mono: "fst a \<le> fst b \<Longrightarrow> fst (fold (add_event m now) es a) \<le> fst (fold (add_event m now) es b)"
proof (induction es arbitrary: a b)
  case (Cons e es)
  have "fst (add_event m now e a) \<le> fst (add_event m now e b)"
    using Cons.prems by (simp add: add_event_def fadd_mono)
  then show ?case
    using Cons.IH by simp
qed simp

lemma risk_score_mono: "score_math_ok m \<Longrightarrow> a \<le> b \<Longrightarrow> risk_score m b \<le> risk_score m a"
proof -
  assume "score_math_ok m" "a \<le> b"
  moreover have "0 < fl (1443 / 100)"
    by (rule fl_pos) simp
  ultimately have "sm_exp m (fdiv (- b) (fl (1443 / 100))) \<le> sm_exp m (fdiv (- a) (fl (1443 / 100)))"
    unfolding score_math_ok_def by (intro monoD [of "sm_exp m"]) (simp_all add: fdiv_def fl_mono divide_right_mono)
  then show ?thesis
    by (simp add: risk_score_def fmul_def fl_mono)
qed

lemma risk_score_range: "score_math_ok m \<Longrightarrow> 0 \<le> r \<Longrightarrow> 0 \<le> risk_score m r \<and> risk_score m r \<le> 100"
proof -
  assume ok: "score_math_ok m" and r: "0 \<le> r"
  have "risk_score m 0 = 100"
    using ok fl_numeral [of "num.Bit0 (num.Bit0 (num.Bit1 (num.Bit0 (num.Bit0 (num.Bit1 num.One)))))"]
    by (simp add: risk_score_def fdiv_def fmul_def score_math_ok_def)
  then show ?thesis
    using risk_score_mono [OF ok r] ok by (simp add: risk_score_def fmul_def fl_nonneg score_math_ok_def)
qed

lemma round_100: "0 \<le> x \<Longrightarrow> x \<le> 100 \<Longrightarrow> 0 \<le> py_round 1 x \<and> py_round 1 x \<le> 100"
proof -
  have "py_round 1 100 = 100"
    by code_simp
  then show "0 \<le> x \<Longrightarrow> x \<le> 100 \<Longrightarrow> 0 \<le> py_round 1 x \<and> py_round 1 x \<le> 100"
    using py_round_mono [of 0 x 1] py_round_mono [of x 100 1] by simp
qed

text \<open>
  C38: the score is fair. With enough driving it lies between 0 and 100, one more event never raises it and
  never lowers the risk index, wherever the event stands in the list and in spite of the rounding of every
  intermediate result, and a rejected event counts for nothing.
\<close>

theorem driver_score_fair:
  assumes "score_math_ok m" "\<forall>x \<in> set (es @ e # fs). event_ok x" "min_exposure_km \<le> km"
  shows "let s = compute_driver_score m (es @ fs) km now; s' = compute_driver_score m (es @ e # fs) km now
    in 0 \<le> dr_score s' \<and> dr_score s' \<le> dr_score s \<and> dr_score s \<le> 100 \<and> dr_risk_index s \<le> dr_risk_index s' \<and>
       (sc_review_status e = RevRejected \<longrightarrow> s' = s) \<and>
       (sc_review_status e \<noteq> RevRejected \<longrightarrow> dr_event_count s' = dr_event_count s + 1)"
proof -
  let ?w = "\<lambda>xs. fold (add_event m now) xs (0, 0)"
  let ?index = "\<lambda>xs. fdiv (fst (?w xs)) (fdiv km 100)"
  have km: "0 < fdiv km 100"
    using assms(3) by (auto simp: min_exposure_km_def fdiv_def intro!: fl_pos)
  have start: "fixed_sum (?w es)"
    using assms by (intro fold_add_fixed) (auto simp: fixed_sum_def)
  then have "fst (?w es) \<le> fst (add_event m now e (?w es))"
    using fadd_ge [of "fst (?w es)"] event_weight_nonneg [OF assms(1), of e now] assms(2)
    by (simp add: add_event_def fixed_sum_def)
  then have more: "fst (?w (es @ fs)) \<le> fst (?w (es @ e # fs))"
    by (simp add: fold_add_mono)
  have pos: "0 \<le> fst (?w (es @ fs))"
    using fold_add_fixed [OF assms(1), of "es @ fs" "(0, 0)" now] assms(2) by (auto simp: fixed_sum_def)
  have index: "?index (es @ fs) \<le> ?index (es @ e # fs)" "0 \<le> ?index (es @ fs)"
    using more pos km by (simp_all add: fdiv_def fl_mono fl_nonneg divide_right_mono)
  have count: "snd (?w (es @ e # fs)) = snd (?w (es @ fs)) + 1" if "sc_review_status e \<noteq> RevRejected"
  proof -
    have "snd (fold (add_event m now) xs a) = snd a + int (length (filter (\<lambda>x. sc_review_status x \<noteq> RevRejected) xs))" for xs a
      by (induction xs arbitrary: a) (simp_all add: add_event_def)
    then show ?thesis
      using that by (simp add: add_event_def)
  qed
  have score: "compute_driver_score m xs km now = \<lparr>dr_score = py_round 1 (risk_score m (?index xs)),
      dr_risk_index = py_round 3 (?index xs), dr_exposure_km = py_round 1 km, dr_event_count = snd (?w xs),
      dr_weighted_events = py_round 3 (fst (?w xs)), dr_model_version = score_model_version, dr_has_sufficient_exposure = True,
      dr_components = [(''min_exposure_km'', min_exposure_km), (''recency_halflife_days'', recency_halflife_days)]\<rparr>" for xs
    using assms(3) by (simp add: compute_driver_score_def case_prod_beta Let_def)
  have range: "0 \<le> py_round 1 (risk_score m (?index (es @ e # fs)))" "py_round 1 (risk_score m (?index (es @ fs))) \<le> 100"
    using round_100 risk_score_range [OF assms(1)] index by (meson order_trans)+
  have "py_round 1 (risk_score m (?index (es @ e # fs))) \<le> py_round 1 (risk_score m (?index (es @ fs)))"
    by (intro py_round_mono risk_score_mono [OF assms(1)] index)
  moreover have "?w (es @ e # fs) = ?w (es @ fs)" if "sc_review_status e = RevRejected"
    using that by (simp add: add_event_def)
  ultimately show ?thesis
    unfolding score Let_def using range py_round_mono [OF index(1), of 3] count by simp
qed

theorem driver_score_fair_witness:
  "let m = \<lparr>sm_exp = (\<lambda>x. if x < - 10 then 0 else max 0 (1 + x / 20)), sm_half_power = (\<lambda>_. 1)\<rparr>;
     e = \<lparr>sc_severity = High, sc_confidence = 1, sc_data_quality = None, sc_occurred_at = 0, sc_review_status = RevConfirmed\<rparr>
   in dr_score (compute_driver_score m [e] 100 0) \<le> dr_score (compute_driver_score m [] 100 0)"
proof -
  let ?m = "\<lparr>sm_exp = (\<lambda>x. if x < - 10 then 0 else max 0 (1 + x / 20)), sm_half_power = (\<lambda>_. 1)\<rparr> :: score_math"
  let ?e = "\<lparr>sc_severity = High, sc_confidence = 1, sc_data_quality = None, sc_occurred_at = 0, sc_review_status = RevConfirmed\<rparr>"
  have "score_math_ok ?m"
    by (auto simp: score_math_ok_def mono_def)
  moreover have "\<forall>x \<in> set ([] @ ?e # []). event_ok x" "min_exposure_km \<le> 100"
    by (simp_all add: event_ok_def min_exposure_km_def)
  ultimately show ?thesis
    using driver_score_fair [of ?m "[]" ?e "[]" 100 0] by (simp add: Let_def)
qed

subsection \<open>Clusters and road risks\<close>

text \<open>
  Every point of a cluster is near its first point, and no cluster starts near the start of an earlier one.
\<close>

definition clusters_ok :: "libm \<Rightarrow> risk_point list list \<Rightarrow> bool" where
  "clusters_ok m cs \<longleftrightarrow> (\<forall>c \<in> set cs. c \<noteq> [] \<and> (\<forall>p \<in> set c. near m p (hd c))) \<and>
     sorted_wrt (\<lambda>c c'. \<not> near m (hd c') (hd c)) cs"

lemma place_ok:
  assumes "libm_ok m" "clusters_ok m cs"
  shows "clusters_ok m (place m p cs) \<and> mset (concat (place m p cs)) = add_mset p (mset (concat cs)) \<and>
    hd ` set (place m p cs) \<subseteq> insert p (hd ` set cs) \<and> (p \<in> hd ` set (place m p cs) \<or> hd ` set (place m p cs) = hd ` set cs)"
  using assms(2)
proof (induction cs)
  case Nil
  have "near m p p"
    using haversine_metric [OF assms(1)] fl_nonneg [of "15 / 100"] by (simp add: near_def cluster_radius_km_def)
  then show ?case
    by (simp add: clusters_ok_def)
next
  case (Cons c cs)
  have c: "c \<noteq> []" "\<forall>q \<in> set c. near m q (hd c)" "\<forall>c' \<in> set cs. \<not> near m (hd c') (hd c)" "clusters_ok m cs"
    using Cons.prems by (auto simp: clusters_ok_def)
  show ?case
  proof (cases "near m p (hd c)")
    case True
    then show ?thesis
      using c Cons.prems by (auto simp: clusters_ok_def)
  next
    case False
    note IH = Cons.IH [OF c(4)]
    have "\<not> near m (hd c') (hd c)" if "c' \<in> set (place m p cs)" for c'
    proof -
      have "hd c' \<in> insert p (hd ` set cs)"
        using IH that by blast
      then show ?thesis
        using False c(3) by auto
    qed
    then have "clusters_ok m (c # place m p cs)"
      using IH c(1,2) by (simp add: clusters_ok_def)
    then show ?thesis
      using False IH by auto
  qed
qed

text \<open>
  C40: clustering loses and invents nothing: the clusters hold every point exactly once, each point is
  within the radius of the first point of its cluster, and first points of different clusters are farther
  apart than the radius.
\<close>

theorem clusters_partition:
  assumes "libm_ok m"
  shows "mset (concat (cluster m points)) = mset points \<and> clusters_ok m (cluster m points)"
proof -
  have "clusters_ok m cs \<Longrightarrow> mset (concat (fold (place m) ps cs)) = mset ps + mset (concat cs) \<and> clusters_ok m (fold (place m) ps cs)" for ps cs
  proof (induction ps arbitrary: cs)
    case (Cons p ps)
    then show ?case
      using place_ok [OF assms Cons.prems, of p] by simp
  qed simp
  from this [of "[]" points] show ?thesis
    by (simp add: cluster_def clusters_ok_def)
qed

theorem clusters_partition_witness:
  "let m = \<lparr>m_radians = (\<lambda>x. x), m_sin = (\<lambda>x. x), m_cos = (\<lambda>x. 1), m_asin = (\<lambda>x. x), m_sqrt = (\<lambda>x. max 0 x), m_square = (\<lambda>x. x * x)\<rparr>;
     at_place = (\<lambda>x t. \<lparr>rp_latitude = x, rp_longitude = 29, rp_severity = High, rp_occurred_at = t\<rparr>)
   in mset (concat (cluster m [at_place 41 1, at_place 40 2, at_place 41 3])) = {#at_place 41 1, at_place 40 2, at_place 41 3#}"
proof -
  let ?m = "\<lparr>m_radians = (\<lambda>x. x), m_sin = (\<lambda>x. x), m_cos = (\<lambda>x. 1), m_asin = (\<lambda>x. x), m_sqrt = (\<lambda>x. max 0 x), m_square = (\<lambda>x. x * x)\<rparr> :: libm"
  have "libm_ok ?m"
    by (simp add: libm_ok_def)
  from clusters_partition [OF this] show ?thesis
    by (simp add: Let_def)
qed

definition rebuilt :: "uuid \<Rightarrow> road_risk \<Rightarrow> bool" where
  "rebuilt tenant r \<longleftrightarrow> rr_organization_id r = tenant \<and> rr_source r = ''event_cluster''"

definition without_id :: "road_risk \<Rightarrow> road_risk" where
  "without_id r = r\<lparr>rr_id := 0\<rparr>"

lemma fold_add_risk:
  "fold (add_risk now tenant) cs d = d\<lparr>road_risks := road_risks d @ map (\<lambda>(i, c). risk_of_cluster now tenant i c) (zip [next_id d..<next_id d + length cs] cs),
     next_id := next_id d + length cs\<rparr>"
proof (induction cs arbitrary: d)
  case (Cons c cs)
  have upt: "[next_id d..<next_id d + length (c # cs)] = next_id d # [Suc (next_id d)..<Suc (next_id d) + length cs]"
    by (subst upt_conv_Cons) simp_all
  have "fold (add_risk now tenant) (c # cs) d = fold (add_risk now tenant) cs (add_risk now tenant c d)"
    by simp
  also note Cons.IH
  finally show ?case
    unfolding upt by (simp add: add_risk_def [of now tenant c d] del: upt_Suc)
qed simp

lemma zone_confidence_range: "0 \<le> py_round 3 (risk_confidence n) \<and> py_round 3 (risk_confidence n) \<le> 1"
  by (rule py_round_in_unit) (simp_all add: risk_confidence_def fadd_def fmul_def fl_nonneg)

lemma rebuild_eq:
  "let cs = filter (\<lambda>c. min_cluster_size \<le> length c) (cluster m (risk_points tenant (now - days lookback_days) d))
   in fst (rebuild_for_tenant m now tenant d) = length cs \<and>
      safety_events (snd (rebuild_for_tenant m now tenant d)) = safety_events d \<and>
      road_risks (snd (rebuild_for_tenant m now tenant d)) = filter (\<lambda>r. \<not> rebuilt tenant r) (road_risks d) @
        map (\<lambda>(i, c). risk_of_cluster now tenant i c) (zip [next_id d..<next_id d + length cs] cs)"
  by (simp add: rebuild_for_tenant_def Let_def fold_add_risk rebuilt_def)

lemma risk_rows:
  "filter (rebuilt tenant) (map (\<lambda>(i, c). risk_of_cluster now tenant i c) (zip is cs)) = map (\<lambda>(i, c). risk_of_cluster now tenant i c) (zip is cs)"
  "filter (\<lambda>r. \<not> rebuilt tenant r) (map (\<lambda>(i, c). risk_of_cluster now tenant i c) (zip is cs)) = []"
  by (auto simp: filter_empty_conv risk_of_cluster_def rebuilt_def intro!: filter_True)

lemma risk_rows_without_id:
  "length is = length cs \<Longrightarrow> map without_id (map (\<lambda>(i, c). risk_of_cluster now tenant i c) (zip is cs)) = map (risk_of_cluster now tenant 0) cs"
  by (induction "is" cs rule: list_induct2) (simp_all add: without_id_def risk_of_cluster_def)

text \<open>
  Rebuilding the road risks is idempotent: it replaces the event-cluster risks of the organization by
  one risk per cluster of at least three events, each with a confidence between 0 and 1, leaves every other
  risk and every event alone, and a second run at the same time writes the same risks again (with new keys).
\<close>

theorem road_risk_rebuild_idempotent:
  "let (n, d1) = rebuild_for_tenant m now tenant d; (n2, d2) = rebuild_for_tenant m now tenant d1;
       rows = filter (rebuilt tenant) (road_risks d1)
   in n = length rows \<and> n2 = n \<and> map without_id (filter (rebuilt tenant) (road_risks d2)) = map without_id rows \<and>
      filter (\<lambda>r. \<not> rebuilt tenant r) (road_risks d2) = filter (\<lambda>r. \<not> rebuilt tenant r) (road_risks d) \<and>
      safety_events d2 = safety_events d \<and>
      (\<forall>r \<in> set rows. int min_cluster_size \<le> rr_observed_count r \<and> 0 \<le> rr_confidence r \<and> rr_confidence r \<le> 1)"
proof -
  obtain n d1 n2 d2 where runs: "rebuild_for_tenant m now tenant d = (n, d1)" "rebuild_for_tenant m now tenant d1 = (n2, d2)"
    by (meson surj_pair)
  define cs where "cs = filter (\<lambda>c. min_cluster_size \<le> length c) (cluster m (risk_points tenant (now - days lookback_days) d))"
  let ?rows = "\<lambda>e. map (\<lambda>(i, c). risk_of_cluster now tenant i c) (zip [next_id e..<next_id e + length cs] cs)"
  have one: "n = length cs" "safety_events d1 = safety_events d" "road_risks d1 = filter (\<lambda>r. \<not> rebuilt tenant r) (road_risks d) @ ?rows d"
    using rebuild_eq [of m tenant now d] by (simp_all add: runs cs_def Let_def)
  have "cs = filter (\<lambda>c. min_cluster_size \<le> length c) (cluster m (risk_points tenant (now - days lookback_days) d1))"
    by (simp add: cs_def risk_points_def one(2))
  then have two: "n2 = length cs" "safety_events d2 = safety_events d1"
      "road_risks d2 = filter (\<lambda>r. \<not> rebuilt tenant r) (road_risks d1) @ ?rows d1"
    using rebuild_eq [of m tenant now d1] by (simp_all add: runs Let_def)
  have rows: "filter (rebuilt tenant) (road_risks d1) = ?rows d" "filter (rebuilt tenant) (road_risks d2) = ?rows d1"
    "filter (\<lambda>r. \<not> rebuilt tenant r) (road_risks d2) = filter (\<lambda>r. \<not> rebuilt tenant r) (road_risks d)"
    unfolding one(3) two(3) by (simp_all add: risk_rows)
  have same: "map without_id (filter (rebuilt tenant) (road_risks d2)) = map without_id (filter (rebuilt tenant) (road_risks d1))"
    unfolding rows by (simp only: risk_rows_without_id length_upt add_diff_cancel_left')
  have len: "length (filter (rebuilt tenant) (road_risks d1)) = length cs"
    unfolding rows by simp
  have "int min_cluster_size \<le> rr_observed_count r \<and> 0 \<le> rr_confidence r \<and> rr_confidence r \<le> 1" if row: "r \<in> set (?rows d)" for r
  proof -
    obtain i c where "r = risk_of_cluster now tenant i c" "c \<in> set cs"
      using row by (force dest: set_zip_rightD)
    then show ?thesis
      using zone_confidence_range by (simp add: risk_of_cluster_def cs_def)
  qed
  then show ?thesis
    using one(1,2) two(1,2) rows(3) same len by (simp add: runs rows(1) [symmetric] del: map_map)
qed

end
