(* ===== verification/UsageScheduler.thy ===== *)
theory UsageScheduler
  imports Subscriptions TelemetryRules PrivacyProcessor
begin

section \<open>Usage metering and the scheduler\<close>

text \<open>
  \<^verbatim>\<open>application/saas/usage.py\<close>, the day windows of \<^verbatim>\<open>domain/usage.py\<close> and \<^verbatim>\<open>scheduler/runner.py\<close>. A day of a
  usage record is the number of days since 1970. A tick reads the clock once: the instant and its date. The
  monthly partitions of \<^verbatim>\<open>telemetry_points\<close> are a list of months; PostgreSQL refuses to create a partition
  while the default partition holds a row that belongs to it, and a row is in the default partition when its
  month has none. The advisory lock is an argument that tells whether it was free.
\<close>

subsection \<open>Usage of an organization\<close>

definition usage_metrics :: "string list" where
  "usage_metrics = [''vehicles'', ''active_members'', ''ingest_events'', ''telemetry_points'', ''safety_events'', ''evidence_storage_bytes'']"

definition day_start :: "int \<Rightarrow> instant" where
  "day_start day = days day"

definition in_day :: "int \<Rightarrow> instant \<Rightarrow> bool" where
  "in_day day t \<longleftrightarrow> day_start day \<le> t \<and> t < day_start day + days 1"

definition current_usage :: "uuid \<Rightarrow> db \<Rightarrow> (string \<times> int) list" where
  "current_usage org d =
     [(''vehicles'', int (count_rows (\<lambda>v. v_organization_id v = org) (vehicles d))),
      (''active_members'', int (count_rows (\<lambda>m. m_organization_id m = org \<and> m_status m = MemActive) (memberships d))),
      (''evidence_storage_bytes'',
         sum_list (map (\<lambda>e. case ev_size_bytes e of None \<Rightarrow> 0 | Some n \<Rightarrow> n)
           (filter (\<lambda>e. ev_organization_id e = org \<and> ev_status e = EvAvailable) (event_evidence_rows d))))]"

definition activity :: "uuid \<Rightarrow> int \<Rightarrow> db \<Rightarrow> (string \<times> int) list" where
  "activity org day d =
     [(''ingest_events'', int (count_rows (\<lambda>e. ie_organization_id e = org \<and> in_day day (ie_received_at e)) (ingest_events d))),
      (''telemetry_points'', int (count_rows (\<lambda>p. tp_organization_id p = org \<and> in_day day (tp_occurred_at p)) (telemetry_points d))),
      (''safety_events'', int (count_rows (\<lambda>e. se_organization_id e = org \<and> in_day day (se_occurred_at e)) (safety_events d)))]"

definition usage_series :: "uuid \<Rightarrow> int \<Rightarrow> int \<Rightarrow> db \<Rightarrow> (string \<times> (int \<times> int) list) list" where
  "usage_series org n today d =
     (let since = today - (n - 1);
          rows = order_by ur_period_start (filter (\<lambda>r. ur_organization_id r = org \<and> since \<le> ur_period_start r \<and> ur_period_start r \<le> today)
            (usage_records d))
      in map (\<lambda>metric. (metric, map (\<lambda>r. (ur_period_start r, ur_value r)) (filter (\<lambda>r. ur_metric r = metric) rows))) usage_metrics)"

text \<open>\<^verbatim>\<open>INSERT ... ON CONFLICT DO UPDATE\<close> on organization, metric and day.\<close>

definition same_usage :: "uuid \<Rightarrow> string \<Rightarrow> int \<Rightarrow> usage_record \<Rightarrow> bool" where
  "same_usage org metric day r \<longleftrightarrow> ur_organization_id r = org \<and> ur_metric r = metric \<and> ur_period_start r = day"

definition upsert_usage :: "uuid \<Rightarrow> int \<Rightarrow> instant \<Rightarrow> string \<times> int \<Rightarrow> db \<Rightarrow> db" where
  "upsert_usage org day now mv d =
     (if list_ex (same_usage org (fst mv) day) (usage_records d)
      then d\<lparr>usage_records := tupd (same_usage org (fst mv) day) (\<lambda>r. r\<lparr>ur_value := snd mv, ur_recorded_at := now\<rparr>) (usage_records d),
             next_id := Suc (next_id d)\<rparr>
      else d\<lparr>usage_records := usage_records d @ [\<lparr>ur_id = next_id d, ur_organization_id = org, ur_metric = fst mv,
               ur_value = snd mv, ur_recorded_at = now, ur_period_start = day\<rparr>],
             next_id := Suc (next_id d)\<rparr>)"

definition snapshot_organization :: "int \<Rightarrow> instant \<Rightarrow> uuid \<Rightarrow> nat \<times> db \<Rightarrow> nat \<times> db" where
  "snapshot_organization day now org st =
     (let usage = current_usage org (snd st) @ activity org day (snd st)
      in (fst st + length usage, fold (upsert_usage org day now) usage (snd st)))"

definition snapshot_day :: "int \<Rightarrow> instant \<Rightarrow> uuid list option \<Rightarrow> db \<Rightarrow> nat \<times> db" where
  "snapshot_day day now organization_ids d =
     (let orgs = filter (\<lambda>i. case organization_ids of None \<Rightarrow> True | Some ids \<Rightarrow> i \<in> set ids) (map org_id (organizations d))
      in fold (snapshot_organization day now) orgs (0, d))"

subsection \<open>Dates and months\<close>

record date =
  dt_year :: int
  dt_month :: int
  dt_day :: int

definition leap_year :: "int \<Rightarrow> bool" where
  "leap_year y \<longleftrightarrow> 4 dvd y \<and> (\<not> 100 dvd y \<or> 400 dvd y)"

definition days_in_month :: "int \<Rightarrow> int \<Rightarrow> int" where
  "days_in_month y m = (if m = 2 then (if leap_year y then 29 else 28) else if m \<in> {4, 6, 9, 11} then 30 else 31)"

definition days_before_month :: "int \<Rightarrow> int \<Rightarrow> int" where
  "days_before_month y m = sum_list (map (days_in_month y) [1..m - 1])"

text \<open>The ordinal of a date in the proleptic Gregorian calendar (1 January of the year 1 is day 1).\<close>

definition ordinal :: "date \<Rightarrow> int" where
  "ordinal dt = (let y = dt_year dt - 1 in 365 * y + y div 4 - y div 100 + y div 400) + days_before_month (dt_year dt) (dt_month dt) + dt_day dt"

definition epoch_ordinal :: int where "epoch_ordinal = 719163"

definition day_number :: "date \<Rightarrow> int" where
  "day_number dt = ordinal dt - epoch_ordinal"

definition first_of_month :: "date \<Rightarrow> date" where
  "first_of_month dt = dt\<lparr>dt_day := 1\<rparr>"

definition valid_date :: "date \<Rightarrow> bool" where
  "valid_date dt \<longleftrightarrow> 1 \<le> dt_year dt \<and> dt_year dt \<le> 9999 \<and> 1 \<le> dt_month dt \<and> dt_month dt \<le> 12 \<and>
     1 \<le> dt_day dt \<and> dt_day dt \<le> days_in_month (dt_year dt) (dt_month dt)"

definition add_months :: "date \<Rightarrow> int \<Rightarrow> date result" where
  "add_months day months =
     (let month_index = dt_month day - 1 + months;
          moved = day\<lparr>dt_year := dt_year day + month_index div 12, dt_month := month_index mod 12 + 1\<rparr>
      in bind (raise_if (\<not> valid_date moved) (PyValueError ''day'')) (\<lambda>_. Inr moved))"

subsection \<open>The scheduler\<close>

type_synonym month = "int \<times> int"

record scheduler_state =
  ss_partitions :: "month list"
  ss_last_maintenance :: "instant option"

definition partition_months_ahead :: nat where "partition_months_ahead = 3"
definition maintenance_interval :: duration where "maintenance_interval = hours 1"

definition midnight :: "date \<Rightarrow> instant" where
  "midnight dt = day_start (day_number dt)"

definition create_partition :: "date \<Rightarrow> date \<Rightarrow> db \<Rightarrow> month list \<Rightarrow> month list result" where
  "create_partition start end_date d ps =
     bind (raise_if (list_ex (\<lambda>p. midnight start \<le> tp_occurred_at p \<and> tp_occurred_at p < midnight end_date) (telemetry_points d))
            IntegrityError) (\<lambda>_.
       Inr (ps @ [(dt_year start, dt_month start)]))"

fun ensure_from :: "date \<Rightarrow> nat list \<Rightarrow> db \<Rightarrow> nat \<times> month list \<Rightarrow> (nat \<times> month list) result" where
  "ensure_from today [] d st = Inr st"
| "ensure_from today (offset # offsets) d st =
     bind (add_months (first_of_month today) (int offset)) (\<lambda>start.
     bind (add_months start 1) (\<lambda>end_date.
       if (dt_year start, dt_month start) \<in> set (snd st) then ensure_from today offsets d st
       else bind (create_partition start end_date d (snd st)) (\<lambda>ps. ensure_from today offsets d (Suc (fst st), ps))))"

definition ensure_partitions :: "date \<Rightarrow> db \<Rightarrow> month list \<Rightarrow> (nat \<times> month list) result" where
  "ensure_partitions today d ps = ensure_from today [0..<partition_months_ahead] d (0, ps)"

definition idle_trip :: "instant \<Rightarrow> trip \<Rightarrow> bool" where
  "idle_trip now t \<longleftrightarrow> t_status t = TripActive \<and> (case t_last_point_at t of None \<Rightarrow> False | Some p \<Rightarrow> p < now - trip_idle_gap)"

definition close_stale_trips :: "instant \<Rightarrow> db \<Rightarrow> nat \<times> db" where
  "close_stale_trips now d =
     (count_rows (idle_trip now) (trips d), d\<lparr>trips := tupd (idle_trip now) (\<lambda>t. t\<lparr>t_status := TripStale\<rparr>) (trips d)\<rparr>)"

text \<open>Each part of the maintenance commits its own transactions; a part that raises ends it.\<close>

definition hourly_maintenance ::
    "'s object_storage \<Rightarrow> uuid list \<Rightarrow> instant \<Rightarrow> int \<Rightarrow> db \<Rightarrow> 's \<Rightarrow> (nat \<times> nat) result \<times> db \<times> 's" where
  "hourly_maintenance st locked now today d s =
     (case purge_expired st now None d s of
        (Inl x, d1, s1) \<Rightarrow> (Inl x, d1, s1)
      | (Inr purged, d1, s1) \<Rightarrow>
          (let (w1, d2) = snapshot_day (today - 1) now None d1;
               (w2, d3) = snapshot_day today now None d2;
               (expired, d4) = expire_trials locked now d3
           in (Inr (w1 + w2, expired), d4, s1)))"

record tick =
  tk_now :: instant
  tk_today :: date
  tk_lock_free :: bool
  tk_locked :: "uuid list"

definition maintenance_due :: "instant \<Rightarrow> scheduler_state \<Rightarrow> bool" where
  "maintenance_due now ss \<longleftrightarrow>
     (case ss_last_maintenance ss of None \<Rightarrow> True | Some t \<Rightarrow> maintenance_interval \<le> now - t)"

text \<open>
  Partitions and stale trips belong to the transaction of the tick, which the maintenance does not see and
  which an exception rolls back; the result tells whether this replica held the lock.
\<close>

definition scheduler_run_once ::
    "'s object_storage \<Rightarrow> tick \<Rightarrow> scheduler_state \<Rightarrow> db \<Rightarrow> 's \<Rightarrow> bool result \<times> scheduler_state \<times> db \<times> 's" where
  "scheduler_run_once st tk ss d s =
     (if \<not> tk_lock_free tk then (Inr False, ss, d, s)
      else case ensure_partitions (tk_today tk) d (ss_partitions ss) of
        Inl x \<Rightarrow> (Inl x, ss, d, s)
      | Inr (created, ps) \<Rightarrow>
          if maintenance_due (tk_now tk) ss
          then (case hourly_maintenance st (tk_locked tk) (tk_now tk) (day_number (tk_today tk)) d s of
                  (Inl x, d1, s1) \<Rightarrow> (Inl x, ss, d1, s1)
                | (Inr counts, d1, s1) \<Rightarrow>
                    (Inr True, \<lparr>ss_partitions = ps, ss_last_maintenance = Some (tk_now tk)\<rparr>, snd (close_stale_trips (tk_now tk) d1), s1))
          else (Inr True, ss\<lparr>ss_partitions := ps\<rparr>, snd (close_stale_trips (tk_now tk) d), s))"

text \<open>The loop swallows what a tick raises.\<close>

fun scheduler_run_forever ::
    "'s object_storage \<Rightarrow> tick list \<Rightarrow> scheduler_state \<Rightarrow> db \<Rightarrow> 's \<Rightarrow> bool result list \<times> scheduler_state \<times> db \<times> 's" where
  "scheduler_run_forever st [] ss d s = ([], ss, d, s)"
| "scheduler_run_forever st (tk # tks) ss d s =
     (let (r, ss1, d1, s1) = scheduler_run_once st tk ss d s;
          (rs, ss2, d2, s2) = scheduler_run_forever st tks ss1 d1 s1
      in (r # rs, ss2, d2, s2))"

subsection \<open>Usage records refine a finite map\<close>

type_synonym usage_key = "uuid \<times> string \<times> int"

definition usage_key :: "usage_record \<Rightarrow> usage_key" where
  "usage_key r = (ur_organization_id r, ur_metric r, ur_period_start r)"

definition usage_table :: "db \<Rightarrow> usage_key \<Rightarrow> (int \<times> instant) option" where
  "usage_table d = map_of (map (\<lambda>r. (usage_key r, (ur_value r, ur_recorded_at r))) (usage_records d))"

definition usage_unique :: "db \<Rightarrow> bool" where
  "usage_unique d \<longleftrightarrow> distinct (map usage_key (usage_records d))"

text \<open>What a snapshot measures.\<close>

definition measured :: "uuid \<Rightarrow> int \<Rightarrow> db \<Rightarrow> (string \<times> int) list" where
  "measured org day d = current_usage org d @ activity org day d"

lemma same_usage_key: "same_usage org metric day r \<longleftrightarrow> usage_key r = (org, metric, day)"
  by (auto simp: same_usage_def usage_key_def)

lemma map_of_tupd_usage:
  "map_of (map (\<lambda>r. (usage_key r, (ur_value r, ur_recorded_at r)))
      (tupd (\<lambda>r. usage_key r = k) (\<lambda>r. r\<lparr>ur_value := v, ur_recorded_at := now\<rparr>) rows)) =
   (if k \<in> usage_key ` set rows then (map_of (map (\<lambda>r. (usage_key r, (ur_value r, ur_recorded_at r))) rows))(k \<mapsto> (v, now))
    else map_of (map (\<lambda>r. (usage_key r, (ur_value r, ur_recorded_at r))) rows))"
proof (induction rows)
  case (Cons r rows)
  have "usage_key (r\<lparr>ur_value := v, ur_recorded_at := now\<rparr>) = usage_key r"
    by (simp add: usage_key_def)
  then show ?case
    using Cons by (auto simp: fun_upd_twist)
qed simp

lemma upsert_usage_table:
  "usage_table (upsert_usage org day now mv d) = (usage_table d)((org, fst mv, day) \<mapsto> (snd mv, now))"
proof (cases "(org, fst mv, day) \<in> usage_key ` set (usage_records d)")
  case True
  have same: "same_usage org (fst mv) day = (\<lambda>r. usage_key r = (org, fst mv, day))"
    by (rule ext) (rule same_usage_key)
  have "list_ex (same_usage org (fst mv) day) (usage_records d)"
    using True by (force simp: list_ex_iff same)
  then show ?thesis
    using True by (simp add: upsert_usage_def usage_table_def) (simp add: same map_of_tupd_usage)
next
  case False
  then have none: "map_of (map (\<lambda>r. (usage_key r, (ur_value r, ur_recorded_at r))) (usage_records d)) (org, fst mv, day) = None"
    by (force simp: map_of_eq_None_iff)
  have "\<not> list_ex (same_usage org (fst mv) day) (usage_records d)"
    using False by (force simp: list_ex_iff same_usage_key)
  then show ?thesis
    using none by (auto simp: upsert_usage_def usage_table_def usage_key_def map_add_def fun_eq_iff split: option.splits)
qed

lemma upsert_usage_unique: "usage_unique d \<Longrightarrow> usage_unique (upsert_usage org day now mv d)"
proof (cases "list_ex (same_usage org (fst mv) day) (usage_records d)")
  case True
  have "map usage_key (tupd (same_usage org (fst mv) day) (\<lambda>r. r\<lparr>ur_value := snd mv, ur_recorded_at := now\<rparr>) (usage_records d)) =
      map usage_key (usage_records d)"
    by (intro map_tupd) (simp add: usage_key_def)
  then show "usage_unique d \<Longrightarrow> ?thesis"
    using True by (simp add: usage_unique_def upsert_usage_def)
next
  case False
  then show "usage_unique d \<Longrightarrow> ?thesis"
    by (force simp: usage_unique_def upsert_usage_def list_ex_iff same_usage_key usage_key_def)
qed

lemma upsert_usage_frame [simp]:
  "vehicles (upsert_usage org day now mv d) = vehicles d" "memberships (upsert_usage org day now mv d) = memberships d"
  "event_evidence_rows (upsert_usage org day now mv d) = event_evidence_rows d"
  "ingest_events (upsert_usage org day now mv d) = ingest_events d"
  "telemetry_points (upsert_usage org day now mv d) = telemetry_points d"
  "safety_events (upsert_usage org day now mv d) = safety_events d"
  by (simp_all add: upsert_usage_def)

lemma fold_upsert_usage:
  "measured o2 day2 (fold (upsert_usage org day now) vs d) = measured o2 day2 d"
  "usage_unique d \<Longrightarrow> usage_unique (fold (upsert_usage org day now) vs d)"
  "distinct (map fst vs) \<Longrightarrow> usage_table (fold (upsert_usage org day now) vs d) (o2, m, day2) =
     (if o2 = org \<and> day2 = day then (case map_of vs m of None \<Rightarrow> usage_table d (o2, m, day2) | Some v \<Rightarrow> Some (v, now))
      else usage_table d (o2, m, day2))"
proof (induction vs arbitrary: d)
  case (Cons mv vs)
  have none: "map_of vs (fst mv) = None" if "distinct (map fst (mv # vs))"
    using that by (simp add: map_of_eq_None_iff)
  { case 1 show ?case
      using Cons.IH(1) by (simp add: measured_def current_usage_def activity_def)
  next
    case 2 then show ?case
      using Cons.IH(2) by (simp add: upsert_usage_unique)
  next
    case 3 then show ?case
      using Cons.IH(3) [of "upsert_usage org day now mv d"] none
      by (cases mv) (auto simp: upsert_usage_table split: option.splits)
  }
qed simp_all

lemma measured_metrics: "map fst (measured org day d) =
    [''vehicles'', ''active_members'', ''evidence_storage_bytes'', ''ingest_events'', ''telemetry_points'', ''safety_events'']"
  by (simp add: measured_def current_usage_def activity_def)

lemma measured_distinct: "distinct (map fst (measured org day d))" "length (measured org day d) = 6"
  unfolding measured_metrics by (simp_all add: measured_def current_usage_def activity_def)

lemma snapshot_organizations_table:
  assumes "distinct orgs"
  shows "fst (fold (snapshot_organization day now) orgs st) = fst st + 6 * length orgs \<and>
    (usage_unique (snd st) \<longrightarrow> usage_unique (snd (fold (snapshot_organization day now) orgs st))) \<and>
    usage_table (snd (fold (snapshot_organization day now) orgs st)) (o2, m, day2) =
      (if o2 \<in> set orgs \<and> day2 = day
       then (case map_of (measured o2 day (snd st)) m of None \<Rightarrow> usage_table (snd st) (o2, m, day2) | Some v \<Rightarrow> Some (v, now))
       else usage_table (snd st) (o2, m, day2))"
  using assms
proof (induction orgs arbitrary: st)
  case (Cons org orgs)
  let ?st = "snapshot_organization day now org st"
  have st: "?st = (fst st + 6, fold (upsert_usage org day now) (measured org day (snd st)) (snd st))"
    using measured_distinct(2) by (simp add: snapshot_organization_def Let_def measured_def)
  have IH: "fst (fold (snapshot_organization day now) orgs ?st) = fst ?st + 6 * length orgs \<and>
    (usage_unique (snd ?st) \<longrightarrow> usage_unique (snd (fold (snapshot_organization day now) orgs ?st))) \<and>
    usage_table (snd (fold (snapshot_organization day now) orgs ?st)) (o2, m, day2) =
      (if o2 \<in> set orgs \<and> day2 = day
       then (case map_of (measured o2 day (snd ?st)) m of None \<Rightarrow> usage_table (snd ?st) (o2, m, day2) | Some v \<Rightarrow> Some (v, now))
       else usage_table (snd ?st) (o2, m, day2))"
    using Cons by simp
  show ?case
    using IH Cons.prems
    by (auto simp: st fold_upsert_usage measured_distinct split: option.splits if_splits)
qed simp

text \<open>
  C39: a snapshot refines an update of the finite map from organization, metric and day to a value: every
  metric of every organization is set for that day to what the tables say at that moment, nothing else
  changes, each key keeps one row, and six records are written per organization. A second snapshot of the
  same tables therefore writes the same values.
\<close>

theorem snapshot_refines_map:
  assumes "usage_unique d" "distinct (map org_id (organizations d))"
  shows "let (n, d') = snapshot_day day now None d; orgs = org_id ` set (organizations d)
    in usage_unique d' \<and> n = 6 * length (organizations d) \<and>
       usage_table d' = (\<lambda>(org, metric, dy). if org \<in> orgs \<and> dy = day
         then (case map_of (measured org day d) metric of None \<Rightarrow> usage_table d (org, metric, dy) | Some v \<Rightarrow> Some (v, now))
         else usage_table d (org, metric, dy))"
  using snapshot_organizations_table [OF assms(2), of day now "(0, d)"] assms(1)
  by (auto simp: snapshot_day_def case_prod_beta Let_def fun_eq_iff split: option.splits)

subsection \<open>Days add up\<close>

lemma days_split:
  "count_rows (\<lambda>r. p r \<and> day_start a \<le> key r \<and> key r < day_start (a + int n)) rows =
     sum_list (map (\<lambda>k. count_rows (\<lambda>r. p r \<and> in_day (a + int k) (key r)) rows) [0..<n])"
proof (induction n)
  case 0
  then show ?case
    by (induction rows) auto
next
  case (Suc n)
  have "count_rows (\<lambda>r. p r \<and> day_start a \<le> key r \<and> key r < day_start (a + int (Suc n))) rows =
      count_rows (\<lambda>r. p r \<and> day_start a \<le> key r \<and> key r < day_start (a + int n)) rows +
      count_rows (\<lambda>r. p r \<and> in_day (a + int n) (key r)) rows"
  proof (induction rows)
    case (Cons r rows)
    have "(day_start a \<le> key r \<and> key r < day_start (a + int (Suc n))) \<longleftrightarrow>
        (day_start a \<le> key r \<and> key r < day_start (a + int n)) \<or> in_day (a + int n) (key r)"
      "\<not> ((day_start a \<le> key r \<and> key r < day_start (a + int n)) \<and> in_day (a + int n) (key r))"
      by (auto simp: in_day_def day_start_def time_defs algebra_simps)
    then show ?case
      using Cons by auto
  qed simp
  then show ?case
    using Suc by simp
qed

lemma int_sum: "sum_list (map (\<lambda>k. int (f k)) ks) = int (sum_list (map f ks))"
  by (induction ks) simp_all

text \<open>
  Days neither overlap nor leave gaps: over any range of consecutive days, the daily activity adds up
  to the rows whose time lies in the range, for each of the three activity metrics.
\<close>

theorem activity_days_add_up:
  "sum_list (map (\<lambda>k. the (map_of (activity org (a + int k) d) ''ingest_events'')) [0..<n]) =
     int (count_rows (\<lambda>e. ie_organization_id e = org \<and> day_start a \<le> ie_received_at e \<and> ie_received_at e < day_start (a + int n)) (ingest_events d)) \<and>
   sum_list (map (\<lambda>k. the (map_of (activity org (a + int k) d) ''telemetry_points'')) [0..<n]) =
     int (count_rows (\<lambda>p. tp_organization_id p = org \<and> day_start a \<le> tp_occurred_at p \<and> tp_occurred_at p < day_start (a + int n)) (telemetry_points d)) \<and>
   sum_list (map (\<lambda>k. the (map_of (activity org (a + int k) d) ''safety_events'')) [0..<n]) =
     int (count_rows (\<lambda>e. se_organization_id e = org \<and> day_start a \<le> se_occurred_at e \<and> se_occurred_at e < day_start (a + int n)) (safety_events d))"
  by (simp add: days_split activity_def int_sum)

subsection \<open>The ticks\<close>

lemma add_months_Inr:
  "add_months day k = Inr e \<longleftrightarrow> valid_date e \<and>
     e = day\<lparr>dt_year := dt_year day + (dt_month day - 1 + k) div 12, dt_month := (dt_month day - 1 + k) mod 12 + 1\<rparr>"
  by (auto simp: add_months_def Let_def bind_eq_Inr)

text \<open>Adding months one by one.\<close>

lemma carry: "(q mod 12 + k) div 12 + q div 12 = (q + k) div (12 :: int)" "(q mod 12 + k) mod 12 = (q + k) mod (12 :: int)"
proof -
  have "q + k = (q mod 12 + k) + q div 12 * 12"
    by simp
  then show "(q mod 12 + k) div 12 + q div 12 = (q + k) div (12 :: int)" "(q mod 12 + k) mod 12 = (q + k) mod (12 :: int)"
    using div_mult_self1 [of "12 :: int" "q mod 12 + k" "q div 12"] mod_mult_self1 [of "q mod 12 + k" "q div 12" "12 :: int"]
    by simp_all
qed

lemma add_months_add:
  assumes "add_months day j = Inr e"
  shows "add_months e k = add_months day (j + k)"
proof -
  let ?q = "dt_month day - 1 + j"
  have e: "e = day\<lparr>dt_year := dt_year day + ?q div 12, dt_month := ?q mod 12 + 1\<rparr>"
    using assms by (simp add: add_months_Inr)
  have q: "(?q mod 12 + k) div 12 + ?q div 12 = (?q + k) div 12" "(?q mod 12 + k) mod 12 = (?q + k) mod 12"
    using carry by blast+
  have "e\<lparr>dt_year := dt_year e + (dt_month e - 1 + k) div 12, dt_month := (dt_month e - 1 + k) mod 12 + 1\<rparr> =
      day\<lparr>dt_year := dt_year day + (dt_month day - 1 + (j + k)) div 12, dt_month := (dt_month day - 1 + (j + k)) mod 12 + 1\<rparr>"
    using q unfolding e by (simp add: algebra_simps)
  then show ?thesis
    by (simp only: add_months_def Let_def)
qed

text \<open>Month \<open>k\<close> after today's, as the instants between which its positions lie.\<close>

definition month_of :: "date \<Rightarrow> nat \<Rightarrow> date \<Rightarrow> date \<Rightarrow> bool" where
  "month_of today k start end_date \<longleftrightarrow>
     add_months (first_of_month today) (int k) = Inr start \<and> add_months (first_of_month today) (int k + 1) = Inr end_date"

lemma ensure_from_Inr:
  assumes "ensure_from today ks d st = Inr st'"
  shows "set (snd st) \<subseteq> set (snd st') \<and>
    (\<forall>k \<in> set ks. \<exists>start end_date. month_of today k start end_date \<and> (dt_year start, dt_month start) \<in> set (snd st'))"
  using assms
proof (induction ks arbitrary: st)
  case (Cons k ks)
  obtain start end_date where m: "add_months (first_of_month today) (int k) = Inr start" "add_months start 1 = Inr end_date"
    using Cons.prems by (auto simp: bind_eq_Inr)
  have month: "month_of today k start end_date"
    using m add_months_add [OF m(1), of 1] by (simp add: month_of_def)
  show ?case
  proof (cases "(dt_year start, dt_month start) \<in> set (snd st)")
    case True
    then show ?thesis
      using Cons month m by fastforce
  next
    case False
    then obtain ps where "create_partition start end_date d (snd st) = Inr ps" "ensure_from today ks d (Suc (fst st), ps) = Inr st'"
      using Cons.prems m by (auto simp: bind_eq_Inr)
    moreover from this have "ps = snd st @ [(dt_year start, dt_month start)]"
      by (auto simp: create_partition_def bind_eq_Inr)
    ultimately show ?thesis
      using Cons.IH month by fastforce
  qed
qed simp

definition covered :: "month list \<Rightarrow> instant \<Rightarrow> bool" where
  "covered ps t \<longleftrightarrow> (\<exists>start end_date. (dt_year start, dt_month start) \<in> set ps \<and> add_months start 1 = Inr end_date \<and>
     midnight start \<le> t \<and> t < midnight end_date)"

definition stored_between :: "date \<Rightarrow> date \<Rightarrow> db \<Rightarrow> bool" where
  "stored_between start end_date d \<longleftrightarrow>
     (\<exists>p \<in> set (telemetry_points d). midnight start \<le> tp_occurred_at p \<and> tp_occurred_at p < midnight end_date)"

lemma month_of_next: "month_of today k start end_date \<Longrightarrow> add_months start 1 = Inr end_date \<and> dt_day start = 1"
proof -
  assume m: "month_of today k start end_date"
  then have "dt_day start = 1"
    by (auto simp: month_of_def add_months_Inr first_of_month_def)
  then show ?thesis
    using m add_months_add [of "first_of_month today" "int k" start 1] by (simp add: month_of_def)
qed

text \<open>A partition that was created had no row in the default partition.\<close>

lemma ensure_from_new:
  assumes "ensure_from today ks d st = Inr st'" "(dt_year start, dt_month start) \<in> set (snd st')"
    "(dt_year start, dt_month start) \<notin> set (snd st)" "dt_day start = 1" "add_months start 1 = Inr end_date"
  shows "\<not> stored_between start end_date d"
  using assms(1,3)
proof (induction ks arbitrary: st)
  case (Cons k ks)
  obtain s e where m: "add_months (first_of_month today) (int k) = Inr s" "add_months s 1 = Inr e"
    using Cons.prems by (auto simp: bind_eq_Inr)
  show ?case
  proof (cases "(dt_year s, dt_month s) \<in> set (snd st)")
    case True
    then show ?thesis
      using Cons m by simp
  next
    case False
    then obtain ps where c: "create_partition s e d (snd st) = Inr ps" "ensure_from today ks d (Suc (fst st), ps) = Inr st'"
      using Cons.prems m by (auto simp: bind_eq_Inr)
    then have ps: "ps = snd st @ [(dt_year s, dt_month s)]" "\<not> stored_between s e d"
      by (auto simp: create_partition_def bind_eq_Inr stored_between_def list_ex_iff)
    show ?thesis
    proof (cases "(dt_year start, dt_month start) = (dt_year s, dt_month s)")
      case True
      have "dt_day s = 1"
        using m(1) by (simp add: add_months_Inr first_of_month_def)
      then have "s = start"
        using True assms(4) by (cases s; cases start) simp
      then show ?thesis
        using ps(2) m(2) assms(5) by simp
    next
      case False
      then show ?thesis
        using Cons.IH [OF c(2)] Cons.prems(2) ps(1) by auto
    qed
  qed
qed (use assms(2) in auto)

text \<open>
  C37: a tick that ran leaves a partition for every instant of this month and the next two, drops none, and
  leaves no trip open whose last position is older than the idle gap.
\<close>

theorem tick_prepares_partitions:
  assumes "scheduler_run_once st tk ss d s = (Inr True, ss', d', s')"
  shows "\<exists>from until. add_months (first_of_month (tk_today tk)) 0 = Inr from \<and> add_months (first_of_month (tk_today tk)) 3 = Inr until \<and>
    (\<forall>t. midnight from \<le> t \<and> t < midnight until \<longrightarrow> covered (ss_partitions ss') t) \<and>
    set (ss_partitions ss) \<subseteq> set (ss_partitions ss') \<and> (\<forall>r \<in> set (trips d'). \<not> idle_trip (tk_now tk) r)"
proof -
  obtain created ps d1 where e: "ensure_partitions (tk_today tk) d (ss_partitions ss) = Inr (created, ps)" "ss_partitions ss' = ps"
    and d': "d' = snd (close_stale_trips (tk_now tk) d1)"
    using assms by (auto simp: scheduler_run_once_def split: if_splits sum.splits prod.splits)
  have ensured: "set (ss_partitions ss) \<subseteq> set ps"
    "\<And>k. k < 3 \<Longrightarrow> \<exists>start end_date. month_of (tk_today tk) k start end_date \<and> (dt_year start, dt_month start) \<in> set ps"
    using ensure_from_Inr [OF e(1) [unfolded ensure_partitions_def]] by (auto simp: partition_months_ahead_def)
  obtain s0 e0 where m0: "month_of (tk_today tk) 0 s0 e0" "(dt_year s0, dt_month s0) \<in> set ps"
    using ensured(2) [of 0] by auto
  obtain s1 e1 where m1: "month_of (tk_today tk) 1 s1 e1" "(dt_year s1, dt_month s1) \<in> set ps"
    using ensured(2) [of 1] by auto
  obtain s2 e2 where m2: "month_of (tk_today tk) 2 s2 e2" "(dt_year s2, dt_month s2) \<in> set ps"
    using ensured(2) [of 2] by auto
  have "e0 = s1" "e1 = s2"
    using m0(1) m1(1) m2(1) by (simp_all add: month_of_def)
  then have "covered ps t" if "midnight s0 \<le> t" "t < midnight e2" for t
    using that m0(2) m1(2) m2(2) month_of_next [OF m0(1)] month_of_next [OF m1(1)] month_of_next [OF m2(1)]
    unfolding covered_def by (metis not_le)
  moreover have "\<not> idle_trip now (if idle_trip now q then q\<lparr>t_status := TripStale\<rparr> else q)" for now q
    by (simp add: idle_trip_def)
  then have "\<forall>r \<in> set (trips d'). \<not> idle_trip (tk_now tk) r"
    using d' by (auto simp: close_stale_trips_def set_tupd simp del: if_split)
  ultimately show ?thesis
    using m0(1) m2(1) ensured(1) by (auto simp: month_of_def e(2))
qed

text \<open>Some month of the tick has no partition, and a position is already stored in it.\<close>

definition blocked :: "month list \<Rightarrow> db \<Rightarrow> date \<Rightarrow> bool" where
  "blocked ps d today \<longleftrightarrow> (\<exists>k < partition_months_ahead. \<exists>start end_date. month_of today k start end_date \<and>
     (dt_year start, dt_month start) \<notin> set ps \<and> stored_between start end_date d)"

lemma blocked_raises:
  assumes "blocked ps d today"
  shows "\<exists>x. ensure_partitions today d ps = Inl x"
proof (cases "ensure_partitions today d ps")
  case (Inr st')
  obtain k start end_date where k: "k < partition_months_ahead" "month_of today k start end_date"
    "(dt_year start, dt_month start) \<notin> set ps" "stored_between start end_date d"
    using assms by (auto simp: blocked_def)
  obtain start2 end2 where k2: "month_of today k start2 end2" "(dt_year start2, dt_month start2) \<in> set (snd st')"
    using bspec [OF conjunct2 [OF ensure_from_Inr [OF Inr [unfolded ensure_partitions_def]]], of k] k(1) by auto
  then have "(dt_year start, dt_month start) \<in> set (snd st')"
    using k(2) by (simp add: month_of_def)
  then show ?thesis
    using ensure_from_new [OF Inr [unfolded ensure_partitions_def]] month_of_next [OF k(2)] k(3,4) by simp
qed simp

text \<open>
  C36: one position stored in a month without partition stops the scheduler: as long as such a month is
  among the three of a tick, every tick fails before anything else, so no trip is closed, nothing is purged,
  no usage recorded and no trial expired, and no later tick repairs it.
\<close>

theorem missed_partition_stops_scheduler:
  assumes "\<forall>tk \<in> set tks. blocked (ss_partitions ss) d (tk_today tk)"
  shows "\<exists>rs. scheduler_run_forever st tks ss d s = (rs, ss, d, s) \<and> length rs = length tks \<and> Inr True \<notin> set rs"
  using assms
proof (induction tks)
  case (Cons tk tks)
  obtain x where "ensure_partitions (tk_today tk) d (ss_partitions ss) = Inl x"
    using blocked_raises Cons.prems by fastforce
  then have "\<exists>r. scheduler_run_once st tk ss d s = (r, ss, d, s) \<and> r \<noteq> Inr True"
    by (simp add: scheduler_run_once_def)
  then show ?case
    using Cons by auto
qed simp

subsection \<open>Examples\<close>

definition usage_db :: db where
  "usage_db = empty_db\<lparr>organizations := [\<lparr>org_id = 7, org_name = ''Fleet'', org_slug = ''fleet'', org_status = OrgActive\<rparr>],
     memberships := [\<lparr>m_id = 1, m_user_id = 2, m_organization_id = 7, m_role_key = ROwner, m_status = MemActive, m_created_at = 0\<rparr>],
     next_id := 3\<rparr>"

theorem snapshot_refines_map_witness:
  "usage_table (snd (snapshot_day 20000 5 None usage_db)) (7, ''active_members'', 20000) = Some (1, 5)"
proof -
  have ok: "usage_unique usage_db" "distinct (map org_id (organizations usage_db))"
    by (simp_all add: usage_unique_def usage_db_def empty_db_def)
  have "map_of (measured 7 20000 usage_db) ''active_members'' = Some 1"
    by code_simp
  then show ?thesis
    using snapshot_refines_map [OF ok, of 20000 5] by (simp add: case_prod_beta Let_def usage_db_def)
qed

definition november_tick :: tick where
  "november_tick = \<lparr>tk_now = midnight \<lparr>dt_year = 2026, dt_month = 11, dt_day = 30\<rparr>, tk_today = \<lparr>dt_year = 2026, dt_month = 11, dt_day = 30\<rparr>,
     tk_lock_free = True, tk_locked = []\<rparr>"

definition fresh_scheduler :: scheduler_state where
  "fresh_scheduler = \<lparr>ss_partitions = [(2026, 10)], ss_last_maintenance = Some (midnight \<lparr>dt_year = 2026, dt_month = 11, dt_day = 30\<rparr>)\<rparr>"

text \<open>On 30 November the partitions of November, December and January are made.\<close>

theorem tick_prepares_partitions_witness:
  "covered [(2026, 10), (2026, 11), (2026, 12), (2027, 1)] (midnight \<lparr>dt_year = 2027, dt_month = 1, dt_day = 31\<rparr>)"
proof -
  have "ensure_partitions (tk_today november_tick) empty_db (ss_partitions fresh_scheduler) =
      Inr (3, [(2026, 10), (2026, 11), (2026, 12), (2027, 1)])"
    "maintenance_due (tk_now november_tick) fresh_scheduler = False"
    by code_simp+
  then have run: "scheduler_run_once st november_tick fresh_scheduler empty_db s =
      (Inr True, fresh_scheduler\<lparr>ss_partitions := [(2026, 10), (2026, 11), (2026, 12), (2027, 1)]\<rparr>,
       snd (close_stale_trips (tk_now november_tick) empty_db), s)" for st :: "unit object_storage" and s
    by (simp add: scheduler_run_once_def november_tick_def)
  have months: "add_months (first_of_month (tk_today november_tick)) 0 = Inr \<lparr>dt_year = 2026, dt_month = 11, dt_day = 1\<rparr>"
    "add_months (first_of_month (tk_today november_tick)) 3 = Inr \<lparr>dt_year = 2027, dt_month = 2, dt_day = 1\<rparr>"
    by code_simp+
  have "midnight \<lparr>dt_year = 2026, dt_month = 11, dt_day = 1\<rparr> \<le> midnight \<lparr>dt_year = 2027, dt_month = 1, dt_day = 31\<rparr>"
    "midnight \<lparr>dt_year = 2027, dt_month = 1, dt_day = 31\<rparr> < midnight \<lparr>dt_year = 2027, dt_month = 2, dt_day = 1\<rparr>"
    by code_simp+
  then show ?thesis
    using tick_prepares_partitions [OF run] months by auto
qed

definition early_position :: telemetry_point where
  "early_position = \<lparr>tp_id = 1, tp_occurred_at = midnight \<lparr>dt_year = 2026, dt_month = 11, dt_day = 29\<rparr>, tp_organization_id = 7, tp_trip_id = None,
     tp_vehicle_id = 2, tp_driver_id = None, tp_latitude = 41, tp_longitude = 29, tp_speed_kph = None, tp_heading_deg = None,
     tp_acceleration_ms2 = None, tp_lateral_acceleration_ms2 = None, tp_quality = 1\<rparr>"

theorem missed_partition_stops_scheduler_witness:
  "\<forall>st s. \<exists>rs. scheduler_run_forever st [november_tick, november_tick] fresh_scheduler (usage_db\<lparr>telemetry_points := [early_position]\<rparr>) s =
     (rs, fresh_scheduler, usage_db\<lparr>telemetry_points := [early_position]\<rparr>, s) \<and> length rs = 2 \<and> Inr True \<notin> set rs"
proof (intro allI)
  fix st s
  have "month_of (tk_today november_tick) 0 \<lparr>dt_year = 2026, dt_month = 11, dt_day = 1\<rparr> \<lparr>dt_year = 2026, dt_month = 12, dt_day = 1\<rparr>"
    unfolding month_of_def by code_simp
  moreover have "stored_between \<lparr>dt_year = 2026, dt_month = 11, dt_day = 1\<rparr> \<lparr>dt_year = 2026, dt_month = 12, dt_day = 1\<rparr>
      (usage_db\<lparr>telemetry_points := [early_position]\<rparr>)"
    unfolding stored_between_def by code_simp
  moreover have "(2026, 11) \<notin> set (ss_partitions fresh_scheduler)"
    by (simp add: fresh_scheduler_def)
  ultimately have "blocked (ss_partitions fresh_scheduler) (usage_db\<lparr>telemetry_points := [early_position]\<rparr>) (tk_today november_tick)"
    unfolding blocked_def by (intro exI [of _ 0] exI conjI) (auto simp: partition_months_ahead_def)
  then show "\<exists>rs. scheduler_run_forever st [november_tick, november_tick] fresh_scheduler (usage_db\<lparr>telemetry_points := [early_position]\<rparr>) s =
     (rs, fresh_scheduler, usage_db\<lparr>telemetry_points := [early_position]\<rparr>, s) \<and> length rs = 2 \<and> Inr True \<notin> set rs"
    using missed_partition_stops_scheduler [of "[november_tick, november_tick]" fresh_scheduler
        "usage_db\<lparr>telemetry_points := [early_position]\<rparr>" st s]
    by (simp add: numeral_2_eq_2 del: scheduler_run_forever.simps)
qed

end
