(* ===== verification/Spec2Isabelle.thy ===== *)
theory Spec2Isabelle
  imports Fleet RateLimit Worker Coaching Accounts Guessing Cipher PrivacyLife Members WorkerLoop ApiKeys NotificationApi
    RiskScores UsageScheduler
begin

section \<open>VisiOnRoute: a verification development of the fleet-safety backend\<close>

text \<open>
  VisiOnRoute is a multi-tenant backend (FastAPI, SQLAlchemy, PostgreSQL) for fleets of vehicles: devices
  send telemetry and camera events, a pipeline stores them exactly once, derives trips and safety
  events, notifies people and webhooks, and coaches act on the events. Around it are accounts with
  sessions and a second factor, plans with limits, evidence media in an object store, and the privacy
  machinery (exports, erasures, retention). All paths below are relative to
  \<^verbatim>\<open>src/src/visionroute/\<close>.

  \<^bold>\<open>How the parts interact.\<close> A request enters through \<^verbatim>\<open>api/deps.py\<close>, which turns an access
  token into a request context by asking the database, and through the rate limiter. Services change
  tables and append to the audit trail and to the outbox in the same transaction. The worker claims
  outbox rows and dispatches them: an accepted envelope goes to the telemetry pipeline, which updates the
  trip, stores the point and calls the safety engine; the safety engine appends the next outbox event,
  which the worker hands to the notification rules, which queue webhook deliveries. Mail, webhooks,
  outbox events and privacy requests are queues of rows with attempts, delays and a last attempt.

  \<^bold>\<open>How a program becomes a theory.\<close> The database is the record \<open>db\<close> of \<open>Schema\<close>: one field per
  table, a table is a list of rows in insertion order, a row is a record with the columns of its ORM
  class. A service method is a function of the same name from its arguments, the time and the database
  to \<open>exn + result \<times> db\<close>: an exception is \<open>Inl\<close>, and the transaction it rolls back is the
  database the caller still has. Handlers that commit before they raise (login, the challenge, the
  refresh) return their database in both cases. Unique and check constraints that an operation can
  violate are explicit (\<open>flush\<close> and its variants raise \<open>IntegrityError\<close>). Identifiers come from the
  supply \<open>next_id\<close>. An instant is a number of microseconds; a \<^verbatim>\<open>float\<close> is a rational number that
  every operation rounds to 53 bits (\<open>Float64\<close>); integers are Python's. Rows another transaction has
  locked (\<^verbatim>\<open>FOR UPDATE SKIP LOCKED\<close>) are a parameter of the claims. Row-level security is the
  tenant condition that each query states; the one place where the code relies on it alone is a finding.
  Concurrency is a sequence of committed steps, or an arbitrary change of the database between two
  halves of one operation, where the code does not lock. Where a promise needs requests not to overlap
  (refresh sessions, failed logins, attempts at a privacy request) its text says so, and the overlapping run
  that breaks it is a theorem or a finding.
\<close>

subsection \<open>The theories and the code\<close>

text \<open>
  \<^item> \<open>Prelude\<close>, \<open>Float64\<close>, \<open>Schema\<close>: clock values, exceptions, tables with their lemmas (collections
    \<open>svc\<close>, \<open>tbl\<close>), binary64, and the tables of \<^verbatim>\<open>infrastructure/db/models/\<close>.
  \<^item> \<open>Permissions\<close>: \<^verbatim>\<open>domain/permissions.py\<close>, \<^verbatim>\<open>application/context.py\<close>.
  \<^item> \<open>Access\<close>: \<^verbatim>\<open>infrastructure/security/tokens.py\<close>, \<^verbatim>\<open>api/deps.py\<close>: tokens, the authoritative check of
    the database, the guards of the endpoints. \<open>Members\<close>: \<^verbatim>\<open>api/routers/v1/organizations.py\<close>.
  \<^item> \<open>RateLimit\<close>: \<^verbatim>\<open>domain/ratelimit.py\<close>, \<^verbatim>\<open>infrastructure/ratelimit.py\<close>, \<^verbatim>\<open>api/ratelimit.py\<close>; the locale
    \<open>sliding_counters\<close> is the contract of a counter store, interpreted by the in-memory limiter.
  \<^item> \<open>Outbox\<close>, \<open>Subscriptions\<close>, \<open>Fleet\<close>: \<^verbatim>\<open>application/audit.py\<close>, \<^verbatim>\<open>outbox.py\<close>, \<^verbatim>\<open>domain/usage.py\<close> (trials),
    \<^verbatim>\<open>saas/service.py\<close> (plans and limits), \<^verbatim>\<open>fleet/service.py\<close>.
  \<^item> \<open>Ingestion\<close>, \<open>TelemetryRules\<close>, \<open>Telemetry\<close>, \<open>SafetyRules\<close>, \<open>SafetyEngine\<close>, \<open>Notifications\<close>, \<open>Worker\<close>: the
    pipeline, in the order an event takes: \<^verbatim>\<open>domain/ingestion.py\<close>, \<^verbatim>\<open>ingestion/service.py\<close>,
    \<^verbatim>\<open>domain/telemetry_rules.py\<close>, \<^verbatim>\<open>telemetry/\<close>, \<^verbatim>\<open>domain/safety.py\<close>, \<^verbatim>\<open>safety/engine.py\<close>,
    \<^verbatim>\<open>notifications/service.py\<close> (the rules), \<^verbatim>\<open>worker/runner.py\<close> (the outbox).
  \<^item> \<open>ApiKeys\<close>: \<^verbatim>\<open>api_clients/service.py\<close>, \<^verbatim>\<open>api/ingest_deps.py\<close>, the routers \<^verbatim>\<open>integrations.py\<close> and \<^verbatim>\<open>ingest.py\<close>:
    the keys with which devices send events.
  \<^item> \<open>UrlGuard\<close>, \<open>Webhooks\<close>, \<open>WorkerLoop\<close>: \<^verbatim>\<open>infrastructure/security/urlguard.py\<close>, the delivery half of
    \<^verbatim>\<open>notifications/service.py\<close>, and the loop of \<^verbatim>\<open>worker/runner.py\<close> over its four sources of work.
    \<open>NotificationApi\<close>: the router \<^verbatim>\<open>notifications_reports.py\<close> without the report downloads.
  \<^item> \<open>RiskScores\<close>: \<^verbatim>\<open>domain/driver_score.py\<close>, \<^verbatim>\<open>safety/driver_score_service.py\<close>, \<^verbatim>\<open>safety/road_risk.py\<close> and the
    router \<^verbatim>\<open>risk.py\<close>. \<open>UsageScheduler\<close>: \<^verbatim>\<open>saas/usage.py\<close>, \<^verbatim>\<open>scheduler/runner.py\<close>.
  \<^item> \<open>Coaching\<close>: \<^verbatim>\<open>domain/coaching.py\<close>, \<^verbatim>\<open>coaching/service.py\<close>, \<^verbatim>\<open>safety/review.py\<close>.
  \<^item> \<open>Mail\<close>: \<^verbatim>\<open>mail/service.py\<close>, \<^verbatim>\<open>mail/delivery.py\<close>, \<^verbatim>\<open>domain/mail.py\<close>.
  \<^item> \<open>Identity\<close>, \<open>AccountSecurity\<close>, \<open>Accounts\<close>: \<^verbatim>\<open>identity/service.py\<close>, \<^verbatim>\<open>identity/account_security.py\<close>,
    \<^verbatim>\<open>infrastructure/security/\<close> (passwords, TOTP) and their composition in \<^verbatim>\<open>api/routers/v1/auth.py\<close>;
    \<open>Guessing\<close>: what lockout and second factors promise along sequences of these requests.
  \<^item> \<open>Cipher\<close>: \<^verbatim>\<open>domain/ids.py\<close>, \<^verbatim>\<open>infrastructure/security/crypto.py\<close>, \<^verbatim>\<open>cli/security.py\<close>.
  \<^item> \<open>Storage\<close>, \<open>Evidence\<close>: \<^verbatim>\<open>domain/storage.py\<close>, \<^verbatim>\<open>infrastructure/storage/local.py\<close> and its router;
    \<^verbatim>\<open>evidence/service.py\<close> and its router. The locale \<open>object_store\<close> is the contract of the port
    \<^verbatim>\<open>ObjectStorage\<close>; the files of the local storage interpret it.
  \<^item> \<open>Privacy\<close>, \<open>PrivacyProcessor\<close>, \<open>Erasure\<close>, \<open>PrivacyLife\<close>: \<^verbatim>\<open>domain/privacy.py\<close>, \<^verbatim>\<open>privacy/service.py\<close>,
    \<^verbatim>\<open>privacy/processor.py\<close> and the router; the last two hold the proofs.
  \<^item> \<open>RetryQueue\<close>, \<open>Lifecycle\<close>: two locales used across components. \<open>retry_queue\<close> (an attempt is counted, the
    row waits or dies at a maximum) is interpreted by the outbox, webhooks, mail and privacy requests;
    \<open>lifecycle\<close> (a status moves along arrows, a settled row never changes) by mail, coaching actions,
    invitations, evidence, privacy requests, API clients, keys and webhook secrets.
\<close>

subsection \<open>What is shown\<close>

text \<open>
  \<^item> Invariants along any sequence of requests: table constraints and tenant references of the fleet, one
    active trip per vehicle with exact counts, one open session per family, at most one active coaching
    action per event and one active privacy request per subject and kind.
  \<^item> Exactly-once processing: ingesting a batch twice stores nothing new, an accepted event is processed
    once, a worker batch settles every claimed row, hits within the window are merged and counted.
  \<^item> Security: a reused refresh token that is no retry closes its family for ever, the password alone opens
    nothing under two factors, an accepted code stays worthless, the wrong passwords compared with an
    account's are bounded (for requests one after another), a token opens exactly what the database grants at
    that moment, a signed link and an API key grant exactly what they were issued for, owners stay owners,
    a shown webhook secret keeps signing through every re-encryption, and a URL that passes the guard leads to
    none of the listed internal ranges.
  \<^item> Retries: dead letters at exactly the last attempt, bounded delays, and a webhook batch that settles
    every due row. One stored URL is enough to end every worker that takes up its delivery, one position in a month without
    partition to stop the scheduler.
  \<^item> Analytics: the driver score is bounded and monotone in spite of rounding, clusters lose no point, a usage
    snapshot refines the update of a finite map.
  \<^item> Erasure, retention and key rotation: what is gone afterwards and what stays. An erasure clears the columns
    that \<open>driver_forgotten\<close> and \<open>user_left\<close> list and no others; the texts name what it does not reach.
  \<^item> Flaws: where a comment or a test promises more than the code does, the theorem states the behaviour of
    the code, with a concrete run as its witness.

  Every theorem with a hypothesis is followed by a closed witness that applies it to concrete tables.
\<close>

subsection \<open>Bounds and parameters\<close>

text \<open>
  Nothing runs on fuel: loops over batches are folds or structural recursion on the claimed rows, and the
  loops that end by a bound of the code (purge batches) recurse on that bound. Code that is not part of the
  repository is a parameter: SHA-256, password hashes, RS256 and the JWT codec, Fernet, HMAC, JSON, TOTP,
  libm, pydantic's coercions, SMTP, name resolution and the HTTP client. What is assumed of it is a named predicate (\<open>jwt_ok\<close>,
  \<open>json_ok\<close>, \<open>fernet_ok\<close>, \<open>libm_ok\<close>) that states documented behaviour, and each has an instance.
\<close>

subsection \<open>Not modelled\<close>

text \<open>
  Generated migrations, process start-up, logging and metrics, the S3 and SMTP clients, live signals, the
  PDF and mail texts and the demonstration data have no logic beyond calls of libraries. Of the routers
  the guards and state changes are modelled where a theory above names them; response bodies
  are left out. Turkish texts are ASCII tags. \<^verbatim>\<open>updated_at\<close> and the free-form audit data are left out.
\<close>

end
